(* ===== verification/Prelude.thy ===== *)
theory Prelude
  imports Complex_Main "HOL-Library.AList" "HOL-Library.Word" "HOL-Library.Char_ord"
    "HOL-Library.List_Lexorder" "HOL-Library.Signed_Division" "HOL-Library.Multiset"
begin

text \<open>
  Shared vocabulary of the development.

  \<^item> Go maps are association lists with distinct keys (\<open>gomap\<close>). The list order is the order
    in which a \<^verbatim>\<open>range\<close> loop visits the entries; Go leaves that order open, so a lemma about an
    arbitrary list with distinct keys covers every order. Assignment is \<open>AList.update\<close>,
    \<^verbatim>\<open>delete\<close> is \<open>AList.delete\<close>, and reading a missing string entry gives the empty string
    (\<open>get_str\<close>).
  \<^item> Go's \<^verbatim>\<open>int64\<close> and \<^verbatim>\<open>uint64\<close> are \<open>64 word\<close>; signed division truncates and wraps.
  \<^item> Times and durations are integers in nanoseconds.
  \<^item> An operation that can return an error or panic has a sum type with \<open>go_error\<close> on the left.
\<close>

named_theorems gomap_simps "rewrite rules for Go maps as association lists"
named_theorems wf_intros "preservation of well-formedness"

type_synonym ('k, 'v) gomap = "('k \<times> 'v) list"
type_synonym strmap = "(string, string) gomap"
type_synonym int64 = "64 word"
type_synonym duration = int
type_synonym time = int

datatype go_error = Errorf string | GoPanic string

type_synonym 'a go_result = "go_error + 'a"

section \<open>Go maps\<close>

abbreviation wf_map :: "('k, 'v) gomap \<Rightarrow> bool" where
  "wf_map m \<equiv> distinct (map fst m)"

abbreviation gput :: "'k \<Rightarrow> 'v \<Rightarrow> ('k, 'v) gomap \<Rightarrow> ('k, 'v) gomap" where
  "gput \<equiv> AList.update"

abbreviation gdel :: "'k \<Rightarrow> ('k, 'v) gomap \<Rightarrow> ('k, 'v) gomap" where
  "gdel \<equiv> AList.delete"

text \<open>\<^verbatim>\<open>m[k]\<close> on a map of strings: the zero value for a missing key.\<close>

definition get_str :: "strmap \<Rightarrow> string \<Rightarrow> string" where
  "get_str m k = (case map_of m k of None \<Rightarrow> [] | Some v \<Rightarrow> v)"

text \<open>The loop \<^verbatim>\<open>for k, v := range src { dst[k] = v }\<close>.\<close>

definition put_all :: "('k, 'v) gomap \<Rightarrow> ('k, 'v) gomap \<Rightarrow> ('k, 'v) gomap" where
  "put_all src dst = fold (\<lambda>(k, v) m. gput k v m) src dst"

text \<open>
  The loop that deletes the current key when a condition holds, and the names it removed in
  visiting order.
\<close>

fun delete_where :: "('k \<Rightarrow> 'v \<Rightarrow> bool) \<Rightarrow> ('k, 'v) gomap \<Rightarrow> ('k, 'v) gomap \<Rightarrow> 'k list \<times> ('k, 'v) gomap" where
  "delete_where p [] m = ([], m)"
| "delete_where p ((k, v) # rest) m =
     (if p k v then (let (ks, m') = delete_where p rest (gdel k m) in (k # ks, m'))
      else delete_where p rest m)"

lemma map_of_gput [simp, gomap_simps]: "map_of (gput k v m) = (map_of m)(k \<mapsto> v)"
  by (rule update_conv')

lemma map_of_gdel [simp, gomap_simps]: "map_of (gdel k m) = (map_of m)(k := None)"
  by (rule delete_conv')

lemma wf_gput [simp, wf_intros]: "wf_map m \<Longrightarrow> wf_map (gput k v m)"
  by (rule distinct_update)

lemma wf_gdel [simp, wf_intros]: "wf_map m \<Longrightarrow> wf_map (gdel k m)"
  by (rule distinct_delete)

lemma get_str_gput [simp, gomap_simps]:
  "get_str (gput k v m) k' = (if k' = k then v else get_str m k')"
  by (simp add: get_str_def)

lemma get_str_gdel [simp, gomap_simps]:
  "get_str (gdel k m) k' = (if k' = k then [] else get_str m k')"
  by (simp add: get_str_def)

lemma keys_gput: "fst ` set (gput k v m) = insert k (fst ` set m)"
  by (simp add: dom_update)

lemma set_gput: "set (gput k v m) \<subseteq> insert (k, v) (set m)"
  by (induction m) auto

lemma gput_mem: "k \<in> fst ` set m \<Longrightarrow> map fst (gput k v m) = map fst m"
  by (induction m) auto

text \<open>Assigning an entry changes a sum over the values by the difference.\<close>

lemma sum_gput:
  fixes f :: "'v \<Rightarrow> 'a::ab_group_add"
  shows "sum_list (map (\<lambda>(_, v). f v) (gput k v m)) =
     sum_list (map (\<lambda>(_, v). f v) m) - (case map_of m k of None \<Rightarrow> 0 | Some x \<Rightarrow> f x) + f v"
proof (induction m)
  case (Cons y m)
  obtain a b where "y = (a, b)" by (cases y)
  with Cons show ?case by (simp add: algebra_simps)
qed simp

lemma put_all_Nil [simp]: "put_all [] dst = dst"
  by (simp add: put_all_def)

lemma put_all_Cons [simp]: "put_all ((k, v) # src) dst = put_all src (gput k v dst)"
  by (simp add: put_all_def)

lemma wf_put_all [simp, wf_intros]: "wf_map dst \<Longrightarrow> wf_map (put_all src dst)"
proof (induction src arbitrary: dst)
  case (Cons kv src)
  then show ?case by (cases kv) simp
qed simp

text \<open>Copying a map over another: the source wins, everything else of the target stays.\<close>

lemma map_of_put_all:
  "wf_map src \<Longrightarrow> map_of (put_all src dst) = map_of dst ++ map_of src"
proof (induction src arbitrary: dst)
  case (Cons kv src)
  obtain k v where kv: "kv = (k, v)" by (cases kv)
  with Cons.prems have "k \<notin> fst ` set src" by (auto simp: image_iff)
  then have "map_of src k = None" by (simp add: map_of_eq_None_iff)
  then have "(map_of dst)(k \<mapsto> v) ++ map_of src = map_of dst ++ (map_of src)(k \<mapsto> v)"
    by (auto simp: map_add_def fun_eq_iff split: option.splits)
  with Cons kv show ?case by (simp flip: fun_upd_apply)
qed simp

lemma map_of_put_all_rev: "map_of (put_all src dst) = map_of dst ++ map_of (rev src)"
proof (induction src arbitrary: dst)
  case (Cons kv src)
  obtain k v where "kv = (k, v)" by (cases kv)
  then show ?case
    by (auto simp: Cons map_add_def fun_eq_iff map_of_append split: option.splits)
qed simp

lemma keys_put_all: "fst ` set (put_all src dst) = fst ` set src \<union> fst ` set dst"
proof (induction src arbitrary: dst)
  case (Cons kv src)
  obtain k v where "kv = (k, v)" by (cases kv)
  then show ?case by (simp add: Cons keys_gput)
qed simp

text \<open>Deleting while ranging over the map's own entries is filtering it.\<close>

lemma delete_where_gen:
  "wf_map xs \<Longrightarrow> delete_where p xs m =
     (map fst (filter (\<lambda>(k, v). p k v) xs),
      filter (\<lambda>(k, _). k \<notin> fst ` set (filter (\<lambda>(k, v). p k v) xs)) m)"
proof (induction xs arbitrary: m)
  case (Cons x xs)
  obtain k v where x: "x = (k, v)" by (cases x)
  have "filter Q (gdel k m) = filter (\<lambda>y. k \<noteq> fst y \<and> Q y) m" for Q
    by (simp add: AList.delete_eq case_prod_unfold conj_commute)
  with Cons x show ?case
    by (simp add: case_prod_unfold eq_commute [of k])
qed (simp add: case_prod_unfold)

lemma delete_where_filter:
  assumes "wf_map m"
  shows "delete_where p m m = (map fst (filter (\<lambda>(k, v). p k v) m), filter (\<lambda>(k, v). \<not> p k v) m)"
proof -
  have "k \<notin> fst ` set (filter (\<lambda>(k, v). p k v) m) \<longleftrightarrow> \<not> p k v" if "(k, v) \<in> set m" for k v
    using assms that by (auto simp: image_iff dest: eq_key_imp_eq_value)
  then show ?thesis
    by (simp add: delete_where_gen assms) (auto intro!: filter_cong)
qed

lemma delete_where_key:
  "snd (delete_where (\<lambda>k _. q k) xs m) = filter (\<lambda>(k, _). \<not> (q k \<and> k \<in> fst ` set xs)) m"
proof (induction xs arbitrary: m)
  case (Cons x xs)
  obtain k v where x: "x = (k, v)" by (cases x)
  have "snd (delete_where (\<lambda>k _. q k) (x # xs) m) =
          snd (delete_where (\<lambda>k _. q k) xs (if q k then gdel k m else m))"
    by (simp add: x case_prod_unfold Let_def)
  also have "\<dots> = filter (\<lambda>(k, _). \<not> (q k \<and> k \<in> fst ` set xs)) (if q k then gdel k m else m)"
    by (rule Cons)
  also have "\<dots> = filter (\<lambda>(k', _). \<not> (q k' \<and> k' \<in> fst ` set (x # xs))) m"
    by (auto simp: x AList.delete_eq case_prod_unfold intro!: filter_cong)
  finally show ?case .
qed simp

lemma delete_where_keys_own: "snd (delete_where (\<lambda>k _. q k) m m) = filter (\<lambda>(k, _). \<not> q k) m"
  unfolding delete_where_key by (rule filter_cong) force+

lemma wf_filter [simp, wf_intros]: "wf_map m \<Longrightarrow> wf_map (filter P m)"
  by (rule distinct_map_filter)

lemma map_of_filter_key:
  "map_of (filter (\<lambda>(k, v). P k) m) k = (if P k then map_of m k else None)"
  by (induction m) auto

lemma map_of_filter_wf:
  "wf_map m \<Longrightarrow> map_of (filter (\<lambda>(k, v). P k v) m) k =
     (case map_of m k of None \<Rightarrow> None | Some v \<Rightarrow> if P k v then Some v else None)"
proof (induction m)
  case (Cons x m)
  obtain a b where x: "x = (a, b)" by (cases x)
  with Cons.prems have "a \<notin> fst ` set m" by auto
  then have "map_of m a = None" by (simp add: map_of_eq_None_iff)
  with Cons x show ?case by (auto split: option.splits)
qed simp

section \<open>Machine integers\<close>

text \<open>\<^verbatim>\<open>a / b\<close> on \<^verbatim>\<open>int64\<close>: truncation towards zero, wrap-around on overflow, panic on zero.\<close>

definition div64 :: "int64 \<Rightarrow> int64 \<Rightarrow> int64 go_result" where
  "div64 a b = (if b = 0 then Inl (GoPanic ''integer divide by zero'')
                else Inr (word_of_int (sint a sdiv sint b)))"

text \<open>\<^verbatim>\<open>time.Time.UnixNano\<close>: the nanoseconds since the epoch, wrapped to 64 bits.\<close>

definition UnixNano :: "time \<Rightarrow> int64" where
  "UnixNano t = word_of_int t"

lemma sint_word_of_int_64: "- (2 ^ 63) \<le> i \<Longrightarrow> i < 2 ^ 63 \<Longrightarrow> sint (word_of_int i :: int64) = i"
  by (simp add: sint_sbintrunc' signed_take_bit_int_eq_self)

section \<open>Strings and slices\<close>

text \<open>\<^verbatim>\<open>%d\<close> of a non-negative integer.\<close>

fun show_nat :: "nat \<Rightarrow> string" where
  "show_nat n = (if n < 10 then [char_of (48 + n)] else show_nat (n div 10) @ [char_of (48 + n mod 10)])"

declare show_nat.simps [simp del]

text \<open>\<^verbatim>\<open>copy(dst, src)\<close> on slices: the first \<open>min\<close> of the two lengths elements are overwritten.\<close>

definition go_copy :: "'a list \<Rightarrow> 'a list \<Rightarrow> 'a list" where
  "go_copy dst src = take (length dst) src @ drop (length src) dst"

lemma length_go_copy [simp]: "length (go_copy dst src) = length dst"
  by (simp add: go_copy_def)

lemma go_copy_fresh [simp]: "length dst = length src \<Longrightarrow> go_copy dst src = src"
  by (simp add: go_copy_def)

text \<open>Splitting at a separator that does not occur in the first component is unique.\<close>

lemma append_sep_inject:
  "c \<notin> set xs \<Longrightarrow> c \<notin> set xs' \<Longrightarrow> xs @ c # ys = xs' @ c # ys' \<longleftrightarrow> xs = xs' \<and> ys = ys'"
  by (auto simp: append_eq_append_conv2 append_eq_Cons_conv Cons_eq_append_conv)

text \<open>A search whose matches agree under \<open>f\<close> does not depend on the order of the list.\<close>

lemma find_SomeD: "find P xs = Some x \<Longrightarrow> x \<in> set xs \<and> P x"
  by (auto simp: find_Some_iff)

lemma find_unique:
  assumes agree: "\<And>x y. x \<in> set xs \<Longrightarrow> y \<in> set xs \<Longrightarrow> P x \<Longrightarrow> P y \<Longrightarrow> f x = f y"
    and sets: "set xs = set ys"
  shows "map_option f (find P xs) = map_option f (find P ys)"
proof (cases "find P xs")
  case None
  then have "find P ys = None" by (simp add: find_None_iff sets)
  with None show ?thesis by simp
next
  case (Some x)
  note x = find_SomeD [OF this]
  then have "find P ys \<noteq> None" unfolding find_None_iff sets by blast
  then obtain y where y: "find P ys = Some y" by blast
  have "f x = f y" using x find_SomeD [OF y] sets by (intro agree) simp_all
  then show ?thesis using Some y by simp
qed

end
