(* ===== verification/Float64.thy ===== *)
theory Float64
  imports Prelude "HOL-Library.Log_Nat"
begin

text \<open>
  Go's \<^verbatim>\<open>float64\<close> (IEEE 754 binary64) with round to nearest, ties to even: a finite value is an
  exact rational, and every operation computes the rational result and rounds it to 53 bits
  (fewer for subnormals), with overflow to an infinity. The two zeros are one value: the sources
  never divide by a computed zero and compare and index by \<^verbatim>\<open>==\<close>, which does not tell them apart.
\<close>

datatype f64 = NaN | PInf | NInf | Fin rat

section \<open>Rounding\<close>

definition round_even :: "rat \<Rightarrow> int" where
  "round_even x = (let f = \<lfloor>x\<rfloor>; d = x - of_int f in
     if d < 1 / 2 then f else if 1 / 2 < d then f + 1 else if even f then f else f + 1)"

text \<open>The exponent of the leading bit of a positive rational.\<close>

definition ilog2 :: "rat \<Rightarrow> int" where
  "ilog2 x = (let (p, q) = quotient_of x;
                  e = int (floorlog 2 (nat p)) - int (floorlog 2 (nat q))
              in if 2 powi e \<le> x then e else e - 1)"

definition ulp :: "rat \<Rightarrow> rat" where
  "ulp x = 2 powi (max (ilog2 x) (- 1022) - 52)"

definition round_pos :: "rat \<Rightarrow> rat" where
  "round_pos x = of_int (round_even (x / ulp x)) * ulp x"

definition rndq :: "rat \<Rightarrow> rat" where
  "rndq x = (if x = 0 then 0 else if 0 < x then round_pos x else - round_pos (- x))"

definition rnd :: "rat \<Rightarrow> f64" where
  "rnd x = (let r = rndq x in if 2 ^ 1024 \<le> r then PInf else if r \<le> - (2 ^ 1024) then NInf else Fin r)"

lemma round_even_bounds: "\<lfloor>x\<rfloor> \<le> round_even x" "round_even x \<le> \<lfloor>x\<rfloor> + 1"
  by (simp_all add: round_even_def Let_def)

lemma round_even_of_int [simp]: "round_even (of_int n) = n"
  by (simp add: round_even_def)

lemma round_even_mono:
  assumes "x \<le> y"
  shows "round_even x \<le> round_even y"
proof (cases "\<lfloor>x\<rfloor> = \<lfloor>y\<rfloor>")
  case True
  with assms show ?thesis by (auto simp: round_even_def Let_def)
next
  case False
  with floor_mono [OF assms] have "\<lfloor>x\<rfloor> + 1 \<le> \<lfloor>y\<rfloor>" by simp
  with round_even_bounds [of x] round_even_bounds [of y] show ?thesis by linarith
qed

lemma floorlog_bounds_rat:
  assumes "0 < n"
  shows "(2::rat) powi (int (floorlog 2 (nat n)) - 1) \<le> of_int n"
    and "of_int n < (2::rat) powi int (floorlog 2 (nat n))"
proof -
  let ?l = "floorlog 2 (nat n)"
  have b: "2 ^ (?l - 1) \<le> nat n" "nat n < 2 ^ ?l"
    using floorlog_bounds [of "nat n" 2] assms by auto
  have l: "0 < ?l" using assms by (simp add: floorlog_eq_zero_iff zero_less_iff_neq_zero)
  from b(1) assms have "(2::int) ^ (?l - 1) \<le> n" by (simp add: le_nat_iff)
  then have "(of_int (2 ^ (?l - 1)) :: rat) \<le> of_int n" by (simp only: of_int_le_iff)
  moreover have "int ?l - 1 = int (?l - 1)" using l by simp
  ultimately show "(2::rat) powi (int ?l - 1) \<le> of_int n"
    by (simp only: power_int_of_nat) simp
  from b(2) assms have "n < (2::int) ^ ?l" by (simp add: nat_less_iff)
  then have "(of_int n :: rat) < of_int (2 ^ ?l)" by (simp only: of_int_less_iff)
  then show "of_int n < (2::rat) powi int ?l" by simp
qed

lemma ilog2_bounds:
  assumes "0 < x"
  shows "2 powi ilog2 x \<le> x" "x < 2 powi (ilog2 x + 1)"
proof -
  obtain p q where pq: "quotient_of x = (p, q)" by (cases "quotient_of x")
  have q: "0 < q" by (rule quotient_of_denom_pos [OF pq])
  have x: "x = of_int p / of_int q" by (rule quotient_of_div [OF pq])
  with assms q have p: "0 < p" by (simp add: zero_less_divide_iff)
  define a where "a = int (floorlog 2 (nat p))"
  define b where "b = int (floorlog 2 (nat q))"
  have pa: "2 powi (a - 1) \<le> (of_int p :: rat)" "of_int p < (2::rat) powi a"
    unfolding a_def by (rule floorlog_bounds_rat [OF p])+
  have qb: "2 powi (b - 1) \<le> (of_int q :: rat)" "of_int q < (2::rat) powi b"
    unfolding b_def by (rule floorlog_bounds_rat [OF q])+
  have "2 powi (a - b - 1) = (2 powi (a - 1)) / (2::rat) powi b"
    by (simp add: power_int_diff [symmetric] algebra_simps)
  also have "\<dots> \<le> of_int p / of_int q"
    using pa qb p q by (intro frac_le) auto
  finally have lo: "2 powi (a - b - 1) \<le> x" by (simp add: x)
  have "of_int p / of_int q < (2 powi a) / (2::rat) powi (b - 1)"
    using pa qb p by (intro frac_less) auto
  also have "\<dots> = 2 powi (a - b + 1)"
    by (simp add: power_int_diff [symmetric] algebra_simps)
  finally have hi: "x < 2 powi (a - b + 1)" by (simp add: x)
  have e: "ilog2 x = (if 2 powi (a - b) \<le> x then a - b else a - b - 1)"
    by (simp add: ilog2_def pq a_def b_def)
  show "2 powi ilog2 x \<le> x" "x < 2 powi (ilog2 x + 1)"
    using lo hi by (auto simp: e not_le)
qed

lemma powi_less_iff [simp]: "(2::rat) powi a < 2 powi b \<longleftrightarrow> a < b"
  by (meson one_less_numeral_iff power_int_strict_increasing power_int_le_imp_le_exp
      not_less power_int_increasing one_le_numeral semiring_norm(76))

lemma ilog2_mono:
  assumes "0 < x" "x \<le> y"
  shows "ilog2 x \<le> ilog2 y"
proof -
  have "2 powi ilog2 x < (2::rat) powi (ilog2 y + 1)"
    using ilog2_bounds [of x] ilog2_bounds [of y] assms by linarith
  then show ?thesis by simp
qed

lemma ilog2_eqI: "2 powi e \<le> x \<Longrightarrow> x < 2 powi (e + 1) \<Longrightarrow> 0 < x \<Longrightarrow> ilog2 x = e"
proof -
  assume a: "2 powi e \<le> x" "x < 2 powi (e + 1)" "0 < x"
  have "2 powi e < (2::rat) powi (ilog2 x + 1)" "2 powi ilog2 x < (2::rat) powi (e + 1)"
    using ilog2_bounds [OF a(3)] a by linarith+
  then show "ilog2 x = e" by simp
qed

lemma ulp_pos [simp]: "0 < ulp x"
  by (simp add: ulp_def)

lemma round_pos_nonneg: "0 < x \<Longrightarrow> 0 \<le> round_pos x"
proof -
  assume "0 < x"
  then have "round_even 0 \<le> round_even (x / ulp x)" by (intro round_even_mono) (simp add: order.strict_implies_order)
  then have "0 \<le> round_even (x / ulp x)" using round_even_of_int [of 0] by simp
  then show ?thesis by (simp add: round_pos_def less_imp_le)
qed

text \<open>A multiple of the unit in the last place is its own rounding.\<close>

lemma round_pos_multiple: "x = of_int n * ulp x \<Longrightarrow> round_pos x = x"
proof -
  assume x: "x = of_int n * ulp x"
  have "x / ulp x = of_int n"
    by (subst x) (simp add: ulp_pos less_imp_neq [symmetric])
  then show ?thesis by (simp add: round_pos_def flip: x)
qed

lemma powi_as_int: "0 \<le> k \<Longrightarrow> (2::rat) powi k = of_int (2 ^ nat k)"
  by (simp add: power_int_def)

lemma round_pos_int:
  assumes "0 < n" "n \<le> 2 ^ 53"
  shows "round_pos (of_int n) = of_int n"
proof -
  let ?x = "of_int n :: rat"
  let ?e = "ilog2 ?x"
  have x: "0 < ?x" using assms by simp
  have "(2::rat) powi 0 < 2 powi (?e + 1)"
    using ilog2_bounds(2) [OF x] assms(1)
    by (metis (mono_tags) int_one_le_iff_zero_less of_int_1_le_iff order_le_less_trans power_int_0_right)
  then have e0: "0 \<le> ?e" by (simp only: powi_less_iff)
  consider "n < 2 ^ 53" | "n = 2 ^ 53" using assms(2) by linarith
  then show ?thesis
  proof cases
    case 1
    then have "?x < of_int (2 ^ 53)" by (simp only: of_int_less_iff)
    then have "?x < 2 powi 53" by simp
    with ilog2_bounds(1) [OF x] have "(2::rat) powi ?e < 2 powi 53" by (rule order_le_less_trans)
    then have "?e < 53" by (simp only: powi_less_iff)
    with e0 have "ulp ?x = 2 powi (- (52 - ?e))" "0 \<le> 52 - ?e" by (simp_all add: ulp_def max_def)
    then have "ulp ?x * 2 powi (52 - ?e) = 1"
      by (simp flip: power_int_add)
    then have "ulp ?x * of_int (2 ^ nat (52 - ?e)) = 1"
      using \<open>0 \<le> 52 - ?e\<close> by (simp only: powi_as_int)
    then have "?x = of_int (n * 2 ^ nat (52 - ?e)) * ulp ?x"
      by (simp add: mult.assoc mult.commute [of "ulp ?x"])
    then show ?thesis by (rule round_pos_multiple)
  next
    case 2
    then have x53: "?x = 2 powi 53" by simp
    then have "?e = 53" using x by (intro ilog2_eqI) simp_all
    then have "ulp ?x = 2 powi 1" by (simp add: ulp_def)
    then have "?x = of_int (2 ^ 52) * ulp ?x" using 2 by simp
    then show ?thesis by (rule round_pos_multiple)
  qed
qed

lemma round_pos_mono:
  assumes "0 < x" "x \<le> y"
  shows "round_pos x \<le> round_pos y"
proof -
  let ?ex = "max (ilog2 x) (- 1022)" and ?ey = "max (ilog2 y) (- 1022)"
  have y: "0 < y" using assms by simp
  have le: "?ex \<le> ?ey" using ilog2_mono [OF assms] by simp
  show ?thesis
  proof (cases "?ex = ?ey")
    case True
    then have u: "ulp x = ulp y" by (simp add: ulp_def)
    have "x / ulp y \<le> y / ulp y" using assms(2) by (rule divide_right_mono) (simp add: less_imp_le)
    then show ?thesis by (simp add: round_pos_def u round_even_mono mult_right_mono)
  next
    case False
    with le have lt: "?ex < ?ey" and ey: "?ey = ilog2 y" by auto
    have ux: "of_int (2 ^ 53) * ulp x = 2 powi (?ex + 1)"
      by (simp add: ulp_def power_int_add power_int_diff)
    have "x < 2 powi (?ex + 1)"
      using ilog2_bounds(2) [OF assms(1)] by (rule order_less_le_trans) (simp add: power_int_increasing)
    then have "x / ulp x \<le> of_int (2 ^ 53)"
      by (simp add: divide_le_eq less_imp_le flip: ux)
    then have "round_even (x / ulp x) \<le> 2 ^ 53"
      using round_even_mono round_even_of_int by metis
    then have "of_int (round_even (x / ulp x)) \<le> (of_int (2 ^ 53) :: rat)"
      by (simp only: of_int_le_iff)
    then have "round_pos x \<le> of_int (2 ^ 53) * ulp x"
      unfolding round_pos_def by (rule mult_right_mono) (simp add: less_imp_le)
    then have hx: "round_pos x \<le> 2 powi (?ex + 1)" by (simp only: ux)
    have uy: "of_int (2 ^ 52) * ulp y = 2 powi ?ey"
      by (simp add: ulp_def power_int_diff)
    have "2 powi ?ey \<le> y" using ilog2_bounds(1) [OF y] ey by simp
    then have "of_int (2 ^ 52) \<le> y / ulp y"
      by (simp add: le_divide_eq flip: uy)
    then have "2 ^ 52 \<le> round_even (y / ulp y)"
      using round_even_mono round_even_of_int by metis
    then have "(of_int (2 ^ 52) :: rat) \<le> of_int (round_even (y / ulp y))"
      by (simp only: of_int_le_iff)
    then have "of_int (2 ^ 52) * ulp y \<le> round_pos y"
      unfolding round_pos_def by (rule mult_right_mono) (simp add: less_imp_le)
    then have hy: "2 powi ?ey \<le> round_pos y" by (simp only: uy)
    have "(2::rat) powi (?ex + 1) \<le> 2 powi ?ey" using lt by (intro power_int_increasing) linarith+
    with hx hy show ?thesis by linarith
  qed
qed

lemma rndq_0 [simp]: "rndq 0 = 0"
  by (simp add: rndq_def)

lemma rndq_minus: "rndq (- x) = - rndq x"
  by (simp add: rndq_def)

lemma rndq_nonneg: "0 \<le> x \<Longrightarrow> 0 \<le> rndq x"
  by (auto simp: rndq_def round_pos_nonneg)

lemma rndq_mono: "x \<le> y \<Longrightarrow> rndq x \<le> rndq y"
proof -
  assume xy: "x \<le> y"
  have pos: "rndq a \<le> rndq b" if "0 \<le> a" "a \<le> b" for a b
    using that round_pos_mono [of a b] rndq_nonneg [of b] by (auto simp: rndq_def)
  consider "0 \<le> x" | "x < 0" "0 \<le> y" | "y < 0" by linarith
  then show ?thesis
  proof cases
    case 1
    then show ?thesis using pos xy by simp
  next
    case 2
    then show ?thesis using rndq_nonneg [of "- x"] rndq_nonneg [of y] by (simp add: rndq_minus)
  next
    case 3
    then show ?thesis using pos [of "- y" "- x"] xy by (simp add: rndq_minus)
  qed
qed

lemma rndq_of_int: "\<bar>n\<bar> \<le> 2 ^ 53 \<Longrightarrow> rndq (of_int n) = of_int n"
  using round_pos_int [of n] round_pos_int [of "- n"] by (auto simp: rndq_def)


lemma powi_less_iff_le [simp]: "(2::rat) powi a \<le> 2 powi b \<longleftrightarrow> a \<le> b"
  by (simp add: not_less [symmetric])

text \<open>Rounding is exact on integers below \<open>2 ^ 53\<close> and never leaves the range of its bounds.\<close>

lemma rnd_of_int [simp]: "\<bar>n\<bar> \<le> 2 ^ 53 \<Longrightarrow> rnd (of_int n) = Fin (of_int n)"
proof -
  assume n: "\<bar>n\<bar> \<le> 2 ^ 53"
  have "(2::int) ^ 53 < 2 ^ 1024" by (rule power_strict_increasing) simp_all
  with n have "n < 2 ^ 1024" "- (2 ^ 1024) < n" by linarith+
  then have "(of_int n :: rat) < of_int (2 ^ 1024)" "of_int (- (2 ^ 1024)) < (of_int n :: rat)"
    by (simp_all only: of_int_less_iff)
  then show ?thesis using rndq_of_int [OF n] by (simp add: rnd_def Let_def)
qed

lemma rnd_between:
  assumes "of_int a \<le> x" "x \<le> of_int b" "\<bar>a\<bar> \<le> 2 ^ 53" "\<bar>b\<bar> \<le> 2 ^ 53"
  shows "rnd x = Fin (rndq x)" "of_int a \<le> rndq x" "rndq x \<le> of_int b"
proof -
  have ab: "of_int a \<le> rndq x" "rndq x \<le> of_int b"
    using rndq_mono [OF assms(1)] rndq_mono [OF assms(2)]
    by (simp_all only: rndq_of_int [OF assms(3)] rndq_of_int [OF assms(4)])
  have "(2::int) ^ 53 < 2 ^ 1024" by (rule power_strict_increasing) simp_all
  with assms have "b < 2 ^ 1024" "- (2 ^ 1024) < a" by linarith+
  then have "(of_int b :: rat) < of_int (2 ^ 1024)" "of_int (- (2 ^ 1024)) < (of_int a :: rat)"
    by (simp_all only: of_int_less_iff)
  with ab have "rndq x < 2 ^ 1024" "- (2 ^ 1024) < rndq x" by simp_all
  then show "rnd x = Fin (rndq x)" by (simp add: rnd_def Let_def)
  show "of_int a \<le> rndq x" "rndq x \<le> of_int b" by (fact ab)+
qed

text \<open>Evaluation of the rounding on literals.\<close>

lemma rnd_numeral [simp]:
  "(numeral n :: int) \<le> 2 ^ 53 \<Longrightarrow> rnd (numeral n) = Fin (numeral n)"
  "(numeral n :: int) \<le> 2 ^ 53 \<Longrightarrow> rnd (- numeral n) = Fin (- numeral n)"
  using rnd_of_int [of "numeral n"] rnd_of_int [of "- numeral n"] by simp_all

lemma rnd_0_1 [simp]: "rnd 0 = Fin 0" "rnd 1 = Fin 1" "rnd (- 1) = Fin (- 1)"
  using rnd_of_int [of 0] rnd_of_int [of 1] rnd_of_int [of "- 1"] by simp_all

text \<open>Halving is exact away from the subnormal range.\<close>

lemma round_pos_half:
  assumes "0 < x" "- 1022 < ilog2 x"
  shows "round_pos (x / 2) = round_pos x / 2" "ilog2 (x / 2) = ilog2 x - 1"
proof -
  have "(2::rat) powi (ilog2 x - 1) = 2 powi ilog2 x / 2" "(2::rat) powi (ilog2 x + 1) = 2 powi ilog2 x * 2"
    by (simp_all add: power_int_diff power_int_add)
  then show half: "ilog2 (x / 2) = ilog2 x - 1"
    using ilog2_bounds [OF assms(1)] assms(1) by (intro ilog2_eqI) simp_all
  have e: "max (ilog2 x - 1) (- 1022) - 52 = (max (ilog2 x) (- 1022) - 52) - 1" using assms(2) by simp
  have u: "ulp (x / 2) = ulp x / 2"
    unfolding ulp_def half e by (simp add: power_int_diff)
  show "round_pos (x / 2) = round_pos x / 2" unfolding round_pos_def u by simp
qed

lemma rndq_int_half:
  assumes "0 < n" "n \<le> 2 ^ 53"
  shows "rndq (of_int n / 2) = of_int n / 2" "rndq (of_int n / 4) = of_int n / 4"
proof -
  have x: "0 < (of_int n :: rat)" using assms by simp
  have log: "0 \<le> ilog2 (of_int n)"
  proof -
    have "ilog2 1 \<le> ilog2 (of_int n)" using assms by (intro ilog2_mono) simp_all
    moreover have "ilog2 1 = 0" by (rule ilog2_eqI) simp_all
    ultimately show ?thesis by simp
  qed
  then have h: "round_pos (of_int n / 2) = of_int n / 2" "ilog2 (of_int n / 2) = ilog2 (of_int n) - 1"
    using round_pos_half [OF x] round_pos_int [OF assms] by simp_all
  then show "rndq (of_int n / 2) = of_int n / 2" using x by (simp add: rndq_def)
  have "round_pos (of_int n / 2 / 2) = round_pos (of_int n / 2) / 2"
    using x log h(2) by (intro round_pos_half) simp_all
  then show "rndq (of_int n / 4) = of_int n / 4" using x h by (simp add: rndq_def)
qed

section \<open>Arithmetic and comparison\<close>

fun f_neg :: "f64 \<Rightarrow> f64" where
  "f_neg NaN = NaN"
| "f_neg PInf = NInf"
| "f_neg NInf = PInf"
| "f_neg (Fin a) = Fin (- a)"

fun f_add :: "f64 \<Rightarrow> f64 \<Rightarrow> f64" where
  "f_add (Fin a) (Fin b) = rnd (a + b)"
| "f_add NaN _ = NaN"
| "f_add _ NaN = NaN"
| "f_add PInf NInf = NaN"
| "f_add NInf PInf = NaN"
| "f_add PInf _ = PInf"
| "f_add _ PInf = PInf"
| "f_add NInf _ = NInf"
| "f_add _ NInf = NInf"

definition f_sub :: "f64 \<Rightarrow> f64 \<Rightarrow> f64" where
  "f_sub a b = f_add a (f_neg b)"

definition signed_inf :: "bool \<Rightarrow> f64" where
  "signed_inf pos = (if pos then PInf else NInf)"

fun f_sign :: "f64 \<Rightarrow> rat" where
  "f_sign NaN = 0"
| "f_sign PInf = 1"
| "f_sign NInf = - 1"
| "f_sign (Fin a) = sgn a"

fun f_mul :: "f64 \<Rightarrow> f64 \<Rightarrow> f64" where
  "f_mul (Fin a) (Fin b) = rnd (a * b)"
| "f_mul NaN _ = NaN"
| "f_mul _ NaN = NaN"
| "f_mul a b = (if f_sign a * f_sign b = 0 then NaN else signed_inf (0 < f_sign a * f_sign b))"

fun f_div :: "f64 \<Rightarrow> f64 \<Rightarrow> f64" where
  "f_div (Fin a) (Fin b) = (if b = 0 then (if a = 0 then NaN else signed_inf (0 < a)) else rnd (a / b))"
| "f_div NaN _ = NaN"
| "f_div _ NaN = NaN"
| "f_div (Fin a) _ = Fin 0"
| "f_div a (Fin b) = signed_inf (if b = 0 then 0 < f_sign a else 0 < f_sign a * sgn b)"
| "f_div _ _ = NaN"

fun f_lt :: "f64 \<Rightarrow> f64 \<Rightarrow> bool" where
  "f_lt (Fin a) (Fin b) = (a < b)"
| "f_lt NaN _ = False"
| "f_lt _ NaN = False"
| "f_lt _ NInf = False"
| "f_lt PInf _ = False"
| "f_lt _ _ = True"

fun f_eq :: "f64 \<Rightarrow> f64 \<Rightarrow> bool" where
  "f_eq NaN _ = False"
| "f_eq a b = (a = b)"

definition f_le :: "f64 \<Rightarrow> f64 \<Rightarrow> bool" where
  "f_le a b = (f_lt a b \<or> f_eq a b)"

text \<open>\<^verbatim>\<open>math.Max\<close>: an infinity wins, then a NaN.\<close>

definition f_max :: "f64 \<Rightarrow> f64 \<Rightarrow> f64" where
  "f_max a b = (if a = PInf \<or> b = PInf then PInf else if a = NaN \<or> b = NaN then NaN
                else if f_lt a b then b else a)"

text \<open>\<^verbatim>\<open>math.Trunc\<close>.\<close>

definition trunc_rat :: "rat \<Rightarrow> int" where
  "trunc_rat a = (if 0 \<le> a then \<lfloor>a\<rfloor> else \<lceil>a\<rceil>)"

fun f_trunc :: "f64 \<Rightarrow> f64" where
  "f_trunc (Fin a) = Fin (of_int (trunc_rat a))"
| "f_trunc a = a"

text \<open>
  The conversions \<^verbatim>\<open>float64(i)\<close> and \<^verbatim>\<open>int(f)\<close>. Out of range the second one is left to the
  implementation; this is the result on amd64.
\<close>

definition f_of_int64 :: "int64 \<Rightarrow> f64" where
  "f_of_int64 w = rnd (of_int (sint w))"

definition f_of_uint64 :: "int64 \<Rightarrow> f64" where
  "f_of_uint64 w = rnd (of_int (uint w))"

fun int64_of_f :: "f64 \<Rightarrow> int64" where
  "int64_of_f (Fin a) = (if - (2 ^ 63) \<le> trunc_rat a \<and> trunc_rat a < 2 ^ 63
                         then word_of_int (trunc_rat a) else word_of_int (- (2 ^ 63)))"
| "int64_of_f _ = word_of_int (- (2 ^ 63))"

lemma f_of_int64_small: "\<bar>sint w\<bar> \<le> 2 ^ 53 \<Longrightarrow> f_of_int64 w = Fin (of_int (sint w))"
  by (simp only: f_of_int64_def rnd_of_int)

lemma trunc_rat_of_int [simp]: "trunc_rat (of_int n) = n"
  by (simp add: trunc_rat_def)

lemma f_lt_irrefl [simp]: "\<not> f_lt a a"
  by (cases a) simp_all

lemma f_lt_trans: "f_lt a b \<Longrightarrow> f_lt b c \<Longrightarrow> f_lt a c"
  by (cases a; cases b; cases c) simp_all

lemma f_eq_iff: "f_eq a b \<longleftrightarrow> a \<noteq> NaN \<and> a = b"
  by (cases a) simp_all

lemma f_add_0: "rndq a = a \<Longrightarrow> \<bar>a\<bar> < 2 ^ 1024 \<Longrightarrow> f_add (Fin 0) (Fin a) = Fin a"
  by (auto simp: rnd_def Let_def abs_less_iff)

end
