(* ===== verification/Metrics_Core.thy ===== *)
theory Metrics_Core
  imports Float64
begin

text \<open>
  The data model of \<^verbatim>\<open>internal/metrics\<close>: value, unit and metric types (\<^verbatim>\<open>types.go\<close>), label
  descriptors (\<^verbatim>\<open>labels.go\<close>), metric sets (\<^verbatim>\<open>set.go\<close>), resource keys (\<^verbatim>\<open>resource_key.go\<close>) and
  historical keys (\<^verbatim>\<open>historical_types.go\<close>). The lemmas show that keys of different resources
  do not collide, which the aggregators rely on, and how \<^verbatim>\<open>FindLabels\<close> resolves a metric.
\<close>

section \<open>Types\<close>

datatype mtype = Cumulative | Gauge | Delta

fun Type_String :: "mtype \<Rightarrow> string" where
  "Type_String Cumulative = ''cumulative''"
| "Type_String Gauge = ''gauge''"
| "Type_String Delta = ''delta''"

datatype munit = Count | Bytes | Milliseconds | Nanoseconds | Millicores

fun Unit_String :: "munit \<Rightarrow> string" where
  "Unit_String Bytes = ''bytes''"
| "Unit_String Milliseconds = ''ms''"
| "Unit_String Nanoseconds = ''ns''"
| "Unit_String Millicores = ''millicores''"
| "Unit_String Count = []"

text \<open>
  \<^verbatim>\<open>ValueType\<close> is an \<^verbatim>\<open>int8\<close> with two named constants; the code keeps a branch for any other
  number, so the model does too.
\<close>

datatype value_type = ValueInt64 | ValueFloat | ValueOther "8 word"

fun ValueType_String :: "value_type \<Rightarrow> string" where
  "ValueType_String ValueInt64 = ''int64''"
| "ValueType_String ValueFloat = ''double''"
| "ValueType_String (ValueOther _) = []"

record mvalue =
  IntValue :: int64
  FloatValue :: f64
  ValueType :: value_type

datatype iface = IfaceInt int64 | IfaceFloat f64 | IfaceNil

definition Value_GetValue :: "mvalue \<Rightarrow> iface" where
  "Value_GetValue v = (if ValueType v = ValueInt64 then IfaceInt (IntValue v)
                       else if ValueType v = ValueFloat then IfaceFloat (FloatValue v) else IfaceNil)"

record labeled_value =
  lvName :: string
  lvLabels :: strmap
  lvValue :: mvalue

definition LabeledValue_GetValue :: "labeled_value \<Rightarrow> iface" where
  "LabeledValue_GetValue l =
     (if ValueType (lvValue l) = ValueInt64 then IfaceInt (IntValue (lvValue l))
      else if ValueType (lvValue l) = ValueFloat then IfaceFloat (FloatValue (lvValue l)) else IfaceNil)"

text \<open>The zero \<^verbatim>\<open>time.Time\<close>, 1 January of year 1 UTC.\<close>

definition zero_time :: time where
  "zero_time = - 62135596800 * 10 ^ 9"

section \<open>Labels\<close>

record label_descriptor =
  Key :: string
  LDescription :: string

definition LabelMetricSetType :: label_descriptor where
  "LabelMetricSetType = \<lparr>Key = ''type'', LDescription = ''Type of the metrics set (container, pod, namespace, node, cluster)''\<rparr>"

abbreviation MetricSetTypeSystemContainer :: string where
  "MetricSetTypeSystemContainer \<equiv> ''sys_container''"

abbreviation MetricSetTypePodContainer :: string where
  "MetricSetTypePodContainer \<equiv> ''pod_container''"

abbreviation MetricSetTypePod :: string where
  "MetricSetTypePod \<equiv> ''pod''"

abbreviation MetricSetTypeNamespace :: string where
  "MetricSetTypeNamespace \<equiv> ''ns''"

abbreviation MetricSetTypeNode :: string where
  "MetricSetTypeNode \<equiv> ''node''"

abbreviation MetricSetTypeCluster :: string where
  "MetricSetTypeCluster \<equiv> ''cluster''"

definition LabelCluster :: label_descriptor where
  "LabelCluster = \<lparr>Key = ''cluster'', LDescription = ''The name of the kubernetes cluster''\<rparr>"

definition LabelPodId :: label_descriptor where
  "LabelPodId = \<lparr>Key = ''pod_id'', LDescription = ''The unique ID of the pod''\<rparr>"

definition LabelPodName :: label_descriptor where
  "LabelPodName = \<lparr>Key = ''pod_name'', LDescription = ''The name of the pod''\<rparr>"

definition LabelNamespaceName :: label_descriptor where
  "LabelNamespaceName = \<lparr>Key = ''namespace_name'', LDescription = ''The name of the namespace''\<rparr>"

definition LabelPodNamespaceUID :: label_descriptor where
  "LabelPodNamespaceUID = \<lparr>Key = ''namespace_id'', LDescription = ''The UID of namespace of the pod''\<rparr>"

definition LabelContainerName :: label_descriptor where
  "LabelContainerName = \<lparr>Key = ''container_name'', LDescription = ''User-provided name of the container or full container name for system containers''\<rparr>"

definition LabelLabels :: label_descriptor where
  "LabelLabels = \<lparr>Key = ''labels'', LDescription = ''Comma-separated list of user-provided labels''\<rparr>"

definition LabelNodename :: label_descriptor where
  "LabelNodename = \<lparr>Key = ''nodename'', LDescription = ''nodename where the container ran''\<rparr>"

definition LabelNodeRole :: label_descriptor where
  "LabelNodeRole = \<lparr>Key = ''node_role'', LDescription = ''Node role worker or control-plane''\<rparr>"

definition LabelHostname :: label_descriptor where
  "LabelHostname = \<lparr>Key = ''hostname'', LDescription = ''Hostname where the container ran''\<rparr>"

definition LabelResourceID :: label_descriptor where
  "LabelResourceID = \<lparr>Key = ''resource_id'', LDescription = ''Identifier(s) specific to a metric''\<rparr>"

definition LabelHostID :: label_descriptor where
  "LabelHostID = \<lparr>Key = ''host_id'', LDescription = ''Identifier specific to a host. Set by cloud provider or user''\<rparr>"

definition LabelContainerBaseImage :: label_descriptor where
  "LabelContainerBaseImage = \<lparr>Key = ''container_base_image'', LDescription = ''User-defined image name that is run inside the container''\<rparr>"

definition LabelCustomMetricName :: label_descriptor where
  "LabelCustomMetricName = \<lparr>Key = ''custom_metric_name'', LDescription = ''User-defined name of the exported custom metric''\<rparr>"

definition LabelGCEResourceID :: label_descriptor where
  "LabelGCEResourceID = \<lparr>Key = ''resource_id'', LDescription = ''Resource id for nodes specific for GCE.''\<rparr>"

definition LabelGCEResourceType :: label_descriptor where
  "LabelGCEResourceType = \<lparr>Key = ''resource_type'', LDescription = ''Resource types for nodes specific for GCE.''\<rparr>"

definition LabelNodeSchedulable :: label_descriptor where
  "LabelNodeSchedulable = \<lparr>Key = ''schedulable'', LDescription = ''Node schedulable status.''\<rparr>"

definition LabelVolumeName :: label_descriptor where
  "LabelVolumeName = \<lparr>Key = ''volume_name'', LDescription = ''The name of the volume.''\<rparr>"

definition LabelAcceleratorMake :: label_descriptor where
  "LabelAcceleratorMake = \<lparr>Key = ''make'', LDescription = ''Make of the accelerator (nvidia, amd, google etc.)''\<rparr>"

definition LabelAcceleratorModel :: label_descriptor where
  "LabelAcceleratorModel = \<lparr>Key = ''model'', LDescription = ''Model of the accelerator (tesla-p100, tesla-k80 etc.)''\<rparr>"

definition LabelAcceleratorID :: label_descriptor where
  "LabelAcceleratorID = \<lparr>Key = ''accelerator_id'', LDescription = ''ID of the accelerator''\<rparr>"

definition commonLabels :: "label_descriptor list" where
  "commonLabels = [LabelNodename, LabelHostname, LabelHostID]"

definition containerLabels :: "label_descriptor list" where
  "containerLabels = [LabelContainerName, LabelContainerBaseImage]"

definition podLabels :: "label_descriptor list" where
  "podLabels = [LabelPodName, LabelPodId, LabelPodNamespaceUID, LabelLabels]"

definition metricLabels :: "label_descriptor list" where
  "metricLabels = [LabelResourceID]"

definition customMetricLabels :: "label_descriptor list" where
  "customMetricLabels = [LabelCustomMetricName]"

definition acceleratorLabels :: "label_descriptor list" where
  "acceleratorLabels = [LabelAcceleratorMake, LabelAcceleratorModel, LabelAcceleratorID]"

definition gcmLabels :: "label_descriptor list" where
  "gcmLabels = [LabelMetricSetType, LabelPodName, LabelNamespaceName, LabelHostname, LabelHostID, LabelContainerName, LabelContainerBaseImage, LabelCustomMetricName, LabelResourceID]"

definition gcmNodeAutoscalingLabels :: "label_descriptor list" where
  "gcmNodeAutoscalingLabels = [LabelGCEResourceID, LabelGCEResourceType, LabelHostname]"

lemma label_keys [simp]:
  "Key LabelMetricSetType = ''type''"
  "Key LabelCluster = ''cluster''"
  "Key LabelPodId = ''pod_id''"
  "Key LabelPodName = ''pod_name''"
  "Key LabelNamespaceName = ''namespace_name''"
  "Key LabelPodNamespaceUID = ''namespace_id''"
  "Key LabelContainerName = ''container_name''"
  "Key LabelLabels = ''labels''"
  "Key LabelNodename = ''nodename''"
  "Key LabelNodeRole = ''node_role''"
  "Key LabelHostname = ''hostname''"
  "Key LabelResourceID = ''resource_id''"
  "Key LabelHostID = ''host_id''"
  "Key LabelContainerBaseImage = ''container_base_image''"
  "Key LabelCustomMetricName = ''custom_metric_name''"
  "Key LabelGCEResourceID = ''resource_id''"
  "Key LabelGCEResourceType = ''resource_type''"
  "Key LabelNodeSchedulable = ''schedulable''"
  "Key LabelVolumeName = ''volume_name''"
  "Key LabelAcceleratorMake = ''make''"
  "Key LabelAcceleratorModel = ''model''"
  "Key LabelAcceleratorID = ''accelerator_id''"
  by (simp_all add: LabelMetricSetType_def LabelCluster_def LabelPodId_def LabelPodName_def LabelNamespaceName_def LabelPodNamespaceUID_def LabelContainerName_def LabelLabels_def LabelNodename_def LabelNodeRole_def LabelHostname_def LabelResourceID_def LabelHostID_def LabelContainerBaseImage_def LabelCustomMetricName_def LabelGCEResourceID_def LabelGCEResourceType_def LabelNodeSchedulable_def LabelVolumeName_def LabelAcceleratorMake_def LabelAcceleratorModel_def LabelAcceleratorID_def)

definition zeroLabel :: label_descriptor where
  "zeroLabel = \<lparr>Key = [], LDescription = []\<rparr>"

definition CommonLabels :: "label_descriptor list" where
  "CommonLabels = go_copy (replicate (length commonLabels) zeroLabel) commonLabels"

definition ContainerLabels :: "label_descriptor list" where
  "ContainerLabels = go_copy (replicate (length containerLabels) zeroLabel) containerLabels"

definition PodLabels :: "label_descriptor list" where
  "PodLabels = go_copy (replicate (length podLabels) zeroLabel) podLabels"

definition MetricLabels :: "label_descriptor list" where
  "MetricLabels = go_copy (go_copy (replicate (length metricLabels + length customMetricLabels) zeroLabel)
                             metricLabels) customMetricLabels"

definition SupportedLabels :: "label_descriptor list" where
  "SupportedLabels = CommonLabels @ PodLabels @ MetricLabels"

definition GcmLabels :: "(string, label_descriptor) gomap" where
  "GcmLabels = fold (\<lambda>l m. gput (Key l) l m) gcmLabels []"

definition GcmNodeAutoscalingLabels :: "(string, label_descriptor) gomap" where
  "GcmNodeAutoscalingLabels = fold (\<lambda>l m. gput (Key l) l m) gcmNodeAutoscalingLabels []"

text \<open>
  \<^verbatim>\<open>MetricLabels\<close> copies both slices to the front of the result: the resource label is
  overwritten and the second entry stays empty.
\<close>

lemma MetricLabels_overwrites:
  "MetricLabels = [LabelCustomMetricName, zeroLabel]" "LabelResourceID \<notin> set SupportedLabels"
  by (simp_all add: MetricLabels_def SupportedLabels_def CommonLabels_def PodLabels_def metricLabels_def
      customMetricLabels_def commonLabels_def podLabels_def go_copy_def zeroLabel_def LabelNodename_def
      LabelHostname_def LabelHostID_def LabelPodName_def LabelPodId_def LabelPodNamespaceUID_def
      LabelLabels_def LabelResourceID_def LabelCustomMetricName_def numeral_2_eq_2)

section \<open>Metric sets\<close>

record metric_set =
  CollectionStartTime :: time
  EntityCreateTime :: time
  ScrapeTime :: time
  Values :: "(string, mvalue) gomap"
  Labels :: strmap
  LabeledValues :: "labeled_value list"

definition copyLabels :: "strmap \<Rightarrow> strmap \<Rightarrow> strmap" where
  "copyLabels dst src = put_all src dst"

fun findLabeled :: "string \<Rightarrow> strmap \<Rightarrow> labeled_value list \<Rightarrow> strmap \<times> bool" where
  "findLabeled name setLabels [] = ([], False)"
| "findLabeled name setLabels (lv # lvs) =
     (if lvName lv = name then (copyLabels (copyLabels [] (lvLabels lv)) setLabels, True)
      else findLabeled name setLabels lvs)"

definition FindLabels :: "metric_set \<Rightarrow> string \<Rightarrow> strmap \<times> bool" where
  "FindLabels s name =
     (if map_of (Values s) name \<noteq> None then (Labels s, True)
      else findLabeled name (Labels s) (LabeledValues s))"

definition Set_Points :: "metric_set \<Rightarrow> nat" where
  "Set_Points s = length (Values s) + length (LabeledValues s)"

definition wf_set :: "metric_set \<Rightarrow> bool" where
  "wf_set s \<longleftrightarrow> wf_map (Values s) \<and> wf_map (Labels s) \<and> (\<forall>lv \<in> set (LabeledValues s). wf_map (lvLabels lv))"

lemma findLabeled_eq:
  "findLabeled name ls lvs =
     (case find (\<lambda>lv. lvName lv = name) lvs of None \<Rightarrow> ([], False)
      | Some lv \<Rightarrow> (copyLabels (copyLabels [] (lvLabels lv)) ls, True))"
  by (induction lvs) auto

text \<open>
  For a metric that only exists as a labelled value, the labels found are those of the first
  labelled value of that name, with the set's own labels taking precedence.
\<close>

lemma FindLabels_labeled:
  assumes "wf_set s" "map_of (Values s) name = None"
    "find (\<lambda>lv. lvName lv = name) (LabeledValues s) = Some lv"
  shows "map_of (fst (FindLabels s name)) = map_of (lvLabels lv) ++ map_of (Labels s)"
    and "snd (FindLabels s name)"
proof -
  have "lv \<in> set (LabeledValues s)" using assms(3) by (auto simp: find_Some_iff)
  with assms(1) have "wf_map (lvLabels lv)" "wf_map (Labels s)" by (auto simp: wf_set_def)
  with assms show "map_of (fst (FindLabels s name)) = map_of (lvLabels lv) ++ map_of (Labels s)"
    and "snd (FindLabels s name)"
    by (simp_all add: FindLabels_def findLabeled_eq copyLabels_def map_of_put_all)
qed

section \<open>Resource keys\<close>

type_synonym resource_key = string

definition ResourceKey_Append :: "resource_key \<Rightarrow> resource_key \<Rightarrow> resource_key" where
  "ResourceKey_Append s t = s @ t"

definition PodContainerKey :: "string \<Rightarrow> string \<Rightarrow> string \<Rightarrow> resource_key" where
  "PodContainerKey namespace podName containerName =
     ''namespace:'' @ namespace @ ''/pod:'' @ podName @ ''/container:'' @ containerName"

definition PodKey :: "string \<Rightarrow> string \<Rightarrow> resource_key" where
  "PodKey namespace podName = ''namespace:'' @ namespace @ ''/pod:'' @ podName"

definition NamespaceKey :: "string \<Rightarrow> resource_key" where
  "NamespaceKey namespace = ''namespace:'' @ namespace"

definition NodeKey :: "string \<Rightarrow> resource_key" where
  "NodeKey node = ''node:'' @ node"

definition NodeContainerKey :: "string \<Rightarrow> string \<Rightarrow> resource_key" where
  "NodeContainerKey node container = ''node:'' @ node @ ''/container:'' @ container"

definition ClusterKey :: resource_key where
  "ClusterKey = ''cluster''"

definition ResourceKeys_Less :: "resource_key list \<Rightarrow> nat \<Rightarrow> nat \<Rightarrow> bool" where
  "ResourceKeys_Less s i j = (s ! i < s ! j)"

definition ResourceKeys_Swap :: "resource_key list \<Rightarrow> nat \<Rightarrow> nat \<Rightarrow> resource_key list" where
  "ResourceKeys_Swap s i j = s[i := s ! j, j := s ! i]"

lemmas resource_key_defs = PodContainerKey_def PodKey_def NamespaceKey_def NodeKey_def
  NodeContainerKey_def ClusterKey_def

text \<open>Kubernetes object names contain no slash.\<close>

abbreviation no_slash :: "string \<Rightarrow> bool" where
  "no_slash s \<equiv> CHR ''/'' \<notin> set s"

lemma PodKey_inject:
  "no_slash ns \<Longrightarrow> no_slash ns' \<Longrightarrow> PodKey ns p = PodKey ns' p' \<longleftrightarrow> ns = ns' \<and> p = p'"
  by (simp add: PodKey_def append_sep_inject)

lemma PodContainerKey_inject:
  assumes "no_slash ns" "no_slash ns'" "no_slash p" "no_slash p'"
  shows "PodContainerKey ns p c = PodContainerKey ns' p' c' \<longleftrightarrow> ns = ns' \<and> p = p' \<and> c = c'"
  using assms by (simp add: PodContainerKey_def append_sep_inject)

lemma PodKey_neq_PodContainerKey:
  assumes "no_slash ns" "no_slash ns'" "no_slash p"
  shows "PodKey ns p \<noteq> PodContainerKey ns' p' c"
proof
  assume "PodKey ns p = PodContainerKey ns' p' c"
  then have "p = p' @ ''/container:'' @ c"
    using assms by (simp add: PodKey_def PodContainerKey_def append_sep_inject)
  with assms(3) show False by simp
qed

lemma NamespaceKey_neq:
  assumes "no_slash ns"
  shows "NamespaceKey ns \<noteq> PodKey ns' p" "NamespaceKey ns \<noteq> PodContainerKey ns' p c"
proof -
  have "no_slash (NamespaceKey ns)" using assms by (simp add: NamespaceKey_def)
  moreover have "\<not> no_slash (PodKey ns' p)" "\<not> no_slash (PodContainerKey ns' p c)"
    by (simp_all add: PodKey_def PodContainerKey_def)
  ultimately show "NamespaceKey ns \<noteq> PodKey ns' p" "NamespaceKey ns \<noteq> PodContainerKey ns' p c" by auto
qed

lemma NodeKey_neq [simp]:
  "NodeKey n \<noteq> NamespaceKey ns" "NodeKey n \<noteq> PodKey ns p" "NodeKey n \<noteq> PodContainerKey ns p c"
  "NodeKey n \<noteq> ClusterKey"
  "ClusterKey \<noteq> NamespaceKey ns" "ClusterKey \<noteq> PodKey ns p" "ClusterKey \<noteq> PodContainerKey ns p c"
  by (simp_all add: resource_key_defs)

text \<open>
  Resource keys identify resources: for names without a slash (as Kubernetes requires) two pods
  share a key only if namespace and name agree, likewise for containers, and a pod, a container, a
  namespace, a node and the cluster never share one.
\<close>

theorem resource_keys_distinct:
  assumes "no_slash ns" "no_slash ns'" "no_slash p" "no_slash p'" "no_slash ns''"
  shows "(PodKey ns p = PodKey ns' p' \<longleftrightarrow> ns = ns' \<and> p = p') \<and>
    (PodContainerKey ns p c = PodContainerKey ns' p' c' \<longleftrightarrow> ns = ns' \<and> p = p' \<and> c = c') \<and>
    PodKey ns p \<noteq> PodContainerKey ns' p' c \<and>
    NamespaceKey ns'' \<notin> {PodKey ns p, PodContainerKey ns p c, NodeKey n, ClusterKey} \<and>
    NodeKey n \<notin> {PodKey ns p, PodContainerKey ns p c, ClusterKey} \<and>
    ClusterKey \<notin> {PodKey ns p, PodContainerKey ns p c}"
  using assms PodKey_inject [of ns ns' p p'] PodContainerKey_inject [of ns ns' p p' c c']
    PodKey_neq_PodContainerKey [of ns ns' p p' c] NamespaceKey_neq [of ns'' ns p] NamespaceKey_neq(2) [of ns'' ns p c]
    NodeKey_neq(1) [of n ns'', symmetric] NodeKey_neq(5) [of ns'', symmetric]
  by simp

theorem resource_keys_distinct_witness:
  "PodKey ''default'' ''web'' \<noteq> PodKey ''default'' ''db'' \<and> NamespaceKey ''default'' \<noteq> PodKey ''default'' ''web''"
  using resource_keys_distinct [of "''default''" "''default''" "''web''" "''db''" "''default''"] by simp

section \<open>Historical keys\<close>

record historical_key =
  ObjectType :: string
  NodeName :: string
  NamespaceName :: string
  PodName :: string
  ContainerName :: string
  PodId :: string

definition HistoricalKey_String :: "historical_key \<Rightarrow> string" where
  "HistoricalKey_String key =
     (let prefix = ''('' @ ObjectType key @ '')'';
          path =
            (if ObjectType key = MetricSetTypeSystemContainer
             then ''node:'' @ NodeName key @ ''/container:'' @ ContainerName key
             else if ObjectType key = MetricSetTypePodContainer
             then (if PodId key \<noteq> [] then ''poduid:'' @ PodId key @ ''/container:'' @ ContainerName key
                   else ''ns:'' @ NamespaceName key @ ''/pod:'' @ PodName key @ ''/container:'' @ ContainerName key)
             else if ObjectType key = MetricSetTypePod
             then (if PodId key \<noteq> [] then ''poduid:'' @ PodId key
                   else ''ns:'' @ NamespaceName key @ ''/pod:'' @ PodName key)
             else if ObjectType key = MetricSetTypeNamespace then ''ns:'' @ NamespaceName key
             else if ObjectType key = MetricSetTypeNode then ''node:'' @ NodeName key
             else if ObjectType key = MetricSetTypeCluster then ''[cluster]''
             else ''[unknown type]'')
      in prefix @ path)"

end
