(* ===== verification/Glob_Filter.thy ===== *)
theory Glob_Filter
  imports Go_Strings
begin

text \<open>
  The metric filter (\<^verbatim>\<open>internal/filter\<close>): its configuration, the legacy query syntax, the
  compilation of pattern lists to globs and the two decisions \<open>MatchMetric\<close> and \<open>MatchTag\<close>.

  The glob library is a parameter: \<open>gc pattern\<close> is the compiled matcher, or \<open>None\<close> when the
  library rejects the pattern. A Go \<^verbatim>\<open>nil\<close> glob is \<open>None\<close>, a nil \<^verbatim>\<open>Filter\<close> likewise.
\<close>

type_synonym glob = "string \<Rightarrow> bool"
type_synonym glob_compiler = "string \<Rightarrow> glob option"
type_synonym taglists = "(string, string list) gomap"

section \<open>Configuration\<close>

abbreviation MetricWhitelistKey :: string where "MetricWhitelistKey \<equiv> ''metricWhitelist''"
abbreviation MetricBlacklistKey :: string where "MetricBlacklistKey \<equiv> ''metricBlacklist''"
abbreviation MetricTagWhitelistKey :: string where "MetricTagWhitelistKey \<equiv> ''metricTagWhitelist''"
abbreviation MetricTagBlacklistKey :: string where "MetricTagBlacklistKey \<equiv> ''metricTagBlacklist''"
abbreviation TagIncludeKey :: string where "TagIncludeKey \<equiv> ''tagInclude''"
abbreviation TagExcludeKey :: string where "TagExcludeKey \<equiv> ''tagExclude''"

record filter_config =
  MetricAllowList :: "string list"
  MetricDenyList :: "string list"
  MetricTagAllowList :: taglists
  MetricTagDenyList :: taglists
  TagInclude :: "string list"
  TagExclude :: "string list"
  MetricWhitelist :: "string list"
  MetricBlacklist :: "string list"
  MetricTagWhitelist :: taglists
  MetricTagBlacklist :: taglists

definition empty_filter_config :: filter_config where
  "empty_filter_config = \<lparr> MetricAllowList = [], MetricDenyList = [], MetricTagAllowList = [],
     MetricTagDenyList = [], TagInclude = [], TagExclude = [], MetricWhitelist = [],
     MetricBlacklist = [], MetricTagWhitelist = [], MetricTagBlacklist = [] \<rparr>"

definition Config_Empty :: "filter_config \<Rightarrow> bool" where
  "Config_Empty cfg \<longleftrightarrow>
     length (MetricWhitelist cfg) = 0 \<and> length (MetricAllowList cfg) = 0 \<and>
     length (MetricBlacklist cfg) = 0 \<and> length (MetricDenyList cfg) = 0 \<and>
     length (MetricTagWhitelist cfg) = 0 \<and> length (MetricTagAllowList cfg) = 0 \<and>
     length (MetricTagBlacklist cfg) = 0 \<and> length (MetricTagDenyList cfg) = 0 \<and>
     length (TagInclude cfg) = 0 \<and> length (TagExclude cfg) = 0"

section \<open>The glob filter\<close>

record glob_filter =
  metricAllowList :: "glob option"
  metricDenyList :: "glob option"
  metricTagAllowList :: "(string, glob) gomap option"
  metricTagDenyList :: "(string, glob) gomap option"
  tagInclude :: "glob option"
  tagExclude :: "glob option"

definition Compile :: "glob_compiler \<Rightarrow> string list \<Rightarrow> glob option" where
  "Compile gc filters =
     (if length filters = 0 then None
      else if length filters = 1 then gc (filters ! 0)
      else gc (''{'' @ Join filters '','' @ ''}''))"

definition MultiCompile :: "glob_compiler \<Rightarrow> taglists \<Rightarrow> (string, glob) gomap option" where
  "MultiCompile gc filters =
     (if length filters = 0 then None
      else Some (fold (\<lambda>(k, v) globs. (case Compile gc v of None \<Rightarrow> globs | Some g \<Rightarrow> gput k g globs))
                   filters []))"

definition MultiSetCompile :: "glob_compiler \<Rightarrow> taglists list \<Rightarrow> (string, glob) gomap option list" where
  "MultiSetCompile gc filters = map (MultiCompile gc) filters"

definition NewGlobFilter :: "glob_compiler \<Rightarrow> filter_config \<Rightarrow> glob_filter" where
  "NewGlobFilter gc cfg = \<lparr>
     metricAllowList = Compile gc (MetricAllowList cfg),
     metricDenyList = Compile gc (MetricDenyList cfg),
     metricTagAllowList = MultiCompile gc (MetricTagAllowList cfg),
     metricTagDenyList = MultiCompile gc (MetricTagDenyList cfg),
     tagInclude = Compile gc (TagInclude cfg),
     tagExclude = Compile gc (TagExclude cfg) \<rparr>"

fun MatchesTags :: "(string, glob) gomap \<Rightarrow> strmap \<Rightarrow> bool" where
  "MatchesTags [] tags = False"
| "MatchesTags ((k, matcher) # ms) tags =
     (case map_of tags k of
        Some val \<Rightarrow> if matcher val then True else MatchesTags ms tags
      | None \<Rightarrow> MatchesTags ms tags)"

fun MatchesAllTags :: "(string, glob) gomap \<Rightarrow> strmap \<Rightarrow> bool" where
  "MatchesAllTags [] tags = True"
| "MatchesAllTags ((k, matcher) # ms) tags =
     (case map_of tags k of
        Some val \<Rightarrow> if \<not> matcher val then False else MatchesAllTags ms tags
      | None \<Rightarrow> False)"

definition MatchMetric :: "glob_filter \<Rightarrow> string \<Rightarrow> strmap \<Rightarrow> bool" where
  "MatchMetric gf name tags =
     (if (case metricAllowList gf of None \<Rightarrow> False | Some g \<Rightarrow> \<not> g name) then False
      else if (case metricDenyList gf of None \<Rightarrow> False | Some g \<Rightarrow> g name) then False
      else if (case metricTagAllowList gf of None \<Rightarrow> False | Some ms \<Rightarrow> \<not> MatchesTags ms tags) then False
      else if (case metricTagDenyList gf of None \<Rightarrow> False | Some ms \<Rightarrow> MatchesTags ms tags) then False
      else True)"

definition MatchTag :: "glob_filter \<Rightarrow> string \<Rightarrow> bool" where
  "MatchTag gf tagName =
     (let matches = True;
          matches = (case tagInclude gf of None \<Rightarrow> matches | Some g \<Rightarrow> matches \<and> g tagName);
          matches = (case tagExclude gf of None \<Rightarrow> matches | Some g \<Rightarrow> matches \<and> \<not> g tagName)
      in matches)"

section \<open>Building a filter from a configuration or a query\<close>

text \<open>A filter string \<^verbatim>\<open>[foo*,bar*]\<close>.\<close>

definition parseValue :: "string \<Rightarrow> string list go_result" where
  "parseValue val =
     (if \<not> HasPrefix val ''['' \<or> \<not> HasSuffix val '']''
      then Inl (Errorf (''invalid metric tag filter: '' @ val))
      else Inr (split_on CHR '','' (take (length val - 2) (drop 1 val))))"

text \<open>Each string is \<^verbatim>\<open>tagK:[glob1,glob2]\<close>; a malformed one is reported and skipped.\<close>

definition parseFilters :: "string list \<Rightarrow> taglists" where
  "parseFilters tagFilters =
     fold (\<lambda>tag out.
             (let s = split_on CHR '':'' tag in
              if length s = 2
              then (case parseValue (s ! 1) of Inl err \<Rightarrow> out | Inr patterns \<Rightarrow> gput (s ! 0) patterns out)
              else out))
       tagFilters []"

definition query_get :: "taglists \<Rightarrow> string \<Rightarrow> string list" where
  "query_get vals k = (case map_of vals k of None \<Rightarrow> [] | Some v \<Rightarrow> v)"

definition FromQuery :: "taglists \<Rightarrow> filter_config" where
  "FromQuery vals =
     (if length vals = 0 then empty_filter_config
      else
        (let mw = query_get vals MetricWhitelistKey;
             mb = query_get vals MetricBlacklistKey;
             mtw = parseFilters (query_get vals MetricTagWhitelistKey);
             mtb = parseFilters (query_get vals MetricTagBlacklistKey);
             ti = query_get vals TagIncludeKey;
             te = query_get vals TagExcludeKey
         in if length mw = 0 \<and> length mb = 0 \<and> length mtw = 0 \<and> length mtb = 0 \<and>
               length ti = 0 \<and> length te = 0
            then empty_filter_config
            else empty_filter_config \<lparr> MetricWhitelist := mw, MetricBlacklist := mb,
                   MetricTagWhitelist := mtw, MetricTagBlacklist := mtb,
                   TagInclude := ti, TagExclude := te \<rparr>))"

definition FromConfig :: "glob_compiler \<Rightarrow> filter_config \<Rightarrow> glob_filter option" where
  "FromConfig gc cfg =
     (if Config_Empty cfg then None
      else
        (let ma = (if length (MetricAllowList cfg) > 0 then MetricAllowList cfg else MetricWhitelist cfg);
             md = (if length (MetricDenyList cfg) > 0 then MetricDenyList cfg else MetricBlacklist cfg);
             mta = (if length (MetricTagAllowList cfg) > 0 then MetricTagAllowList cfg else MetricTagWhitelist cfg);
             mtd = (if length (MetricTagDenyList cfg) > 0 then MetricTagDenyList cfg else MetricTagBlacklist cfg);
             ti = TagInclude cfg;
             te = TagExclude cfg
         in if length ma = 0 \<and> length md = 0 \<and> length mta = 0 \<and> length mtd = 0 \<and>
               length ti = 0 \<and> length te = 0
            then None
            else Some (NewGlobFilter gc (empty_filter_config \<lparr>
                   MetricAllowList := ma, MetricDenyList := md, MetricTagAllowList := mta,
                   MetricTagDenyList := mtd, TagInclude := ti, TagExclude := te \<rparr>))))"

section \<open>What the decisions mean\<close>

text \<open>
  The promised reading of a configuration, independent of how the code evaluates it: \<open>allows g x\<close> is
  the meaning of an allow list (no list allows everything), \<open>denies g x\<close> of a deny list.
\<close>

definition allows :: "'a option \<Rightarrow> ('a \<Rightarrow> bool) \<Rightarrow> bool" where
  "allows g m \<longleftrightarrow> (\<forall>x. g = Some x \<longrightarrow> m x)"

definition denies :: "'a option \<Rightarrow> ('a \<Rightarrow> bool) \<Rightarrow> bool" where
  "denies g m \<longleftrightarrow> (\<exists>x. g = Some x \<and> m x)"

lemma MatchesTags_iff:
  "MatchesTags ms tags \<longleftrightarrow> (\<exists>k g v. (k, g) \<in> set ms \<and> map_of tags k = Some v \<and> g v)"
proof (induction ms)
  case (Cons m ms)
  obtain k g where "m = (k, g)" by (cases m)
  then have "MatchesTags (m # ms) tags \<longleftrightarrow> (\<exists>v. map_of tags k = Some v \<and> g v) \<or> MatchesTags ms tags"
    by (cases "map_of tags k") simp_all
  with Cons \<open>m = (k, g)\<close> show ?case by auto
qed simp

lemma MatchesAllTags_iff:
  "MatchesAllTags ms tags \<longleftrightarrow> (\<forall>(k, g) \<in> set ms. \<exists>v. map_of tags k = Some v \<and> g v)"
proof (induction ms)
  case (Cons m ms)
  obtain k g where "m = (k, g)" by (cases m)
  with Cons show ?case by (cases "map_of tags k") auto
qed simp

lemma MatchMetric_iff:
  "MatchMetric gf name tags \<longleftrightarrow>
     allows (metricAllowList gf) (\<lambda>g. g name) \<and> \<not> denies (metricDenyList gf) (\<lambda>g. g name) \<and>
     allows (metricTagAllowList gf) (\<lambda>ms. MatchesTags ms tags) \<and>
     \<not> denies (metricTagDenyList gf) (\<lambda>ms. MatchesTags ms tags)"
  by (auto simp: MatchMetric_def allows_def denies_def split: option.splits)

lemma MatchTag_iff:
  "MatchTag gf t \<longleftrightarrow> allows (tagInclude gf) (\<lambda>g. g t) \<and> \<not> denies (tagExclude gf) (\<lambda>g. g t)"
  by (auto simp: MatchTag_def allows_def denies_def split: option.splits)

text \<open>Compiling a map of pattern lists keeps one glob for each key whose list compiles.\<close>

definition compile_step where
  "compile_step gc = (\<lambda>(k :: string, v) globs. (case Compile gc v of None \<Rightarrow> globs | Some g \<Rightarrow> gput k g globs))"

lemma map_of_compile_fold:
  "wf_map filters \<Longrightarrow> map_of (fold (compile_step gc) filters globs) =
     map_of globs ++ (\<lambda>k. Option.bind (map_of filters k) (Compile gc))"
proof (induction filters arbitrary: globs)
  case Nil
  then show ?case by (simp add: map_add_def)
next
  case (Cons x xs)
  obtain k v where x: "x = (k, v)" by (cases x)
  with Cons.prems have "k \<notin> fst ` set xs" by auto
  then have none: "map_of xs k = None" by (simp add: map_of_eq_None_iff)
  have "map_of (compile_step gc x globs) ++ (\<lambda>k. Option.bind (map_of xs k) (Compile gc)) =
        map_of globs ++ (\<lambda>k. Option.bind (map_of (x # xs) k) (Compile gc))"
    using none by (auto simp: x compile_step_def fun_eq_iff map_add_def split: option.splits)
  with Cons show ?case by simp
qed

lemma MultiCompile_lookup:
  "wf_map filters \<Longrightarrow> filters \<noteq> [] \<Longrightarrow>
     \<exists>ms. MultiCompile gc filters = Some ms \<and> map_of ms = (\<lambda>k. Option.bind (map_of filters k) (Compile gc))"
  using map_of_compile_fold [of filters gc "[]"]
  by (simp add: MultiCompile_def compile_step_def)

lemma wf_compile_fold: "wf_map globs \<Longrightarrow> wf_map (fold (compile_step gc) filters globs)"
proof (induction filters arbitrary: globs)
  case (Cons x xs)
  then show ?case by (cases x) (simp add: compile_step_def split: option.splits)
qed simp

lemma MultiCompile_wf: "MultiCompile gc filters = Some ms \<Longrightarrow> wf_map ms"
  using wf_compile_fold [of "[]" gc filters]
  by (auto simp: MultiCompile_def compile_step_def split: if_splits)

text \<open>
  An empty list and a list the glob library rejects give the same nil glob, so either way the
  restriction it should impose is absent.
\<close>

lemma Compile_nil: "Compile gc [] = None"
  by (simp add: Compile_def)

lemma Compile_rejected: "gc p = None \<Longrightarrow> Compile gc [p] = None"
  by (simp add: Compile_def)

section \<open>The interface the metric pipeline uses\<close>

text \<open>
  A \<^verbatim>\<open>filter.Filter\<close> decides on a metric by its name and tags, and on a tag by its name. Its
  decision on a metric is a property of the tag map, not of the order in which the map is visited.
\<close>

locale metric_filter =
  fixes match_metric :: "'f \<Rightarrow> string \<Rightarrow> strmap \<Rightarrow> bool"
    and match_tag :: "'f \<Rightarrow> string \<Rightarrow> bool"
  assumes match_metric_map: "map_of tags = map_of tags' \<Longrightarrow> match_metric f name tags = match_metric f name tags'"
begin

text \<open>Removing the tags the filter rejects, once or twice.\<close>

lemma filter_tags_idem:
  "filter (\<lambda>(k, _). match_tag f k) (filter (\<lambda>(k, _). match_tag f k) tags) = filter (\<lambda>(k, _). match_tag f k) tags"
  by (simp add: case_prod_unfold)

lemma filter_tags_lookup:
  "map_of (filter (\<lambda>(k, _). match_tag f k) tags) k = (if match_tag f k then map_of tags k else None)"
  by (rule map_of_filter_key)

lemma match_metric_perm:
  assumes "wf_map tags" "mset tags = mset tags'"
  shows "match_metric f name tags = match_metric f name tags'"
proof (rule match_metric_map)
  have "wf_map tags'" using assms by (metis mset_eq_imp_distinct_iff mset_map)
  then show "map_of tags = map_of tags'"
    using assms by (intro map_of_inject_set [THEN iffD2]) (auto dest: mset_eq_setD)
qed

end

lemma MatchesTags_map: "map_of tags = map_of tags' \<Longrightarrow> MatchesTags ms tags = MatchesTags ms tags'"
  by (simp add: MatchesTags_iff)

interpretation gf: metric_filter MatchMetric MatchTag
proof
  fix tags tags' :: strmap and f name
  assume "map_of tags = map_of tags'"
  then have "(\<lambda>ms. MatchesTags ms tags) = (\<lambda>ms. MatchesTags ms tags')"
    by (simp add: MatchesTags_iff)
  then show "MatchMetric f name tags = MatchMetric f name tags'"
    unfolding MatchMetric_iff by (simp only:)
qed

text \<open>The decision does not depend on the order of the filter's own tag globs either.\<close>

lemma MatchesTags_set: "set ms = set ms' \<Longrightarrow> MatchesTags ms tags = MatchesTags ms' tags"
  by (simp add: MatchesTags_iff)

definition glob_passes :: "glob_compiler \<Rightarrow> string list \<Rightarrow> string \<Rightarrow> bool" where
  "glob_passes gc ps s \<longleftrightarrow> (\<exists>g. Compile gc ps = Some g \<and> g s)"

definition tags_pass :: "glob_compiler \<Rightarrow> taglists \<Rightarrow> strmap \<Rightarrow> bool" where
  "tags_pass gc fs tags \<longleftrightarrow> (\<exists>k ps v. map_of fs k = Some ps \<and> map_of tags k = Some v \<and> glob_passes gc ps v)"

lemma MultiCompile_tags_pass:
  assumes "wf_map fs" "MultiCompile gc fs = Some ms"
  shows "MatchesTags ms tags \<longleftrightarrow> tags_pass gc fs tags"
proof -
  have "fs \<noteq> []" using assms(2) by (auto simp: MultiCompile_def)
  then have ms: "map_of ms = (\<lambda>k. Option.bind (map_of fs k) (Compile gc))"
    using MultiCompile_lookup [OF assms(1), of gc] assms(2) by simp
  have "(k, g) \<in> set ms \<longleftrightarrow> (\<exists>ps. map_of fs k = Some ps \<and> Compile gc ps = Some g)" for k g
    using MultiCompile_wf [OF assms(2)] ms by (simp flip: map_of_eq_Some_iff add: bind_eq_Some_conv)
  then show ?thesis
    by (auto simp: MatchesTags_iff tags_pass_def glob_passes_def)
qed

lemma MultiCompile_None: "MultiCompile gc fs = None \<longleftrightarrow> fs = []"
  by (simp add: MultiCompile_def)

lemma FromConfig_None: "FromConfig gc cfg = None \<longleftrightarrow> Config_Empty cfg"
  by (auto simp: FromConfig_def Config_Empty_def Let_def)

lemma FromConfig_Some:
  "\<not> Config_Empty cfg \<Longrightarrow> FromConfig gc cfg = Some (NewGlobFilter gc (empty_filter_config \<lparr>
     MetricAllowList := (if MetricAllowList cfg \<noteq> [] then MetricAllowList cfg else MetricWhitelist cfg),
     MetricDenyList := (if MetricDenyList cfg \<noteq> [] then MetricDenyList cfg else MetricBlacklist cfg),
     MetricTagAllowList := (if MetricTagAllowList cfg \<noteq> [] then MetricTagAllowList cfg else MetricTagWhitelist cfg),
     MetricTagDenyList := (if MetricTagDenyList cfg \<noteq> [] then MetricTagDenyList cfg else MetricTagBlacklist cfg),
     TagInclude := TagInclude cfg, TagExclude := TagExclude cfg \<rparr>))"
  by (auto simp: FromConfig_def Config_Empty_def Let_def)

text \<open>Reading back a printed tag filter.\<close>

lemma parseValue_print:
  assumes "ps \<noteq> []" "\<And>p. p \<in> set ps \<Longrightarrow> CHR '','' \<notin> set p"
  shows "parseValue (''['' @ Join ps '','' @ '']'') = Inr ps"
  using split_on_Join [of ps "CHR '',''"] assms
  by (simp add: parseValue_def HasPrefix_def HasSuffix_def)

definition printFilter :: "string \<times> string list \<Rightarrow> string" where
  "printFilter kv = fst kv @ '':['' @ Join (snd kv) '','' @ '']''"

definition printable :: "string \<times> string list \<Rightarrow> bool" where
  "printable kv \<longleftrightarrow> CHR '':'' \<notin> set (fst kv) \<and> snd kv \<noteq> [] \<and>
     (\<forall>p \<in> set (snd kv). CHR '','' \<notin> set p \<and> CHR '':'' \<notin> set p)"

lemma set_Join: "set (Join ps sep) \<subseteq> (\<Union>p \<in> set ps. set p) \<union> set sep"
  by (induction ps sep rule: Join.induct) auto

lemma split_printFilter:
  assumes "printable kv"
  shows "split_on CHR '':'' (printFilter kv) = [fst kv, ''['' @ Join (snd kv) '','' @ '']'']"
proof -
  have "CHR '':'' \<notin> set (Join (snd kv) '','')"
    using assms set_Join [of "snd kv" "'',''"] by (auto simp: printable_def)
  then have "CHR '':'' \<notin> set (''['' @ Join (snd kv) '','' @ '']'')" by simp
  from split_on_no_sep [OF this] assms show ?thesis
    by (simp add: printFilter_def printable_def split_on_append)
qed

lemma parseFilters_fold:
  assumes "\<forall>kv \<in> set kvs. printable kv"
  shows "fold (\<lambda>tag out.
             (let s = split_on CHR '':'' tag in
              if length s = 2
              then (case parseValue (s ! 1) of Inl err \<Rightarrow> out | Inr patterns \<Rightarrow> gput (s ! 0) patterns out)
              else out)) (map printFilter kvs) out = put_all kvs out"
  using assms
proof (induction kvs arbitrary: out)
  case (Cons kv kvs)
  obtain k ps where kv: "kv = (k, ps)" by (cases kv)
  with Cons.prems have ok: "printable (k, ps)" by simp
  then have "parseValue (''['' @ Join ps '','' @ '']'') = Inr ps"
    by (intro parseValue_print) (auto simp: printable_def)
  with Cons kv split_printFilter [OF ok] show ?case by simp
qed simp

section \<open>Properties\<close>

text \<open>
  C7. A metric passes the filter built from a configuration exactly when its name is allowed and not
  denied and its tags are allowed and not denied, where each newer list replaces the deprecated one
  it has superseded, and a list that is empty or that the glob library rejects restricts nothing.
\<close>

theorem FromConfig_MatchMetric:
  assumes "FromConfig gc cfg = Some gf"
    and "wf_map (MetricTagAllowList cfg)" "wf_map (MetricTagDenyList cfg)"
    and "wf_map (MetricTagWhitelist cfg)" "wf_map (MetricTagBlacklist cfg)"
    and allow: "al = (if MetricAllowList cfg \<noteq> [] then MetricAllowList cfg else MetricWhitelist cfg)"
    and deny: "dl = (if MetricDenyList cfg \<noteq> [] then MetricDenyList cfg else MetricBlacklist cfg)"
    and tallow: "tal = (if MetricTagAllowList cfg \<noteq> [] then MetricTagAllowList cfg else MetricTagWhitelist cfg)"
    and tdeny: "tdl = (if MetricTagDenyList cfg \<noteq> [] then MetricTagDenyList cfg else MetricTagBlacklist cfg)"
  shows "MatchMetric gf name tags \<longleftrightarrow>
           (Compile gc al = None \<or> glob_passes gc al name) \<and> \<not> glob_passes gc dl name \<and>
           (tal = [] \<or> tags_pass gc tal tags) \<and> \<not> tags_pass gc tdl tags"
proof -
  have wf: "wf_map tal" "wf_map tdl" using assms(2-5) tallow tdeny by auto
  have "\<not> Config_Empty cfg" using assms(1) FromConfig_None [of gc cfg] by auto
  from FromConfig_Some [OF this, of gc] assms(1)
  have gf: "gf = NewGlobFilter gc (empty_filter_config \<lparr> MetricAllowList := al, MetricDenyList := dl,
      MetricTagAllowList := tal, MetricTagDenyList := tdl, TagInclude := TagInclude cfg, TagExclude := TagExclude cfg \<rparr>)"
    unfolding allow deny tallow tdeny by simp
  have "allows (MultiCompile gc tal) (\<lambda>ms. MatchesTags ms tags) \<longleftrightarrow> tal = [] \<or> tags_pass gc tal tags"
    using MultiCompile_tags_pass [OF wf(1)] MultiCompile_None [of gc tal]
    by (cases "MultiCompile gc tal") (auto simp: allows_def)
  moreover have "denies (MultiCompile gc tdl) (\<lambda>ms. MatchesTags ms tags) \<longleftrightarrow> tags_pass gc tdl tags"
    using MultiCompile_tags_pass [OF wf(2)] MultiCompile_None [of gc tdl]
    by (cases "MultiCompile gc tdl") (auto simp: denies_def tags_pass_def)
  moreover have "allows (Compile gc al) (\<lambda>g. g name) \<longleftrightarrow> Compile gc al = None \<or> glob_passes gc al name"
    by (cases "Compile gc al") (auto simp: allows_def glob_passes_def)
  ultimately show ?thesis
    unfolding MatchMetric_iff gf by (simp add: NewGlobFilter_def denies_def glob_passes_def)
qed

definition prefix_glob :: glob_compiler where
  "prefix_glob p = (if p = [] then None else Some (\<lambda>s. HasPrefix s p))"

theorem FromConfig_MatchMetric_witness:
  "MatchMetric (NewGlobFilter prefix_glob (empty_filter_config \<lparr> MetricAllowList := [''kubernetes.''],
      MetricDenyList := [''kubernetes.sys''] \<rparr>)) ''kubernetes.pod.cpu'' []"
proof -
  define cfg where "cfg = empty_filter_config \<lparr> MetricAllowList := [''kubernetes.''],
    MetricWhitelist := [''old.''], MetricBlacklist := [''kubernetes.sys''] \<rparr>"
  have "FromConfig prefix_glob cfg = Some (NewGlobFilter prefix_glob (empty_filter_config
      \<lparr> MetricAllowList := [''kubernetes.''], MetricDenyList := [''kubernetes.sys''] \<rparr>))"
    by (simp add: cfg_def FromConfig_def Config_Empty_def empty_filter_config_def)
  from FromConfig_MatchMetric [OF this _ _ _ _ refl refl refl refl, of "''kubernetes.pod.cpu''" "[]"]
  show ?thesis
    by (simp add: cfg_def empty_filter_config_def glob_passes_def tags_pass_def Compile_def prefix_glob_def HasPrefix_def)
qed

text \<open>
  C8. Printing tag filters as \<^verbatim>\<open>tag:[glob,glob]\<close> and reading them back with the query parser gives
  the same map, whenever tags have no colon and globs neither colon nor comma.
\<close>

theorem parseFilters_roundtrip:
  assumes "wf_map kvs" "\<forall>kv \<in> set kvs. printable kv"
  shows "map_of (parseFilters (map printFilter kvs)) = map_of kvs"
  using parseFilters_fold [OF assms(2), of "[]"] map_of_put_all [OF assms(1), of "[]"]
  by (simp add: parseFilters_def)

theorem parseFilters_roundtrip_witness:
  "map_of (parseFilters (map printFilter [(''env'', [''prod*'', ''dev'']), (''az'', [''us'' ])])) ''env'' = Some [''prod*'', ''dev'']"
  by (subst parseFilters_roundtrip) (simp_all add: printable_def)

end
