(* ===== verification/Go_Time.thy ===== *)
theory Go_Time
  imports Float64
begin

text \<open>
  What the collector uses of Go's \<^verbatim>\<open>time\<close> package. A time is its number of nanoseconds since
  the Unix epoch and a duration an integer number of nanoseconds in the range of \<^verbatim>\<open>int64\<close>.
\<close>

abbreviation Second :: duration where "Second \<equiv> 1000000000"
abbreviation Minute :: duration where "Minute \<equiv> 60000000000"

definition minDuration :: duration where "minDuration = - (2 ^ 63)"
definition maxDuration :: duration where "maxDuration = 2 ^ 63 - 1"

text \<open>\<^verbatim>\<open>t.Sub(u)\<close> saturates at the ends of the range.\<close>

definition Time_Sub :: "time \<Rightarrow> time \<Rightarrow> duration" where
  "Time_Sub t u = (if t - u < minDuration then minDuration
                   else if maxDuration < t - u then maxDuration else t - u)"

text \<open>\<^verbatim>\<open>d.Seconds()\<close> and \<^verbatim>\<open>d.Minutes()\<close>: whole units plus the rest, in floating point.\<close>

definition Duration_Seconds :: "duration \<Rightarrow> f64" where
  "Duration_Seconds d = f_add (rnd (of_int (d sdiv Second))) (f_div (rnd (of_int (d smod Second))) (Fin 1000000000))"

definition Duration_Minutes :: "duration \<Rightarrow> f64" where
  "Duration_Minutes d = f_add (rnd (of_int (d sdiv Minute))) (f_div (rnd (of_int (d smod Minute))) (Fin 60000000000))"

definition Time_Unix :: "time \<Rightarrow> int64" where
  "Time_Unix t = word_of_int (t div Second)"

lemma Time_Sub_range: "minDuration \<le> Time_Sub t u" "Time_Sub t u \<le> maxDuration"
  by (simp_all add: Time_Sub_def minDuration_def maxDuration_def)

lemma Time_Sub_exact: "\<bar>t - u\<bar> < 2 ^ 63 \<Longrightarrow> Time_Sub t u = t - u"
  by (auto simp: Time_Sub_def minDuration_def maxDuration_def)

lemma sdiv_nonneg: "0 \<le> (d::int) \<Longrightarrow> 0 < k \<Longrightarrow> d sdiv k = d div k"
  by (simp add: signed_divide_int_def sgn_if)

lemma smod_nonneg: "0 \<le> (d::int) \<Longrightarrow> 0 < k \<Longrightarrow> d smod k = d mod k"
  by (cases "d = 0") (simp_all add: signed_modulo_int_def sdiv_nonneg minus_div_mult_eq_mod)

lemma sdiv_minus: "(- d::int) sdiv k = - (d sdiv k)"
  by (simp add: signed_divide_int_def sgn_minus)

lemma smod_minus: "(- d::int) smod k = - (d smod k)"
  by (simp add: signed_modulo_int_def sdiv_minus)

text \<open>Whole minutes are converted exactly.\<close>

lemma Duration_Minutes_whole:
  assumes "0 \<le> n" "n \<le> 2 ^ 53"
  shows "Duration_Minutes (n * Minute) = Fin (of_int n)"
proof -
  have "n * Minute sdiv Minute = n" "n * Minute smod Minute = 0"
    using assms by (simp_all add: sdiv_nonneg smod_nonneg)
  then show ?thesis using assms rnd_of_int [of n] by (simp add: Duration_Minutes_def)
qed

lemma rndq_2powi30: "rndq (2 powi (- 30)) = 2 powi (- 30)"
proof -
  have "ilog2 (2 powi (- 30)) = - 30" by (rule ilog2_eqI) simp_all
  then have u: "ulp (2 powi (- 30)) = 2 powi (- 82)" by (simp add: ulp_def)
  have "(2 powi (- 30) :: rat) = 2 powi (52 + - 82)" by simp
  also have "\<dots> = 2 powi 52 * 2 powi (- 82)" by (rule power_int_add) simp
  finally have "(2 powi (- 30) :: rat) = of_int (2 ^ 52) * ulp (2 powi (- 30))"
    unfolding u by (simp add: powi_as_int)
  from round_pos_multiple [OF this] show ?thesis
    by (simp add: rndq_def)
qed

text \<open>A duration is positive exactly when its number of seconds is.\<close>

lemma Duration_Seconds_split:
  assumes "0 \<le> d" "d \<le> 2 ^ 63"
  shows "\<exists>r. Duration_Seconds d = rnd (of_int (d div Second) + r) \<and> Duration_Seconds (- d) = rnd (- of_int (d div Second) - r)
           \<and> 0 \<le> r \<and> r \<le> 1 \<and> (0 < d mod Second \<longrightarrow> 2 powi (- 30) \<le> r)"
proof -
  define m where "m = d mod Second"
  define r where "r = rndq (of_int m / 1000000000)"
  have m: "0 \<le> m" "m < Second" by (simp_all add: m_def)
  have q: "\<bar>d div Second\<bar> \<le> 2 ^ 53" using assms by simp
  have rm: "rnd (of_int m) = Fin (of_int m)" "rnd (of_int (- m)) = Fin (of_int (- m))"
    using m by (intro rnd_of_int; simp)+
  have "(of_int m :: rat) \<le> of_int Second" using m by (intro of_int_le_iff [THEN iffD2]) simp
  then have frac: "0 \<le> (of_int m / 1000000000 :: rat)" "(of_int m / 1000000000 :: rat) \<le> 1"
    using m by simp_all
  have r01: "rnd (of_int m / 1000000000) = Fin r" "0 \<le> r" "r \<le> 1"
    using rnd_between [of 0 "of_int m / 1000000000" 1] frac by (simp_all add: r_def)
  have rneg: "rnd (- (of_int m / 1000000000)) = Fin (- r)"
    using rnd_between(1) [of "- 1" "- (of_int m / 1000000000)" 0] frac by (simp add: r_def rndq_minus)
  have "2 powi (- 30) \<le> r" if "0 < m"
  proof -
    have "(2 powi (- 30) :: rat) \<le> 1 / 1000000000" by simp
    also have "\<dots> \<le> of_int m / 1000000000" using that by (simp add: divide_right_mono)
    finally show ?thesis unfolding r_def using rndq_mono rndq_2powi30 by metis
  qed
  moreover have "Duration_Seconds d = rnd (of_int (d div Second) + r)"
    using assms(1) rnd_of_int [OF q] rm(1) r01(1)
    by (simp add: Duration_Seconds_def sdiv_nonneg smod_nonneg m_def)
  moreover have "Duration_Seconds (- d) = rnd (- of_int (d div Second) - r)"
  proof -
    have "\<bar>- (d div Second)\<bar> \<le> 2 ^ 53" using q by simp
    from rnd_of_int [OF this] show ?thesis
      using assms(1) rm(2) rneg
      by (simp add: Duration_Seconds_def sdiv_minus smod_minus sdiv_nonneg smod_nonneg m_def)
  qed
  ultimately show ?thesis using r01 by (auto simp: m_def)
qed

lemma rnd_positive:
  assumes "2 powi (- 30) \<le> x"
  shows "f_lt (Fin 0) (rnd x)" "f_lt (rnd (- x)) (Fin 0)"
proof -
  have "2 powi (- 30) \<le> rndq x" using rndq_mono [OF assms] by (simp only: rndq_2powi30)
  moreover have "(0::rat) < 2 powi (- 30)" by simp
  ultimately have "0 < rndq x" by linarith
  then show "f_lt (Fin 0) (rnd x)" "f_lt (rnd (- x)) (Fin 0)"
    by (auto simp: rnd_def Let_def rndq_minus)
qed

lemma Duration_Seconds_le_0:
  assumes "minDuration \<le> d" "d \<le> maxDuration"
  shows "f_le (Duration_Seconds d) (Fin 0) \<longleftrightarrow> d \<le> 0"
proof -
  define a where "a = \<bar>d\<bar>"
  have a: "0 \<le> a" "a \<le> 2 ^ 63" using assms by (auto simp: a_def minDuration_def maxDuration_def)
  then obtain r where r: "Duration_Seconds a = rnd (of_int (a div Second) + r)"
      "Duration_Seconds (- a) = rnd (- (of_int (a div Second) + r))"
      "0 \<le> r" "r \<le> 1" "0 < a mod Second \<longrightarrow> 2 powi (- 30) \<le> r"
    using Duration_Seconds_split [of a] by auto
  show ?thesis
  proof (cases "d = 0")
    case True
    then show ?thesis by (simp add: Duration_Seconds_def f_le_def)
  next
    case False
    then have "0 < a" by (simp add: a_def)
    have big: "2 powi (- 30) \<le> of_int (a div Second) + r"
    proof (cases "0 < a mod Second")
      case True
      have "0 \<le> (of_int (a div Second) :: rat)" using a by simp
      then show ?thesis using True r by linarith
    next
      case False
      then have "a mod Second = 0" using pos_mod_sign [of Second a] by linarith
      then have "1 \<le> a div Second" using \<open>0 < a\<close> by (auto elim!: dvdE simp: mod_eq_0_iff_dvd)
      then have "1 \<le> (of_int (a div Second) :: rat)" by simp
      moreover have "(2 powi (- 30) :: rat) \<le> 1" by simp
      ultimately show ?thesis using r by linarith
    qed
    show ?thesis
    proof (cases "0 < d")
      case True
      then have "f_lt (Fin 0) (Duration_Seconds d)" using rnd_positive(1) [OF big] r(1) by (simp add: a_def)
      then show ?thesis using True by (cases "Duration_Seconds d") (auto simp: f_le_def)
    next
      case neg: False
      then have "f_lt (Duration_Seconds d) (Fin 0)" using rnd_positive(2) [OF big] r(2) by (simp add: a_def)
      then show ?thesis using neg by (simp add: f_le_def)
    qed
  qed
qed

end
