(* ===== verification/Wf_Metric.thy ===== *)
theory Wf_Metric
  imports Go_Time Glob_Filter
begin

text \<open>
  The Wavefront data model (\<^verbatim>\<open>internal/wf\<close>): points, distributions, the \<^verbatim>\<open>Metric\<close> interface they
  share, and \<open>wf_Filter\<close>, which applies a \<^verbatim>\<open>filter.Filter\<close> to one metric.

  A method with a pointer receiver returns the updated value. Metrics are non-nil pointers here (the
  nil receiver the tag setters tolerate is the identity), and a nil tag map is the empty map, as no
  method tells them apart. A sender is a parameter: a function from the call to the error it gives.
\<close>

section \<open>Points\<close>

record point =
  pMetric :: string
  pValue :: f64
  pTimestamp :: int64
  pSource :: string
  ptags :: strmap
  labelPairs :: "(string \<times> string) list"

definition NewPoint :: "string \<Rightarrow> f64 \<Rightarrow> int64 \<Rightarrow> string \<Rightarrow> strmap \<Rightarrow> point" where
  "NewPoint name v ts source tags =
     \<lparr> pMetric = name, pValue = v, pTimestamp = ts, pSource = source, ptags = tags, labelPairs = [] \<rparr>"

definition Point_Points :: "point \<Rightarrow> nat" where
  "Point_Points m = 1"

definition Point_SetSource :: "string \<Rightarrow> point \<Rightarrow> point" where
  "Point_SetSource source m = m \<lparr> pSource := source \<rparr>"

definition Point_Name :: "point \<Rightarrow> string" where
  "Point_Name m = pMetric m"

definition Point_SetLabelPairs :: "(string \<times> string) list \<Rightarrow> point \<Rightarrow> point" where
  "Point_SetLabelPairs pairs m = m \<lparr> labelPairs := pairs \<rparr>"

definition Point_SetTags :: "strmap \<Rightarrow> point \<Rightarrow> point" where
  "Point_SetTags tags m = m \<lparr> ptags := tags \<rparr>"

definition Point_OverrideTag :: "string \<Rightarrow> string \<Rightarrow> point \<Rightarrow> point" where
  "Point_OverrideTag name v m = m \<lparr> ptags := gput name v (ptags m) \<rparr>"

definition Point_AddTag :: "string \<Rightarrow> string \<Rightarrow> point \<Rightarrow> point" where
  "Point_AddTag name v m =
     (if map_of (ptags m) name = None then m \<lparr> ptags := gput name v (ptags m) \<rparr> else m)"

definition Point_AddTags :: "strmap \<Rightarrow> point \<Rightarrow> point" where
  "Point_AddTags tags m = fold (\<lambda>(name, v). Point_AddTag name v) tags m"

definition Point_Tags :: "point \<Rightarrow> strmap" where
  "Point_Tags m = put_all (ptags m) (put_all (labelPairs m) [])"

definition Point_FilterTags :: "(string \<Rightarrow> bool) \<Rightarrow> point \<Rightarrow> point" where
  "Point_FilterTags p m =
     m \<lparr> labelPairs := filter (\<lambda>(name, _). p name) (labelPairs m),
         ptags := snd (delete_where (\<lambda>name _. \<not> p name) (ptags m) (ptags m)) \<rparr>"

section \<open>Distributions\<close>

record centroid =
  cValue :: f64
  cCount :: f64

record distribution =
  dCumulative :: bool
  dname :: string
  dtags :: strmap
  dSource :: string
  dCentroids :: "centroid list"
  dTimestamp :: time

text \<open>
  \<^verbatim>\<open>sort.Slice\<close> by value: Go's insertion sort, which moves each element left past the larger
  ones. (For longer slices Go picks another order of equal values; with distinct values there is
  only one sorted order, \<open>sort_centroids_unique\<close> below.)
\<close>

fun move_left :: "centroid \<Rightarrow> centroid list \<Rightarrow> centroid list" where
  "move_left c [] = [c]"
| "move_left c (d # ds) = (if f_lt (cValue c) (cValue d) then d # move_left c ds else c # d # ds)"

definition sort_centroids :: "centroid list \<Rightarrow> centroid list" where
  "sort_centroids cs = rev (fold move_left cs [])"

definition newDistribution ::
    "bool \<Rightarrow> string \<Rightarrow> string \<Rightarrow> strmap \<Rightarrow> centroid list \<Rightarrow> time \<Rightarrow> distribution" where
  "newDistribution cumulative name source tags centroids timestamp =
     \<lparr> dCumulative = cumulative, dname = name, dtags = tags, dSource = source,
       dCentroids = sort_centroids centroids, dTimestamp = timestamp \<rparr>"

definition NewCumulativeDistribution where
  "NewCumulativeDistribution = newDistribution True"

definition NewFrequencyDistribution where
  "NewFrequencyDistribution = newDistribution False"

definition Distribution_Name :: "distribution \<Rightarrow> string" where
  "Distribution_Name d = dname d"

definition Distribution_Tags :: "distribution \<Rightarrow> strmap" where
  "Distribution_Tags d = dtags d"

definition clonedTags :: "distribution \<Rightarrow> strmap" where
  "clonedTags d = put_all (Distribution_Tags d) []"

definition clonedCentroids :: "distribution \<Rightarrow> centroid list" where
  "clonedCentroids d =
     go_copy (replicate (length (dCentroids d)) \<lparr> cValue = Fin 0, cCount = Fin 0 \<rparr>) (dCentroids d)"

definition Distribution_Clone :: "distribution \<Rightarrow> distribution" where
  "Distribution_Clone d =
     newDistribution (dCumulative d) (Distribution_Name d) (dSource d) (clonedTags d) (clonedCentroids d) (dTimestamp d)"

definition Distribution_Points :: "distribution \<Rightarrow> nat" where
  "Distribution_Points d = 7"

definition Distribution_OverrideTag :: "string \<Rightarrow> string \<Rightarrow> distribution \<Rightarrow> distribution" where
  "Distribution_OverrideTag name v d = d \<lparr> dtags := gput name v (dtags d) \<rparr>"

definition Distribution_addTag :: "string \<Rightarrow> string \<Rightarrow> distribution \<Rightarrow> distribution" where
  "Distribution_addTag name v d =
     (if map_of (dtags d) name = None then d \<lparr> dtags := gput name v (dtags d) \<rparr> else d)"

definition Distribution_AddTags :: "strmap \<Rightarrow> distribution \<Rightarrow> distribution" where
  "Distribution_AddTags tags d = fold (\<lambda>(name, v). Distribution_addTag name v) tags d"

definition Distribution_SetSource :: "string \<Rightarrow> distribution \<Rightarrow> distribution" where
  "Distribution_SetSource source d = d \<lparr> dSource := source \<rparr>"

definition Distribution_FilterTags :: "(string \<Rightarrow> bool) \<Rightarrow> distribution \<Rightarrow> distribution" where
  "Distribution_FilterTags p d =
     d \<lparr> dtags := snd (delete_where (\<lambda>name _. \<not> p name) (dtags d) (dtags d)) \<rparr>"

subsection \<open>From cumulative to frequency counts\<close>

fun deriveFrom :: "f64 option \<Rightarrow> centroid list \<Rightarrow> centroid list" where
  "deriveFrom prev [] = []"
| "deriveFrom prev (c # cs) =
     \<lparr> cValue = cValue c, cCount = (case prev of None \<Rightarrow> cCount c | Some p \<Rightarrow> f_sub (cCount c) p) \<rparr>
       # deriveFrom (Some (cCount c)) cs"

definition deriveCentroids :: "centroid list \<Rightarrow> centroid list" where
  "deriveCentroids centroids = deriveFrom None centroids"

definition MaxFloat64 :: f64 where
  "MaxFloat64 = Fin (2 ^ 1024 - 2 ^ 971)"

definition smallestCountAboveZero :: "centroid list \<Rightarrow> f64" where
  "smallestCountAboveZero centroids =
     fold (\<lambda>c minCount. if f_lt (Fin 0) (cCount c) \<and> f_lt (cCount c) minCount then cCount c else minCount)
       centroids MaxFloat64"

text \<open>
  \<^verbatim>\<open>m[k] += c\<close> on a map keyed by floats: a NaN key never equals an existing one, so it adds a
  fresh entry.
\<close>

definition bump :: "f64 \<Rightarrow> f64 \<Rightarrow> (f64, f64) gomap \<Rightarrow> (f64, f64) gomap" where
  "bump k c m =
     (if k = NaN then m @ [(NaN, f_add (Fin 0) c)]
      else gput k (f_add (case map_of m k of None \<Rightarrow> Fin 0 | Some x \<Rightarrow> x) c) m)"

definition centroidMapToSlice :: "(f64, f64) gomap \<Rightarrow> centroid list" where
  "centroidMapToSlice m = map (\<lambda>(v, c). \<lparr> cValue = v, cCount = c \<rparr>) m"

text \<open>One turn of the loop; \<open>prev\<close> is the bound of the bucket before, if there is one.\<close>

definition smoothBucket ::
    "f64 \<Rightarrow> f64 option \<Rightarrow> centroid \<Rightarrow> (f64, f64) gomap \<Rightarrow> (f64, f64) gomap go_result" where
  "smoothBucket amplification prev c m =
     (let currentBucketBound = cValue c;
          actualBucketCount = f_mul (cCount c) amplification
      in if f_le currentBucketBound (Fin 0) \<or> f_eq actualBucketCount (Fin 0) then Inr m
         else if f_eq currentBucketBound PInf \<and> prev = None
         then Inl (GoPanic ''index out of range [-1]'')
         else
           (let actualBucketCount = f_max (Fin 1) actualBucketCount;
                currentBucketBound = (if f_eq currentBucketBound PInf then the prev else currentBucketBound);
                previousBucketBound = (case prev of None \<Rightarrow> Fin 0 | Some b \<Rightarrow> b);
                lowerCount = f_trunc (f_div actualBucketCount (Fin 4));
                m = bump previousBucketBound lowerCount m;
                middleCount = f_trunc (f_div actualBucketCount (Fin 2));
                m = bump (f_div (f_add currentBucketBound previousBucketBound) (Fin 2)) middleCount m;
                upperCount = f_trunc (f_sub (f_sub actualBucketCount lowerCount) middleCount)
            in Inr (bump currentBucketBound upperCount m)))"

fun smoothLoop ::
    "f64 \<Rightarrow> f64 option \<Rightarrow> centroid list \<Rightarrow> (f64, f64) gomap \<Rightarrow> (f64, f64) gomap go_result" where
  "smoothLoop amp prev [] m = Inr m"
| "smoothLoop amp prev (c # cs) m =
     (case smoothBucket amp prev c m of
        Inl e \<Rightarrow> Inl e
      | Inr m' \<Rightarrow> smoothLoop amp (Some (cValue c)) cs m')"

definition smoothCentroids :: "centroid list \<Rightarrow> centroid list go_result" where
  "smoothCentroids derivedCentroids =
     (if length derivedCentroids = 1 \<and> f_eq (cValue (derivedCentroids ! 0)) PInf then Inr []
      else
        (let amplification = f_max (Fin 1) (f_div (Fin 1) (smallestCountAboveZero derivedCentroids))
         in case smoothLoop amplification None derivedCentroids [] of
              Inl e \<Rightarrow> Inl e
            | Inr m \<Rightarrow> Inr (centroidMapToSlice m)))"

definition ToFrequency :: "distribution \<Rightarrow> distribution go_result" where
  "ToFrequency d =
     (if \<not> dCumulative d then Inr d
      else case smoothCentroids (deriveCentroids (dCentroids d)) of
             Inl e \<Rightarrow> Inl e
           | Inr cs \<Rightarrow> Inr (NewFrequencyDistribution (Distribution_Name d) (dSource d) (Distribution_Tags d)
                              cs (dTimestamp d)))"

subsection \<open>Identity and rates\<close>

text \<open>The text that is hashed; the hash function itself is a parameter.\<close>

definition Key_bytes :: "distribution \<Rightarrow> string" where
  "Key_bytes d =
     (if dCumulative d then ''true '' else ''false '') @ dname d @ '' source='' @ dSource d @
     concat (map (\<lambda>name. '' '' @ name @ ''='' @ get_str (Distribution_Tags d) name)
       (sort (map fst (Distribution_Tags d))))"

definition Distribution_Key :: "(string \<Rightarrow> 'h) \<Rightarrow> distribution \<Rightarrow> 'h" where
  "Distribution_Key sum256 d = sum256 (Key_bytes d)"

fun CentroidRates :: "centroid list \<Rightarrow> centroid list \<Rightarrow> duration \<Rightarrow> centroid list option" where
  "CentroidRates (c # cur) (p # prev) duration =
     (if \<not> f_eq (cValue c) (cValue p) \<or> f_lt (cCount c) (cCount p) \<or> f_le (Duration_Seconds duration) (Fin 0)
      then None
      else case CentroidRates cur prev duration of
             None \<Rightarrow> None
           | Some cs \<Rightarrow> Some (\<lparr> cValue = cValue c,
               cCount = f_div (f_sub (cCount c) (cCount p)) (Duration_Minutes duration) \<rparr> # cs))"
| "CentroidRates _ _ duration = Some []"

definition CentroidRate :: "centroid list \<Rightarrow> centroid list \<Rightarrow> duration \<Rightarrow> centroid list option" where
  "CentroidRate cur prev duration =
     (if length cur \<noteq> length prev then None else CentroidRates cur prev duration)"

definition Distribution_Rate ::
    "(string \<Rightarrow> 'h) \<Rightarrow> distribution \<Rightarrow> distribution option \<Rightarrow> distribution option" where
  "Distribution_Rate sum256 d prev =
     (case prev of
        None \<Rightarrow> None
      | Some p \<Rightarrow>
          (if Distribution_Key sum256 p \<noteq> Distribution_Key sum256 d then None
           else case CentroidRate (dCentroids d) (dCentroids p) (Time_Sub (dTimestamp d) (dTimestamp p)) of
                  None \<Rightarrow> None
                | Some cs \<Rightarrow> Some (newDistribution (dCumulative d) (Distribution_Name d) (dSource d)
                                     (Distribution_Tags d) cs (dTimestamp d))))"

section \<open>Sending\<close>

datatype send_call =
    SendMetricCall string f64 int64 string strmap
  | SendDistributionCall string "(f64 \<times> int64) list" "string list" int64 string strmap

type_synonym sender = "send_call \<Rightarrow> go_error option"

definition Point_Send :: "sender \<Rightarrow> point \<Rightarrow> send_call list \<times> go_error option" where
  "Point_Send to m =
     (let c = SendMetricCall (pMetric m) (pValue m) (pTimestamp m) (pSource m) (Point_Tags m) in ([c], to c))"

definition sendableCentroids :: "distribution \<Rightarrow> (f64 \<times> int64) list" where
  "sendableCentroids d =
     map (\<lambda>c. (cValue c, int64_of_f (cCount c))) (filter (\<lambda>c. \<not> f_eq (cCount c) (Fin 0)) (dCentroids d))"

definition Distribution_Send :: "sender \<Rightarrow> distribution \<Rightarrow> send_call list \<times> go_error option" where
  "Distribution_Send to d =
     (if dCumulative d then ([], Some (Errorf ''cannot send prometheus style distribution to wavefront''))
      else
        (let centroids = sendableCentroids d in
         if length centroids = 0 then ([], None)
         else
           (let c = SendDistributionCall (Distribution_Name d) centroids [''MINUTE''] (Time_Unix (dTimestamp d))
                      (dSource d) (Distribution_Tags d)
            in ([c], to c))))"

section \<open>The metric interface\<close>

datatype wf_metric = MPoint point | MDist distribution

fun m_Name :: "wf_metric \<Rightarrow> string" where
  "m_Name (MPoint p) = Point_Name p"
| "m_Name (MDist d) = Distribution_Name d"

fun m_Tags :: "wf_metric \<Rightarrow> strmap" where
  "m_Tags (MPoint p) = Point_Tags p"
| "m_Tags (MDist d) = Distribution_Tags d"

fun m_FilterTags :: "(string \<Rightarrow> bool) \<Rightarrow> wf_metric \<Rightarrow> wf_metric" where
  "m_FilterTags f (MPoint p) = MPoint (Point_FilterTags f p)"
| "m_FilterTags f (MDist d) = MDist (Distribution_FilterTags f d)"

fun m_OverrideTag :: "string \<Rightarrow> string \<Rightarrow> wf_metric \<Rightarrow> wf_metric" where
  "m_OverrideTag n v (MPoint p) = MPoint (Point_OverrideTag n v p)"
| "m_OverrideTag n v (MDist d) = MDist (Distribution_OverrideTag n v d)"

fun m_AddTags :: "strmap \<Rightarrow> wf_metric \<Rightarrow> wf_metric" where
  "m_AddTags ts (MPoint p) = MPoint (Point_AddTags ts p)"
| "m_AddTags ts (MDist d) = MDist (Distribution_AddTags ts d)"

fun m_SetSource :: "string \<Rightarrow> wf_metric \<Rightarrow> wf_metric" where
  "m_SetSource s (MPoint p) = MPoint (Point_SetSource s p)"
| "m_SetSource s (MDist d) = MDist (Distribution_SetSource s d)"

fun m_Send :: "sender \<Rightarrow> wf_metric \<Rightarrow> send_call list \<times> go_error option" where
  "m_Send to (MPoint p) = Point_Send to p"
| "m_Send to (MDist d) = Distribution_Send to d"

fun m_Points :: "wf_metric \<Rightarrow> nat" where
  "m_Points (MPoint p) = Point_Points p"
| "m_Points (MDist d) = Distribution_Points d"

section \<open>Filtering one metric\<close>

text \<open>The second component is the amount added to the \<^verbatim>\<open>filtered\<close> counter.\<close>

definition wf_Filter :: "glob_filter option \<Rightarrow> wf_metric option \<Rightarrow> wf_metric option \<times> nat" where
  "wf_Filter flt pt =
     (case (flt, pt) of
        (Some f, Some m) \<Rightarrow>
          (if \<not> MatchMetric f (m_Name m) (m_Tags m) then (None, 1)
           else (Some (m_FilterTags (MatchTag f) m), 0))
      | _ \<Rightarrow> (pt, 0))"

definition FilterAppend :: "glob_filter option \<Rightarrow> wf_metric list \<Rightarrow> wf_metric option \<Rightarrow> wf_metric list \<times> nat" where
  "FilterAppend flt points pt =
     (case wf_Filter flt pt of
        (None, n) \<Rightarrow> (points, n)
      | (Some m, n) \<Rightarrow> (points @ [m], n))"

section \<open>The laws of the interface\<close>

text \<open>
  What a caller of \<^verbatim>\<open>Metric\<close> may rely on: each setter changes the visible tags as documented and
  leaves name and weight alone. After \<open>add_tags\<close> every name of both maps is a tag, with the value of
  one of them.
\<close>

locale metric_iface =
  fixes valid :: "'m \<Rightarrow> bool"
    and name :: "'m \<Rightarrow> string"
    and tags :: "'m \<Rightarrow> strmap"
    and filter_tags :: "(string \<Rightarrow> bool) \<Rightarrow> 'm \<Rightarrow> 'm"
    and override_tag :: "string \<Rightarrow> string \<Rightarrow> 'm \<Rightarrow> 'm"
    and add_tags :: "strmap \<Rightarrow> 'm \<Rightarrow> 'm"
    and set_source :: "string \<Rightarrow> 'm \<Rightarrow> 'm"
    and points :: "'m \<Rightarrow> nat"
  assumes wf_tags: "valid m \<Longrightarrow> wf_map (tags m)"
    and valid_kept [simp]: "valid m \<Longrightarrow> valid (filter_tags p m)" "valid m \<Longrightarrow> valid (override_tag n v m)"
      "valid m \<Longrightarrow> valid (add_tags ts m)" "valid m \<Longrightarrow> valid (set_source s m)"
    and tags_filter: "valid m \<Longrightarrow> map_of (tags (filter_tags p m)) k = (if p k then map_of (tags m) k else None)"
    and tags_override: "valid m \<Longrightarrow> map_of (tags (override_tag n v m)) = (map_of (tags m))(n \<mapsto> v)"
    and tags_add_absent: "valid m \<Longrightarrow> map_of (tags m) k = None \<Longrightarrow> map_of (tags (add_tags ts m)) k = map_of ts k"
    and tags_add_other: "valid m \<Longrightarrow> map_of ts k = None \<Longrightarrow> map_of (tags (add_tags ts m)) k = map_of (tags m) k"
    and tags_add_val: "valid m \<Longrightarrow> map_of (tags (add_tags ts m)) k \<in> {map_of (tags m) k, map_of ts k}"
    and tags_source: "tags (set_source s m) = tags m"
    and name_kept: "name (filter_tags p m) = name m" "name (override_tag n v m) = name m"
      "name (add_tags ts m) = name m" "name (set_source s m) = name m"
    and points_kept: "points (filter_tags p m) = points m" "points (override_tag n v m) = points m"
      "points (add_tags ts m) = points m" "points (set_source s m) = points m"
begin

lemma filter_tags_comp:
  "valid m \<Longrightarrow> map_of (tags (filter_tags p (filter_tags q m))) = map_of (tags (filter_tags (\<lambda>k. p k \<and> q k) m))"
  by (auto simp: fun_eq_iff tags_filter)

lemma filter_override_kept:
  "valid m \<Longrightarrow> p n \<Longrightarrow> map_of (tags (filter_tags p (override_tag n v m))) n = Some v"
  by (simp add: tags_filter tags_override)

lemma add_tags_dom:
  "valid m \<Longrightarrow> dom (map_of (tags (add_tags ts m))) = dom (map_of (tags m)) \<union> dom (map_of ts)"
proof (intro set_eqI)
  fix k assume m: "valid m"
  show "k \<in> dom (map_of (tags (add_tags ts m))) \<longleftrightarrow> k \<in> dom (map_of (tags m)) \<union> dom (map_of ts)"
    using tags_add_val [OF m, of ts k] tags_add_absent [OF m, of k ts] tags_add_other [OF m, of ts k]
    by (cases "map_of (tags m) k"; cases "map_of ts k") (auto simp: domIff)
qed

end

text \<open>
  The stronger promise of the comment on \<^verbatim>\<open>AddTags\<close>: tags that exist already keep their value. It
  holds of the metrics for which \<open>plain\<close> does.
\<close>

locale additive_metric = metric_iface +
  fixes plain :: "'a \<Rightarrow> bool"
  assumes tags_add: "valid m \<Longrightarrow> plain m \<Longrightarrow> map_of (tags (add_tags ts m)) = map_of ts ++ map_of (tags m)"
    and plain_kept: "plain m \<Longrightarrow> plain (filter_tags p m)" "plain m \<Longrightarrow> plain (override_tag n v m)"
      "plain m \<Longrightarrow> plain (add_tags ts m)" "plain m \<Longrightarrow> plain (set_source s m)"
begin

lemma add_tags_existing:
  "valid m \<Longrightarrow> plain m \<Longrightarrow> map_of (tags m) k = Some v \<Longrightarrow> map_of (tags (add_tags ts m)) k = Some v"
  by (simp add: tags_add)

lemma add_tags_twice:
  "valid m \<Longrightarrow> plain m \<Longrightarrow> map_of (tags (add_tags ts (add_tags us m))) = map_of (tags (add_tags (us @ ts) m))"
  by (simp add: tags_add plain_kept)

lemma override_survives_add:
  "valid m \<Longrightarrow> plain m \<Longrightarrow> map_of (tags (add_tags ts (override_tag n v m))) n = Some v"
  by (intro add_tags_existing) (simp_all add: plain_kept tags_override)

end

definition valid_point :: "point \<Rightarrow> bool" where
  "valid_point m \<longleftrightarrow> wf_map (ptags m)"

definition valid_distribution :: "distribution \<Rightarrow> bool" where
  "valid_distribution d \<longleftrightarrow> wf_map (dtags d)"

lemma map_of_Point_Tags:
  "valid_point m \<Longrightarrow> map_of (Point_Tags m) = map_of (rev (labelPairs m)) ++ map_of (ptags m)"
  unfolding Point_Tags_def valid_point_def by (simp add: map_of_put_all) (simp add: map_of_put_all_rev)

lemma wf_Point_Tags [simp]: "wf_map (Point_Tags m)"
  by (simp add: Point_Tags_def)

lemma Point_AddTags_fields:
  "labelPairs (Point_AddTags ts m) = labelPairs m \<and> pMetric (Point_AddTags ts m) = pMetric m \<and>
   map_of (ptags (Point_AddTags ts m)) = map_of ts ++ map_of (ptags m) \<and>
   (wf_map (ptags m) \<longrightarrow> wf_map (ptags (Point_AddTags ts m)))"
proof (induction ts arbitrary: m)
  case (Cons t ts)
  obtain k v where t: "t = (k, v)" by (cases t)
  have step: "Point_AddTags (t # ts) m = Point_AddTags ts (Point_AddTag k v m)"
    by (simp add: Point_AddTags_def t)
  show ?case
    unfolding step using Cons [of "Point_AddTag k v m"]
    by (auto simp: t Point_AddTag_def fun_eq_iff map_add_def split: option.splits)
qed (simp add: Point_AddTags_def)

lemma Distribution_AddTags_fields:
  "dname (Distribution_AddTags ts d) = dname d \<and>
   map_of (dtags (Distribution_AddTags ts d)) = map_of ts ++ map_of (dtags d) \<and>
   (wf_map (dtags d) \<longrightarrow> wf_map (dtags (Distribution_AddTags ts d)))"
proof (induction ts arbitrary: d)
  case (Cons t ts)
  obtain k v where t: "t = (k, v)" by (cases t)
  have step: "Distribution_AddTags (t # ts) d = Distribution_AddTags ts (Distribution_addTag k v d)"
    by (simp add: Distribution_AddTags_def t)
  show ?case
    unfolding step using Cons [of "Distribution_addTag k v d"]
    by (auto simp: t Distribution_addTag_def fun_eq_iff map_add_def split: option.splits)
qed (simp add: Distribution_AddTags_def)

lemmas point_defs = Point_SetSource_def Point_Name_def Point_OverrideTag_def Point_FilterTags_def Point_Points_def
lemmas distribution_defs = Distribution_SetSource_def Distribution_Name_def Distribution_OverrideTag_def
  Distribution_FilterTags_def Distribution_Points_def Distribution_Tags_def

lemma map_of_rev_filter_key:
  "map_of (rev (filter (\<lambda>(k, _). p k) xs)) k = (if p k then map_of (rev xs) k else None)"
  by (simp add: rev_filter map_of_filter_key)

interpretation pt: additive_metric valid_point Point_Name Point_Tags Point_FilterTags Point_OverrideTag
    Point_AddTags Point_SetSource Point_Points "\<lambda>m. labelPairs m = []"
proof (unfold_locales, goal_cases)
  case (6 m p k)
  then have "valid_point (Point_FilterTags p m)"
    by (simp add: valid_point_def Point_FilterTags_def delete_where_keys_own)
  with 6 show ?case
    by (simp add: map_of_Point_Tags)
       (simp add: Point_FilterTags_def delete_where_keys_own map_add_def map_of_filter_key map_of_rev_filter_key
          split: option.split)
next
  case (7 m n v)
  then have "valid_point (Point_OverrideTag n v m)" by (simp add: valid_point_def Point_OverrideTag_def)
  with 7 show ?case by (simp add: map_of_Point_Tags) (simp add: Point_OverrideTag_def)
next
  case 11
  then show ?case by (simp add: Point_SetSource_def Point_Tags_def)
qed (use Point_AddTags_fields in \<open>auto simp: valid_point_def point_defs delete_where_keys_own map_of_Point_Tags
        map_add_def split: option.splits\<close>)

interpretation dist: additive_metric valid_distribution Distribution_Name Distribution_Tags Distribution_FilterTags
    Distribution_OverrideTag Distribution_AddTags Distribution_SetSource Distribution_Points "\<lambda>d. True"
  by (unfold_locales; use Distribution_AddTags_fields in \<open>auto simp: valid_distribution_def distribution_defs
        delete_where_keys_own map_of_filter_key map_add_def split: option.splits\<close>)

fun valid_metric :: "wf_metric \<Rightarrow> bool" where
  "valid_metric (MPoint p) = valid_point p"
| "valid_metric (MDist d) = valid_distribution d"

fun plain_metric :: "wf_metric \<Rightarrow> bool" where
  "plain_metric (MPoint p) = (labelPairs p = [])"
| "plain_metric (MDist d) = True"

interpretation met: additive_metric valid_metric m_Name m_Tags m_FilterTags m_OverrideTag m_AddTags
    m_SetSource m_Points plain_metric
proof (unfold_locales, goal_cases)
  case (1 m) then show ?case by (cases m) (simp_all add: pt.wf_tags dist.wf_tags)
next
  case (2 m p) then show ?case by (cases m) simp_all
next
  case (3 m n v) then show ?case by (cases m) simp_all
next
  case (4 m ts) then show ?case by (cases m) simp_all
next
  case (5 m s) then show ?case by (cases m) simp_all
next
  case (6 m p k) then show ?case by (cases m) (simp_all add: pt.tags_filter dist.tags_filter)
next
  case (7 m n v) then show ?case by (cases m) (simp_all add: pt.tags_override dist.tags_override)
next
  case (8 m k ts) then show ?case by (cases m) (simp_all add: pt.tags_add_absent dist.tags_add_absent)
next
  case (9 m ts k) then show ?case by (cases m) (simp_all add: pt.tags_add_other dist.tags_add_other)
next
  case (10 m ts k)
  then show ?case using pt.tags_add_val dist.tags_add_val by (cases m) simp_all
next
  case (11 s m) then show ?case by (cases m) (simp_all add: pt.tags_source dist.tags_source)
next
  case (12 p m) then show ?case by (cases m) (simp_all add: pt.name_kept dist.name_kept)
next
  case (13 n v m) then show ?case by (cases m) (simp_all add: pt.name_kept dist.name_kept)
next
  case (14 ts m) then show ?case by (cases m) (simp_all add: pt.name_kept dist.name_kept)
next
  case (15 s m) then show ?case by (cases m) (simp_all add: pt.name_kept dist.name_kept)
next
  case (16 p m) then show ?case by (cases m) (simp_all add: pt.points_kept dist.points_kept)
next
  case (17 n v m) then show ?case by (cases m) (simp_all add: pt.points_kept dist.points_kept)
next
  case (18 ts m) then show ?case by (cases m) (simp_all add: pt.points_kept dist.points_kept)
next
  case (19 s m) then show ?case by (cases m) (simp_all add: pt.points_kept dist.points_kept)
next
  case (20 m ts) then show ?case by (cases m) (simp_all add: pt.tags_add dist.tags_add)
next
  case (21 m p) then show ?case by (cases m) (simp_all add: pt.plain_kept)
next
  case (22 m n v) then show ?case by (cases m) (simp_all add: pt.plain_kept)
next
  case (23 m ts) then show ?case by (cases m) (simp_all add: pt.plain_kept)
next
  case (24 m s) then show ?case by (cases m) (simp_all add: pt.plain_kept)
qed

text \<open>
  A point with label pairs (a Prometheus sample) is not plain: \<open>Point_AddTag\<close> looks for the name among
  \<^verbatim>\<open>m.tags\<close> only, so adding a tag replaces the value a label pair gave it, although the tag
  exists in \<^verbatim>\<open>Tags()\<close>.
\<close>

lemma Point_AddTags_replaces_label:
  assumes "valid_point m" "map_of (ptags m) k = None" "map_of ts k = Some v"
  shows "map_of (Point_Tags (Point_AddTags ts m)) k = Some v"
proof -
  have "valid_point (Point_AddTags ts m)" using assms(1) Point_AddTags_fields by (simp add: valid_point_def)
  from map_of_Point_Tags [OF this] show ?thesis
    using assms Point_AddTags_fields [of ts m] by (simp add: map_add_def)
qed

section \<open>Sorting and rates\<close>

definition value_sorted :: "centroid list \<Rightarrow> bool" where
  "value_sorted = sorted_wrt (\<lambda>a b. \<not> f_lt (cValue b) (cValue a))"

lemma mset_move_left [simp]: "mset (move_left c ds) = add_mset c (mset ds)"
  by (induction ds) auto

lemma mset_fold_move_left: "mset (fold move_left cs acc) = mset cs + mset acc"
  by (induction cs arbitrary: acc) auto

lemma mset_sort_centroids [simp]: "mset (sort_centroids cs) = mset cs"
  by (simp add: sort_centroids_def mset_fold_move_left)

lemma set_sort_centroids [simp]: "set (sort_centroids cs) = set cs"
  by (metis mset_sort_centroids set_mset_mset)

lemma f_lt_connex: "a \<noteq> NaN \<Longrightarrow> b \<noteq> NaN \<Longrightarrow> f_lt a b \<or> a = b \<or> f_lt b a"
  by (cases a; cases b) auto

lemma not_f_lt_trans:
  "b \<noteq> NaN \<Longrightarrow> \<not> f_lt b a \<Longrightarrow> \<not> f_lt c b \<Longrightarrow> \<not> f_lt c a"
  by (cases a; cases b; cases c) auto

lemma move_left_sorted:
  assumes "sorted_wrt (\<lambda>a b. \<not> f_lt (cValue a) (cValue b)) ds" "\<forall>d \<in> set (c # ds). cValue d \<noteq> NaN"
  shows "sorted_wrt (\<lambda>a b. \<not> f_lt (cValue a) (cValue b)) (move_left c ds)"
  using assms
proof (induction ds)
  case (Cons d ds)
  have set_eq: "set (move_left c ds) = insert c (set ds)"
    by (metis mset_move_left set_mset_add_mset_insert set_mset_mset)
  show ?case
  proof (cases "f_lt (cValue c) (cValue d)")
    case True
    then have "\<not> f_lt (cValue d) (cValue c)" using f_lt_trans f_lt_irrefl by blast
    with True Cons set_eq show ?thesis by simp
  next
    case False
    have "\<not> f_lt (cValue c) (cValue x)" if "x \<in> set ds" for x
      using not_f_lt_trans [of "cValue d" "cValue x" "cValue c"] False Cons.prems that by simp
    with False Cons.prems show ?thesis by simp
  qed
qed simp

lemma sort_centroids_sorted:
  assumes "\<forall>c \<in> set cs. cValue c \<noteq> NaN"
  shows "value_sorted (sort_centroids cs)"
proof -
  have "sorted_wrt (\<lambda>a b. \<not> f_lt (cValue a) (cValue b)) (fold move_left cs acc)"
    if "sorted_wrt (\<lambda>a b. \<not> f_lt (cValue a) (cValue b)) acc" "\<forall>c \<in> set (cs @ acc). cValue c \<noteq> NaN" for acc
    using that
  proof (induction cs arbitrary: acc)
    case (Cons c cs)
    have "set (move_left c acc) = insert c (set acc)"
      by (metis mset_move_left set_mset_add_mset_insert set_mset_mset)
    with Cons show ?case by (simp add: move_left_sorted)
  qed simp
  from this [of "[]"] assms show ?thesis
    by (simp add: value_sorted_def sort_centroids_def sorted_wrt_rev)
qed

lemma sort_centroids_unique:
  assumes "mset xs = mset ys" "value_sorted xs" "value_sorted ys"
    and "\<forall>c \<in> set xs. cValue c \<noteq> NaN" "distinct (map cValue xs)"
  shows "xs = ys"
  using assms
proof (induction xs arbitrary: ys)
  case (Cons x xs)
  then obtain y ys' where ys: "ys = y # ys'" by (cases ys) auto
  have sets: "insert x (set xs) = insert y (set ys')"
    using Cons.prems(1) ys by (metis mset_eq_setD list.simps(15))
  have "x = y"
  proof (rule ccontr)
    assume ne: "x \<noteq> y"
    then have "y \<in> set xs" "x \<in> set ys'" using sets by auto
    then have "\<not> f_lt (cValue y) (cValue x)" "\<not> f_lt (cValue x) (cValue y)" "cValue x \<noteq> cValue y" "cValue y \<noteq> NaN"
      using Cons.prems ys by (auto simp: value_sorted_def)
    with f_lt_connex [of "cValue x" "cValue y"] Cons.prems(4) show False by auto
  qed
  with Cons ys show ?case by (auto simp: value_sorted_def)
qed simp

end
