(* ===== verification/Wf_Histogram.thy ===== *)
theory Wf_Histogram
  imports Wf_Metric
begin

text \<open>
  What the distribution arithmetic of \<^verbatim>\<open>internal/wf/distribution.go\<close> guarantees: the conversion of a
  cumulative histogram keeps the number of observations, the smoothing panics only on a leading
  infinite bucket, rates are computed exactly when the two snapshots are comparable, and a
  distribution's identity does not depend on the order of its tags.
\<close>

section \<open>Counting observations\<close>

text \<open>The number of observations a count stands for, when it is a natural number.\<close>

definition icount :: "centroid \<Rightarrow> int" where
  "icount c = (case cCount c of Fin a \<Rightarrow> \<lfloor>a\<rfloor> | _ \<Rightarrow> 0)"

definition int_count :: "centroid \<Rightarrow> bool" where
  "int_count c \<longleftrightarrow> cCount c = Fin (of_int (icount c)) \<and> 0 \<le> icount c"

definition isum :: "centroid list \<Rightarrow> int" where
  "isum cs = sum_list (map icount cs)"

definition ival :: "f64 \<Rightarrow> int" where
  "ival x = (case x of Fin a \<Rightarrow> \<lfloor>a\<rfloor> | _ \<Rightarrow> 0)"

text \<open>A map of counts: proper keys, natural numbers as values, \<open>N\<close> observations in all.\<close>

definition int_map :: "(f64, f64) gomap \<Rightarrow> int \<Rightarrow> bool" where
  "int_map m N \<longleftrightarrow> wf_map m \<and> (\<forall>(k, c) \<in> set m. k \<noteq> NaN \<and> c = Fin (of_int (ival c)) \<and> 0 \<le> ival c) \<and>
     sum_list (map (\<lambda>(_, c). ival c) m) = N"

lemma ival_of_int [simp]: "ival (Fin (of_int n)) = n"
  by (simp add: ival_def)

lemma int_map_lookup:
  assumes "int_map m N" "map_of m k = Some x"
  shows "\<exists>n. x = Fin (of_int n) \<and> 0 \<le> n \<and> n \<le> N"
proof -
  have mem: "(k, x) \<in> set m" using assms(2) by (rule map_of_SomeD)
  then have x: "x = Fin (of_int (ival x))" "0 \<le> ival x" using assms(1) by (auto simp: int_map_def)
  have "ival x \<le> sum_list (map (\<lambda>(_, c). ival c) m)"
    by (rule member_le_sum_list) (use assms(1) mem in \<open>force simp: int_map_def\<close>)+
  with x assms(1) show ?thesis unfolding int_map_def by metis
qed

lemma int_map_bump:
  assumes m: "int_map m N" and k: "k \<noteq> NaN" and n: "0 \<le> n" "N + n \<le> 2 ^ 53"
  shows "int_map (bump k (Fin (of_int n)) m) (N + n)"
proof -
  obtain x where x: "(case map_of m k of None \<Rightarrow> Fin 0 | Some x \<Rightarrow> x) = Fin (of_int x)"
      "0 \<le> x" "x \<le> N" "(case map_of m k of None \<Rightarrow> 0 | Some x \<Rightarrow> ival x) = x"
  proof (cases "map_of m k")
    case None
    have "0 \<le> N" using m by (auto simp: int_map_def intro!: sum_list_nonneg)
    with None show ?thesis by (intro that [of 0]) simp_all
  next
    case (Some y)
    with int_map_lookup [OF m Some] show ?thesis using that by auto
  qed
  have "f_add (Fin (of_int x)) (Fin (of_int n)) = Fin (of_int (x + n))"
    using x n rnd_of_int [of "x + n"] by simp
  then have b: "bump k (Fin (of_int n)) m = gput k (Fin (of_int (x + n))) m"
    unfolding bump_def x(1) using k by simp
  have "sum_list (map (\<lambda>(_, c). ival c) (bump k (Fin (of_int n)) m)) = N + n"
    unfolding b sum_gput x(4) using m by (simp add: int_map_def del: of_int_add)
  moreover have "\<forall>(k, c) \<in> set (bump k (Fin (of_int n)) m). k \<noteq> NaN \<and> c = Fin (of_int (ival c)) \<and> 0 \<le> ival c"
  proof -
    have "\<forall>(k, c) \<in> insert (k, Fin (of_int (x + n))) (set m). k \<noteq> NaN \<and> c = Fin (of_int (ival c)) \<and> 0 \<le> ival c"
      using m k x n unfolding int_map_def by (simp del: of_int_add)
    with set_gput [of k "Fin (of_int (x + n))" m] show ?thesis unfolding b by blast
  qed
  ultimately show ?thesis using m b by (simp add: int_map_def)
qed

text \<open>A quarter and a half of a natural count, truncated.\<close>

lemma trunc_half_quarter:
  assumes "1 \<le> n" "n \<le> 2 ^ 53"
  shows "f_trunc (f_div (Fin (of_int n)) (Fin 2)) = Fin (of_int (n div 2))"
    and "f_trunc (f_div (Fin (of_int n)) (Fin 4)) = Fin (of_int (n div 4))"
proof -
  have le: "(of_int n / 2 :: rat) \<le> of_int n" "(of_int n / 4 :: rat) \<le> of_int n" using assms by simp_all
  have "rnd (of_int n / 2) = Fin (of_int n / 2)" "rnd (of_int n / 4) = Fin (of_int n / 4)"
    using rnd_between(1) [of 0 "of_int n / 2" n] rnd_between(1) [of 0 "of_int n / 4" n] le assms
      rndq_int_half [of n] by simp_all
  moreover have "\<lfloor>of_int n / 2 :: rat\<rfloor> = n div 2" "\<lfloor>of_int n / 4 :: rat\<rfloor> = n div 4"
    using floor_divide_of_int_eq [of n 2, where ?'a = rat] floor_divide_of_int_eq [of n 4, where ?'a = rat] by simp_all
  ultimately show "f_trunc (f_div (Fin (of_int n)) (Fin 2)) = Fin (of_int (n div 2))"
    "f_trunc (f_div (Fin (of_int n)) (Fin 4)) = Fin (of_int (n div 4))"
    using assms by (simp_all add: trunc_rat_def)
qed

definition fin_bound :: "f64 \<Rightarrow> bool" where
  "fin_bound b \<longleftrightarrow> (\<exists>x. b = Fin x)"

lemma rnd_not_NaN [simp]: "rnd x \<noteq> NaN"
  by (simp add: rnd_def Let_def)

lemma mid_not_NaN: "fin_bound a \<Longrightarrow> fin_bound b \<Longrightarrow> f_div (f_add a b) (Fin 2) \<noteq> NaN"
proof -
  assume "fin_bound a" "fin_bound b"
  then obtain x where x: "f_add a b = rnd x" by (auto simp: fin_bound_def)
  show ?thesis unfolding x using rnd_not_NaN [of x] by (cases "rnd x") (simp_all add: signed_inf_def)
qed

lemma smoothBucket_total:
  assumes m: "int_map m N" and c: "int_count c" "N + icount c \<le> 2 ^ 53"
    and b: "fin_bound (cValue c) \<or> cValue c = PInf \<and> prev \<noteq> None" and p: "\<forall>q. prev = Some q \<longrightarrow> fin_bound q"
  shows "\<exists>m'. smoothBucket (Fin 1) prev c m = Inr m' \<and>
           int_map m' (N + (if f_lt (Fin 0) (cValue c) then icount c else 0))"
proof -
  define n where "n = icount c"
  have cc: "cCount c = Fin (of_int n)" "0 \<le> n" using c by (simp_all add: int_count_def n_def)
  have N: "0 \<le> N" using m by (auto simp: int_map_def intro!: sum_list_nonneg)
  have act: "f_mul (cCount c) (Fin 1) = Fin (of_int n)"
    using cc c N rnd_of_int [of n] by (simp add: n_def)
  show ?thesis
  proof (cases "f_lt (Fin 0) (cValue c) \<and> 1 \<le> n")
    case False
    then have "f_le (cValue c) (Fin 0) \<or> n = 0" using b cc by (auto simp: fin_bound_def f_le_def)
    then have "smoothBucket (Fin 1) prev c m = Inr m" by (auto simp: smoothBucket_def act)
    moreover have "(if f_lt (Fin 0) (cValue c) then icount c else 0) = 0" using False cc by (auto simp: n_def)
    ultimately show ?thesis using m by simp
  next
    case True
    define cb where "cb = (if cValue c = PInf then the prev else cValue c)"
    define pb where "pb = (case prev of None \<Rightarrow> Fin 0 | Some b \<Rightarrow> b)"
    have fb: "fin_bound cb" "fin_bound pb" using b p
      by (auto simp: cb_def pb_def fin_bound_def split: option.splits)
    then have nn: "cb \<noteq> NaN" "pb \<noteq> NaN" by (auto simp: fin_bound_def)
    have n53: "n \<le> 2 ^ 53" using c N by (simp add: n_def)
    have parts: "n div 4 + n div 2 \<le> n" "0 \<le> n div 4" "0 \<le> n div 2" using cc by simp_all
    have upper: "f_trunc (f_sub (f_sub (Fin (of_int n)) (Fin (of_int (n div 4)))) (Fin (of_int (n div 2)))) =
        Fin (of_int (n - n div 4 - n div 2))"
      using rnd_of_int [of "n - n div 4"] rnd_of_int [of "n - n div 4 - n div 2"] parts n53 cc
      by (simp add: f_sub_def trunc_rat_def)
    have halves: "f_trunc (f_div (Fin (of_int n)) (Fin 2)) = Fin (of_int (n div 2))"
      "f_trunc (f_div (Fin (of_int n)) (Fin 4)) = Fin (of_int (n div 4))"
      using trunc_half_quarter [of n] True n53 by simp_all
    have max1: "f_max (Fin 1) (Fin (of_int n)) = Fin (of_int n)" using True by (simp add: f_max_def)
    have guards: "\<not> f_le (cValue c) (Fin 0)" "\<not> f_eq (Fin (of_int n)) (Fin 0)"
        "\<not> (f_eq (cValue c) PInf \<and> prev = None)" "f_eq (cValue c) PInf = (cValue c = PInf)"
      using True b by (auto simp: f_le_def fin_bound_def f_eq_iff)
    have eq: "smoothBucket (Fin 1) prev c m = Inr (bump cb (Fin (of_int (n - n div 4 - n div 2)))
        (bump (f_div (f_add cb pb) (Fin 2)) (Fin (of_int (n div 2))) (bump pb (Fin (of_int (n div 4))) m)))"
      unfolding smoothBucket_def act Let_def cb_def pb_def
      using guards by (simp only: max1 halves upper simp_thms if_False)
    have "int_map (bump pb (Fin (of_int (n div 4))) m) (N + n div 4)"
      using m nn parts c by (intro int_map_bump) (simp_all add: n_def)
    then have "int_map (bump (f_div (f_add cb pb) (Fin 2)) (Fin (of_int (n div 2)))
        (bump pb (Fin (of_int (n div 4))) m)) (N + n div 4 + n div 2)"
      by (rule int_map_bump) (use mid_not_NaN [OF fb] parts c in \<open>simp_all add: n_def\<close>)
    then have "int_map (bump cb (Fin (of_int (n - n div 4 - n div 2)))
        (bump (f_div (f_add cb pb) (Fin 2)) (Fin (of_int (n div 2))) (bump pb (Fin (of_int (n div 4))) m)))
        (N + n div 4 + n div 2 + (n - n div 4 - n div 2))"
      by (rule int_map_bump) (use nn parts c in \<open>simp_all add: n_def\<close>)
    with eq True show ?thesis by (simp add: n_def)
  qed
qed

definition good_bounds :: "f64 option \<Rightarrow> centroid list \<Rightarrow> bool" where
  "good_bounds prev cs \<longleftrightarrow>
     (\<forall>q. prev = Some q \<longrightarrow> fin_bound q) \<and> (\<forall>c \<in> set (butlast cs). fin_bound (cValue c)) \<and>
     (cs \<noteq> [] \<longrightarrow> fin_bound (cValue (last cs)) \<or> cValue (last cs) = PInf \<and> (prev \<noteq> None \<or> tl cs \<noteq> []))"

lemma good_bounds_Cons:
  assumes "good_bounds prev (c # cs)"
  shows "fin_bound (cValue c) \<or> cValue c = PInf \<and> prev \<noteq> None"
    and "cs \<noteq> [] \<Longrightarrow> good_bounds (Some (cValue c)) cs"
  using assms by (cases cs; auto simp: good_bounds_def)+

definition positive_sum :: "centroid list \<Rightarrow> int" where
  "positive_sum cs = isum (filter (\<lambda>c. f_lt (Fin 0) (cValue c)) cs)"

lemma isum_simps [simp]: "isum [] = 0" "isum (c # cs) = icount c + isum cs"
  by (simp_all add: isum_def)

lemma isum_nonneg: "\<forall>c \<in> set cs. int_count c \<Longrightarrow> 0 \<le> isum cs"
  by (induction cs) (auto simp: int_count_def)

lemma smoothLoop_total:
  assumes "int_map m N" "\<forall>c \<in> set cs. int_count c" "N + isum cs \<le> 2 ^ 53" "good_bounds prev cs"
  shows "\<exists>m'. smoothLoop (Fin 1) prev cs m = Inr m' \<and> int_map m' (N + positive_sum cs)"
  using assms
proof (induction cs arbitrary: prev m N)
  case Nil
  then show ?case by (simp add: positive_sum_def)
next
  case (Cons c cs)
  have "0 \<le> isum cs" "0 \<le> icount c" using Cons.prems(2) isum_nonneg [of cs] by (auto simp: int_count_def)
  then obtain m1 where m1: "smoothBucket (Fin 1) prev c m = Inr m1"
      "int_map m1 (N + (if f_lt (Fin 0) (cValue c) then icount c else 0))"
    using smoothBucket_total [of m N c prev] Cons.prems good_bounds_Cons(1) [OF Cons.prems(4)]
    by (auto simp: good_bounds_def)
  show ?case
  proof (cases "cs = []")
    case True
    with m1 show ?thesis by (auto simp: positive_sum_def)
  next
    case False
    have "N + (if f_lt (Fin 0) (cValue c) then icount c else 0) + isum cs \<le> 2 ^ 53"
      using Cons.prems(3) \<open>0 \<le> icount c\<close> by simp
    from Cons.IH [OF m1(2) _ this good_bounds_Cons(2) [OF Cons.prems(4) False]] Cons.prems(2) m1(1)
    show ?thesis by (auto simp: positive_sum_def algebra_simps)
  qed
qed

text \<open>With counts that are natural numbers the smallest one above zero is at least one, so nothing is amplified.\<close>

lemma smallestCount_ge_1:
  assumes "\<forall>c \<in> set cs. int_count c"
  shows "\<exists>x \<ge> 1. smallestCountAboveZero cs = Fin x"
proof -
  have "\<exists>x \<ge> 1. fold (\<lambda>c minCount. if f_lt (Fin 0) (cCount c) \<and> f_lt (cCount c) minCount then cCount c else minCount)
      cs (Fin a) = Fin x" if "1 \<le> a" for a
    using assms that
  proof (induction cs arbitrary: a)
    case (Cons c cs)
    then have "cCount c = Fin (of_int (icount c))" by (simp add: int_count_def)
    with Cons show ?case by (auto simp: int_count_def)
  qed auto
  moreover have "(1::rat) \<le> 2 ^ 1024 - 2 ^ 971" by simp
  ultimately show ?thesis by (simp add: smallestCountAboveZero_def MaxFloat64_def del: power_numeral)
qed

lemma no_amplification:
  assumes "\<forall>c \<in> set cs. int_count c"
  shows "f_max (Fin 1) (f_div (Fin 1) (smallestCountAboveZero cs)) = Fin 1"
proof -
  obtain x where x: "1 \<le> x" "smallestCountAboveZero cs = Fin x" using smallestCount_ge_1 [OF assms] by auto
  then have "rnd (1 / x) = Fin (rndq (1 / x)) \<and> rndq (1 / x) \<le> 1"
    using rnd_between [of 0 "1 / x" 1] by simp
  with x show ?thesis by (simp add: f_max_def)
qed

lemma isum_mset: "mset xs = mset ys \<Longrightarrow> isum xs = isum ys"
  unfolding isum_def by (metis mset_map sum_mset_sum_list)

lemma isum_centroidMapToSlice: "isum (centroidMapToSlice m) = sum_list (map (\<lambda>(_, c). ival c) m)"
  by (simp add: isum_def centroidMapToSlice_def comp_def case_prod_unfold icount_def ival_def)

lemma smoothCentroids_total:
  assumes "\<forall>c \<in> set cs. int_count c" "isum cs \<le> 2 ^ 53" "good_bounds None cs"
  shows "\<exists>out. smoothCentroids cs = Inr out \<and> isum out = positive_sum cs \<and>
           (\<forall>c \<in> set out. int_count c \<and> cValue c \<noteq> NaN) \<and> distinct (map cValue out)"
proof -
  have "int_map [] 0" by (simp add: int_map_def)
  from smoothLoop_total [OF this assms(1) _ assms(3)] assms(2)
  obtain m where m: "smoothLoop (Fin 1) None cs [] = Inr m" "int_map m (positive_sum cs)" by auto
  have "\<not> (length cs = 1 \<and> f_eq (cValue (cs ! 0)) PInf)"
    using assms(3) by (cases cs) (auto simp: good_bounds_def fin_bound_def)
  then have "smoothCentroids cs = Inr (centroidMapToSlice m)"
    unfolding smoothCentroids_def no_amplification [OF assms(1)] Let_def m(1) by auto
  moreover have "isum (centroidMapToSlice m) = positive_sum cs"
    using m(2) by (simp add: isum_centroidMapToSlice int_map_def)
  moreover have "\<forall>c \<in> set (centroidMapToSlice m). int_count c \<and> cValue c \<noteq> NaN"
    using m(2) by (fastforce simp: centroidMapToSlice_def int_map_def int_count_def icount_def ival_def)
  moreover have "distinct (map cValue (centroidMapToSlice m))"
    using m(2) by (simp add: centroidMapToSlice_def int_map_def comp_def case_prod_unfold)
  ultimately show ?thesis by blast
qed

section \<open>Differences of cumulative counts\<close>

lemma deriveFrom_values [simp]: "map cValue (deriveFrom prev cs) = map cValue cs"
  by (induction prev cs rule: deriveFrom.induct) simp_all

lemma deriveFrom_length [simp]: "length (deriveFrom prev cs) = length cs"
  by (induction prev cs rule: deriveFrom.induct) simp_all

lemma deriveFrom_Some:
  assumes "\<forall>c \<in> set cs. int_count c \<and> icount c \<le> 2 ^ 53" "sorted (p # map icount cs)" "0 \<le> p"
  shows "(\<forall>c \<in> set (deriveFrom (Some (Fin (of_int p))) cs). int_count c) \<and>
         isum (deriveFrom (Some (Fin (of_int p))) cs) = (if cs = [] then p else icount (last cs)) - p"
  using assms
proof (induction cs arbitrary: p)
  case (Cons c cs)
  define n where "n = icount c"
  have c: "cCount c = Fin (of_int n)" "p \<le> n" "n \<le> 2 ^ 53" "0 \<le> n"
    using Cons.prems by (simp_all add: int_count_def n_def)
  then have d: "f_sub (cCount c) (Fin (of_int p)) = Fin (of_int (n - p))"
    using rnd_of_int [of "n - p"] Cons.prems(3) by (simp add: f_sub_def)
  have ic: "icount \<lparr> cValue = v, cCount = Fin (of_int k) \<rparr> = k" for v k by (simp add: icount_def)
  have "sorted (n # map icount cs)" using Cons.prems(2) by (simp add: n_def)
  from Cons.IH [OF _ this] Cons.prems c
  have "(\<forall>c \<in> set (deriveFrom (Some (Fin (of_int n))) cs). int_count c) \<and>
      isum (deriveFrom (Some (Fin (of_int n))) cs) = (if cs = [] then n else icount (last cs)) - n" by simp
  then show ?case
    using c d ic by (auto simp: int_count_def n_def simp del: of_int_diff)
qed simp

lemma deriveCentroids_total:
  assumes "\<forall>c \<in> set cs. int_count c \<and> icount c \<le> 2 ^ 53" "sorted (map icount cs)" "cs \<noteq> []"
  shows "\<forall>c \<in> set (deriveCentroids cs). int_count c" "isum (deriveCentroids cs) = icount (last cs)"
proof -
  obtain c cs' where cs: "cs = c # cs'" using assms(3) by (cases cs) auto
  define n where "n = icount c"
  have c: "cCount c = Fin (of_int n)" "0 \<le> n" using assms(1) by (simp_all add: cs int_count_def n_def)
  have ic: "icount \<lparr> cValue = v, cCount = Fin (of_int k) \<rparr> = k" for v k by (simp add: icount_def)
  have "sorted (n # map icount cs')" using assms(2) by (simp add: cs n_def)
  from deriveFrom_Some [OF _ this c(2)] assms(1)
  have rest: "(\<forall>c \<in> set (deriveFrom (Some (Fin (of_int n))) cs'). int_count c) \<and>
      isum (deriveFrom (Some (Fin (of_int n))) cs') = (if cs' = [] then n else icount (last cs')) - n"
    by (simp add: cs)
  show "\<forall>c \<in> set (deriveCentroids cs). int_count c" "isum (deriveCentroids cs) = icount (last cs)"
    using rest c ic by (auto simp: deriveCentroids_def cs int_count_def n_def)
qed

lemma good_bounds_values:
  assumes "map cValue xs = map cValue ys" "good_bounds prev xs"
  shows "good_bounds prev ys"
proof -
  have len: "length xs = length ys" using assms(1) map_eq_imp_length_eq by blast
  have bl: "map cValue (butlast xs) = map cValue (butlast ys)" using assms(1) by (simp add: map_butlast)
  have "cValue ` set (butlast xs) = cValue ` set (butlast ys)" using bl by (metis list.set_map)
  moreover have "cValue (last xs) = cValue (last ys)" if "ys \<noteq> []"
    using assms(1) that len by (metis last_map length_0_conv)
  moreover have "(tl xs = []) = (tl ys = [])" "(xs = []) = (ys = [])"
    using len by (cases xs; cases ys; auto)+
  ultimately show ?thesis
    using assms(2) unfolding good_bounds_def by (metis (mono_tags, lifting) image_iff)
qed

lemma positive_sum_all: "\<forall>c \<in> set cs. f_lt (Fin 0) (cValue c) \<Longrightarrow> positive_sum cs = isum cs"
  by (simp add: positive_sum_def)

lemma all_values: "map cValue xs = map cValue ys \<Longrightarrow> (\<forall>c \<in> set xs. P (cValue c)) = (\<forall>c \<in> set ys. P (cValue c))"
  by (metis (mono_tags, lifting) image_iff list.set_map)

section \<open>Properties\<close>

text \<open>
  C2. Converting a cumulative (Prometheus) histogram to the frequency form Wavefront expects
  terminates without panicking and keeps the number of observations: the counts of the result add
  up to the last cumulative count, whenever the cumulative counts are natural numbers below \<open>2 ^ 53\<close>
  that do not decrease, and the bucket bounds are positive and finite except possibly the last.
\<close>

theorem ToFrequency_total:
  assumes "dCumulative d" "dCentroids d \<noteq> []"
    and "\<forall>c \<in> set (dCentroids d). int_count c \<and> icount c \<le> 2 ^ 53 \<and> f_lt (Fin 0) (cValue c)"
    and "sorted (map icount (dCentroids d))"
    and "good_bounds None (dCentroids d)"
  shows "\<exists>d'. ToFrequency d = Inr d' \<and> \<not> dCumulative d' \<and> dname d' = dname d \<and> dtags d' = dtags d \<and>
           dSource d' = dSource d \<and> dTimestamp d' = dTimestamp d \<and>
           isum (dCentroids d') = icount (last (dCentroids d)) \<and>
           (\<forall>c \<in> set (dCentroids d'). int_count c) \<and> value_sorted (dCentroids d')"
proof -
  let ?cs = "dCentroids d" and ?ds = "deriveCentroids (dCentroids d)"
  have vals: "map cValue ?cs = map cValue ?ds" by (simp add: deriveCentroids_def)
  have tot: "\<forall>c \<in> set ?ds. int_count c" "isum ?ds = icount (last ?cs)"
    using deriveCentroids_total [of ?cs] assms by simp_all
  have pos: "positive_sum ?ds = isum ?ds"
    using all_values [OF vals, of "f_lt (Fin 0)"] assms(3) by (intro positive_sum_all) simp
  have "isum ?ds \<le> 2 ^ 53" using tot assms(2,3) by simp
  from smoothCentroids_total [OF tot(1) this good_bounds_values [OF vals assms(5)]]
  obtain out where out: "smoothCentroids ?ds = Inr out" "isum out = icount (last ?cs)"
      "\<forall>c \<in> set out. int_count c \<and> cValue c \<noteq> NaN"
    using pos tot(2) by auto
  then show ?thesis
    using assms(1) sort_centroids_sorted [of out] isum_mset [of "sort_centroids out" out]
    by (simp add: ToFrequency_def NewFrequencyDistribution_def newDistribution_def Distribution_Name_def
        Distribution_Tags_def)
qed

definition sample_histogram :: distribution where
  "sample_histogram = newDistribution True ''latency'' ''node-1'' [(''le'', ''x'')]
     [\<lparr> cValue = Fin 1, cCount = Fin 3 \<rparr>, \<lparr> cValue = Fin 5, cCount = Fin 10 \<rparr>, \<lparr> cValue = PInf, cCount = Fin 12 \<rparr>] 0"

theorem ToFrequency_total_witness:
  "\<exists>d'. ToFrequency sample_histogram = Inr d' \<and> isum (dCentroids d') = 12"
proof -
  have cs: "dCentroids sample_histogram = [\<lparr> cValue = Fin 1, cCount = Fin 3 \<rparr>,
      \<lparr> cValue = Fin 5, cCount = Fin 10 \<rparr>, \<lparr> cValue = PInf, cCount = Fin 12 \<rparr>]"
    by (simp add: sample_histogram_def newDistribution_def sort_centroids_def)
  have "dCumulative sample_histogram" by (simp add: sample_histogram_def newDistribution_def)
  from ToFrequency_total [OF this] show ?thesis
    by (auto simp: cs int_count_def icount_def good_bounds_def fin_bound_def)
qed

text \<open>
  C6. The smoothing step panics in exactly one case: there is more than one bucket, the first one
  has the bound \<^verbatim>\<open>+Inf\<close> and its amplified count is not zero (the code then reads the bucket
  before the first).
\<close>

theorem smoothCentroids_panics_iff:
  "(\<exists>e. smoothCentroids cs = Inl e) \<longleftrightarrow>
     1 < length cs \<and> cValue (hd cs) = PInf \<and>
     \<not> f_eq (f_mul (cCount (hd cs)) (f_max (Fin 1) (f_div (Fin 1) (smallestCountAboveZero cs)))) (Fin 0)"
proof -
  have later: "smoothLoop amp (Some b) xs m \<noteq> Inl e" for amp b xs m e
  proof (induction xs arbitrary: b m)
    case (Cons x xs)
    have "\<exists>m1. smoothBucket amp (Some b) x m = Inr m1" by (simp add: smoothBucket_def Let_def)
    with Cons show ?case by (auto split: sum.splits)
  qed simp
  show ?thesis
  proof (cases cs)
    case (Cons c cs')
    define amp where "amp = f_max (Fin 1) (f_div (Fin 1) (smallestCountAboveZero cs))"
    have inf: "\<not> f_le PInf (Fin 0)" by (simp add: f_le_def)
    have "(\<exists>e. smoothBucket amp None c [] = Inl e) \<longleftrightarrow>
        cValue c = PInf \<and> \<not> f_eq (f_mul (cCount c) amp) (Fin 0)"
      using inf by (auto simp: smoothBucket_def Let_def f_eq_iff)
    moreover have "(\<exists>e. smoothLoop amp None cs [] = Inl e) \<longleftrightarrow> (\<exists>e. smoothBucket amp None c [] = Inl e)"
      using later [of amp "cValue c" cs'] by (cases "smoothBucket amp None c []") (auto simp: Cons)
    moreover have "(\<exists>e. smoothCentroids cs = Inl e) \<longleftrightarrow>
        \<not> (cs' = [] \<and> cValue c = PInf) \<and> (\<exists>e. smoothLoop amp None cs [] = Inl e)"
      unfolding smoothCentroids_def Let_def amp_def by (auto simp: Cons f_eq_iff split: sum.splits)
    ultimately show ?thesis by (auto simp: Cons amp_def)
  qed (simp add: smoothCentroids_def)
qed

text \<open>
  The identity of a distribution (the text that is hashed for the rate cache) depends on the tag
  map only, not on the order in which Go visits it.
\<close>

theorem Key_bytes_tag_order:
  assumes "wf_map (dtags d)" "wf_map ts" "map_of ts = map_of (dtags d)"
  shows "Key_bytes (d \<lparr> dtags := ts \<rparr>) = Key_bytes d"
proof -
  have "set ts = set (dtags d)" using assms by (metis map_of_inject_set)
  then have "mset (map fst ts) = mset (map fst (dtags d))"
    using assms(1,2) by (metis list.set_map set_eq_iff_mset_eq_distinct)
  then have "sort (map fst ts) = sort (map fst (dtags d))"
    by (metis properties_for_sort sorted_sort mset_sort)
  moreover have "get_str ts = get_str (dtags d)" using assms(3) by (simp add: fun_eq_iff get_str_def)
  ultimately show ?thesis by (simp add: Key_bytes_def Distribution_Tags_def)
qed

theorem Key_bytes_tag_order_witness:
  "Key_bytes (sample_histogram \<lparr> dtags := [(''b'', ''2''), (''a'', ''1'')] \<rparr>) =
   Key_bytes (sample_histogram \<lparr> dtags := [(''a'', ''1''), (''b'', ''2'')] \<rparr>)"
  using Key_bytes_tag_order [of "sample_histogram \<lparr> dtags := [(''a'', ''1''), (''b'', ''2'')] \<rparr>"
      "[(''b'', ''2''), (''a'', ''1'')]"] by (simp add: fun_upd_twist)

text \<open>
  The rate between two snapshots exists exactly when they have the same buckets in the same
  order, no count went down and (unless there are no buckets) time has passed; its counts are then
  the differences per minute.
\<close>

theorem CentroidRate_iff:
  assumes "minDuration \<le> t" "t \<le> maxDuration"
  shows "CentroidRate cur prev t = Some rates \<longleftrightarrow>
     length cur = length prev \<and> (cur \<noteq> [] \<longrightarrow> 0 < t) \<and>
     (\<forall>i < length cur. f_eq (cValue (cur ! i)) (cValue (prev ! i)) \<and> \<not> f_lt (cCount (cur ! i)) (cCount (prev ! i))) \<and>
     rates = map2 (\<lambda>c p. \<lparr> cValue = cValue c, cCount = f_div (f_sub (cCount c) (cCount p)) (Duration_Minutes t) \<rparr>) cur prev"
proof -
  have "CentroidRates cur prev t = Some rates \<longleftrightarrow> (cur \<noteq> [] \<longrightarrow> 0 < t) \<and>
     (\<forall>i < length cur. f_eq (cValue (cur ! i)) (cValue (prev ! i)) \<and> \<not> f_lt (cCount (cur ! i)) (cCount (prev ! i))) \<and>
     rates = map2 (\<lambda>c p. \<lparr> cValue = cValue c, cCount = f_div (f_sub (cCount c) (cCount p)) (Duration_Minutes t) \<rparr>) cur prev"
    if "length cur = length prev"
    using that
  proof (induction cur prev arbitrary: rates rule: list_induct2)
    case (Cons c cur p prev)
    have pos: "f_le (Duration_Seconds t) (Fin 0) \<longleftrightarrow> \<not> 0 < t" using Duration_Seconds_le_0 [OF assms] by (simp add: not_less)
    let ?R = "map2 (\<lambda>c p. \<lparr> cValue = cValue c, cCount = f_div (f_sub (cCount c) (cCount p)) (Duration_Minutes t) \<rparr>) cur prev"
    show ?case
    proof (cases "CentroidRates cur prev t")
      case None
      then show ?thesis using Cons.IH [of ?R] by (auto simp: pos All_less_Suc2)
    next
      case (Some rs)
      then show ?thesis using Cons.IH [of rs] by (auto simp: pos All_less_Suc2)
    qed
  qed auto
  then show ?thesis by (auto simp: CentroidRate_def)
qed

theorem CentroidRate_iff_witness:
  "CentroidRate [\<lparr> cValue = Fin 1, cCount = Fin 12 \<rparr>] [\<lparr> cValue = Fin 1, cCount = Fin 2 \<rparr>] (2 * Minute) =
     Some [\<lparr> cValue = Fin 1, cCount = Fin 5 \<rparr>]"
proof -
  have "Duration_Minutes (2 * Minute) = Fin 2" using Duration_Minutes_whole [of 2] by simp
  then show ?thesis
    by (subst CentroidRate_iff) (simp_all add: minDuration_def maxDuration_def f_sub_def)
qed

text \<open>
  Filtering a metric either drops it and counts one, exactly when its name or tags do not match, or
  keeps it with the same name and the tags whose names match, and counts nothing; without a filter
  the metric is untouched.
\<close>

theorem wf_Filter_spec:
  assumes "valid_metric m"
  shows "case flt of
      None \<Rightarrow> wf_Filter flt (Some m) = (Some m, 0)
    | Some f \<Rightarrow>
        if MatchMetric f (m_Name m) (m_Tags m)
        then \<exists>m'. wf_Filter flt (Some m) = (Some m', 0) \<and> valid_metric m' \<and> m_Name m' = m_Name m \<and>
               m_Points m' = m_Points m \<and>
               map_of (m_Tags m') = (\<lambda>k. if MatchTag f k then map_of (m_Tags m) k else None)
        else wf_Filter flt (Some m) = (None, 1)"
  using assms by (simp add: wf_Filter_def met.name_kept met.points_kept met.tags_filter fun_eq_iff split: option.split)

theorem wf_Filter_spec_witness:
  "wf_Filter (Some (NewGlobFilter prefix_glob (empty_filter_config \<lparr> MetricDenyList := [''some''] \<rparr>)))
     (Some (MPoint (NewPoint ''some.metric'' (Fin 1) 2 ''pod'' [(''foo'', ''bar'')]))) = (None, 1)"
  using wf_Filter_spec [of "MPoint (NewPoint ''some.metric'' (Fin 1) 2 ''pod'' [(''foo'', ''bar'')])"
      "Some (NewGlobFilter prefix_glob (empty_filter_config \<lparr> MetricDenyList := [''some''] \<rparr>))"]
  by (simp add: valid_point_def NewPoint_def Point_Name_def MatchMetric_def NewGlobFilter_def Compile_def MultiCompile_def
        prefix_glob_def empty_filter_config_def HasPrefix_def)

end
