(* ===== verification/Batch.thy ===== *)
theory Batch
  imports Metrics_Core Wf_Metric
begin

text \<open>
  The unit of work of the collector (\<^verbatim>\<open>internal/metrics/batch.go\<close>): a timestamp, the metric sets by
  resource key and a list of Wavefront metrics, in which a nil entry is possible.
\<close>

record batch =
  Timestamp :: time
  Sets :: "(resource_key, metric_set) gomap"
  Metrics :: "wf_metric option list"

text \<open>\<^verbatim>\<open>Batch.Points\<close>; a nil metric is dereferenced and panics.\<close>

definition Batch_Points :: "batch \<Rightarrow> nat go_result" where
  "Batch_Points b =
     (if None \<in> set (Metrics b) then Inl (GoPanic ''nil pointer dereference'')
      else Inr (fold (\<lambda>m total. total + m_Points (the m)) (Metrics b)
                  (fold (\<lambda>(_, s) total. total + Set_Points s) (Sets b) 0)))"

definition wf_batch :: "batch \<Rightarrow> bool" where
  "wf_batch b \<longleftrightarrow> wf_map (Sets b) \<and> (\<forall>(k, s) \<in> set (Sets b). wf_set s) \<and>
     (\<forall>m. Some m \<in> set (Metrics b) \<longrightarrow> valid_metric m)"

lemma fold_add_sum: "fold (\<lambda>x total. total + f x) xs (n::nat) = n + (\<Sum>x \<leftarrow> xs. f x)"
  by (induction xs arbitrary: n) simp_all

lemma Batch_Points_sum:
  assumes "None \<notin> set (Metrics b)"
  shows "Batch_Points b = Inr ((\<Sum>(_, s) \<leftarrow> Sets b. Set_Points s) + (\<Sum>m \<leftarrow> Metrics b. m_Points (the m)))"
proof -
  have "fold (\<lambda>(_, s) total. total + Set_Points s) (Sets b) 0 = (\<Sum>(_, s) \<leftarrow> Sets b. Set_Points s)"
    using fold_add_sum [of "\<lambda>(_, s). Set_Points s" "Sets b" 0] by (simp add: case_prod_unfold)
  with assms show ?thesis by (simp add: Batch_Points_def fold_add_sum)
qed

text \<open>Writing a set back under its key.\<close>

lemma wf_batch_put_set:
  assumes "wf_batch b" "wf_set s"
  shows "wf_batch (b \<lparr> Sets := gput k s (Sets b) \<rparr>)"
  using assms set_gput [of k s "Sets b"] by (auto simp: wf_batch_def)

end
