(* ===== verification/Aggregators.thy ===== *)
theory Aggregators
  imports Batch Metric_Defs
begin

text \<open>
  The aggregating processors (\<^verbatim>\<open>plugins/processors\<close>): \<^verbatim>\<open>helper.go\<close>, the generic sum-and-count
  aggregator with its namespace, node and cluster instances, and the pod aggregator.

  Metric sets are values here; the code updates them through pointers, so a set that is changed is
  written back under its key. A loop over \<^verbatim>\<open>batch.Sets\<close> that also inserts into the map visits the
  keys present when it starts, and reads each set at the time it is visited. (Go may also visit an
  inserted group set; it is never a member of a group, so that visit does nothing.)
\<close>

section \<open>Adding up values\<close>

fun aggregate :: "metric_set \<Rightarrow> metric_set \<Rightarrow> string list \<Rightarrow> metric_set go_result" where
  "aggregate src dst [] = Inr dst"
| "aggregate src dst (metricName # rest) =
     (case map_of (Values src) metricName of
        None \<Rightarrow> aggregate src dst rest
      | Some metricValue \<Rightarrow>
          (case map_of (Values dst) metricName of
             Some aggregatedValue \<Rightarrow>
               (if ValueType aggregatedValue \<noteq> ValueType metricValue
                then Inl (Errorf (''aggregator: type not supported in '' @ metricName))
                else if ValueType aggregatedValue = ValueInt64
                then aggregate src (dst \<lparr> Values := gput metricName
                       (aggregatedValue \<lparr> IntValue := IntValue aggregatedValue + IntValue metricValue \<rparr>) (Values dst) \<rparr>) rest
                else if ValueType aggregatedValue = ValueFloat
                then aggregate src (dst \<lparr> Values := gput metricName
                       (aggregatedValue \<lparr> FloatValue := f_add (FloatValue aggregatedValue) (FloatValue metricValue) \<rparr>) (Values dst) \<rparr>) rest
                else Inl (Errorf (''aggregator: type not supported in '' @ metricName)))
           | None \<Rightarrow> aggregate src (dst \<lparr> Values := gput metricName metricValue (Values dst) \<rparr>) rest))"

definition aggregateCount :: "metric_set \<Rightarrow> metric_set \<Rightarrow> string \<Rightarrow> metric_set" where
  "aggregateCount src dst metricName =
     (let srcCount = (case map_of (Values src) metricName of Some c \<Rightarrow> 0 + IntValue c | None \<Rightarrow> 1);
          dstCount = (case map_of (Values dst) metricName of
                        Some c \<Rightarrow> c \<lparr> IntValue := IntValue c + srcCount \<rparr>
                      | None \<Rightarrow> \<lparr> IntValue = srcCount, FloatValue = Fin 0, ValueType = ValueInt64 \<rparr>)
      in dst \<lparr> Values := gput metricName dstCount (Values dst) \<rparr>)"

section \<open>The sum-and-count aggregator\<close>

record sum_count_spec =
  ResourceSumMetrics :: "string list"
  ResourceCountMetric :: string
  IsPartOfGroup :: "metric_set \<Rightarrow> bool"
  Group :: "batch \<Rightarrow> resource_key \<Rightarrow> metric_set \<Rightarrow> resource_key \<times> metric_set option"

record sum_count_aggregator =
  scName :: string
  scSpecs :: "sum_count_spec list"

definition NewSumCountAggregator :: "string \<Rightarrow> sum_count_spec list \<Rightarrow> sum_count_aggregator" where
  "NewSumCountAggregator name specs = \<lparr> scName = name, scSpecs = specs \<rparr>"

definition SumCountAggregator_Name :: "sum_count_aggregator \<Rightarrow> string" where
  "SumCountAggregator_Name a = scName a @ ''_aggregator''"

fun sumCountSets :: "sum_count_spec \<Rightarrow> resource_key list \<Rightarrow> batch \<Rightarrow> batch go_result" where
  "sumCountSets spec [] b = Inr b"
| "sumCountSets spec (resourceKey # rest) b =
     (case map_of (Sets b) resourceKey of
        None \<Rightarrow> sumCountSets spec rest b
      | Some resourceSet \<Rightarrow>
          (if \<not> IsPartOfGroup spec resourceSet then sumCountSets spec rest b
           else case Group spec b resourceKey resourceSet of
                  (_, None) \<Rightarrow> sumCountSets spec rest b
                | (groupKey, Some groupSet) \<Rightarrow>
                    (case aggregate resourceSet (aggregateCount resourceSet groupSet (ResourceCountMetric spec))
                            (ResourceSumMetrics spec) of
                       Inl err \<Rightarrow> Inl err
                     | Inr g \<Rightarrow> sumCountSets spec rest (b \<lparr> Sets := gput groupKey g (Sets b) \<rparr>))))"

fun sumCountSpecs :: "sum_count_spec list \<Rightarrow> batch \<Rightarrow> batch go_result" where
  "sumCountSpecs [] b = Inr b"
| "sumCountSpecs (spec # specs) b =
     (case sumCountSets spec (map fst (Sets b)) b of
        Inl err \<Rightarrow> Inl err
      | Inr b' \<Rightarrow> sumCountSpecs specs b')"

definition SumCountAggregator_Process :: "sum_count_aggregator \<Rightarrow> batch \<Rightarrow> batch go_result" where
  "SumCountAggregator_Process a b = sumCountSpecs (scSpecs a) b"

definition isType :: "string \<Rightarrow> metric_set \<Rightarrow> bool" where
  "isType matchType s \<longleftrightarrow> get_str (Labels s) (Key LabelMetricSetType) = matchType"

definition podTakesUpResources :: "metric_set \<Rightarrow> bool" where
  "podTakesUpResources s \<longleftrightarrow> get_str (fst (FindLabels s (Name MetricPodPhase))) ''phase'' = ''Running''"

definition podContainerTakesUpResources :: "metric_set \<Rightarrow> bool" where
  "podContainerTakesUpResources s \<longleftrightarrow>
     get_str (fst (FindLabels s (Name MetricContainerStatus))) ''state'' \<noteq> ''terminated''"

definition isAggregatablePod :: "metric_set \<Rightarrow> bool" where
  "isAggregatablePod s \<longleftrightarrow> isType MetricSetTypePod s \<and> podTakesUpResources s"

definition isAggregatablePodContainer :: "metric_set \<Rightarrow> bool" where
  "isAggregatablePodContainer s \<longleftrightarrow> isType MetricSetTypePodContainer s \<and> podContainerTakesUpResources s"

text \<open>A freshly allocated set: zero times, no labelled values.\<close>

definition newSet :: "strmap \<Rightarrow> metric_set" where
  "newSet labels = \<lparr> CollectionStartTime = zero_time, EntityCreateTime = zero_time, ScrapeTime = zero_time,
     Values = [], Labels = labels, LabeledValues = [] \<rparr>"

subsection \<open>Namespaces\<close>

definition namespaceMetricSet :: "string \<Rightarrow> string \<Rightarrow> metric_set" where
  "namespaceMetricSet namespaceName uid =
     newSet [(Key LabelMetricSetType, MetricSetTypeNamespace), (Key LabelNamespaceName, namespaceName),
             (Key LabelPodNamespaceUID, uid)]"

definition namespaceGroup :: "batch \<Rightarrow> resource_key \<Rightarrow> metric_set \<Rightarrow> resource_key \<times> metric_set option" where
  "namespaceGroup b resourceKey resourceSet =
     (case map_of (Labels resourceSet) (Key LabelNamespaceName) of
        None \<Rightarrow> ([], None)
      | Some namespaceName \<Rightarrow>
          (let namespaceKey = NamespaceKey namespaceName in
           (namespaceKey,
            Some (case map_of (Sets b) namespaceKey of
                    Some s \<Rightarrow> s
                  | None \<Rightarrow> namespaceMetricSet namespaceName (get_str (Labels resourceSet) (Key LabelPodNamespaceUID))))))"

definition NewNamespaceAggregator :: "string list \<Rightarrow> sum_count_aggregator" where
  "NewNamespaceAggregator metricsToAggregate = NewSumCountAggregator ''namespace''
     [\<lparr> ResourceSumMetrics = metricsToAggregate, ResourceCountMetric = Name MetricPodCount,
        IsPartOfGroup = isAggregatablePod, Group = namespaceGroup \<rparr>,
      \<lparr> ResourceSumMetrics = [], ResourceCountMetric = Name MetricPodContainerCount,
        IsPartOfGroup = isAggregatablePodContainer, Group = namespaceGroup \<rparr>]"

subsection \<open>Nodes\<close>

definition nodeGroup :: "batch \<Rightarrow> resource_key \<Rightarrow> metric_set \<Rightarrow> resource_key \<times> metric_set option" where
  "nodeGroup b resourceKey resourceSet =
     (let nodeName = get_str (Labels resourceSet) (Key LabelNodename) in
      if nodeName = [] then ([], None)
      else (NodeKey nodeName, map_of (Sets b) (NodeKey nodeName)))"

definition NewNodeAggregator :: "string list \<Rightarrow> sum_count_aggregator" where
  "NewNodeAggregator metricsToAggregate = NewSumCountAggregator ''node''
     [\<lparr> ResourceSumMetrics = metricsToAggregate, ResourceCountMetric = Name MetricPodCount,
        IsPartOfGroup = isAggregatablePod, Group = nodeGroup \<rparr>,
      \<lparr> ResourceSumMetrics = [], ResourceCountMetric = Name MetricPodContainerCount,
        IsPartOfGroup = isAggregatablePodContainer, Group = nodeGroup \<rparr>]"

subsection \<open>The cluster\<close>

definition clusterMetricSet :: metric_set where
  "clusterMetricSet = newSet [(Key LabelMetricSetType, MetricSetTypeCluster)]"

definition clusterGroup :: "batch \<Rightarrow> resource_key \<Rightarrow> metric_set \<Rightarrow> resource_key \<times> metric_set option" where
  "clusterGroup b resourceKey resourceSet =
     (ClusterKey, Some (case map_of (Sets b) ClusterKey of Some s \<Rightarrow> s | None \<Rightarrow> clusterMetricSet))"

definition NewClusterAggregator :: "string list \<Rightarrow> sum_count_aggregator" where
  "NewClusterAggregator metricsToAggregate = NewSumCountAggregator ''cluster''
     [\<lparr> ResourceSumMetrics = metricsToAggregate, ResourceCountMetric = Name MetricPodCount,
        IsPartOfGroup = isType MetricSetTypeNamespace, Group = clusterGroup \<rparr>,
      \<lparr> ResourceSumMetrics = [], ResourceCountMetric = Name MetricPodContainerCount,
        IsPartOfGroup = isType MetricSetTypeNamespace, Group = clusterGroup \<rparr>]"

section \<open>The pod aggregator\<close>

definition LabelsToPopulate :: "label_descriptor list" where
  "LabelsToPopulate = [LabelPodId, LabelPodName, LabelNamespaceName, LabelPodNamespaceUID, LabelHostname, LabelHostID]"

definition podMetricSet :: "strmap \<Rightarrow> metric_set" where
  "podMetricSet labels =
     newSet (fold (\<lambda>l newLabels. (case map_of labels (Key l) of None \<Rightarrow> newLabels | Some v \<Rightarrow> gput (Key l) v newLabels))
               LabelsToPopulate [(Key LabelMetricSetType, MetricSetTypePod)])"

definition NewPodAggregator :: "string set" where
  "NewPodAggregator = set (map Name (filter (\<lambda>m. MDType m = Cumulative \<or> MDType m = Delta) StandardMetrics))"

text \<open>
  The loop over a container's values: the pod's set and the \<^verbatim>\<open>requireAggregate\<close> map are threaded.
\<close>

fun podValues :: "string set \<Rightarrow> resource_key \<Rightarrow> (string, mvalue) gomap \<Rightarrow> metric_set \<times> (string, bool) gomap \<Rightarrow>
    (metric_set \<times> (string, bool) gomap) go_result" where
  "podValues skipped podKey [] st = Inr st"
| "podValues skipped podKey ((metricName, metricValue) # rest) (pod, req) =
     (if metricName \<in> skipped then podValues skipped podKey rest (pod, req)
      else case map_of (Values pod) metricName of
             None \<Rightarrow>
               podValues skipped podKey rest
                 (pod \<lparr> Values := gput metricName metricValue (Values pod) \<rparr>, gput (podKey @ metricName) True req)
           | Some aggregatedValue \<Rightarrow>
               (if map_of req (podKey @ metricName) = Some True
                then if ValueType aggregatedValue \<noteq> ValueType metricValue
                     then podValues skipped podKey rest (pod, req)
                     else (case ValueType aggregatedValue of
                             ValueInt64 \<Rightarrow> podValues skipped podKey rest (pod \<lparr> Values := gput metricName
                               (aggregatedValue \<lparr> IntValue := IntValue aggregatedValue + IntValue metricValue \<rparr>) (Values pod) \<rparr>, req)
                           | ValueFloat \<Rightarrow> podValues skipped podKey rest (pod \<lparr> Values := gput metricName
                               (aggregatedValue \<lparr> FloatValue := f_add (FloatValue aggregatedValue) (FloatValue metricValue) \<rparr>) (Values pod) \<rparr>, req)
                           | ValueOther _ \<Rightarrow> Inl (Errorf (''PodAggregator: type not supported in '' @ metricName)))
                else podValues skipped podKey rest
                       (pod \<lparr> Values := gput metricName aggregatedValue (Values pod) \<rparr>, req)))"

type_synonym pod_state = "batch \<times> (resource_key, metric_set) gomap \<times> (string, bool) gomap"

fun podSets :: "string set \<Rightarrow> resource_key list \<Rightarrow> pod_state \<Rightarrow> pod_state go_result" where
  "podSets skipped [] st = Inr st"
| "podSets skipped (key # rest) (b, newPods, req) =
     (case map_of (Sets b) key of
        None \<Rightarrow> podSets skipped rest (b, newPods, req)
      | Some metricSet \<Rightarrow>
          (if map_of (Labels metricSet) (Key LabelMetricSetType) \<noteq> Some MetricSetTypePodContainer
           then podSets skipped rest (b, newPods, req)
           else case (map_of (Labels metricSet) (Key LabelPodName), map_of (Labels metricSet) (Key LabelNamespaceName)) of
                  (Some podName, Some ns) \<Rightarrow>
                    (let podKey = PodKey ns podName in
                     case map_of (Sets b) podKey of
                       Some pod \<Rightarrow>
                         (case podValues skipped podKey (Values metricSet) (pod, req) of
                            Inl err \<Rightarrow> Inl err
                          | Inr (pod', req') \<Rightarrow>
                              podSets skipped rest (b \<lparr> Sets := gput podKey pod' (Sets b) \<rparr>, newPods, req'))
                     | None \<Rightarrow>
                         (let pod = (case map_of newPods podKey of Some p \<Rightarrow> p | None \<Rightarrow> podMetricSet (Labels metricSet)) in
                          case podValues skipped podKey (Values metricSet) (pod, req) of
                            Inl err \<Rightarrow> Inl err
                          | Inr (pod', req') \<Rightarrow> podSets skipped rest (b, gput podKey pod' newPods, req')))
                | _ \<Rightarrow> podSets skipped rest (b, newPods, req)))"

definition PodAggregator_Name :: string where
  "PodAggregator_Name = ''pod_aggregator''"

definition PodAggregator_Process :: "string set \<Rightarrow> batch \<Rightarrow> batch go_result" where
  "PodAggregator_Process skipped b =
     (case podSets skipped (map fst (Sets b)) (b, [], []) of
        Inl err \<Rightarrow> Inl err
      | Inr (b', newPods, _) \<Rightarrow> Inr (b' \<lparr> Sets := put_all newPods (Sets b') \<rparr>))"

section \<open>What one aggregation step does\<close>

definition int_of :: "metric_set \<Rightarrow> string \<Rightarrow> int64" where
  "int_of s n = (case map_of (Values s) n of None \<Rightarrow> 0 | Some v \<Rightarrow> IntValue v)"

text \<open>The contribution of a member to its group's count: its own count, or one.\<close>

definition count_of :: "metric_set \<Rightarrow> string \<Rightarrow> int64" where
  "count_of s n = (case map_of (Values s) n of None \<Rightarrow> 1 | Some v \<Rightarrow> IntValue v)"

lemma aggregate_Labels: "aggregate src dst ns = Inr out \<Longrightarrow> Labels out = Labels dst"
  by (induction src dst ns rule: aggregate.induct) (auto split: option.splits if_splits)

lemma aggregate_other:
  "aggregate src dst ns = Inr out \<Longrightarrow> n \<notin> set ns \<Longrightarrow> map_of (Values out) n = map_of (Values dst) n"
  by (induction src dst ns rule: aggregate.induct) (auto split: option.splits if_splits)

lemma aggregateCount_Labels [simp]: "Labels (aggregateCount src dst n) = Labels dst"
  by (simp add: aggregateCount_def Let_def)

lemma aggregateCount_int: "int_of (aggregateCount src dst n) n = int_of dst n + count_of src n"
  by (simp add: aggregateCount_def int_of_def count_of_def Let_def split: option.split)

lemma aggregateCount_other: "m \<noteq> n \<Longrightarrow> map_of (Values (aggregateCount src dst n)) m = map_of (Values dst) m"
  by (simp add: aggregateCount_def Let_def)

definition int_typed :: "string \<Rightarrow> metric_set \<Rightarrow> bool" where
  "int_typed n s \<longleftrightarrow> (\<forall>v. map_of (Values s) n = Some v \<longrightarrow> ValueType v = ValueInt64)"

text \<open>On integer metrics the aggregation cannot fail and adds each metric once.\<close>

lemma aggregate_int:
  assumes "distinct ns" "\<forall>n \<in> set ns. int_typed n src \<and> int_typed n dst"
  shows "\<exists>out. aggregate src dst ns = Inr out \<and> (\<forall>n \<in> set ns. int_typed n out \<and> int_of out n = int_of dst n + int_of src n)"
  using assms
proof (induction ns arbitrary: dst)
  case (Cons n ns)
  obtain d where d: "aggregate src dst (n # ns) = aggregate src d ns" "int_typed n d"
      "int_of d n = int_of dst n + int_of src n" "\<forall>m. m \<noteq> n \<longrightarrow> map_of (Values d) m = map_of (Values dst) m"
  proof (cases "map_of (Values src) n")
    case None
    show ?thesis
      by (rule that [of dst]) (use None Cons.prems in \<open>simp_all add: int_of_def\<close>)
  next
    case src: (Some v)
    show ?thesis
    proof (cases "map_of (Values dst) n")
      case None
      show ?thesis
        by (rule that [of "dst \<lparr> Values := gput n v (Values dst) \<rparr>"])
           (use None src Cons.prems in \<open>simp_all add: int_of_def int_typed_def\<close>)
    next
      case (Some w)
      show ?thesis
        by (rule that [of "dst \<lparr> Values := gput n (w \<lparr> IntValue := IntValue w + IntValue v \<rparr>) (Values dst) \<rparr>"])
           (use Some src Cons.prems in \<open>simp_all add: int_of_def int_typed_def\<close>)
    qed
  qed
  have "\<forall>m \<in> set ns. int_typed m src \<and> int_typed m d"
    using Cons.prems d(4) by (auto simp: int_typed_def)
  from Cons.IH [OF _ this] Cons.prems(1) obtain out where out: "aggregate src d ns = Inr out"
    "\<forall>m \<in> set ns. int_typed m out \<and> int_of out m = int_of d m + int_of src m" by auto
  have "map_of (Values out) n = map_of (Values d) n"
    using aggregate_other [OF out(1)] Cons.prems(1) by simp
  then have "int_typed n out" "int_of out n = int_of d n"
    using d(2) by (simp_all add: int_typed_def int_of_def)
  moreover have "int_of d m = int_of dst m" if "m \<in> set ns" for m
    using that d(4) Cons.prems(1) by (auto simp: int_of_def)
  ultimately show ?case using out d by auto
qed simp

definition group_int :: "batch \<Rightarrow> resource_key \<Rightarrow> string \<Rightarrow> int64" where
  "group_int b g n = (case map_of (Sets b) g of None \<Rightarrow> 0 | Some s \<Rightarrow> int_of s n)"

definition typed :: "sum_count_spec \<Rightarrow> batch \<Rightarrow> bool" where
  "typed spec b \<longleftrightarrow> (\<forall>k s. map_of (Sets b) k = Some s \<longrightarrow> (\<forall>n \<in> set (ResourceSumMetrics spec). int_typed n s))"

lemma typedI: "wf_map (Sets b) \<Longrightarrow> \<forall>(k, s) \<in> set (Sets b). \<forall>n \<in> set (ResourceSumMetrics spec). int_typed n s \<Longrightarrow> typed spec b"
  unfolding typed_def by (auto dest: map_of_SomeD)

text \<open>The sets of the batch that satisfy a condition.\<close>

definition sets_where :: "(metric_set \<Rightarrow> bool) \<Rightarrow> batch \<Rightarrow> metric_set list" where
  "sets_where P b = map snd (filter (\<lambda>(k, s). P s) (Sets b))"

lemma sum_sets_where: "(\<Sum>(k, s) \<leftarrow> filter (\<lambda>(k, s). P s) (Sets b). f s) = (\<Sum>s \<leftarrow> sets_where P b. f s)"
  by (simp add: sets_where_def comp_def case_prod_unfold)

section \<open>The contract of a grouping\<close>

text \<open>
  A spec groups its members by a key that only depends on the member. The group's set is the one in
  the batch under that key; when there is none, a fresh one is made, or the member is ignored.
  Members are recognised by a kind that only depends on labels, and a fresh group set is not of that
  kind.
\<close>

locale grouping =
  fixes member :: "metric_set \<Rightarrow> bool"
    and group :: "batch \<Rightarrow> resource_key \<Rightarrow> metric_set \<Rightarrow> resource_key \<times> metric_set option"
    and kind :: "metric_set \<Rightarrow> bool"
    and key_of :: "metric_set \<Rightarrow> resource_key option"
    and creates :: bool
    and fresh :: "metric_set \<Rightarrow> metric_set"
  assumes member_kind: "member s \<Longrightarrow> kind s"
    and kind_labels: "Labels s = Labels s' \<Longrightarrow> kind s = kind s'"
    and fresh_kind: "\<not> kind (fresh s)"
    and fresh_empty: "Values (fresh s) = []"
    and group_none: "key_of s = None \<Longrightarrow> snd (group b k s) = None"
    and group_some: "key_of s = Some g \<Longrightarrow> group b k s =
      (g, case map_of (Sets b) g of Some gs \<Rightarrow> Some gs | None \<Rightarrow> if creates then Some (fresh s) else None)"
begin

text \<open>No set of the members' kind is stored under a key that a member maps to.\<close>

definition apart :: "batch \<Rightarrow> bool" where
  "apart b \<longleftrightarrow> (\<forall>k s k' s'. map_of (Sets b) k = Some s \<and> kind s \<and> map_of (Sets b) k' = Some s' \<and> member s' \<longrightarrow>
     key_of s' \<noteq> Some k)"

definition in_group :: "resource_key \<Rightarrow> metric_set option \<Rightarrow> bool" where
  "in_group g s \<longleftrightarrow> (case s of None \<Rightarrow> False | Some s \<Rightarrow> member s \<and> key_of s = Some g)"

definition active :: "batch \<Rightarrow> resource_key \<Rightarrow> bool" where
  "active b g \<longleftrightarrow> creates \<or> map_of (Sets b) g \<noteq> None"

definition spec_ok :: "sum_count_spec \<Rightarrow> bool" where
  "spec_ok spec \<longleftrightarrow> IsPartOfGroup spec = member \<and> Group spec = group \<and> distinct (ResourceSumMetrics spec) \<and>
     ResourceCountMetric spec \<notin> set (ResourceSumMetrics spec)"

definition contribution :: "resource_key \<Rightarrow> (metric_set \<Rightarrow> int64) \<Rightarrow> metric_set option \<Rightarrow> int64" where
  "contribution g f s = (if in_group g s then f (the s) else 0)"

text \<open>
  The effect of visiting the sets \<open>ks\<close>: only groups of visited members change, their counts and sums
  go up by what those members contribute, and every other metric keeps its value.
\<close>

definition effect :: "sum_count_spec \<Rightarrow> batch \<Rightarrow> resource_key list \<Rightarrow> batch \<Rightarrow> bool" where
  "effect spec b ks b' \<longleftrightarrow> apart b' \<and> typed spec b' \<and>
     (\<forall>j. map_of (Sets b) j \<noteq> None \<longrightarrow> map_of (Sets b') j \<noteq> None) \<and>
     (\<forall>j s. kind s \<longrightarrow> (map_of (Sets b') j = Some s) = (map_of (Sets b) j = Some s)) \<and>
     (\<forall>j s'. map_of (Sets b') j = Some s' \<longrightarrow>
        (case map_of (Sets b) j of Some s \<Rightarrow> Labels s' = Labels s | None \<Rightarrow> \<exists>t. Labels s' = Labels (fresh t))) \<and>
     (\<forall>j. map_of (Sets b') j = map_of (Sets b) j \<or> (\<exists>k \<in> set ks. in_group j (map_of (Sets b) k))) \<and>
     (\<forall>g n. n \<noteq> ResourceCountMetric spec \<and> n \<notin> set (ResourceSumMetrics spec) \<longrightarrow> group_int b' g n = group_int b g n) \<and>
     (\<forall>g. active b' g = active b g) \<and>
     (\<forall>g. group_int b' g (ResourceCountMetric spec) = group_int b g (ResourceCountMetric spec) +
        (if active b g then \<Sum>k \<leftarrow> ks. contribution g (\<lambda>s. count_of s (ResourceCountMetric spec)) (map_of (Sets b) k) else 0)) \<and>
     (\<forall>g. \<forall>n \<in> set (ResourceSumMetrics spec). group_int b' g n = group_int b g n +
        (if active b g then \<Sum>k \<leftarrow> ks. contribution g (\<lambda>s. int_of s n) (map_of (Sets b) k) else 0))"

lemma effectD:
  assumes "effect spec b ks b'"
  shows "apart b'" "typed spec b'"
    and "kind s \<Longrightarrow> (map_of (Sets b') j = Some s) = (map_of (Sets b) j = Some s)"
    and "map_of (Sets b') j = map_of (Sets b) j \<or> (\<exists>k \<in> set ks. in_group j (map_of (Sets b) k))"
    and "n \<noteq> ResourceCountMetric spec \<Longrightarrow> n \<notin> set (ResourceSumMetrics spec) \<Longrightarrow> group_int b' g n = group_int b g n"
    and "active b' g = active b g"
    and "group_int b' g (ResourceCountMetric spec) = group_int b g (ResourceCountMetric spec) +
        (if active b g then \<Sum>k \<leftarrow> ks. contribution g (\<lambda>s. count_of s (ResourceCountMetric spec)) (map_of (Sets b) k) else 0)"
    and "map_of (Sets b') j = Some s' \<Longrightarrow>
        (case map_of (Sets b) j of Some s \<Rightarrow> Labels s' = Labels s | None \<Rightarrow> \<exists>t. Labels s' = Labels (fresh t))"
    and "m \<in> set (ResourceSumMetrics spec) \<Longrightarrow> group_int b' g m = group_int b g m +
        (if active b g then \<Sum>k \<leftarrow> ks. contribution g (\<lambda>s. int_of s m) (map_of (Sets b) k) else 0)"
    and "map_of (Sets b) j \<noteq> None \<Longrightarrow> map_of (Sets b') j \<noteq> None"
  using assms unfolding effect_def by blast+

lemma effect_refl: "apart b \<Longrightarrow> typed spec b \<Longrightarrow> effect spec b [] b"
  by (simp add: effect_def)

lemma kinds_in_group:
  assumes "\<And>j s. kind s \<Longrightarrow> (map_of (Sets c) j = Some s) = (map_of (Sets b) j = Some s)"
  shows "in_group g (map_of (Sets c) j) = in_group g (map_of (Sets b) j)"
    and "contribution g f (map_of (Sets c) j) = contribution g f (map_of (Sets b) j)"
proof -
  have iff: "in_group g (map_of (Sets x) j) \<longleftrightarrow> (\<exists>s. kind s \<and> map_of (Sets x) j = Some s \<and> member s \<and> key_of s = Some g)" for x
    using member_kind by (auto simp: in_group_def split: option.splits)
  show same: "in_group g (map_of (Sets c) j) = in_group g (map_of (Sets b) j)"
    unfolding iff using assms by blast
  show "contribution g f (map_of (Sets c) j) = contribution g f (map_of (Sets b) j)"
  proof (cases "in_group g (map_of (Sets b) j)")
    case True
    then obtain s where "kind s" "map_of (Sets b) j = Some s" unfolding iff by blast
    with assms [of s j] same show ?thesis by (simp add: contribution_def)
  qed (simp add: contribution_def same)
qed

lemma effect_trans:
  assumes "effect spec b xs c" "effect spec c ys d"
  shows "effect spec b (xs @ ys) d"
proof -
  have kinds: "\<And>j s. kind s \<Longrightarrow> (map_of (Sets c) j = Some s) = (map_of (Sets b) j = Some s)"
    using assms(1) by (simp add: effect_def)
  note same = kinds_in_group [OF kinds]
  note c = effectD [OF assms(1)] and d = effectD [OF assms(2)]
  show ?thesis
    unfolding effect_def
  proof (intro conjI allI impI ballI)
    show "map_of (Sets d) j = map_of (Sets b) j \<or> (\<exists>k \<in> set (xs @ ys). in_group j (map_of (Sets b) k))" for j
      using d(4) [of j] c(4) [of j] by (auto simp: same(1))
    show "case map_of (Sets b) j of Some s \<Rightarrow> Labels s' = Labels s | None \<Rightarrow> \<exists>t. Labels s' = Labels (fresh t)"
      if "map_of (Sets d) j = Some s'" for j s'
      using d(8) [OF that] c(8) [of j] c(10) [of j] by (cases "map_of (Sets c) j") (auto split: option.splits)
    show "map_of (Sets d) j \<noteq> None" if "map_of (Sets b) j \<noteq> None" for j
      by (rule d(10) [OF c(10) [OF that]])
  qed (simp_all add: c(5-7,9) d(1,2,5-7,9) d(3) c(3) same(2) add.assoc)
qed

lemma step:
  assumes spec: "spec_ok spec" and b: "apart b" "typed spec b"
  shows "\<exists>b'. sumCountSets spec (k # ks) b = sumCountSets spec ks b' \<and> effect spec b [k] b'"
proof (cases "\<exists>s g. map_of (Sets b) k = Some s \<and> member s \<and> key_of s = Some g \<and> active b g")
  case False
  have "sumCountSets spec (k # ks) b = sumCountSets spec ks b"
  proof (cases "map_of (Sets b) k")
    case (Some s)
    have "snd (group b k s) = None" if "member s"
      using False Some that group_none [of s b k] group_some [of s _ b k]
      by (cases "key_of s") (auto simp: active_def split: option.splits)
    then show ?thesis using Some spec by (auto simp: spec_ok_def split: prod.splits option.splits)
  qed simp
  moreover have "\<not> (in_group g (map_of (Sets b) k) \<and> active b g)" for g
    using False by (auto simp: in_group_def split: option.splits)
  ultimately show ?thesis using b
    by (intro exI [of _ b]) (auto simp: effect_def contribution_def simp del: sumCountSets.simps)
next
  case True
  then obtain s g where s: "map_of (Sets b) k = Some s" "member s" "key_of s = Some g" "active b g" by blast
  define gs where "gs = (case map_of (Sets b) g of Some gs \<Rightarrow> gs | None \<Rightarrow> fresh s)"
  have grp: "group b k s = (g, Some gs)"
    using group_some [OF s(3), of b k] s(4) by (auto simp: gs_def active_def split: option.splits)
  have gs_int: "int_of gs n = group_int b g n" for n
    using fresh_empty [of s] by (simp add: gs_def group_int_def int_of_def split: option.split)
  have not_kind: "\<not> kind gs"
    using b(1) s fresh_kind [of s] by (auto simp: gs_def apart_def split: option.split)
  let ?M = "ResourceCountMetric spec" and ?ns = "ResourceSumMetrics spec"
  define g0 where "g0 = aggregateCount s gs ?M"
  have M: "?M \<notin> set ?ns" "distinct ?ns" using spec by (simp_all add: spec_ok_def)
  have g0_same: "map_of (Values g0) n = map_of (Values gs) n" if "n \<in> set ?ns" for n
    unfolding g0_def using M that by (intro aggregateCount_other) auto
  have gs_typed: "int_typed n gs" if "n \<in> set ?ns" for n
    using b(2) that fresh_empty [of s] by (auto simp: gs_def typed_def int_typed_def split: option.splits)
  have "\<forall>n \<in> set ?ns. int_typed n s \<and> int_typed n g0"
    using b(2) s(1) gs_typed g0_same by (auto simp: typed_def int_typed_def)
  from aggregate_int [OF M(2) this] obtain out where out: "aggregate s g0 ?ns = Inr out"
    "\<forall>n \<in> set ?ns. int_typed n out \<and> int_of out n = int_of g0 n + int_of s n" by blast
  let ?b' = "b \<lparr> Sets := gput g out (Sets b) \<rparr>"
  have run: "sumCountSets spec (k # ks) b = sumCountSets spec ks ?b'"
    using s spec grp out(1) by (simp add: spec_ok_def g0_def)
  have out_kind: "\<not> kind out"
    using kind_labels [of out gs] aggregate_Labels [OF out(1)] not_kind by (simp add: g0_def)
  have sets: "map_of (Sets ?b') = (map_of (Sets b))(g \<mapsto> out)" by simp
  have kinds: "(map_of (Sets ?b') j = Some t) = (map_of (Sets b) j = Some t)" if "kind t" for j t
    using that out_kind b(1) s by (auto simp: apart_def)
  have ap: "apart ?b'"
    using b(1) kinds member_kind unfolding apart_def by blast
  have ty: "typed spec ?b'"
    using b(2) out(2) by (auto simp: typed_def)
  have cnt: "int_of out ?M = int_of gs ?M + count_of s ?M"
    using aggregate_other [OF out(1) M(1)] aggregateCount_int [of s gs ?M] by (simp add: int_of_def g0_def)
  have sums: "int_of out n = int_of gs n + int_of s n" if "n \<in> set ?ns" for n
    using out(2) g0_same [OF that] that by (simp add: int_of_def)
  have act: "active ?b' h = active b h" for h
    using s(4) by (auto simp: active_def)
  have ig: "in_group h (map_of (Sets b) k) \<longleftrightarrow> h = g" for h
    using s by (auto simp: in_group_def)
  have "group_int ?b' h ?M = group_int b h ?M + (if h = g \<and> active b h then count_of s ?M else 0) \<and>
      (\<forall>n \<in> set ?ns. group_int ?b' h n = group_int b h n + (if h = g \<and> active b h then int_of s n else 0))" for h
  proof (cases "h = g")
    case True
    then show ?thesis using cnt sums gs_int s(4) by (simp add: group_int_def)
  next
    case False
    then show ?thesis by (simp add: group_int_def)
  qed
  moreover have "group_int ?b' h n = group_int b h n" if "n \<noteq> ?M" "n \<notin> set ?ns" for h n
  proof (cases "h = g")
    case True
    have "int_of out n = int_of gs n"
      using aggregate_other [OF out(1) that(2)] aggregateCount_other [OF that(1), of s gs] by (simp add: int_of_def g0_def)
    with True gs_int show ?thesis by (simp add: group_int_def)
  qed (simp add: group_int_def)
  moreover have "map_of (Sets ?b') j = map_of (Sets b) j \<or> j = g" for j by simp
  moreover have "map_of (Sets b) j \<noteq> None \<Longrightarrow> map_of (Sets ?b') j \<noteq> None" for j by simp
  moreover have "case map_of (Sets b) j of Some s \<Rightarrow> Labels s' = Labels s | None \<Rightarrow> \<exists>t. Labels s' = Labels (fresh t)"
    if "map_of (Sets ?b') j = Some s'" for j s'
    using that aggregate_Labels [OF out(1)] by (cases "j = g") (auto simp: g0_def gs_def split: option.splits)
  ultimately have "effect spec b [k] ?b'"
    using ap ty kinds act unfolding effect_def contribution_def
    by (simp add: ig del: map_of_gput) (simp add: s(1) del: map_of_gput)
  with run show ?thesis by blast
qed

lemma loop:
  assumes "spec_ok spec" "apart b" "typed spec b"
  shows "\<exists>b'. sumCountSets spec ks b = Inr b' \<and> effect spec b ks b'"
  using assms(2,3)
proof (induction ks arbitrary: b)
  case Nil
  then show ?case by (simp add: effect_refl)
next
  case (Cons k ks)
  from step [OF assms(1) Cons.prems, of k ks] obtain c where
    c: "sumCountSets spec (k # ks) b = sumCountSets spec ks c" "effect spec b [k] c" by blast
  then have "apart c" "typed spec c" by (simp_all add: effect_def)
  from Cons.IH [OF this] obtain d where "sumCountSets spec ks c = Inr d" "effect spec c ks d" by blast
  with c effect_trans [OF c(2), of ks d] show ?case by simp
qed

lemma sum_contributions:
  assumes "wf_map (Sets b)"
  shows "(\<Sum>k \<leftarrow> map fst (Sets b). contribution g f (map_of (Sets b) k)) =
         (\<Sum>(k, s) \<leftarrow> filter (\<lambda>(k, s). member s \<and> key_of s = Some g) (Sets b). f s)"
proof -
  have "contribution g f (map_of (Sets b) (fst kv)) = (if member (snd kv) \<and> key_of (snd kv) = Some g then f (snd kv) else 0)"
    if "kv \<in> set (Sets b)" for kv
    using map_of_is_SomeI [OF assms, of "fst kv" "snd kv"] that by (simp add: contribution_def in_group_def)
  then have "(\<Sum>k \<leftarrow> map fst (Sets b). contribution g f (map_of (Sets b) k)) =
      (\<Sum>kv \<leftarrow> Sets b. if member (snd kv) \<and> key_of (snd kv) = Some g then f (snd kv) else 0)"
    by (simp add: comp_def cong: map_cong)
  also have "\<dots> = (\<Sum>(k, s) \<leftarrow> filter (\<lambda>(k, s). member s \<and> key_of s = Some g) (Sets b). f s)"
    by (simp add: sum_list_map_filter' case_prod_unfold)
  finally show ?thesis .
qed

end

lemma sumCountSets_wf: "sumCountSets spec ks b = Inr b' \<Longrightarrow> wf_map (Sets b) \<Longrightarrow> wf_map (Sets b')"
proof (induction spec ks b rule: sumCountSets.induct)
  case (2 spec k ks b)
  then show ?case by (auto split: option.splits if_splits prod.splits sum.splits)
qed simp

text \<open>Two passes over the same groups, as every aggregator makes: one for pods, one for containers.\<close>

locale two_passes =
  p: grouping member1 group kind1 key_of creates fresh +
  c: grouping member2 group kind2 key_of creates fresh
  for member1 member2 group kind1 kind2 key_of creates fresh
begin

lemma both:
  assumes ok: "p.spec_ok s1" "c.spec_ok s2" "ResourceSumMetrics s2 = []" "ResourceCountMetric s2 \<noteq> ResourceCountMetric s1"
      "ResourceCountMetric s2 \<notin> set (ResourceSumMetrics s1)"
    and apart: "\<And>j s g gs. map_of (Sets b) j = Some s \<Longrightarrow> key_of s = Some g \<Longrightarrow> map_of (Sets b) g = Some gs \<Longrightarrow> \<not> kind1 gs \<and> \<not> kind2 gs"
    and wf: "wf_map (Sets b)" and typed: "typed s1 b"
  shows "\<exists>b'. sumCountSpecs [s1, s2] b = Inr b' \<and>
    (\<forall>g. p.active b g \<longrightarrow>
       group_int b' g (ResourceCountMetric s1) = group_int b g (ResourceCountMetric s1) +
         (\<Sum>(k, s) \<leftarrow> filter (\<lambda>(k, s). member1 s \<and> key_of s = Some g) (Sets b). count_of s (ResourceCountMetric s1)) \<and>
       group_int b' g (ResourceCountMetric s2) = group_int b g (ResourceCountMetric s2) +
         (\<Sum>(k, s) \<leftarrow> filter (\<lambda>(k, s). member2 s \<and> key_of s = Some g) (Sets b). count_of s (ResourceCountMetric s2)) \<and>
       (\<forall>n \<in> set (ResourceSumMetrics s1). group_int b' g n = group_int b g n +
         (\<Sum>(k, s) \<leftarrow> filter (\<lambda>(k, s). member1 s \<and> key_of s = Some g) (Sets b). int_of s n)))"
proof -
  have "p.apart b" unfolding p.apart_def using apart by blast
  from p.loop [OF ok(1) this typed, of "map fst (Sets b)"] obtain b1 where
    b1: "sumCountSets s1 (map fst (Sets b)) b = Inr b1" "p.effect s1 b (map fst (Sets b)) b1" by blast
  note e1 = p.effectD [OF b1(2)]
  have kinds: "(map_of (Sets b1) j = Some s) = (map_of (Sets b) j = Some s)" if k: "kind2 s" for j s
  proof (cases "map_of (Sets b1) j = map_of (Sets b) j")
    case False
    then obtain k where "p.in_group j (map_of (Sets b) k)" using e1(4) by blast
    then obtain t where t: "map_of (Sets b) k = Some t" "key_of t = Some j" by (auto simp: p.in_group_def split: option.splits)
    have "\<not> kind2 s'" if "map_of (Sets b1) j = Some s'" for s'
    proof (cases "map_of (Sets b) j")
      case None
      with e1(8) [OF that] obtain u where "Labels s' = Labels (fresh u)" by auto
      from c.kind_labels [OF this] c.fresh_kind [of u] show ?thesis by simp
    next
      case (Some u)
      then show ?thesis using e1(8) [OF that] c.kind_labels [of s' u] apart [OF t(1,2) Some] by simp
    qed
    with k apart [OF t(1,2)] show ?thesis by blast
  qed simp
  have "c.apart b1"
    unfolding c.apart_def
  proof (intro allI impI notI, elim conjE)
    fix k s k' s'
    assume "map_of (Sets b1) k = Some s" "kind2 s" "key_of s' = Some k" "map_of (Sets b1) k' = Some s'" "member2 s'"
    with kinds c.member_kind have "map_of (Sets b) k = Some s" "map_of (Sets b) k' = Some s'" by blast+
    with apart \<open>key_of s' = Some k\<close> \<open>kind2 s\<close> show False by blast
  qed
  moreover have "typed s2 b1" by (simp add: typed_def ok(3))
  ultimately obtain b2 where
    b2: "sumCountSets s2 (map fst (Sets b1)) b1 = Inr b2" "c.effect s2 b1 (map fst (Sets b1)) b2"
    using c.loop [OF ok(2), of b1 "map fst (Sets b1)"] by blast
  note e2 = c.effectD [OF b2(2)]
  have wf1: "wf_map (Sets b1)" using sumCountSets_wf [OF b1(1) wf] .
  have sum2: "(\<Sum>k \<leftarrow> map fst (Sets b1). c.contribution g f (map_of (Sets b1) k)) =
      (\<Sum>k \<leftarrow> map fst (Sets b). c.contribution g f (map_of (Sets b) k))" for g f
  proof -
    have sub: "set (map fst (Sets b)) \<subseteq> set (map fst (Sets b1))"
      using e1(10) by (auto simp: map_of_eq_None_iff)
    have zero: "c.contribution g f (map_of (Sets b) k) = 0" if "k \<notin> set (map fst (Sets b))" for k
    proof -
      have "map_of (Sets b) k = None" using that by (simp add: map_of_eq_None_iff)
      then show ?thesis by (simp add: c.contribution_def c.in_group_def)
    qed
    have "(\<Sum>k \<leftarrow> map fst (Sets b1). c.contribution g f (map_of (Sets b1) k)) =
        (\<Sum>k \<in> set (map fst (Sets b1)). c.contribution g f (map_of (Sets b) k))"
      using sum_list_distinct_conv_sum_set [OF wf1] by (simp add: c.kinds_in_group(2) [OF kinds])
    also have "\<dots> = (\<Sum>k \<in> set (map fst (Sets b)). c.contribution g f (map_of (Sets b) k))"
      by (rule sum.mono_neutral_right) (use sub zero in auto)
    also have "\<dots> = (\<Sum>k \<leftarrow> map fst (Sets b). c.contribution g f (map_of (Sets b) k))"
      by (rule sum_list_distinct_conv_sum_set [OF wf, symmetric])
    finally show ?thesis .
  qed
  show ?thesis
  proof (intro exI [of _ b2] conjI allI impI ballI)
    show "sumCountSpecs [s1, s2] b = Inr b2" using b1 b2 by simp
    fix g assume act: "p.active b g"
    have act1: "p.active b1 g" using e1(6) act by simp
    show "group_int b2 g (ResourceCountMetric s1) = group_int b g (ResourceCountMetric s1) +
         (\<Sum>(k, s) \<leftarrow> filter (\<lambda>(k, s). member1 s \<and> key_of s = Some g) (Sets b). count_of s (ResourceCountMetric s1))"
    proof -
      have "group_int b2 g (ResourceCountMetric s1) = group_int b1 g (ResourceCountMetric s1)"
        using e2(5) [of "ResourceCountMetric s1" g] ok(3,4) by simp
      then show ?thesis unfolding e1(7) p.sum_contributions [OF wf] using act by simp
    qed
    show "group_int b2 g (ResourceCountMetric s2) = group_int b g (ResourceCountMetric s2) +
         (\<Sum>(k, s) \<leftarrow> filter (\<lambda>(k, s). member2 s \<and> key_of s = Some g) (Sets b). count_of s (ResourceCountMetric s2))"
    proof -
      have "group_int b1 g (ResourceCountMetric s2) = group_int b g (ResourceCountMetric s2)"
        using e1(5) ok(4,5) by blast
      then show ?thesis using e2(7) [of g] act1 unfolding sum2 c.sum_contributions [OF wf] by simp
    qed
    show "group_int b2 g n = group_int b g n +
         (\<Sum>(k, s) \<leftarrow> filter (\<lambda>(k, s). member1 s \<and> key_of s = Some g) (Sets b). int_of s n)"
      if "n \<in> set (ResourceSumMetrics s1)" for n
    proof -
      have "n \<noteq> ResourceCountMetric s2" using ok(5) that by blast
      then have "group_int b2 g n = group_int b1 g n"
        using e2(5) [of n g] ok(3) by simp
      then show ?thesis unfolding e1(9) [OF that] p.sum_contributions [OF wf] using act by simp
    qed
  qed
qed

lemma totals:
  assumes wf: "wf_map (Sets b)"
    and apart: "\<And>j s g gs. map_of (Sets b) j = Some s \<Longrightarrow> key_of s = Some g \<Longrightarrow> map_of (Sets b) g = Some gs \<Longrightarrow> \<not> kind1 gs \<and> \<not> kind2 gs"
    and ms: "distinct ms" "m1 \<notin> set ms" "m2 \<notin> set ms" "m2 \<noteq> m1"
    and int: "\<forall>(k, s) \<in> set (Sets b). \<forall>n \<in> set ms. int_typed n s"
  shows "\<exists>b'. sumCountSpecs
      [\<lparr> ResourceSumMetrics = ms, ResourceCountMetric = m1, IsPartOfGroup = member1, Group = group \<rparr>,
       \<lparr> ResourceSumMetrics = [], ResourceCountMetric = m2, IsPartOfGroup = member2, Group = group \<rparr>] b = Inr b' \<and>
    (\<forall>g. creates \<or> map_of (Sets b) g \<noteq> None \<longrightarrow>
       group_int b' g m1 = group_int b g m1 + (\<Sum>s \<leftarrow> sets_where (\<lambda>s. member1 s \<and> key_of s = Some g) b. count_of s m1) \<and>
       group_int b' g m2 = group_int b g m2 + (\<Sum>s \<leftarrow> sets_where (\<lambda>s. member2 s \<and> key_of s = Some g) b. count_of s m2) \<and>
       (\<forall>n \<in> set ms. group_int b' g n = group_int b g n +
         (\<Sum>s \<leftarrow> sets_where (\<lambda>s. member1 s \<and> key_of s = Some g) b. int_of s n)))"
proof -
  let ?s1 = "\<lparr> ResourceSumMetrics = ms, ResourceCountMetric = m1, IsPartOfGroup = member1, Group = group \<rparr>"
  let ?s2 = "\<lparr> ResourceSumMetrics = [], ResourceCountMetric = m2, IsPartOfGroup = member2, Group = group \<rparr>"
  have "p.spec_ok ?s1" "c.spec_ok ?s2" "typed ?s1 b"
    using ms int typedI [OF wf, of ?s1] unfolding p.spec_ok_def c.spec_ok_def by simp_all
  from both [OF this(1,2) _ _ _ apart wf this(3)] ms show ?thesis
    unfolding p.active_def sum_sets_where by simp
qed

end

section \<open>The groupings of the code\<close>

definition namespaceKeyOf :: "metric_set \<Rightarrow> resource_key option" where
  "namespaceKeyOf s = map_option NamespaceKey (map_of (Labels s) (Key LabelNamespaceName))"

definition namespaceFresh :: "metric_set \<Rightarrow> metric_set" where
  "namespaceFresh s = namespaceMetricSet (get_str (Labels s) (Key LabelNamespaceName)) (get_str (Labels s) (Key LabelPodNamespaceUID))"

definition nodeKeyOf :: "metric_set \<Rightarrow> resource_key option" where
  "nodeKeyOf s = (let n = get_str (Labels s) (Key LabelNodename) in if n = [] then None else Some (NodeKey n))"

lemma isType_labels: "Labels s = Labels s' \<Longrightarrow> isType t s = isType t s'"
  by (simp add: isType_def)

lemma isType_newSet: "isType t (newSet labels) \<longleftrightarrow> get_str labels (Key LabelMetricSetType) = t"
  by (simp add: isType_def newSet_def)

interpretation nsg: two_passes isAggregatablePod isAggregatablePodContainer namespaceGroup
    "isType MetricSetTypePod" "isType MetricSetTypePodContainer" namespaceKeyOf True namespaceFresh
  by unfold_locales
     (auto simp: isAggregatablePod_def isAggregatablePodContainer_def namespaceKeyOf_def namespaceFresh_def
        namespaceMetricSet_def get_str_def namespaceGroup_def newSet_def isType_def
        split: option.splits)

interpretation nodeg: two_passes isAggregatablePod isAggregatablePodContainer nodeGroup
    "isType MetricSetTypePod" "isType MetricSetTypePodContainer" nodeKeyOf False "\<lambda>_. newSet []"
  by unfold_locales
     (auto simp: isAggregatablePod_def isAggregatablePodContainer_def nodeKeyOf_def Let_def
        get_str_def nodeGroup_def newSet_def isType_def
        split: option.splits if_splits)

interpretation clusterg: two_passes "isType MetricSetTypeNamespace" "isType MetricSetTypeNamespace" clusterGroup
    "isType MetricSetTypeNamespace" "isType MetricSetTypeNamespace" "\<lambda>_. Some ClusterKey" True "\<lambda>_. clusterMetricSet"
  by unfold_locales
     (auto simp: clusterMetricSet_def get_str_def clusterGroup_def newSet_def isType_def
        split: option.splits)

section \<open>Properties\<close>

lemma namespaceKeyOf_iff: "namespaceKeyOf s = Some (NamespaceKey n) \<longleftrightarrow> map_of (Labels s) (Key LabelNamespaceName) = Some n"
  by (auto simp: namespaceKeyOf_def NamespaceKey_def)

lemma nodeKeyOf_iff: "n \<noteq> [] \<Longrightarrow> nodeKeyOf s = Some (NodeKey n) \<longleftrightarrow> get_str (Labels s) (Key LabelNodename) = n"
  by (auto simp: nodeKeyOf_def NodeKey_def Let_def)

lemma count_metric_names: "Name MetricPodContainerCount \<noteq> Name MetricPodCount"
  by simp

text \<open>
  C3. The namespace aggregator never fails on integer metrics, and afterwards the set of each
  namespace has, in 64-bit arithmetic, the pod count and the container count raised by one for every
  running pod and every container of the namespace (or by the count such a set carries), and each
  aggregated metric raised by the sum of the pods' values.
\<close>

theorem NamespaceAggregator_totals:
  assumes wf: "wf_map (Sets b)"
    and apart: "\<forall>(k, s) \<in> set (Sets b). \<forall>n gs. map_of (Labels s) (Key LabelNamespaceName) = Some n \<longrightarrow>
      map_of (Sets b) (NamespaceKey n) = Some gs \<longrightarrow> \<not> isType MetricSetTypePod gs \<and> \<not> isType MetricSetTypePodContainer gs"
    and ms: "distinct ms" "Name MetricPodCount \<notin> set ms" "Name MetricPodContainerCount \<notin> set ms"
    and int: "\<forall>(k, s) \<in> set (Sets b). \<forall>n \<in> set ms. int_typed n s"
  shows "\<exists>b'. SumCountAggregator_Process (NewNamespaceAggregator ms) b = Inr b' \<and>
    (\<forall>ns. let inside = (\<lambda>s. map_of (Labels s) (Key LabelNamespaceName) = Some ns);
               pods = sets_where (\<lambda>s. isAggregatablePod s \<and> inside s) b;
               containers = sets_where (\<lambda>s. isAggregatablePodContainer s \<and> inside s) b;
               now = group_int b' (NamespaceKey ns); before = group_int b (NamespaceKey ns)
           in now (Name MetricPodCount) = before (Name MetricPodCount) + (\<Sum>s \<leftarrow> pods. count_of s (Name MetricPodCount)) \<and>
              now (Name MetricPodContainerCount) = before (Name MetricPodContainerCount) +
                (\<Sum>s \<leftarrow> containers. count_of s (Name MetricPodContainerCount)) \<and>
              (\<forall>n \<in> set ms. now n = before n + (\<Sum>s \<leftarrow> pods. int_of s n)))"
proof -
  have apart': "\<not> isType MetricSetTypePod gs \<and> \<not> isType MetricSetTypePodContainer gs"
    if "map_of (Sets b) k = Some s" "namespaceKeyOf s = Some g" "map_of (Sets b) g = Some gs" for k s g gs
  proof -
    have "(k, s) \<in> set (Sets b)" using that(1) by (rule map_of_SomeD)
    with apart that(2,3) show ?thesis by (auto simp: namespaceKeyOf_def)
  qed
  show ?thesis
    unfolding SumCountAggregator_Process_def NewNamespaceAggregator_def NewSumCountAggregator_def Let_def
      sum_count_aggregator.simps namespaceKeyOf_iff [symmetric]
    by (rule ex_forward [OF nsg.totals [OF wf apart' ms(1,2,3) count_metric_names int]]) simp_all
qed

definition sample_pod :: metric_set where
  "sample_pod = newSet [(Key LabelMetricSetType, MetricSetTypePod), (Key LabelNamespaceName, ''default''),
     (Key LabelNodename, ''n1'')]
     \<lparr> Values := [(''cpu/usage_rate'', \<lparr> IntValue = 7, FloatValue = Fin 0, ValueType = ValueInt64 \<rparr>)],
       LabeledValues := [\<lparr> lvName = Name MetricPodPhase, lvLabels = [(''phase'', ''Running'')],
         lvValue = \<lparr> IntValue = 2, FloatValue = Fin 0, ValueType = ValueInt64 \<rparr> \<rparr>] \<rparr>"

definition sample_batch :: batch where
  "sample_batch = \<lparr> Timestamp = 0, Sets = [(PodKey ''default'' ''web'', sample_pod),
     (NodeKey ''n1'', newSet [(Key LabelMetricSetType, MetricSetTypeNode)])], Metrics = [] \<rparr>"

lemmas sample_simps = sample_batch_def sample_pod_def newSet_def isType_def get_str_def int_typed_def resource_key_defs
  isAggregatablePod_def podTakesUpResources_def FindLabels_def copyLabels_def sets_where_def
  isAggregatablePodContainer_def

theorem NamespaceAggregator_totals_witness:
  "\<exists>b'. SumCountAggregator_Process (NewNamespaceAggregator [''cpu/usage_rate'']) sample_batch = Inr b' \<and>
     group_int b' (NamespaceKey ''default'') ''cpu/usage_rate'' = 7 \<and>
     group_int b' (NamespaceKey ''default'') (Name MetricPodCount) = 1"
proof -
  have "\<exists>b'. SumCountAggregator_Process (NewNamespaceAggregator [''cpu/usage_rate'']) sample_batch = Inr b' \<and>
    (\<forall>ns. let inside = (\<lambda>s. map_of (Labels s) (Key LabelNamespaceName) = Some ns);
               pods = sets_where (\<lambda>s. isAggregatablePod s \<and> inside s) sample_batch;
               containers = sets_where (\<lambda>s. isAggregatablePodContainer s \<and> inside s) sample_batch;
               now = group_int b' (NamespaceKey ns); before = group_int sample_batch (NamespaceKey ns)
           in now (Name MetricPodCount) = before (Name MetricPodCount) + (\<Sum>s \<leftarrow> pods. count_of s (Name MetricPodCount)) \<and>
              now (Name MetricPodContainerCount) = before (Name MetricPodContainerCount) +
                (\<Sum>s \<leftarrow> containers. count_of s (Name MetricPodContainerCount)) \<and>
              (\<forall>n \<in> set [''cpu/usage_rate'']. now n = before n + (\<Sum>s \<leftarrow> pods. int_of s n)))"
    by (rule NamespaceAggregator_totals) (auto simp: sample_simps split: if_splits)
  then show ?thesis
    by (elim ex_forward conjE, drule_tac x = "''default''" in spec)
       (simp add: Let_def sample_simps group_int_def int_of_def count_of_def)
qed

text \<open>
  The node aggregator does the same for every node that has a set in the batch (pods on a node
  without one are ignored).
\<close>

theorem NodeAggregator_totals:
  assumes wf: "wf_map (Sets b)"
    and apart: "\<forall>n gs. map_of (Sets b) (NodeKey n) = Some gs \<longrightarrow>
      \<not> isType MetricSetTypePod gs \<and> \<not> isType MetricSetTypePodContainer gs"
    and ms: "distinct ms" "Name MetricPodCount \<notin> set ms" "Name MetricPodContainerCount \<notin> set ms"
    and int: "\<forall>(k, s) \<in> set (Sets b). \<forall>n \<in> set ms. int_typed n s"
  shows "\<exists>b'. SumCountAggregator_Process (NewNodeAggregator ms) b = Inr b' \<and>
    (\<forall>node. node \<noteq> [] \<and> map_of (Sets b) (NodeKey node) \<noteq> None \<longrightarrow>
      (let pods = sets_where (\<lambda>s. isAggregatablePod s \<and> get_str (Labels s) (Key LabelNodename) = node) b;
           containers = sets_where (\<lambda>s. isAggregatablePodContainer s \<and> get_str (Labels s) (Key LabelNodename) = node) b;
           now = group_int b' (NodeKey node); before = group_int b (NodeKey node)
       in now (Name MetricPodCount) = before (Name MetricPodCount) + (\<Sum>s \<leftarrow> pods. count_of s (Name MetricPodCount)) \<and>
          now (Name MetricPodContainerCount) = before (Name MetricPodContainerCount) +
            (\<Sum>s \<leftarrow> containers. count_of s (Name MetricPodContainerCount)) \<and>
          (\<forall>n \<in> set ms. now n = before n + (\<Sum>s \<leftarrow> pods. int_of s n))))"
proof -
  have apart': "\<not> isType MetricSetTypePod gs \<and> \<not> isType MetricSetTypePodContainer gs"
    if "map_of (Sets b) k = Some s" "nodeKeyOf s = Some g" "map_of (Sets b) g = Some gs" for k s g gs
    using that apart by (auto simp: nodeKeyOf_def Let_def split: if_splits)
  show ?thesis
    unfolding SumCountAggregator_Process_def NewNodeAggregator_def NewSumCountAggregator_def Let_def sum_count_aggregator.simps
    by (rule ex_forward [OF nodeg.totals [OF wf apart' ms(1,2,3) count_metric_names int]]) (simp_all add: nodeKeyOf_iff)
qed

theorem NodeAggregator_totals_witness:
  "\<exists>b'. SumCountAggregator_Process (NewNodeAggregator [''cpu/usage_rate'']) sample_batch = Inr b' \<and>
     group_int b' (NodeKey ''n1'') ''cpu/usage_rate'' = 7 \<and> group_int b' (NodeKey ''n1'') (Name MetricPodCount) = 1"
proof -
  have "\<exists>b'. SumCountAggregator_Process (NewNodeAggregator [''cpu/usage_rate'']) sample_batch = Inr b' \<and>
    (\<forall>node. node \<noteq> [] \<and> map_of (Sets sample_batch) (NodeKey node) \<noteq> None \<longrightarrow>
      (let pods = sets_where (\<lambda>s. isAggregatablePod s \<and> get_str (Labels s) (Key LabelNodename) = node) sample_batch;
           containers = sets_where (\<lambda>s. isAggregatablePodContainer s \<and> get_str (Labels s) (Key LabelNodename) = node) sample_batch;
           now = group_int b' (NodeKey node); before = group_int sample_batch (NodeKey node)
       in now (Name MetricPodCount) = before (Name MetricPodCount) + (\<Sum>s \<leftarrow> pods. count_of s (Name MetricPodCount)) \<and>
          now (Name MetricPodContainerCount) = before (Name MetricPodContainerCount) +
            (\<Sum>s \<leftarrow> containers. count_of s (Name MetricPodContainerCount)) \<and>
          (\<forall>n \<in> set [''cpu/usage_rate'']. now n = before n + (\<Sum>s \<leftarrow> pods. int_of s n))))"
    by (rule NodeAggregator_totals) (auto simp: sample_simps split: if_splits)
  then show ?thesis
    by (elim ex_forward conjE, drule_tac x = "''n1''" in spec)
       (simp add: Let_def sample_simps group_int_def int_of_def count_of_def)
qed

text \<open>
  The cluster aggregator adds up the namespaces: the cluster's counts and metrics grow by the
  sums over the namespace sets.
\<close>

theorem ClusterAggregator_totals:
  assumes wf: "wf_map (Sets b)"
    and apart: "\<forall>gs. map_of (Sets b) ClusterKey = Some gs \<longrightarrow> \<not> isType MetricSetTypeNamespace gs"
    and ms: "distinct ms" "Name MetricPodCount \<notin> set ms" "Name MetricPodContainerCount \<notin> set ms"
    and int: "\<forall>(k, s) \<in> set (Sets b). \<forall>n \<in> set ms. int_typed n s"
  shows "\<exists>b'. SumCountAggregator_Process (NewClusterAggregator ms) b = Inr b' \<and>
    (let spaces = sets_where (isType MetricSetTypeNamespace) b;
         now = group_int b' ClusterKey; before = group_int b ClusterKey
     in now (Name MetricPodCount) = before (Name MetricPodCount) + (\<Sum>s \<leftarrow> spaces. count_of s (Name MetricPodCount)) \<and>
        now (Name MetricPodContainerCount) = before (Name MetricPodContainerCount) +
          (\<Sum>s \<leftarrow> spaces. count_of s (Name MetricPodContainerCount)) \<and>
        (\<forall>n \<in> set ms. now n = before n + (\<Sum>s \<leftarrow> spaces. int_of s n)))"
proof -
  have apart': "\<not> isType MetricSetTypeNamespace gs \<and> \<not> isType MetricSetTypeNamespace gs"
    if "map_of (Sets b) k = Some s" "Some ClusterKey = Some g" "map_of (Sets b) g = Some gs" for k s g gs
    using that apart by auto
  show ?thesis
    unfolding SumCountAggregator_Process_def NewClusterAggregator_def NewSumCountAggregator_def Let_def sum_count_aggregator.simps
    by (rule ex_forward [OF clusterg.totals [OF wf apart' ms(1,2,3) count_metric_names int]])
       (auto dest!: spec [of _ ClusterKey] simp del: sumCountSpecs.simps metric_names)
qed

definition sample_namespaces :: batch where
  "sample_namespaces = \<lparr> Timestamp = 0, Sets =
     [(NamespaceKey ''a'', newSet [(Key LabelMetricSetType, MetricSetTypeNamespace)]
         \<lparr> Values := [(''pod/count'', \<lparr> IntValue = 3, FloatValue = Fin 0, ValueType = ValueInt64 \<rparr>)] \<rparr>),
      (NamespaceKey ''b'', newSet [(Key LabelMetricSetType, MetricSetTypeNamespace)]
         \<lparr> Values := [(''pod/count'', \<lparr> IntValue = 2, FloatValue = Fin 0, ValueType = ValueInt64 \<rparr>)] \<rparr>)],
     Metrics = [] \<rparr>"

theorem ClusterAggregator_totals_witness:
  "\<exists>b'. SumCountAggregator_Process (NewClusterAggregator []) sample_namespaces = Inr b' \<and>
     group_int b' ClusterKey (Name MetricPodCount) = 5"
proof -
  have "\<exists>b'. SumCountAggregator_Process (NewClusterAggregator []) sample_namespaces = Inr b' \<and>
    (let spaces = sets_where (isType MetricSetTypeNamespace) sample_namespaces;
         now = group_int b' ClusterKey; before = group_int sample_namespaces ClusterKey
     in now (Name MetricPodCount) = before (Name MetricPodCount) + (\<Sum>s \<leftarrow> spaces. count_of s (Name MetricPodCount)) \<and>
        now (Name MetricPodContainerCount) = before (Name MetricPodContainerCount) +
          (\<Sum>s \<leftarrow> spaces. count_of s (Name MetricPodContainerCount)) \<and>
        (\<forall>n \<in> set []. now n = before n + (\<Sum>s \<leftarrow> spaces. int_of s n)))"
    by (rule ClusterAggregator_totals) (auto simp: sample_namespaces_def sample_simps split: if_splits)
  then show ?thesis
    by (elim ex_forward) (simp add: Let_def sample_namespaces_def sample_simps group_int_def int_of_def count_of_def)
qed

end
