(* ===== verification/Rate_Calculators.thy ===== *)
theory Rate_Calculators
  imports Batch Metric_Defs
begin

text \<open>
  The processors that turn cumulative values into rates: the rate calculator for metric sets, the
  rate calculator for distributions and the converter of cumulative distributions
  (\<^verbatim>\<open>plugins/processors\<close>).

  The two readings of the clock in the rate calculator are arguments. The code keeps pointers to the
  sets of the batch in its cache; the model keeps the set as it is when the calculator is done
  with it.
\<close>

section \<open>Rates of metric sets\<close>

record rate_calculator =
  rateMetricsMapping :: "(string, metric) gomap"
  previousMetricSets :: "(resource_key, metric_set) gomap"
  cachePruneInterval :: duration
  lastPruneTime :: time

definition RateCalculator_Name :: string where
  "RateCalculator_Name = ''rate calculator''"

definition NewRateCalculator :: "time \<Rightarrow> (string, metric) gomap \<Rightarrow> rate_calculator" where
  "NewRateCalculator now mapping = \<lparr> rateMetricsMapping = mapping, previousMetricSets = [],
     cachePruneInterval = 5 * Minute, lastPruneTime = now \<rparr>"

text \<open>\<^verbatim>\<open>1e9 * float64(new - old) / float64(t1 - t0)\<close>\<close>

definition floatRate :: "int64 \<Rightarrow> int64 \<Rightarrow> time \<Rightarrow> time \<Rightarrow> f64" where
  "floatRate new old t1 t0 =
     f_div (f_mul (Fin 1000000000) (f_of_int64 (new - old))) (f_of_int64 (UnixNano t1 - UnixNano t0))"

text \<open>The loop over the disk items of the new set, each matched with the old item of the same device.\<close>

definition diskRates :: "string \<Rightarrow> metric \<Rightarrow> metric_set \<Rightarrow> metric_set \<Rightarrow> metric_set" where
  "diskRates metricName targetMetric oldMs newMs =
     fold (\<lambda>itemNew ms.
             (if lvName itemNew = metricName
              then (case find (\<lambda>itemOld. lvName itemOld = metricName \<and>
                          get_str (lvLabels itemOld) (Key LabelResourceID) = get_str (lvLabels itemNew) (Key LabelResourceID))
                        (LabeledValues oldMs) of
                      Some itemOld \<Rightarrow>
                        (if MDValueType targetMetric = ValueFloat
                         then ms \<lparr> LabeledValues := LabeledValues ms @
                           [\<lparr> lvName = Name targetMetric, lvLabels = lvLabels itemNew,
                              lvValue = \<lparr> IntValue = 0,
                                FloatValue = floatRate (IntValue (lvValue itemNew)) (IntValue (lvValue itemOld))
                                  (ScrapeTime newMs) (ScrapeTime oldMs),
                                ValueType = ValueFloat \<rparr> \<rparr>] \<rparr>
                         else ms)
                    | None \<Rightarrow> ms)
              else ms))
       (LabeledValues newMs) newMs"

definition rateMetric :: "metric_set \<Rightarrow> string \<Rightarrow> metric \<Rightarrow> metric_set \<Rightarrow> metric_set go_result" where
  "rateMetric oldMs metricName targetMetric newMs =
     (if metricName = Name MetricDiskIORead \<or> metricName = Name MetricDiskIOWrite
      then Inr (diskRates metricName targetMetric oldMs newMs)
      else case (map_of (Values newMs) metricName, map_of (Values oldMs) metricName) of
             (Some new, Some old) \<Rightarrow>
               (if metricName = Name MetricCpuUsage
                then (case div64 (1000 * (IntValue new - IntValue old))
                             (UnixNano (ScrapeTime newMs) - UnixNano (ScrapeTime oldMs)) of
                        Inl e \<Rightarrow> Inl e
                      | Inr newVal \<Rightarrow> Inr (newMs \<lparr> Values := gput (Name targetMetric)
                          \<lparr> IntValue = newVal, FloatValue = Fin 0, ValueType = ValueInt64 \<rparr> (Values newMs) \<rparr>))
                else if MDValueType targetMetric = ValueFloat
                then Inr (newMs \<lparr> Values := gput (Name targetMetric)
                       \<lparr> IntValue = 0,
                         FloatValue = floatRate (IntValue new) (IntValue old) (ScrapeTime newMs) (ScrapeTime oldMs),
                         ValueType = ValueFloat \<rparr> (Values newMs) \<rparr>)
                else Inr newMs)
           | _ \<Rightarrow> Inr newMs)"

fun rateMetrics :: "metric_set \<Rightarrow> (string, metric) gomap \<Rightarrow> metric_set \<Rightarrow> metric_set go_result" where
  "rateMetrics oldMs [] newMs = Inr newMs"
| "rateMetrics oldMs ((metricName, targetMetric) # rest) newMs =
     (case rateMetric oldMs metricName targetMetric newMs of
        Inl e \<Rightarrow> Inl e
      | Inr ms \<Rightarrow> rateMetrics oldMs rest ms)"

text \<open>One set of the batch: the set afterwards and whether it is put into the cache.\<close>

definition rateSet :: "rate_calculator \<Rightarrow> resource_key \<Rightarrow> metric_set \<Rightarrow> (metric_set \<times> bool) go_result" where
  "rateSet rc key newMs =
     (case map_of (previousMetricSets rc) key of
        None \<Rightarrow> Inr (newMs, True)
      | Some oldMs \<Rightarrow>
          (if \<not> ScrapeTime newMs > ScrapeTime oldMs then Inr (newMs, False)
           else if CollectionStartTime newMs \<noteq> CollectionStartTime oldMs then Inr (newMs, True)
           else case rateMetrics oldMs (rateMetricsMapping rc) newMs of
                  Inl e \<Rightarrow> Inl e
                | Inr ms \<Rightarrow> Inr (ms, True)))"

fun rateSets :: "resource_key list \<Rightarrow> rate_calculator \<times> batch \<Rightarrow> (rate_calculator \<times> batch) go_result" where
  "rateSets [] st = Inr st"
| "rateSets (key # rest) (rc, b) =
     (case map_of (Sets b) key of
        None \<Rightarrow> rateSets rest (rc, b)
      | Some newMs \<Rightarrow>
          (case rateSet rc key newMs of
             Inl e \<Rightarrow> Inl e
           | Inr (ms, store) \<Rightarrow>
               rateSets rest
                 ((if store then rc \<lparr> previousMetricSets := gput key ms (previousMetricSets rc) \<rparr> else rc),
                  b \<lparr> Sets := gput key ms (Sets b) \<rparr>)))"

definition pruneCache :: "time \<Rightarrow> time \<Rightarrow> batch \<Rightarrow> rate_calculator \<Rightarrow> rate_calculator" where
  "pruneCache now now' b rc =
     (if lastPruneTime rc < now - cachePruneInterval rc
      then rc \<lparr> previousMetricSets :=
                  snd (delete_where (\<lambda>key _. map_of (Sets b) key = None) (previousMetricSets rc) (previousMetricSets rc)),
                lastPruneTime := now' \<rparr>
      else rc)"

definition RateCalculator_Process :: "time \<Rightarrow> time \<Rightarrow> rate_calculator \<Rightarrow> batch \<Rightarrow> (rate_calculator \<times> batch) go_result" where
  "RateCalculator_Process now now' rc b =
     (case rateSets (map fst (Sets b)) (rc, b) of
        Inl e \<Rightarrow> Inl e
      | Inr (rc', b') \<Rightarrow> Inr (pruneCache now now' b' rc', b'))"

section \<open>Rates of distributions\<close>

type_synonym 'h dist_cache = "('h, distribution) gomap"

definition DistributionRateCalculator_Name :: string where
  "DistributionRateCalculator_Name = ''distribution rate calculator''"

definition NewDistributionRateCalculator :: "'h dist_cache" where
  "NewDistributionRateCalculator = []"

text \<open>\<^verbatim>\<open>filterMapInPlace\<close> with the state of the closure threaded through.\<close>

fun filterMapInPlace :: "('s \<Rightarrow> 'a \<Rightarrow> 's \<times> 'a option) \<Rightarrow> 's \<Rightarrow> 'a list \<Rightarrow> 's \<times> 'a list" where
  "filterMapInPlace f st [] = (st, [])"
| "filterMapInPlace f st (e # es) =
     (let (st', r) = f st e; (st'', newEs) = filterMapInPlace f st' es
      in (st'', (case r of Some newE \<Rightarrow> newE # newEs | None \<Rightarrow> newEs)))"

text \<open>
  The closure of \<^verbatim>\<open>Process\<close>: its state is the cache, the keys seen in this batch and the number of
  duplicates counted.
\<close>

fun distributionRateStep :: "(string \<Rightarrow> 'h) \<Rightarrow> 'h dist_cache \<times> 'h list \<times> nat \<Rightarrow> wf_metric option \<Rightarrow>
    ('h dist_cache \<times> 'h list \<times> nat) \<times> wf_metric option option" where
  "distributionRateStep sum256 (cache, seen, dups) (Some (MDist d)) =
     (let key = Distribution_Key sum256 d in
      if key \<in> set seen then ((cache, seen, dups + 1), None)
      else
        (let rate = Distribution_Rate sum256 d (map_of cache key)
         in ((gput key (Distribution_Clone d) cache, key # seen, dups), map_option (\<lambda>r. Some (MDist r)) rate)))"
| "distributionRateStep sum256 st m = (st, Some m)"

definition DistributionRateCalculator_Process ::
    "(string \<Rightarrow> 'h) \<Rightarrow> 'h dist_cache \<Rightarrow> batch \<Rightarrow> 'h dist_cache \<times> nat \<times> batch" where
  "DistributionRateCalculator_Process sum256 cache b =
     (let ((cache', _, dups), ms) = filterMapInPlace (distributionRateStep sum256) (cache, [], 0) (Metrics b)
      in (cache', dups, b \<lparr> Metrics := ms \<rparr>))"

section \<open>Conversion of cumulative distributions\<close>

definition CumulativeDistributionConverter_Name :: string where
  "CumulativeDistributionConverter_Name = ''cumulative distribution converter''"

fun convertMetric :: "wf_metric option \<Rightarrow> wf_metric option go_result" where
  "convertMetric (Some (MDist d)) = (case ToFrequency d of Inl e \<Rightarrow> Inl e | Inr d' \<Rightarrow> Inr (Some (MDist d')))"
| "convertMetric m = Inr m"

fun mapInPlace :: "('a \<Rightarrow> 'a go_result) \<Rightarrow> 'a list \<Rightarrow> 'a list go_result" where
  "mapInPlace f [] = Inr []"
| "mapInPlace f (e # es) =
     (case f e of
        Inl err \<Rightarrow> Inl err
      | Inr e' \<Rightarrow> (case mapInPlace f es of Inl err \<Rightarrow> Inl err | Inr es' \<Rightarrow> Inr (e' # es')))"

definition CumulativeDistributionConverter_Process :: "batch \<Rightarrow> batch go_result" where
  "CumulativeDistributionConverter_Process b =
     (case mapInPlace convertMetric (Metrics b) of
        Inl e \<Rightarrow> Inl e
      | Inr ms \<Rightarrow> Inr (b \<lparr> Metrics := ms \<rparr>))"

section \<open>What the rate calculator computes\<close>

text \<open>The assumptions on the mapping that the code's own mapping meets.\<close>

definition mapping_ok :: "(string, metric) gomap \<Rightarrow> bool" where
  "mapping_ok m \<longleftrightarrow> distinct (map fst m) \<and> distinct (map (\<lambda>(_, t). Name t) m) \<and>
     set (map fst m) \<inter> set (map (\<lambda>(_, t). Name t) m) = {}"

lemma RateMetricsMapping_ok: "mapping_ok RateMetricsMapping"
  by (simp add: mapping_ok_def RateMetricsMapping_def)

lemma diskRates_same [simp]:
  "Values (diskRates n t old new) = Values new" "ScrapeTime (diskRates n t old new) = ScrapeTime new"
  "Labels (diskRates n t old new) = Labels new"
proof -
  have "Values (fold f xs ms) = Values ms \<and> ScrapeTime (fold f xs ms) = ScrapeTime ms \<and> Labels (fold f xs ms) = Labels ms"
    if "\<And>x ms. Values (f x ms) = Values ms \<and> ScrapeTime (f x ms) = ScrapeTime ms \<and> Labels (f x ms) = Labels ms"
    for f :: "labeled_value \<Rightarrow> metric_set \<Rightarrow> metric_set" and xs ms
    by (induction xs arbitrary: ms) (simp_all add: that)
  note F = this
  have "Values (diskRates n t old new) = Values new \<and> ScrapeTime (diskRates n t old new) = ScrapeTime new \<and>
      Labels (diskRates n t old new) = Labels new"
    unfolding diskRates_def by (rule F) (simp split: option.split)
  then show "Values (diskRates n t old new) = Values new" "ScrapeTime (diskRates n t old new) = ScrapeTime new"
    "Labels (diskRates n t old new) = Labels new" by simp_all
qed

lemma rateMetric_other:
  assumes "rateMetric old n t new = Inr out"
  shows "ScrapeTime out = ScrapeTime new" "Labels out = Labels new"
    and "m \<noteq> Name t \<Longrightarrow> map_of (Values out) m = map_of (Values new) m"
  using assms by (auto simp: rateMetric_def split: if_splits option.splits sum.splits)

lemma rateMetrics_other:
  assumes "rateMetrics old ms new = Inr out"
  shows "ScrapeTime out = ScrapeTime new \<and> Labels out = Labels new \<and>
    (\<forall>m. m \<notin> set (map (\<lambda>(_, t). Name t) ms) \<longrightarrow> map_of (Values out) m = map_of (Values new) m)"
  using assms
proof (induction old ms new rule: rateMetrics.induct)
  case (2 old n t rest new)
  then obtain mid where mid: "rateMetric old n t new = Inr mid" "rateMetrics old rest mid = Inr out"
    by (auto split: sum.splits)
  from 2(1) [OF mid] rateMetric_other [OF mid(1)] show ?case by simp
qed simp

text \<open>Each rate is the one computed from the two sets alone: the other metrics do not disturb it.\<close>

lemma rateMetrics_lookup:
  assumes "rateMetrics old ms new = Inr out" "mapping_ok ms" "(n, t) \<in> set ms"
  shows "\<exists>mid mid'. map_of (Values mid) n = map_of (Values new) n \<and> ScrapeTime mid = ScrapeTime new \<and>
     rateMetric old n t mid = Inr mid' \<and> map_of (Values out) (Name t) = map_of (Values mid') (Name t)"
  using assms
proof (induction old ms new rule: rateMetrics.induct)
  case (2 old n' t' rest new)
  then obtain mid where mid: "rateMetric old n' t' new = Inr mid" "rateMetrics old rest mid = Inr out"
    by (auto split: sum.splits)
  have ok: "mapping_ok rest" using 2(3) by (auto simp: mapping_ok_def)
  show ?case
  proof (cases "(n, t) = (n', t')")
    case True
    have "Name t' \<notin> set (map (\<lambda>(_, t). Name t) rest)" using 2(3) by (simp add: mapping_ok_def)
    then have "map_of (Values out) (Name t') = map_of (Values mid) (Name t')"
      using rateMetrics_other [OF mid(2)] by blast
    with mid(1) True show ?thesis by (intro exI [of _ new] exI [of _ mid]) simp
  next
    case False
    then have "(n, t) \<in> set rest" using 2(4) by auto
    from 2(1) [OF mid ok this] obtain a b where ab: "map_of (Values a) n = map_of (Values mid) n"
      "ScrapeTime a = ScrapeTime mid" "rateMetric old n t a = Inr b" "map_of (Values out) (Name t) = map_of (Values b) (Name t)"
      by blast
    have "n \<noteq> Name t'" using 2(3) \<open>(n, t) \<in> set rest\<close> by (force simp: mapping_ok_def)
    then have "map_of (Values mid) n = map_of (Values new) n" "ScrapeTime mid = ScrapeTime new"
      using rateMetric_other [OF mid(1)] by simp_all
    with ab show ?thesis by (intro exI [of _ a] exI [of _ b]) simp
  qed
qed simp

lemma UnixNano_diff:
  assumes "0 < t1 - t0" "t1 - t0 < 2 ^ 63"
  shows "sint (UnixNano t1 - UnixNano t0) = t1 - t0" "UnixNano t1 - UnixNano t0 \<noteq> 0"
proof -
  have "UnixNano t1 - UnixNano t0 = word_of_int (t1 - t0)" by (simp add: UnixNano_def wi_hom_syms)
  then show "sint (UnixNano t1 - UnixNano t0) = t1 - t0" using assms by (simp add: sint_word_of_int_64 del: of_int_diff)
  then show "UnixNano t1 - UnixNano t0 \<noteq> 0" using assms by auto
qed

lemma cpu_rate:
  assumes t: "0 < t1 - t0" "t1 - t0 < 2 ^ 63" and d: "sint old \<le> sint new" "1000 * (sint new - sint old) < 2 ^ 63"
  shows "div64 (1000 * (new - old)) (UnixNano t1 - UnixNano t0) =
     Inr (word_of_int ((1000 * (sint new - sint old)) div (t1 - t0)))"
proof -
  have "new - old = word_of_int (sint new - sint old)" by (simp add: wi_hom_syms)
  then have "1000 * (new - old) = word_of_int (1000 * (sint new - sint old))" by (simp add: wi_hom_syms)
  then have "sint (1000 * (new - old)) = 1000 * (sint new - sint old)"
    using d sint_word_of_int_64 [of "1000 * (sint new - sint old)"] by simp
  then show ?thesis
    using UnixNano_diff [OF t] t d by (simp add: div64_def sdiv_nonneg)
qed

text \<open>Each key of the batch is treated once, from the cache entry and the set under that key.\<close>

lemma rateSets_pointwise:
  assumes "rateSets ks (rc, b) = Inr (rc', b')" "distinct ks"
  shows "rateMetricsMapping rc' = rateMetricsMapping rc \<and> lastPruneTime rc' = lastPruneTime rc \<and>
    cachePruneInterval rc' = cachePruneInterval rc \<and>
    (\<forall>k. if k \<in> set ks \<and> map_of (Sets b) k \<noteq> None
         then \<exists>ms st. rateSet rc k (the (map_of (Sets b) k)) = Inr (ms, st) \<and> map_of (Sets b') k = Some ms \<and>
           map_of (previousMetricSets rc') k = (if st then Some ms else map_of (previousMetricSets rc) k)
         else map_of (Sets b') k = map_of (Sets b) k \<and> map_of (previousMetricSets rc') k = map_of (previousMetricSets rc) k)"
  using assms
proof (induction ks "(rc, b)" arbitrary: rc b rule: rateSets.induct)
  case (2 key rest rc b)
  show ?case
  proof (cases "map_of (Sets b) key")
    case None
    then have eq: "(k \<in> set (key # rest) \<and> map_of (Sets b) k \<noteq> None) = (k \<in> set rest \<and> map_of (Sets b) k \<noteq> None)" for k
      by auto
    have "rateSets rest (rc, b) = Inr (rc', b')" "distinct rest" using 2(3,4) None by simp_all
    from 2(1) [OF None this] show ?thesis unfolding eq .
  next
    case (Some newMs)
    with 2(3) obtain ms st where r: "rateSet rc key newMs = Inr (ms, st)"
      by (auto split: sum.splits)
    define rc1 where "rc1 = (if st then rc \<lparr> previousMetricSets := gput key ms (previousMetricSets rc) \<rparr> else rc)"
    define b1 where "b1 = b \<lparr> Sets := gput key ms (Sets b) \<rparr>"
    have run: "rateSets rest (rc1, b1) = Inr (rc', b')" using 2(3) Some r by (simp add: rc1_def b1_def)
    note IH = 2(2) [OF Some r refl, folded rc1_def b1_def, OF run]
    have same: "rateSet rc1 k x = rateSet rc k x" if "k \<noteq> key" for k x
      using that by (simp add: rateSet_def rc1_def split: option.split)
    have fields: "rateMetricsMapping rc1 = rateMetricsMapping rc" "lastPruneTime rc1 = lastPruneTime rc"
      "cachePruneInterval rc1 = cachePruneInterval rc" by (simp_all add: rc1_def)
    have nk: "key \<notin> set rest" "distinct rest" using 2(4) by simp_all
    have maps: "map_of (Sets b1) k = (if k = key then Some ms else map_of (Sets b) k)"
      "map_of (previousMetricSets rc1) k = (if k = key \<and> st then Some ms else map_of (previousMetricSets rc) k)" for k
      by (simp_all add: b1_def rc1_def)
    show ?thesis
    proof (intro conjI allI)
      fix k
      show "if k \<in> set (key # rest) \<and> map_of (Sets b) k \<noteq> None
         then \<exists>ms st. rateSet rc k (the (map_of (Sets b) k)) = Inr (ms, st) \<and> map_of (Sets b') k = Some ms \<and>
           map_of (previousMetricSets rc') k = (if st then Some ms else map_of (previousMetricSets rc) k)
         else map_of (Sets b') k = map_of (Sets b) k \<and> map_of (previousMetricSets rc') k = map_of (previousMetricSets rc) k"
      proof (cases "k = key")
        case True
        then show ?thesis using IH [OF nk(2)] nk(1) Some r maps by auto
      next
        case False
        then have k: "map_of (Sets b1) k = map_of (Sets b) k"
          "map_of (previousMetricSets rc1) k = map_of (previousMetricSets rc) k"
          "k \<in> set (key # rest) \<longleftrightarrow> k \<in> set rest" by (simp_all add: maps)
        from IH [OF nk(2)] have "if k \<in> set rest \<and> map_of (Sets b1) k \<noteq> None
         then \<exists>ms st. rateSet rc1 k (the (map_of (Sets b1) k)) = Inr (ms, st) \<and> map_of (Sets b') k = Some ms \<and>
           map_of (previousMetricSets rc') k = (if st then Some ms else map_of (previousMetricSets rc1) k)
         else map_of (Sets b') k = map_of (Sets b1) k \<and> map_of (previousMetricSets rc') k = map_of (previousMetricSets rc1) k"
          by blast
        then show ?thesis unfolding k same [OF False] .
      qed
    qed (use IH [OF nk(2)] fields in simp_all)
  qed
qed simp

lemma rateSets_visited:
  assumes "rateSets ks (rc, b) = Inr (rc', b')" "distinct ks" "k \<in> set ks" "map_of (Sets b) k = Some new"
  obtains ms st where "rateSet rc k new = Inr (ms, st)" "map_of (Sets b') k = Some ms"
    "map_of (previousMetricSets rc') k = (if st then Some ms else map_of (previousMetricSets rc) k)"
proof -
  from rateSets_pointwise [OF assms(1,2)] have "if k \<in> set ks \<and> map_of (Sets b) k \<noteq> None
         then \<exists>ms st. rateSet rc k (the (map_of (Sets b) k)) = Inr (ms, st) \<and> map_of (Sets b') k = Some ms \<and>
           map_of (previousMetricSets rc') k = (if st then Some ms else map_of (previousMetricSets rc) k)
         else map_of (Sets b') k = map_of (Sets b) k \<and> map_of (previousMetricSets rc') k = map_of (previousMetricSets rc) k"
    by blast
  then show thesis using assms(3,4) that by auto
qed

section \<open>Properties\<close>

text \<open>
  C1. For a container, pod or node seen in two consecutive batches without a restart, the CPU usage
  rate is the whole number of millicores used between the two scrapes, rounded down: one thousand
  times the growth of the usage counter divided by the elapsed nanoseconds, provided the counter did
  not go down and the product fits in 64 bits.
\<close>

theorem RateCalculator_cpu:
  assumes run: "RateCalculator_Process now now' rc b = Inr (rc', b')"
    and rc: "rateMetricsMapping rc = RateMetricsMapping" "map_of (previousMetricSets rc) k = Some old"
    and wf: "wf_map (Sets b)" and new: "map_of (Sets b) k = Some new"
    and start: "CollectionStartTime new = CollectionStartTime old"
    and t: "0 < ScrapeTime new - ScrapeTime old" "ScrapeTime new - ScrapeTime old < 2 ^ 63"
    and vals: "map_of (Values new) (Name MetricCpuUsage) = Some v" "map_of (Values old) (Name MetricCpuUsage) = Some u"
    and d: "sint (IntValue u) \<le> sint (IntValue v)" "1000 * (sint (IntValue v) - sint (IntValue u)) < 2 ^ 63"
  shows "\<exists>out. map_of (Sets b') k = Some out \<and>
     map_of (Values out) (Name MetricCpuUsageRate) = Some \<lparr> IntValue =
         word_of_int (1000 * (sint (IntValue v) - sint (IntValue u)) div (ScrapeTime new - ScrapeTime old)),
       FloatValue = Fin 0, ValueType = ValueInt64 \<rparr>"
proof -
  obtain rc1 where sets: "rateSets (map fst (Sets b)) (rc, b) = Inr (rc1, b')"
    using run by (auto simp: RateCalculator_Process_def split: sum.splits)
  have "k \<in> set (map fst (Sets b))" using new by (metis domI dom_map_of_conv_image_fst list.set_map)
  from rateSets_visited [OF sets wf this new] obtain out st where
    out: "rateSet rc k new = Inr (out, st)" "map_of (Sets b') k = Some out" by metis
  then have r: "rateMetrics old RateMetricsMapping new = Inr out"
    using rc start t by (auto simp: rateSet_def split: sum.splits)
  have "(Name MetricCpuUsage, MetricCpuUsageRate) \<in> set RateMetricsMapping" by (simp add: RateMetricsMapping_def)
  from rateMetrics_lookup [OF r RateMetricsMapping_ok this] obtain mid mid' where
    mid: "map_of (Values mid) (Name MetricCpuUsage) = map_of (Values new) (Name MetricCpuUsage)"
      "ScrapeTime mid = ScrapeTime new" "rateMetric old (Name MetricCpuUsage) MetricCpuUsageRate mid = Inr mid'"
      "map_of (Values out) (Name MetricCpuUsageRate) = map_of (Values mid') (Name MetricCpuUsageRate)" by blast
  have "\<not> (Name MetricCpuUsage = Name MetricDiskIORead \<or> Name MetricCpuUsage = Name MetricDiskIOWrite)" by simp
  with mid(3) have "mid' = mid \<lparr> Values := gput (Name MetricCpuUsageRate) \<lparr> IntValue =
         word_of_int (1000 * (sint (IntValue v) - sint (IntValue u)) div (ScrapeTime new - ScrapeTime old)),
       FloatValue = Fin 0, ValueType = ValueInt64 \<rparr> (Values mid) \<rparr>"
    unfolding rateMetric_def mid(1,2) vals using cpu_rate [OF t d] by simp
  with mid(4) out(2) show ?thesis by simp
qed

lemma rateMetrics_total:
  assumes "0 < ScrapeTime new - ScrapeTime old" "ScrapeTime new - ScrapeTime old < 2 ^ 63"
  shows "\<exists>out. rateMetrics old ms new = Inr out"
  using assms
proof (induction ms arbitrary: new)
  case (Cons x ms)
  obtain n t where x: "x = (n, t)" by (cases x)
  have "UnixNano (ScrapeTime new) - UnixNano (ScrapeTime old) \<noteq> 0" using UnixNano_diff Cons.prems by blast
  then have "\<exists>mid. rateMetric old n t new = Inr mid"
    by (simp add: rateMetric_def div64_def split: option.split)
  then obtain mid where mid: "rateMetric old n t new = Inr mid" ..
  have "ScrapeTime mid = ScrapeTime new" using rateMetric_other [OF mid] by simp
  with Cons.IH [of mid] Cons.prems mid show ?case by (simp add: x)
qed simp

lemma rateSets_total:
  assumes "\<forall>k old new. map_of (previousMetricSets rc) k = Some old \<and> map_of (Sets b) k = Some new \<longrightarrow>
      ScrapeTime new - ScrapeTime old < 2 ^ 63" "distinct ks"
  shows "\<exists>rc' b'. rateSets ks (rc, b) = Inr (rc', b')"
  using assms
proof (induction ks arbitrary: rc b)
  case (Cons k ks)
  show ?case
  proof (cases "map_of (Sets b) k")
    case None
    with Cons show ?thesis by simp
  next
    case (Some new)
    have "\<exists>r. rateSet rc k new = Inr r"
    proof (cases "map_of (previousMetricSets rc) k")
      case (Some old)
      with Cons.prems(1) \<open>map_of (Sets b) k = Some new\<close> have "ScrapeTime new - ScrapeTime old < 2 ^ 63" by blast
      with rateMetrics_total [of new old "rateMetricsMapping rc"]
      show ?thesis unfolding rateSet_def Some by (cases "ScrapeTime old < ScrapeTime new") auto
    next
      case None
      then have "rateSet rc k new = Inr (new, True)" by (simp add: rateSet_def)
      then show ?thesis by blast
    qed
    then obtain ms st where r: "rateSet rc k new = Inr (ms, st)" by auto
    define rc1 where "rc1 = (if st then rc \<lparr> previousMetricSets := gput k ms (previousMetricSets rc) \<rparr> else rc)"
    define b1 where "b1 = b \<lparr> Sets := gput k ms (Sets b) \<rparr>"
    have time: "ScrapeTime ms = ScrapeTime new"
      using r rateMetrics_other by (auto simp: rateSet_def split: option.splits if_splits sum.splits)
    have "\<forall>j old new. map_of (previousMetricSets rc1) j = Some old \<and> map_of (Sets b1) j = Some new \<longrightarrow>
        ScrapeTime new - ScrapeTime old < 2 ^ 63"
      using Cons.prems(1) Some time by (auto simp: rc1_def b1_def)
    from Cons.IH [OF this] Cons.prems(2) Some r show ?thesis by (simp add: rc1_def b1_def)
  qed
qed simp

text \<open>
  C4. Processing a batch panics for no key whose scrape times are less than \<open>2 ^ 63\<close> nanoseconds
  apart: the calculator returns a batch with the same keys, and afterwards its cache holds every key
  of the batch; when the pruning interval has passed it holds no other key, otherwise it also
  keeps all the keys it had.
\<close>

theorem RateCalculator_cache:
  assumes wf: "wf_map (Sets b)"
    and gap: "\<forall>k old new. map_of (previousMetricSets rc) k = Some old \<and> map_of (Sets b) k = Some new \<longrightarrow>
      ScrapeTime new - ScrapeTime old < 2 ^ 63"
  shows "\<exists>rc' b'. RateCalculator_Process now now' rc b = Inr (rc', b') \<and>
    dom (map_of (Sets b')) = dom (map_of (Sets b)) \<and>
    dom (map_of (previousMetricSets rc')) =
      (if lastPruneTime rc < now - cachePruneInterval rc then dom (map_of (Sets b))
       else dom (map_of (previousMetricSets rc)) \<union> dom (map_of (Sets b)))"
proof -
  obtain rc1 b1 where run: "rateSets (map fst (Sets b)) (rc, b) = Inr (rc1, b1)"
    using rateSets_total [OF gap, of "map fst (Sets b)"] wf by blast
  note pt = rateSets_pointwise [OF run wf]
  have keys: "k \<in> set (map fst (Sets b)) \<longleftrightarrow> map_of (Sets b) k \<noteq> None" for k
    by (auto simp: map_of_eq_None_iff)
  have "(map_of (Sets b1) k \<noteq> None \<longleftrightarrow> map_of (Sets b) k \<noteq> None) \<and>
      (map_of (previousMetricSets rc1) k \<noteq> None \<longleftrightarrow> map_of (previousMetricSets rc) k \<noteq> None \<or> map_of (Sets b) k \<noteq> None)" for k
  proof (cases "map_of (Sets b) k = None")
    case True
    then show ?thesis using pt keys by auto
  next
    case False
    then obtain new where "map_of (Sets b) k = Some new" by blast
    moreover have "k \<in> set (map fst (Sets b))" using False keys by blast
    ultimately obtain ms st where "rateSet rc k new = Inr (ms, st)" "map_of (Sets b1) k = Some ms"
      "map_of (previousMetricSets rc1) k = (if st then Some ms else map_of (previousMetricSets rc) k)"
      using rateSets_visited [OF run wf] by metis
    then show ?thesis using False by (auto simp: rateSet_def split: option.splits if_splits)
  qed
  then have doms: "dom (map_of (Sets b1)) = dom (map_of (Sets b))"
    "dom (map_of (previousMetricSets rc1)) = dom (map_of (previousMetricSets rc)) \<union> dom (map_of (Sets b))"
    unfolding dom_def by blast+
  have "map_of (previousMetricSets (pruneCache now now' b1 rc1)) k =
      (if lastPruneTime rc < now - cachePruneInterval rc \<and> map_of (Sets b1) k = None then None
       else map_of (previousMetricSets rc1) k)" for k
    using pt by (simp add: pruneCache_def delete_where_keys_own map_of_filter_key)
  then have "dom (map_of (previousMetricSets (pruneCache now now' b1 rc1))) =
      (if lastPruneTime rc < now - cachePruneInterval rc then dom (map_of (previousMetricSets rc1)) \<inter> dom (map_of (Sets b1))
       else dom (map_of (previousMetricSets rc1)))"
    by (auto simp: dom_def split: if_splits)
  then show ?thesis using run doms by (auto simp: RateCalculator_Process_def)
qed

definition cpu_set :: "time \<Rightarrow> int64 \<Rightarrow> metric_set" where
  "cpu_set t v = \<lparr> CollectionStartTime = 0, EntityCreateTime = 0, ScrapeTime = t,
     Values = [(''cpu/usage'', \<lparr> IntValue = v, FloatValue = Fin 0, ValueType = ValueInt64 \<rparr>)], Labels = [], LabeledValues = [] \<rparr>"

definition cpu_calculator :: rate_calculator where
  "cpu_calculator = (NewRateCalculator 0 RateMetricsMapping) \<lparr> previousMetricSets := [(''node:a'', cpu_set 0 0), (''node:gone'', cpu_set 0 0)] \<rparr>"

definition cpu_batch :: batch where
  "cpu_batch = \<lparr> Timestamp = Minute, Sets = [(''node:a'', cpu_set Minute 90000000000)], Metrics = [] \<rparr>"

lemmas cpu_simps = cpu_batch_def cpu_calculator_def cpu_set_def NewRateCalculator_def

text \<open>Ninety seconds of CPU time within a minute: 1500 millicores.\<close>

theorem RateCalculator_cpu_witness:
  "\<exists>rc' b' out. RateCalculator_Process 0 0 cpu_calculator cpu_batch = Inr (rc', b') \<and>
     map_of (Sets b') ''node:a'' = Some out \<and>
     map_of (Values out) (Name MetricCpuUsageRate) = Some \<lparr> IntValue = 1500, FloatValue = Fin 0, ValueType = ValueInt64 \<rparr>"
proof -
  have "rateSets (map fst (Sets cpu_batch)) (cpu_calculator, cpu_batch) =
      Inr (cpu_calculator \<lparr> previousMetricSets := gput ''node:a''
        (cpu_set Minute 90000000000 \<lparr> Values := (''cpu/usage'', \<lparr> IntValue = 90000000000, FloatValue = Fin 0, ValueType = ValueInt64 \<rparr>) #
           [(''cpu/usage_rate'', \<lparr> IntValue = 1500, FloatValue = Fin 0, ValueType = ValueInt64 \<rparr>)] \<rparr>) (previousMetricSets cpu_calculator) \<rparr>,
        cpu_batch \<lparr> Sets := [(''node:a'', cpu_set Minute 90000000000 \<lparr> Values := (''cpu/usage'', \<lparr> IntValue = 90000000000, FloatValue = Fin 0, ValueType = ValueInt64 \<rparr>) #
           [(''cpu/usage_rate'', \<lparr> IntValue = 1500, FloatValue = Fin 0, ValueType = ValueInt64 \<rparr>)] \<rparr>)] \<rparr>)"
    by (simp add: cpu_simps rateSet_def RateMetricsMapping_def rateMetric_def diskRates_def div64_def UnixNano_def sdiv_nonneg)
  then obtain rc' b' where run: "RateCalculator_Process 0 0 cpu_calculator cpu_batch = Inr (rc', b')"
    by (simp add: RateCalculator_Process_def)
  have "\<exists>out. map_of (Sets b') ''node:a'' = Some out \<and>
     map_of (Values out) (Name MetricCpuUsageRate) = Some \<lparr> IntValue =
         word_of_int (1000 * (sint (90000000000 :: int64) - sint (0 :: int64)) div (ScrapeTime (cpu_set Minute 90000000000) - ScrapeTime (cpu_set 0 0))),
       FloatValue = Fin 0, ValueType = ValueInt64 \<rparr>"
    by (rule RateCalculator_cpu [OF run, where v = "\<lparr> IntValue = 90000000000, FloatValue = Fin 0, ValueType = ValueInt64 \<rparr>"
          and u = "\<lparr> IntValue = 0, FloatValue = Fin 0, ValueType = ValueInt64 \<rparr>" and old = "cpu_set 0 0", simplified mvalue.simps])
       (simp_all add: cpu_simps)
  then show ?thesis using run by (auto simp: cpu_set_def)
qed

theorem RateCalculator_cache_witness:
  "\<exists>rc' b'. RateCalculator_Process (10 * Minute) (10 * Minute) cpu_calculator cpu_batch = Inr (rc', b') \<and>
     dom (map_of (previousMetricSets rc')) = {''node:a''}"
proof -
  have "wf_map (Sets cpu_batch)" by (simp add: cpu_batch_def)
  moreover have "\<forall>k old new. map_of (previousMetricSets cpu_calculator) k = Some old \<and> map_of (Sets cpu_batch) k = Some new \<longrightarrow>
      ScrapeTime new - ScrapeTime old < 2 ^ 63" by (auto simp: cpu_simps split: if_splits)
  ultimately show ?thesis
    using RateCalculator_cache [of cpu_batch cpu_calculator "10 * Minute" "10 * Minute"]
    by (auto simp: cpu_simps)
qed

section \<open>Distributions: properties\<close>

text \<open>The metrics of a batch with every later histogram of an already seen series left out.\<close>

fun firsts :: "(string \<Rightarrow> 'h) \<Rightarrow> 'h list \<Rightarrow> wf_metric option list \<Rightarrow> wf_metric option list" where
  "firsts sum256 seen [] = []"
| "firsts sum256 seen (Some (MDist d) # ms) =
     (if Distribution_Key sum256 d \<in> set seen then firsts sum256 seen ms
      else Some (MDist d) # firsts sum256 (Distribution_Key sum256 d # seen) ms)"
| "firsts sum256 seen (m # ms) = m # firsts sum256 seen ms"

text \<open>The rate of a metric against a fixed cache.\<close>

fun rateAgainst :: "(string \<Rightarrow> 'h) \<Rightarrow> 'h dist_cache \<Rightarrow> wf_metric option \<Rightarrow> wf_metric option list" where
  "rateAgainst sum256 cache (Some (MDist d)) =
     (case Distribution_Rate sum256 d (map_of cache (Distribution_Key sum256 d)) of None \<Rightarrow> [] | Some r \<Rightarrow> [Some (MDist r)])"
| "rateAgainst sum256 cache m = [m]"

lemma filterMap_rates:
  assumes "\<And>k. k \<notin> set seen \<Longrightarrow> map_of cache k = map_of cache0 k"
  shows "snd (filterMapInPlace (distributionRateStep sum256) (cache, seen, dups) ms) =
     concat (map (rateAgainst sum256 cache0) (firsts sum256 seen ms))"
  using assms
proof (induction ms arbitrary: cache seen dups)
  case (Cons m ms)
  show ?case
  proof (cases "\<exists>d. m = Some (MDist d)")
    case True
    then obtain d where m: "m = Some (MDist d)" by blast
    let ?k = "Distribution_Key sum256 d"
    show ?thesis
    proof (cases "?k \<in> set seen")
      case True
      with Cons.IH [OF Cons.prems] show ?thesis by (simp add: m case_prod_unfold Let_def)
    next
      case False
      have "snd (filterMapInPlace (distributionRateStep sum256) (gput ?k (Distribution_Clone d) cache, ?k # seen, dups) ms) =
          concat (map (rateAgainst sum256 cache0) (firsts sum256 (?k # seen) ms))"
        by (rule Cons.IH) (use Cons.prems in simp)
      with False Cons.prems [OF False] show ?thesis
        by (simp add: m case_prod_unfold Let_def split: option.split)
    qed
  next
    case False
    then have "distributionRateStep sum256 (cache, seen, dups) m = ((cache, seen, dups), Some m)"
      "firsts sum256 seen (m # ms) = m # firsts sum256 seen ms" "rateAgainst sum256 cache0 m = [m]"
      by (cases m; cases "the m"; simp)+
    with Cons.IH [OF Cons.prems] show ?thesis by (simp add: case_prod_unfold Let_def)
  qed
qed simp

lemma process_rates:
  "Metrics (snd (snd (DistributionRateCalculator_Process sum256 cache b))) =
     concat (map (rateAgainst sum256 cache) (firsts sum256 [] (Metrics b)))"
  using filterMap_rates [of "[]" cache cache sum256 0 "Metrics b"]
  by (simp add: DistributionRateCalculator_Process_def case_prod_unfold Let_def)

text \<open>
  Although the calculator updates its cache while it goes through the batch, every histogram rate
  is taken against the snapshot of the previous batch: the result is the list of rates of the first
  histogram of each series against the old cache, with all other metrics kept in their order.
\<close>

theorem DistributionRateCalculator_stateless:
  "Metrics (snd (snd (DistributionRateCalculator_Process sum256 cache b))) =
     concat (map (rateAgainst sum256 cache) (firsts sum256 [] (Metrics b)))"
  by (rule process_rates)

lemma firsts_key_new:
  "Some (MDist d) \<in> set (firsts sum256 seen ms) \<Longrightarrow> Distribution_Key sum256 d \<notin> set seen"
  by (induction sum256 seen ms rule: firsts.induct) (auto split: if_splits)

definition dist_keys :: "(string \<Rightarrow> 'h) \<Rightarrow> wf_metric option list \<Rightarrow> 'h list" where
  "dist_keys sum256 ms = concat (map (\<lambda>m. case m of Some (MDist d) \<Rightarrow> [Distribution_Key sum256 d] | _ \<Rightarrow> []) ms)"

lemma dist_keys_simps [simp]:
  "dist_keys sum256 [] = []" "dist_keys sum256 (Some (MDist d) # ms) = Distribution_Key sum256 d # dist_keys sum256 ms"
  "dist_keys sum256 (Some (MPoint p) # ms) = dist_keys sum256 ms" "dist_keys sum256 (None # ms) = dist_keys sum256 ms"
  "dist_keys sum256 (ms @ ns) = dist_keys sum256 ms @ dist_keys sum256 ns"
  by (simp_all add: dist_keys_def)

lemma dist_keys_mem: "k \<in> set (dist_keys sum256 ms) \<longleftrightarrow> (\<exists>d. Some (MDist d) \<in> set ms \<and> k = Distribution_Key sum256 d)"
  by (auto simp: dist_keys_def split: option.splits wf_metric.splits)

text \<open>A rate belongs to the same series as the histogram it was computed from.\<close>

lemma Rate_key: "Distribution_Rate sum256 d p = Some r \<Longrightarrow> Distribution_Key sum256 r = Distribution_Key sum256 d"
  by (auto simp: Distribution_Rate_def newDistribution_def Distribution_Key_def Key_bytes_def Distribution_Name_def
      Distribution_Tags_def split: option.splits if_splits)

lemma rateAgainst_keys:
  "set (dist_keys sum256 (concat (map (rateAgainst sum256 cache) ms))) \<subseteq> set (dist_keys sum256 ms)"
proof (induction ms)
  case (Cons m ms)
  then show ?case
    by (cases m; cases "the m") (auto dest: Rate_key split: option.splits)
qed simp

text \<open>After the calculator, no two histograms of a batch belong to the same series.\<close>

theorem DistributionRateCalculator_distinct:
  "distinct (dist_keys sum256 (Metrics (snd (snd (DistributionRateCalculator_Process sum256 cache b)))))"
proof -
  have "distinct (dist_keys sum256 (concat (map (rateAgainst sum256 cache) (firsts sum256 seen ms))))" for seen ms
  proof (induction sum256 seen ms rule: firsts.induct)
    case (2 sum256 seen d ms)
    have "Distribution_Key sum256 d \<notin>
        set (dist_keys sum256 (concat (map (rateAgainst sum256 cache) (firsts sum256 (Distribution_Key sum256 d # seen) ms))))"
      using rateAgainst_keys firsts_key_new [of _ sum256 "Distribution_Key sum256 d # seen" ms]
      by (fastforce simp: dist_keys_mem)
    with 2 show ?case by (auto dest: Rate_key split: option.splits)
  qed simp_all
  then show ?thesis by (simp add: process_rates)
qed

lemma mapInPlace_Inr: "mapInPlace f xs = Inr ys \<longleftrightarrow> list_all2 (\<lambda>x y. f x = Inr y) xs ys"
proof (induction xs arbitrary: ys)
  case (Cons x xs)
  show ?case
  proof (cases ys)
    case (Cons y ys')
    then show ?thesis using Cons.IH [of ys'] by (auto simp: split: sum.splits)
  next
    case Nil
    then show ?thesis by (simp split: sum.splits)
  qed
qed auto



end
