(* ===== verification/Tag_Cleaning.thy ===== *)
theory Tag_Cleaning
  imports Go_Strings
begin

text \<open>
  How the sink trims the tags of a point before it is sent
  (\<^verbatim>\<open>plugins/sinks/wavefront/utils.go\<close>): empty and excluded tags go first; over capacity, tags
  with a duplicate long value, then alpha and beta labels, then labels of the cloud provider.

  Each function returns the removed names and the map that is left.
\<close>

definition minDedupeTagValueLen :: nat where "minDedupeTagValueLen = 5"

abbreviation emptyReason :: string where "emptyReason \<equiv> ''they were empty''"
abbreviation excludeListReason :: string where "excludeListReason \<equiv> ''they were on an exclude list''"
abbreviation dedupeReason :: string where
  "dedupeReason \<equiv> ''there were too many tags so we removed tags with duplicate tag values''"
abbreviation iaasReason :: string where
  "iaasReason \<equiv> ''there were too many tags so we removed IaaS specific tags''"
abbreviation alphaBetaReason :: string where
  "alphaBetaReason \<equiv> ''there were too many tags so we removed alpha and beta tags''"

definition excludeTagList :: "string list" where
  "excludeTagList = [''namespace_id'', ''host_id'', ''pod_id'', ''hostname'']"

text \<open>
  The two regular expressions. \<^verbatim>\<open>^label.*beta|alpha*\<close> is the alternative of \<^verbatim>\<open>^label.*beta\<close>
  (no line break before \<^verbatim>\<open>beta\<close>) and \<^verbatim>\<open>alpha*\<close>, which any text with \<^verbatim>\<open>alph\<close> in it matches;
  likewise for \<^verbatim>\<open>^label.*gke|azure*\<close>.
\<close>

definition label_then :: "string \<Rightarrow> string \<Rightarrow> bool" where
  "label_then name word \<longleftrightarrow>
     HasPrefix name ''label'' \<and> Contains (takeWhile (\<lambda>c. c \<noteq> CHR 0x0A) (drop 5 name)) word"

definition alphaBetaRegex :: "string \<Rightarrow> bool" where
  "alphaBetaRegex name \<longleftrightarrow> label_then name ''beta'' \<or> Contains name ''alph''"

definition iaasNameRegex :: "string \<Rightarrow> bool" where
  "iaasNameRegex name \<longleftrightarrow> label_then name ''gke'' \<or> Contains name ''azur''"

definition isAnEmptyTag :: "string \<Rightarrow> bool" where
  "isAnEmptyTag v \<longleftrightarrow> v = [] \<or> v = ''/'' \<or> v = ''-''"

definition removeEmptyTags :: "strmap \<Rightarrow> string list \<times> strmap" where
  "removeEmptyTags tags = delete_where (\<lambda>name v. isAnEmptyTag v) tags tags"

definition excludeTag :: "string \<Rightarrow> bool" where
  "excludeTag name \<longleftrightarrow> name \<in> set excludeTagList"

definition excludeTags :: "strmap \<Rightarrow> string list \<times> strmap" where
  "excludeTags tags = delete_where (\<lambda>name v. excludeTag name) tags tags"

definition isWinningName :: "string \<Rightarrow> string \<Rightarrow> bool" where
  "isWinningName name prevWinner =
     (if alphaBetaRegex name then False
      else if alphaBetaRegex prevWinner then True
      else length name < length prevWinner \<or> (length name = length prevWinner \<and> name < prevWinner))"

text \<open>The loop of \<^verbatim>\<open>dedupeTagValues\<close>: inverted map, removed names and remaining tags are threaded.\<close>

fun dedupeLoop :: "strmap \<Rightarrow> strmap \<times> string list \<times> strmap \<Rightarrow> strmap \<times> string list \<times> strmap" where
  "dedupeLoop [] st = st"
| "dedupeLoop ((name, v) # rest) (inverted, removed, tags) =
     (if length v < minDedupeTagValueLen then dedupeLoop rest (inverted, removed, tags)
      else if length (get_str inverted v) = 0 then dedupeLoop rest (gput v name inverted, removed, tags)
      else if isWinningName name (get_str inverted v)
      then dedupeLoop rest (gput v name inverted, removed @ [get_str inverted v], gdel (get_str inverted v) tags)
      else dedupeLoop rest (inverted, removed @ [name], gdel name tags))"

definition dedupeTagValues :: "strmap \<Rightarrow> string list \<times> strmap" where
  "dedupeTagValues tags = (let (_, removed, tags') = dedupeLoop tags ([], [], tags) in (removed, tags'))"

definition sortKeys :: "strmap \<Rightarrow> string list" where
  "sortKeys tags = sort (map fst tags)"

text \<open>The loop over the sorted names; \<open>n\<close> (\<^verbatim>\<open>count\<close>) has the code's integer type.\<close>

fun removeMatching :: "(string \<Rightarrow> bool) \<Rightarrow> int \<Rightarrow> string list \<Rightarrow> int \<Rightarrow> strmap \<Rightarrow> string list \<times> strmap" where
  "removeMatching re numberToRemove [] n tags = ([], tags)"
| "removeMatching re numberToRemove (name # rest) n tags =
     (if re name
      then (if n + 1 \<ge> numberToRemove then ([name], gdel name tags)
            else (let (removed, tags') = removeMatching re numberToRemove rest (n + 1) (gdel name tags)
                  in (name # removed, tags')))
      else removeMatching re numberToRemove rest n tags)"

definition removeTagsLabelsMatching :: "strmap \<Rightarrow> (string \<Rightarrow> bool) \<Rightarrow> int \<Rightarrow> string list \<times> strmap" where
  "removeTagsLabelsMatching tags re numberToRemove = removeMatching re numberToRemove (sortKeys tags) 0 tags"

definition cleanTags :: "strmap \<Rightarrow> int \<Rightarrow> (string, string list) gomap \<times> strmap" where
  "cleanTags tags maxCapacity =
     (let (r1, tags) = removeEmptyTags tags;
          (r2, tags) = excludeTags tags;
          reasons = gput excludeListReason r2 (gput emptyReason r1 []);
          (reasons, tags) =
            (if int (length tags) > maxCapacity
             then (let (r, tags) = dedupeTagValues tags in (gput dedupeReason r reasons, tags))
             else (reasons, tags))
      in if int (length tags) > maxCapacity
         then (let (r, tags) = removeTagsLabelsMatching tags alphaBetaRegex (int (length tags) - maxCapacity);
                   reasons = gput alphaBetaReason r reasons;
                   (r', tags) = removeTagsLabelsMatching tags iaasNameRegex (int (length tags) - maxCapacity)
               in (gput iaasReason r' reasons, tags))
         else (reasons, tags))"

section \<open>Every step only removes tags\<close>

definition minus_keys :: "string list \<Rightarrow> strmap \<Rightarrow> strmap" where
  "minus_keys ks m = filter (\<lambda>(k, _). k \<notin> set ks) m"

lemma minus_keys_Nil [simp]: "minus_keys [] m = m"
  by (simp add: minus_keys_def)

lemma minus_keys_append: "minus_keys (xs @ ys) m = minus_keys ys (minus_keys xs m)"
  by (auto simp: minus_keys_def intro!: filter_cong)

lemma minus_keys_Cons: "minus_keys (k # ks) m = minus_keys ks (gdel k m)"
  by (auto simp: minus_keys_def AList.delete_eq intro!: filter_cong)

lemma wf_minus_keys [simp]: "wf_map m \<Longrightarrow> wf_map (minus_keys ks m)"
  by (simp add: minus_keys_def)

lemma delete_where_minus: "snd (delete_where p xs m) = minus_keys (fst (delete_where p xs m)) m"
proof (induction p xs m rule: delete_where.induct)
  case (2 p k v rest m)
  show ?case
  proof (cases "p k v")
    case True
    with 2(1) [OF True] show ?thesis
      by (simp add: case_prod_unfold Let_def minus_keys_Cons)
  next
    case False
    with 2(2) [OF False] show ?thesis by simp
  qed
qed simp

lemma dedupeLoop_minus:
  "\<exists>R. fst (snd (dedupeLoop xs (ivt, rem, tags))) = rem @ R \<and>
       snd (snd (dedupeLoop xs (ivt, rem, tags))) = minus_keys R tags"
proof (induction xs "(ivt, rem, tags)" arbitrary: ivt rem tags rule: dedupeLoop.induct)
  case (2 name v rest ivt rem tags)
  let ?w = "get_str ivt v"
  consider "length v < minDedupeTagValueLen" | "\<not> length v < minDedupeTagValueLen" "length ?w = 0"
    | "\<not> length v < minDedupeTagValueLen" "length ?w \<noteq> 0" "isWinningName name ?w"
    | "\<not> length v < minDedupeTagValueLen" "length ?w \<noteq> 0" "\<not> isWinningName name ?w" by blast
  then show ?case
  proof cases
    case 1
    with 2(1) show ?thesis by simp
  next
    case a: 2
    with 2(2) show ?thesis by simp
  next
    case 3
    from 2(3) [OF this] obtain R where
      "fst (snd (dedupeLoop rest (gput v name ivt, rem @ [?w], gdel ?w tags))) = rem @ [?w] @ R"
      "snd (snd (dedupeLoop rest (gput v name ivt, rem @ [?w], gdel ?w tags))) = minus_keys R (gdel ?w tags)" by auto
    then show ?thesis using 3
      by (intro exI [of _ "?w # R"]) (simp add: minus_keys_Cons)
  next
    case 4
    from 2(4) [OF this] obtain R where
      "fst (snd (dedupeLoop rest (ivt, rem @ [name], gdel name tags))) = rem @ [name] @ R"
      "snd (snd (dedupeLoop rest (ivt, rem @ [name], gdel name tags))) = minus_keys R (gdel name tags)" by auto
    then show ?thesis using 4
      by (intro exI [of _ "name # R"]) (simp add: minus_keys_Cons)
  qed
qed simp

lemma dedupeTagValues_minus: "snd (dedupeTagValues tags) = minus_keys (fst (dedupeTagValues tags)) tags"
  using dedupeLoop_minus [of tags "[]" "[]" tags] by (auto simp: dedupeTagValues_def case_prod_unfold Let_def)

lemma removeMatching_minus:
  "snd (removeMatching re num names n tags) = minus_keys (fst (removeMatching re num names n tags)) tags"
proof (induction names arbitrary: n tags)
  case (Cons name names)
  then show ?case
    by (simp add: case_prod_unfold Let_def minus_keys_Cons)
qed simp

text \<open>The names removed for any reason.\<close>

definition removed_names :: "(string, string list) gomap \<Rightarrow> string list" where
  "removed_names reasons = concat (map snd reasons)"

lemma minus_keys_cong: "set xs = set ys \<Longrightarrow> minus_keys xs m = minus_keys ys m"
  by (simp add: minus_keys_def)

lemma removeEmptyTags_eq: "wf_map tags \<Longrightarrow> snd (removeEmptyTags tags) = filter (\<lambda>(k, v). \<not> isAnEmptyTag v) tags"
  by (simp add: removeEmptyTags_def delete_where_filter)

lemma excludeTags_eq: "snd (excludeTags tags) = filter (\<lambda>(k, v). \<not> excludeTag k) tags"
  unfolding excludeTags_def by (rule delete_where_keys_own)

section \<open>Which duplicate survives\<close>

definition names_with :: "string \<Rightarrow> strmap \<Rightarrow> string list" where
  "names_with v m = map fst (filter (\<lambda>(_, x). x = v) m)"

text \<open>The survivor of a list of names, and the order in which names are preferred.\<close>

definition win :: "string list \<Rightarrow> string" where
  "win ns = (case ns of [] \<Rightarrow> [] | n # ns \<Rightarrow> fold (\<lambda>n w. if isWinningName n w then n else w) ns n)"

definition better :: "string \<Rightarrow> string \<Rightarrow> bool" where
  "better a b \<longleftrightarrow> length a < length b \<or> length a = length b \<and> a < b"

lemma win_snoc: "win (ns @ [n]) = (if ns = [] then n else if isWinningName n (win ns) then n else win ns)"
  by (cases ns) (simp_all add: win_def)

lemma win_mem: "ns \<noteq> [] \<Longrightarrow> win ns \<in> set ns"
  by (induction ns rule: rev_induct) (auto simp: win_snoc)

lemma better_trans: "better a b \<Longrightarrow> better b c \<Longrightarrow> better a c"
  by (auto simp: better_def)

text \<open>As soon as one name is not an alpha or beta name, the survivor is the shortest, then least, such name.\<close>

lemma win_best:
  assumes "\<exists>n \<in> set ns. \<not> alphaBetaRegex n"
  shows "\<not> alphaBetaRegex (win ns) \<and> (\<forall>n \<in> set ns. alphaBetaRegex n \<or> n = win ns \<or> better (win ns) n)"
  using assms
proof (induction ns rule: rev_induct)
  case (snoc n ns)
  show ?case
  proof (cases "\<exists>n \<in> set ns. \<not> alphaBetaRegex n")
    case True
    then have ne: "ns \<noteq> []" by auto
    note IH = snoc.IH [OF True]
    show ?thesis
    proof (cases "isWinningName n (win ns)")
      case w: True
      then have "\<not> alphaBetaRegex n" "better n (win ns)" using IH by (auto simp: isWinningName_def better_def split: if_splits)
      with IH w ne better_trans show ?thesis by (auto simp: win_snoc)
    next
      case False
      then have "alphaBetaRegex n \<or> n = win ns \<or> better (win ns) n"
        using IH by (auto simp: isWinningName_def better_def not_less split: if_splits)
      with IH False ne show ?thesis by (auto simp: win_snoc)
    qed
  next
    case False
    then have n: "\<not> alphaBetaRegex n" using snoc.prems by auto
    have "win (ns @ [n]) = n"
    proof (cases "ns = []")
      case ne: False
      then have "alphaBetaRegex (win ns)" using win_mem False by blast
      with n ne show ?thesis by (simp add: win_snoc isWinningName_def)
    qed (simp add: win_def)
    with False n show ?thesis by auto
  qed
qed simp

lemma win_unique:
  assumes "set ns = set ns'" "\<exists>n \<in> set ns. \<not> alphaBetaRegex n"
  shows "win ns = win ns'"
proof -
  have ne: "ns \<noteq> []" "ns' \<noteq> []" using assms by auto
  have "win ns' \<in> set ns" "win ns \<in> set ns'" using win_mem ne assms(1) by blast+
  moreover have "\<not> alphaBetaRegex (win ns')" "\<not> alphaBetaRegex (win ns)"
    using win_best [of ns] win_best [of ns'] assms by auto
  ultimately have "win ns' = win ns \<or> better (win ns) (win ns')" "win ns = win ns' \<or> better (win ns') (win ns)"
    using win_best [of ns] win_best [of ns'] assms by auto
  then show ?thesis by (auto simp: better_def)
qed

definition survives :: "strmap \<Rightarrow> strmap \<Rightarrow> string \<times> string \<Rightarrow> bool" where
  "survives dn rest kv \<longleftrightarrow> kv \<in> set rest \<or> length (snd kv) < minDedupeTagValueLen \<or> fst kv = win (names_with (snd kv) dn)"

lemma names_with_snoc: "names_with x (dn @ [(k, v)]) = names_with x dn @ (if x = v then [k] else [])"
  by (simp add: names_with_def)

lemma names_with_mem: "k \<in> set (names_with v m) \<longleftrightarrow> (k, v) \<in> set m"
  by (force simp: names_with_def)

lemma dedupeLoop_spec:
  assumes T: "T = dn @ rest" "wf_map T" "[] \<notin> fst ` set T"
    and ivt: "\<And>v. map_of ivt v = (if minDedupeTagValueLen \<le> length v \<and> names_with v dn \<noteq> []
                then Some (win (names_with v dn)) else None)"
  shows "snd (snd (dedupeLoop rest (ivt, rem, filter (survives dn rest) T))) = filter (survives T []) T"
  using assms
proof (induction rest arbitrary: dn ivt rem)
  case (Cons kv rest)
  obtain name v where kv: "kv = (name, v)" by (cases kv)
  let ?dn' = "dn @ [(name, v)]"
  have T': "T = ?dn' @ rest" using Cons.prems(1) kv by simp
  have uniq: "x = v" if "(name, x) \<in> set T" for x
    by (rule eq_key_imp_eq_value [OF Cons.prems(2) that]) (simp add: T')
  have fresh: "name \<notin> fst ` set dn" "(name, v) \<notin> set rest"
  proof -
    have "distinct (map fst dn @ name # map fst rest)" using Cons.prems(1,2) kv by simp
    then have "name \<notin> set (map fst dn)" "name \<notin> set (map fst rest)" by simp_all
    then show "name \<notin> fst ` set dn" "(name, v) \<notin> set rest" by (force simp: image_iff)+
  qed
  have win_dn: "win (names_with v dn) \<in> fst ` set dn \<and> win (names_with v dn) \<noteq> []" if "names_with v dn \<noteq> []"
  proof -
    have "(win (names_with v dn), v) \<in> set dn" using win_mem [OF that] by (simp add: names_with_mem)
    then show ?thesis using Cons.prems(1,3) by force
  qed
  have get: "get_str ivt v = (if minDedupeTagValueLen \<le> length v \<and> names_with v dn \<noteq> [] then win (names_with v dn) else [])"
    using Cons.prems(4) [of v] by (simp add: get_str_def)
  show ?case
  proof (cases "length v < minDedupeTagValueLen")
    case True
    have "filter (survives dn (kv # rest)) T = filter (survives ?dn' rest) T"
      using True by (intro filter_cong) (auto simp: survives_def kv names_with_snoc)
    moreover have "\<And>x. map_of ivt x = (if minDedupeTagValueLen \<le> length x \<and> names_with x ?dn' \<noteq> []
                then Some (win (names_with x ?dn')) else None)"
      using Cons.prems(4) True by (auto simp: names_with_snoc)
    ultimately show ?thesis
      using Cons.IH [OF T' Cons.prems(2,3), of ivt rem] True by (simp add: kv)
  next
    case False
    let ?new = "win (names_with v ?dn')"
    have inv': "\<And>x. map_of (gput v ?new ivt) x = (if minDedupeTagValueLen \<le> length x \<and> names_with x ?dn' \<noteq> []
                then Some (win (names_with x ?dn')) else None)"
      using Cons.prems(4) False by (auto simp: names_with_snoc)
    have loser: "filter (survives ?dn' rest) T =
        (if names_with v dn = [] then filter (survives dn (kv # rest)) T
         else gdel (if ?new = name then win (names_with v dn) else name) (filter (survives dn (kv # rest)) T))"
    proof -
      have new: "?new = (if names_with v dn = [] then name
          else if isWinningName name (win (names_with v dn)) then name else win (names_with v dn))"
        by (simp add: names_with_snoc win_snoc)
      have "survives ?dn' rest p \<longleftrightarrow> survives dn (kv # rest) p \<and>
          (names_with v dn \<noteq> [] \<longrightarrow> fst p \<noteq> (if ?new = name then win (names_with v dn) else name))"
        if p: "p \<in> set T" for p
      proof -
        obtain k x where px: "p = (k, x)" by (cases p)
        have ne: "names_with v dn \<noteq> [] \<Longrightarrow> win (names_with v dn) \<noteq> name" using win_dn fresh(1) by auto
        have inrest: "(k, x) \<in> set rest \<Longrightarrow> k \<noteq> name \<and> k \<notin> fst ` set dn"
          using Cons.prems(1,2) kv by (auto simp: image_iff) (metis IntI empty_iff fst_conv imageI)
        show ?thesis
        proof (cases "x = v")
          case True
          have "(k, v) \<in> set dn \<Longrightarrow> names_with v dn \<noteq> []" using names_with_mem [of k v dn] by auto
          moreover have "(k, v) \<in> set dn \<or> k = name \<or> (k, v) \<in> set rest" using p px True T' by auto
          ultimately show ?thesis
            using ne inrest fresh win_dn False new unfolding survives_def px True
            by (auto simp: kv)
        next
          case False
          then have "k \<noteq> name" using uniq p px by auto
          moreover have "k \<noteq> win (names_with v dn)" if "names_with v dn \<noteq> []"
          proof
            assume k: "k = win (names_with v dn)"
            have "(k, v) \<in> set T" using win_mem [OF that] k Cons.prems(1) by (simp add: names_with_mem)
            with p px False Cons.prems(2) show False by (auto dest: eq_key_imp_eq_value)
          qed
          ultimately show ?thesis using False unfolding survives_def px by (auto simp: kv names_with_snoc)
        qed
      qed
      then show ?thesis
        by (auto simp: AList.delete_eq case_prod_unfold intro!: filter_cong)
    qed
    note IH = Cons.IH [OF T' Cons.prems(2,3) inv']
    show ?thesis
    proof (cases "names_with v dn = []")
      case True
      then have "?new = name" by (simp add: names_with_snoc win_def)
      with True False IH [of rem] loser get show ?thesis by (simp add: kv)
    next
      case ne: False
      then have w: "get_str ivt v = win (names_with v dn)" "length (get_str ivt v) \<noteq> 0"
        using False get win_dn by auto
      show ?thesis
      proof (cases "isWinningName name (win (names_with v dn))")
        case True
        then have "?new = name" using ne by (simp add: names_with_snoc win_snoc)
        with True ne False IH loser w show ?thesis by (simp add: kv)
      next
        case lost: False
        then have new: "?new = win (names_with v dn)" using ne by (simp add: names_with_snoc win_snoc)
        then have "?new \<noteq> name" using win_dn [OF ne] fresh(1) by auto
        have same: "\<And>x. map_of ivt x = (if minDedupeTagValueLen \<le> length x \<and> names_with x ?dn' \<noteq> []
                then Some (win (names_with x ?dn')) else None)"
          using Cons.prems(4) False ne new by (auto simp: names_with_snoc)
        from Cons.IH [OF T' Cons.prems(2,3) same] lost ne False loser w \<open>?new \<noteq> name\<close>
        show ?thesis by (simp add: kv)
      qed
    qed
  qed
qed simp

text \<open>What deduplication leaves: short values, and for every long value the winning name.\<close>

lemma dedupeTagValues_eq:
  assumes "wf_map tags" "[] \<notin> fst ` set tags"
  shows "snd (dedupeTagValues tags) =
     filter (\<lambda>(k, v). length v < minDedupeTagValueLen \<or> k = win (names_with v tags)) tags"
proof -
  have "filter (survives [] tags) tags = tags" by (simp add: survives_def)
  moreover have "filter (survives tags []) tags =
      filter (\<lambda>(k, v). length v < minDedupeTagValueLen \<or> k = win (names_with v tags)) tags"
    by (rule filter_cong) (auto simp: survives_def)
  moreover have "snd (snd (dedupeLoop tags ([], [], filter (survives [] tags) tags))) = filter (survives tags []) tags"
    by (rule dedupeLoop_spec [of tags "[]"]) (use assms in \<open>simp_all add: names_with_def\<close>)
  ultimately show ?thesis by (simp add: dedupeTagValues_def case_prod_unfold Let_def)
qed

section \<open>Properties\<close>

lemma names_with_set: "set tags = set tags' \<Longrightarrow> set (names_with v tags) = set (names_with v tags')"
  by (auto simp: names_with_mem)

text \<open>
  C13. Deduplication keeps exactly one tag of every group of tags with the same value of five or more
  characters, the one with the shortest (then alphabetically least) name that is not an alpha or beta
  name, and all other tags. So for groups with such a name the result does not depend on the order
  in which Go visits the map.
\<close>

theorem dedupeTagValues_survivors:
  assumes "wf_map tags" "[] \<notin> fst ` set tags" "set tags' = set tags" "wf_map tags'"
    and "\<forall>(k, v) \<in> set tags. minDedupeTagValueLen \<le> length v \<longrightarrow>
      (\<exists>n. map_of tags n = Some v \<and> \<not> alphaBetaRegex n)"
  shows "map_of (snd (dedupeTagValues tags')) = map_of (snd (dedupeTagValues tags)) \<and>
    (\<forall>k v. map_of (snd (dedupeTagValues tags)) k = Some v \<longleftrightarrow>
       map_of tags k = Some v \<and>
       (minDedupeTagValueLen \<le> length v \<longrightarrow> \<not> alphaBetaRegex k \<and>
          (\<forall>n. map_of tags n = Some v \<and> \<not> alphaBetaRegex n \<longrightarrow> n = k \<or> better k n)))"
proof -
  have mem: "map_of tags n = Some v \<longleftrightarrow> n \<in> set (names_with v tags)" for n v
    using assms(1) by (simp add: names_with_mem map_of_eq_Some_iff)
  have good: "\<exists>n \<in> set (names_with v tags). \<not> alphaBetaRegex n" if "(k, v) \<in> set tags" "minDedupeTagValueLen \<le> length v" for k v
    using assms(5) that mem by fastforce
  have lookup: "map_of (snd (dedupeTagValues m)) k = Some v \<longleftrightarrow>
      map_of tags k = Some v \<and> (length v < minDedupeTagValueLen \<or> k = win (names_with v tags))"
    if m: "wf_map m" "set m = set tags" for m k v
  proof -
    have eq: "win (names_with v m) = win (names_with v tags)" if "(k, v) \<in> set tags" "minDedupeTagValueLen \<le> length v"
      by (rule win_unique) (use names_with_set [OF m(2)] good [OF that] in auto)
    have nn: "[] \<notin> fst ` set m" using assms(2) m(2) by simp
    have wf: "wf_map (snd (dedupeTagValues m))" unfolding dedupeTagValues_eq [OF m(1) nn] using m(1) by simp
    have "map_of (snd (dedupeTagValues m)) k = Some v \<longleftrightarrow> (k, v) \<in> set (snd (dedupeTagValues m))"
      using wf by (rule map_of_eq_Some_iff)
    also have "\<dots> \<longleftrightarrow> (k, v) \<in> set tags \<and> (length v < minDedupeTagValueLen \<or> k = win (names_with v m))"
      unfolding dedupeTagValues_eq [OF m(1) nn] using m(2) by simp
    also have "\<dots> \<longleftrightarrow> map_of tags k = Some v \<and> (length v < minDedupeTagValueLen \<or> k = win (names_with v tags))"
      using eq by (cases "length v < minDedupeTagValueLen") (auto simp: map_of_eq_Some_iff [OF assms(1)])
    finally show ?thesis .
  qed
  have best: "k = win (names_with v tags) \<longleftrightarrow> \<not> alphaBetaRegex k \<and>
      (\<forall>n. map_of tags n = Some v \<and> \<not> alphaBetaRegex n \<longrightarrow> n = k \<or> better k n)"
    if "map_of tags k = Some v" "minDedupeTagValueLen \<le> length v" for k v
  proof -
    have "(k, v) \<in> set tags" using that(1) by (rule map_of_SomeD)
    note w = win_best [OF good [OF this that(2)]]
    have wm: "win (names_with v tags) \<in> set (names_with v tags)" using that(1) mem by (intro win_mem) fastforce
    have asym: "\<not> (better a b \<and> better b a)" for a b by (auto simp: better_def)
    show ?thesis using w wm that(1) asym unfolding mem by metis
  qed
  have "map_of (snd (dedupeTagValues tags')) = map_of (snd (dedupeTagValues tags))"
  proof
    fix k
    show "map_of (snd (dedupeTagValues tags')) k = map_of (snd (dedupeTagValues tags)) k"
    proof (rule option.expand)
      show "(map_of (snd (dedupeTagValues tags')) k = None) = (map_of (snd (dedupeTagValues tags)) k = None)"
        using lookup [OF assms(4,3), of k] lookup [OF assms(1) refl, of k] by (metis not_None_eq)
      show "the (map_of (snd (dedupeTagValues tags')) k) = the (map_of (snd (dedupeTagValues tags)) k)"
        if "map_of (snd (dedupeTagValues tags')) k \<noteq> None"
        using lookup [OF assms(4,3), of k] lookup [OF assms(1) refl, of k] that by (metis option.exhaust_sel)
    qed
  qed
  moreover have "map_of (snd (dedupeTagValues tags)) k = Some v \<longleftrightarrow> map_of tags k = Some v \<and>
       (minDedupeTagValueLen \<le> length v \<longrightarrow> \<not> alphaBetaRegex k \<and>
          (\<forall>n. map_of tags n = Some v \<and> \<not> alphaBetaRegex n \<longrightarrow> n = k \<or> better k n))" for k v
    unfolding lookup [OF assms(1) refl] using best [of k v] by (cases "length v < minDedupeTagValueLen") auto
  ultimately show ?thesis by blast
qed

definition sample_tags :: strmap where
  "sample_tags = [(''label.app'', ''frontend''), (''app'', ''frontend''), (''label.beta.app'', ''frontend''), (''env'', ''dev'')]"

theorem dedupeTagValues_survivors_witness:
  "map_of (snd (dedupeTagValues (rev sample_tags))) = map_of (snd (dedupeTagValues sample_tags)) \<and>
   map_of (snd (dedupeTagValues sample_tags)) ''app'' = Some ''frontend'' \<and>
   map_of (snd (dedupeTagValues sample_tags)) ''env'' = Some ''dev''"
proof -
  have "wf_map sample_tags" "[] \<notin> fst ` set sample_tags" "wf_map (rev sample_tags)"
    by (simp_all add: sample_tags_def)
  moreover have "set (rev sample_tags) = set sample_tags" by (rule set_rev)
  moreover have app: "map_of sample_tags ''app'' = Some ''frontend'' \<and> \<not> alphaBetaRegex ''app''"
    by (simp add: sample_tags_def alphaBetaRegex_def label_then_def HasPrefix_def)
  moreover have "\<forall>(k, v) \<in> set sample_tags. minDedupeTagValueLen \<le> length v \<longrightarrow>
      (\<exists>n. map_of sample_tags n = Some v \<and> \<not> alphaBetaRegex n)"
  proof (clarify)
    fix k v assume "(k, v) \<in> set sample_tags" "minDedupeTagValueLen \<le> length v"
    then have "v = ''frontend''" by (auto simp: sample_tags_def minDedupeTagValueLen_def)
    with app show "\<exists>n. map_of sample_tags n = Some v \<and> \<not> alphaBetaRegex n" by blast
  qed
  ultimately have all: "map_of (snd (dedupeTagValues (rev sample_tags))) = map_of (snd (dedupeTagValues sample_tags)) \<and>
    (\<forall>k v. map_of (snd (dedupeTagValues sample_tags)) k = Some v \<longleftrightarrow>
       map_of sample_tags k = Some v \<and>
       (minDedupeTagValueLen \<le> length v \<longrightarrow> \<not> alphaBetaRegex k \<and>
          (\<forall>n. map_of sample_tags n = Some v \<and> \<not> alphaBetaRegex n \<longrightarrow> n = k \<or> better k n)))"
    by (intro dedupeTagValues_survivors)
  have "\<forall>n. map_of sample_tags n = Some ''frontend'' \<and> \<not> alphaBetaRegex n \<longrightarrow> n = ''app'' \<or> better ''app'' n"
    by (auto simp: sample_tags_def better_def split: if_splits)
  with all app show ?thesis
    by (auto simp: minDedupeTagValueLen_def) (simp add: sample_tags_def)
qed

lemma cleanTags_steps:
  "\<exists>r3 r4 r5. snd (cleanTags tags cap) = minus_keys (r3 @ r4 @ r5) (snd (excludeTags (snd (removeEmptyTags tags)))) \<and>
     set (removed_names (fst (cleanTags tags cap))) =
       set (fst (removeEmptyTags tags)) \<union> set (fst (excludeTags (snd (removeEmptyTags tags)))) \<union> set (r3 @ r4 @ r5) \<and>
     (int (length (snd (excludeTags (snd (removeEmptyTags tags))))) \<le> cap \<longrightarrow> r3 @ r4 @ r5 = [])"
proof -
  define t2 where "t2 = snd (excludeTags (snd (removeEmptyTags tags)))"
  define r12 where "r12 = gput excludeListReason (fst (excludeTags (snd (removeEmptyTags tags)))) (gput emptyReason (fst (removeEmptyTags tags)) [])"
  define r3 where "r3 = (if int (length t2) > cap then fst (dedupeTagValues t2) else [])"
  define t3 where "t3 = minus_keys r3 t2"
  define r4 where "r4 = (if int (length t3) > cap then fst (removeTagsLabelsMatching t3 alphaBetaRegex (int (length t3) - cap)) else [])"
  define t4 where "t4 = minus_keys r4 t3"
  define r5 where "r5 = (if int (length t3) > cap then fst (removeTagsLabelsMatching t4 iaasNameRegex (int (length t4) - cap)) else [])"
  have t3: "t3 = (if int (length t2) > cap then snd (dedupeTagValues t2) else t2)"
    by (simp add: t3_def r3_def dedupeTagValues_minus)
  have t4: "t4 = (if int (length t3) > cap then snd (removeTagsLabelsMatching t3 alphaBetaRegex (int (length t3) - cap)) else t3)"
    by (simp add: t4_def r4_def removeTagsLabelsMatching_def removeMatching_minus)
  have rm: "snd (removeTagsLabelsMatching t re n) = minus_keys (fst (removeTagsLabelsMatching t re n)) t" for t re n
    by (simp add: removeTagsLabelsMatching_def removeMatching_minus)
  have out: "snd (cleanTags tags cap) = minus_keys r5 t4"
    unfolding cleanTags_def Let_def case_prod_unfold
    by (simp add: t2_def [symmetric] t3 t4 r5_def rm)
  have "set (removed_names (fst (cleanTags tags cap))) = set (removed_names r12) \<union> set r3 \<union> set r4 \<union> set r5"
    unfolding cleanTags_def Let_def case_prod_unfold
    by (auto simp: t2_def [symmetric] t3 t4 r3_def r4_def r5_def r12_def removed_names_def)
  moreover have "int (length t2) \<le> cap \<longrightarrow> r3 @ r4 @ r5 = []"
    by (simp add: r3_def r4_def r5_def t3_def)
  moreover have "minus_keys r5 t4 = minus_keys (r3 @ r4 @ r5) t2"
    by (simp add: minus_keys_append t3_def t4_def)
  ultimately show ?thesis
    using out by (intro exI [of _ r3] exI [of _ r4] exI [of _ r5]) (auto simp: t2_def [symmetric] r12_def removed_names_def)
qed

lemma cleanTags_small:
  assumes "wf_map tags" "int (length tags) \<le> cap"
  shows "snd (cleanTags tags cap) = filter (\<lambda>(k, v). \<not> isAnEmptyTag v \<and> \<not> excludeTag k) tags"
proof -
  have t2: "snd (excludeTags (snd (removeEmptyTags tags))) = filter (\<lambda>(k, v). \<not> isAnEmptyTag v \<and> \<not> excludeTag k) tags"
    by (simp add: excludeTags_eq removeEmptyTags_eq [OF assms(1)] case_prod_unfold conj_commute)
  have "length (filter (\<lambda>(k, v). \<not> isAnEmptyTag v \<and> \<not> excludeTag k) tags) \<le> length tags" by (rule length_filter_le)
  with assms(2) have "int (length (snd (excludeTags (snd (removeEmptyTags tags))))) \<le> cap" unfolding t2 by linarith
  with cleanTags_steps [of tags cap] show ?thesis unfolding t2 by (metis minus_keys_Nil)
qed

text \<open>
  Cleaning only removes tags, reports every name it removes, and leaves no empty and no excluded
  tag; when the remaining tags fit the capacity, exactly the empty and excluded ones are removed.
\<close>

theorem cleanTags_safe:
  assumes "wf_map tags"
  shows "snd (cleanTags tags cap) = minus_keys (removed_names (fst (cleanTags tags cap))) tags \<and>
    (\<forall>(k, v) \<in> set (snd (cleanTags tags cap)). \<not> isAnEmptyTag v \<and> \<not> excludeTag k) \<and>
    (int (length (filter (\<lambda>(k, v). \<not> isAnEmptyTag v \<and> \<not> excludeTag k) tags)) \<le> cap \<longrightarrow>
       snd (cleanTags tags cap) = filter (\<lambda>(k, v). \<not> isAnEmptyTag v \<and> \<not> excludeTag k) tags)"
proof -
  let ?t1 = "snd (removeEmptyTags tags)"
  have t2: "snd (excludeTags ?t1) = filter (\<lambda>(k, v). \<not> isAnEmptyTag v \<and> \<not> excludeTag k) tags"
    by (simp add: excludeTags_eq removeEmptyTags_eq [OF assms] case_prod_unfold conj_commute)
  obtain r where r: "snd (cleanTags tags cap) = minus_keys r (snd (excludeTags ?t1))"
    "set (removed_names (fst (cleanTags tags cap))) = set (fst (removeEmptyTags tags)) \<union> set (fst (excludeTags ?t1)) \<union> set r"
    "int (length (snd (excludeTags ?t1))) \<le> cap \<longrightarrow> r = []"
    using cleanTags_steps [of tags cap] by metis
  have "snd (excludeTags ?t1) = minus_keys (fst (excludeTags ?t1)) (minus_keys (fst (removeEmptyTags tags)) tags)"
    unfolding excludeTags_def removeEmptyTags_def by (simp add: delete_where_minus)
  then have "snd (cleanTags tags cap) = minus_keys (fst (removeEmptyTags tags) @ fst (excludeTags ?t1) @ r) tags"
    using r(1) by (simp add: minus_keys_append)
  also have "\<dots> = minus_keys (removed_names (fst (cleanTags tags cap))) tags"
    by (rule minus_keys_cong) (use r(2) in auto)
  finally have "snd (cleanTags tags cap) = minus_keys (removed_names (fst (cleanTags tags cap))) tags" .
  moreover have "\<forall>(k, v) \<in> set (snd (cleanTags tags cap)). \<not> isAnEmptyTag v \<and> \<not> excludeTag k"
    unfolding r(1) t2 by (auto simp: minus_keys_def)
  moreover have "snd (cleanTags tags cap) = filter (\<lambda>(k, v). \<not> isAnEmptyTag v \<and> \<not> excludeTag k) tags"
    if "int (length (filter (\<lambda>(k, v). \<not> isAnEmptyTag v \<and> \<not> excludeTag k) tags)) \<le> cap"
    using r(1,3) that unfolding t2 by simp
  ultimately show ?thesis by blast
qed

theorem cleanTags_safe_witness:
  "snd (cleanTags [(''pod'', ''a''), (''x'', ''-''), (''pod_id'', ''77'')] 19) = [(''pod'', ''a'')]"
proof -
  let ?tags = "[(''pod'', ''a''), (''x'', ''-''), (''pod_id'', ''77'')]"
  have "filter (\<lambda>(k, v). \<not> isAnEmptyTag v \<and> \<not> excludeTag k) ?tags = [(''pod'', ''a'')]"
    by (simp add: isAnEmptyTag_def excludeTag_def excludeTagList_def)
  moreover have "wf_map ?tags" by simp
  ultimately show ?thesis using cleanTags_safe [of ?tags 19] by (metis length_Cons list.size(3) of_nat_le_iff of_nat_numeral one_le_numeral One_nat_def)
qed

text \<open>
  Two surprises. The provider-specific pass runs even when the alpha and beta pass has already made
  room, and always removes one match; and nothing enforces the capacity when no tag matches.
\<close>

lemma cleanTags_removes_too_many:
  "snd (cleanTags [(''label.beta'', ''x''), (''label.gke'', ''y''), (''a'', ''z'')] 2) = [(''a'', ''z'')]"
proof -
  have "sort [''label.beta'', ''label.gke'', ''a''] = [''a'', ''label.beta'', ''label.gke'']" by code_simp
  moreover have "sort [''label.gke'', ''a''] = [''a'', ''label.gke'']" by code_simp
  ultimately show ?thesis
    by (simp add: cleanTags_def removeEmptyTags_def excludeTags_def excludeTag_def excludeTagList_def isAnEmptyTag_def
        dedupeTagValues_def minDedupeTagValueLen_def removeTagsLabelsMatching_def sortKeys_def alphaBetaRegex_def
        iaasNameRegex_def label_then_def HasPrefix_def)
qed

lemma cleanTags_over_capacity: "length (snd (cleanTags [(''a'', ''1''), (''b'', ''2'')] 1)) = 2"
proof -
  have "sort [''a'', ''b''] = [''a'', ''b'']" by code_simp
  then show ?thesis
    by (simp add: cleanTags_def removeEmptyTags_def excludeTags_def excludeTag_def excludeTagList_def isAnEmptyTag_def
        dedupeTagValues_def minDedupeTagValueLen_def removeTagsLabelsMatching_def sortKeys_def alphaBetaRegex_def
        iaasNameRegex_def label_then_def HasPrefix_def)
qed

end
