(* ===== verification/Configuration.thy ===== *)
theory Configuration
  imports Glob_Filter Go_Time
begin

text \<open>
  The configuration of the collector: the structures of \<^verbatim>\<open>internal/configuration/config.go\<close> and
  \<^verbatim>\<open>internal/discovery/configs.go\<close>, the agent type, the decoding of command line flags
  (\<^verbatim>\<open>internal/flags\<close>, \<^verbatim>\<open>internal/options/adapter.go\<close>) and the defaults and validation of
  \<^verbatim>\<open>cmd/wavefront-collector/main.go\<close>.

  Pointers to optional sections are options. A call of \<^verbatim>\<open>log.Fatalf\<close> ends the process, like a
  panic. Reading a file and parsing YAML are not modelled: a configuration file is its parsed value.
\<close>

section \<open>Structures\<close>

record collection_config =
  Interval :: duration
  Timeout :: duration

record transforms =
  Source :: string
  Prefix :: string
  Tags :: strmap
  Filters :: filter_config

record wavefront_sink_config =
  skTransforms :: transforms
  Server :: string
  Token :: string
  BatchSize :: int
  MaxBufferSize :: int
  ProxyAddress :: string
  TestMode :: bool
  ErrorLogPercent :: f64
  skClusterName :: string
  Version :: f64
  InternalStatsPrefix :: string
  EventsEnabled :: bool

record summary_source_config =
  smTransforms :: transforms
  smCollection :: collection_config
  smURL :: string
  KubeletPort :: string
  KubeletHttps :: string
  InClusterConfig :: string
  UseServiceAccount :: string
  Insecure :: string
  Auth :: string

record cadvisor_source_config =
  caTransforms :: transforms
  caCollection :: collection_config

record control_plane_source_config =
  cpCollection :: collection_config

record tls_config =
  CAFile :: string
  CertFile :: string
  KeyFile :: string
  ServerName :: string
  InsecureSkipVerify :: bool

record client_config =
  BearerToken :: string
  BearerTokenFile :: string
  ProxyURL :: string
  TLSConfig :: tls_config

record prometheus_source_config =
  prTransforms :: transforms
  prCollection :: collection_config
  prURL :: string
  HTTPClientConfig :: client_config
  prDiscovered :: string
  prName :: string
  prUseLeaderElection :: bool

record telegraf_source_config =
  tgTransforms :: transforms
  tgCollection :: collection_config
  Plugins :: "string list"
  tgConf :: string
  tgDiscovered :: string
  tgName :: string
  tgUseLeaderElection :: bool

record systemd_source_config =
  sdTransforms :: transforms
  sdCollection :: collection_config
  IncludeTaskMetrics :: bool
  IncludeStartTimeMetrics :: bool
  IncludeRestartMetrics :: bool
  UnitAllowList :: "string list"
  UnitDenyList :: "string list"

record stats_source_config =
  stTransforms :: transforms
  stCollection :: collection_config

record state_source_config =
  ksTransforms :: transforms
  ksCollection :: collection_config

record source_config =
  SummaryConfig :: "summary_source_config option"
  CadvisorConfig :: "cadvisor_source_config option"
  ControlPlaneConfig :: "control_plane_source_config option"
  PrometheusConfigs :: "prometheus_source_config list"
  TelegrafConfigs :: "telegraf_source_config list"
  SystemdConfig :: "systemd_source_config option"
  StatsConfig :: "stats_source_config option"
  StateConfig :: "state_source_config option"

record selectors =
  ResourceType :: string
  Images :: "string list"
  slLabels :: taglists
  Namespaces :: "string list"

record plugin_config =
  plName :: string
  plType :: string
  plSelectors :: selectors
  plPort :: string
  plScheme :: string
  plPath :: string
  plConf :: string
  plSource :: string
  plPrefix :: string
  plTags :: strmap
  plIncludeLabels :: string
  plFilters :: filter_config
  plCollection :: collection_config
  plInternal :: bool

record prom_config =
  pcName :: string
  pcResourceType :: string
  pcLabels :: strmap
  pcNamespace :: string
  pcPort :: string
  pcPath :: string
  pcScheme :: string
  pcPrefix :: string
  pcTags :: strmap
  pcSource :: string
  pcIncludeLabels :: string
  pcFilters :: filter_config

record discovery_config =
  DiscoveryInterval :: duration
  AnnotationPrefix :: string
  AnnotationExcludes :: "selectors list"
  EnableRuntimePlugins :: bool
  DisableAnnotationDiscovery :: bool
  PluginConfigs :: "plugin_config list"
  PromConfigs :: "prom_config list"

record events_filter =
  TagAllowList :: taglists
  TagDenyList :: taglists
  TagAllowListSets :: "taglists list"
  TagDenyListSets :: "taglists list"
  TagWhitelist :: taglists
  TagBlacklist :: taglists
  TagWhitelistSets :: "taglists list"
  TagBlacklistSets :: "taglists list"

record config =
  FlushInterval :: duration
  DefaultCollectionInterval :: duration
  SinkExportDataTimeout :: duration
  EnableDiscovery :: bool
  EnableEvents :: bool
  cfgClusterName :: string
  Sinks :: "wavefront_sink_config list"
  Sources :: "source_config option"
  EventsFilters :: events_filter
  DiscoveryConfig :: discovery_config
  OmitBucketSuffix :: bool
  Experimental :: "string list"
  cfgScrapeCluster :: bool

definition GetStringValue :: "string \<Rightarrow> string \<Rightarrow> string" where
  "GetStringValue v defaultValue = (if v \<noteq> [] then v else defaultValue)"

definition GetDurationValue :: "duration \<Rightarrow> duration \<Rightarrow> duration" where
  "GetDurationValue v defaultValue = (if v \<noteq> 0 then v else defaultValue)"

text \<open>Zero values of the structures.\<close>

definition zeroCollection :: collection_config where
  "zeroCollection = \<lparr> Interval = 0, Timeout = 0 \<rparr>"

definition zeroTransforms :: transforms where
  "zeroTransforms = \<lparr> Source = [], Prefix = [], Tags = [], Filters = empty_filter_config \<rparr>"

definition zeroClientConfig :: client_config where
  "zeroClientConfig = \<lparr> BearerToken = [], BearerTokenFile = [], ProxyURL = [],
     TLSConfig = \<lparr> CAFile = [], CertFile = [], KeyFile = [], ServerName = [], InsecureSkipVerify = False \<rparr> \<rparr>"

definition zeroSelectors :: selectors where
  "zeroSelectors = \<lparr> ResourceType = [], Images = [], slLabels = [], Namespaces = [] \<rparr>"

definition zeroEventsFilter :: events_filter where
  "zeroEventsFilter = \<lparr> TagAllowList = [], TagDenyList = [], TagAllowListSets = [], TagDenyListSets = [],
     TagWhitelist = [], TagBlacklist = [], TagWhitelistSets = [], TagBlacklistSets = [] \<rparr>"

definition zeroConfig :: config where
  "zeroConfig = \<lparr> FlushInterval = 0, DefaultCollectionInterval = 0, SinkExportDataTimeout = 0,
     EnableDiscovery = False, EnableEvents = False, cfgClusterName = [], Sinks = [], Sources = None,
     EventsFilters = zeroEventsFilter,
     DiscoveryConfig = \<lparr> DiscoveryInterval = 0, AnnotationPrefix = [], AnnotationExcludes = [],
       EnableRuntimePlugins = False, DisableAnnotationDiscovery = False, PluginConfigs = [], PromConfigs = [] \<rparr>,
     OmitBucketSuffix = False, Experimental = [], cfgScrapeCluster = False \<rparr>"

section \<open>Agent types\<close>

text \<open>\<^verbatim>\<open>AgentType\<close> is a string; \<open>AgentOther\<close> covers the values outside the four constants.\<close>

datatype agent_type = AllAgentType | ClusterAgentType | NodeAgentType | LegacyAgentType | AgentOther string

definition NewAgentType :: "string \<Rightarrow> agent_type go_result" where
  "NewAgentType v =
     (if v = ''all'' then Inr AllAgentType
      else if v = ''cluster'' then Inr ClusterAgentType
      else if v = ''node'' then Inr NodeAgentType
      else if v = ''legacy'' then Inr LegacyAgentType
      else Inl (Errorf ''--agent can only be node, cluster, all or legacy''))"

fun AgentType_String :: "agent_type \<Rightarrow> string" where
  "AgentType_String AllAgentType = ''all''"
| "AgentType_String ClusterAgentType = ''cluster''"
| "AgentType_String NodeAgentType = ''node''"
| "AgentType_String LegacyAgentType = ''legacy''"
| "AgentType_String (AgentOther s) = s"

definition ScrapeCluster :: "agent_type \<Rightarrow> bool" where
  "ScrapeCluster a \<longleftrightarrow> a = AllAgentType \<or> a = LegacyAgentType \<or> a = ClusterAgentType"

fun ScrapeNodes :: "agent_type \<Rightarrow> string" where
  "ScrapeNodes AllAgentType = ''all''"
| "ScrapeNodes LegacyAgentType = ''own''"
| "ScrapeNodes NodeAgentType = ''own''"
| "ScrapeNodes _ = ''none''"

definition ScrapeAnyNodes :: "agent_type \<Rightarrow> bool" where
  "ScrapeAnyNodes a \<longleftrightarrow> a \<noteq> ClusterAgentType"

definition ScrapeOnlyOwnNode :: "agent_type \<Rightarrow> bool" where
  "ScrapeOnlyOwnNode a \<longleftrightarrow> a = LegacyAgentType \<or> a = NodeAgentType"

section \<open>Decoding flags\<close>

text \<open>A source or sink flag: its key and the parts of its URL the code reads.\<close>

record uri =
  uKey :: string
  uScheme :: string
  uHost :: string
  uPath :: string
  uQuery :: taglists

definition DecodeTags :: "taglists \<Rightarrow> strmap" where
  "DecodeTags vals =
     fold (\<lambda>tag tags.
             (let s = split_on CHR '':'' tag in if length s = 2 then gput (s ! 0) (s ! 1) tags else tags))
       (query_get vals ''tag'') []"

definition DecodeValue :: "taglists \<Rightarrow> string \<Rightarrow> string" where
  "DecodeValue vals name = (case query_get vals name of [] \<Rightarrow> [] | v # _ \<Rightarrow> v)"

text \<open>\<^verbatim>\<open>strconv.ParseBool\<close>; a rejected text counts as false in the caller.\<close>

definition ParseBool :: "string \<Rightarrow> bool option" where
  "ParseBool s =
     (if s \<in> {''1'', ''t'', ''T'', ''TRUE'', ''true'', ''True''} then Some True
      else if s \<in> {''0'', ''f'', ''F'', ''FALSE'', ''false'', ''False''} then Some False
      else None)"

definition DecodeBoolean :: "taglists \<Rightarrow> string \<Rightarrow> bool" where
  "DecodeBoolean vals name =
     (case query_get vals name of
        [] \<Rightarrow> False
      | v # _ \<Rightarrow> (case ParseBool v of None \<Rightarrow> False | Some b \<Rightarrow> b))"

definition getTransforms :: "taglists \<Rightarrow> transforms" where
  "getTransforms vals = \<lparr> Source = DecodeValue vals ''source'', Prefix = DecodeValue vals ''prefix'',
     Tags = DecodeTags vals, Filters = FromQuery vals \<rparr>"

definition addSummarySource :: "uri \<Rightarrow> source_config \<Rightarrow> source_config" where
  "addSummarySource u src =
     (let vals = uQuery u in
      src \<lparr> SummaryConfig := Some \<lparr>
        smTransforms = getTransforms vals, smCollection = zeroCollection,
        smURL = (if uScheme u \<noteq> [] then uScheme u @ ''://'' @ uHost u @ uPath u else []),
        KubeletPort = DecodeValue vals ''kubeletPort'', KubeletHttps = DecodeValue vals ''kubeletHttps'',
        InClusterConfig = DecodeValue vals ''inClusterConfig'',
        UseServiceAccount = DecodeValue vals ''useServiceAccount'',
        Insecure = DecodeValue vals ''insecure'', Auth = DecodeValue vals ''auth'' \<rparr> \<rparr>)"

definition addStateSource :: "uri \<Rightarrow> source_config \<Rightarrow> source_config" where
  "addStateSource u src = src \<lparr> StateConfig := Some \<lparr> ksTransforms = getTransforms (uQuery u), ksCollection = zeroCollection \<rparr> \<rparr>"

definition addPrometheusSource :: "uri \<Rightarrow> source_config \<Rightarrow> source_config" where
  "addPrometheusSource u src = src \<lparr> PrometheusConfigs := PrometheusConfigs src @
     [\<lparr> prTransforms = getTransforms (uQuery u), prCollection = zeroCollection, prURL = DecodeValue (uQuery u) ''url'',
        HTTPClientConfig = zeroClientConfig, prDiscovered = [], prName = [], prUseLeaderElection = False \<rparr>] \<rparr>"

definition addCadvisorSource :: "uri \<Rightarrow> source_config \<Rightarrow> source_config" where
  "addCadvisorSource u src = src \<lparr> CadvisorConfig := Some \<lparr> caTransforms = getTransforms (uQuery u), caCollection = zeroCollection \<rparr> \<rparr>"

definition addTelegrafSource :: "uri \<Rightarrow> source_config \<Rightarrow> source_config" where
  "addTelegrafSource u src =
     (let plugins = DecodeValue (uQuery u) ''plugins'' in
      src \<lparr> TelegrafConfigs := TelegrafConfigs src @
        [\<lparr> tgTransforms = getTransforms (uQuery u), tgCollection = zeroCollection,
           Plugins = (if length plugins > 0 then split_on CHR '','' plugins else []),
           tgConf = [], tgDiscovered = [], tgName = [], tgUseLeaderElection = False \<rparr>] \<rparr>)"

definition addSystemdSource :: "uri \<Rightarrow> source_config \<Rightarrow> source_config" where
  "addSystemdSource u src =
     (let vals = uQuery u in
      src \<lparr> SystemdConfig := Some \<lparr> sdTransforms = getTransforms vals, sdCollection = zeroCollection,
        IncludeTaskMetrics = DecodeBoolean vals ''taskMetrics'',
        IncludeStartTimeMetrics = DecodeBoolean vals ''startTimeMetrics'',
        IncludeRestartMetrics = DecodeBoolean vals ''restartMetrics'',
        UnitAllowList = query_get vals ''unitWhitelist'', UnitDenyList = query_get vals ''unitBlacklist'' \<rparr> \<rparr>)"

text \<open>The loop ends at the first unknown source; later sources are not added.\<close>

fun addSourcesTo :: "uri list \<Rightarrow> source_config \<Rightarrow> source_config" where
  "addSourcesTo [] sc = sc"
| "addSourcesTo (src # rest) sc =
     (if uKey src = ''kubernetes.summary_api'' then addSourcesTo rest (addSummarySource src sc)
      else if uKey src = ''kubernetes.state'' then addSourcesTo rest (addStateSource src sc)
      else if uKey src = ''prometheus'' then addSourcesTo rest (addPrometheusSource src sc)
      else if uKey src = ''kubernetes.cadvisor'' then addSourcesTo rest (addCadvisorSource src sc)
      else if uKey src = ''telegraf'' then addSourcesTo rest (addTelegrafSource src sc)
      else if uKey src = ''systemd'' then addSourcesTo rest (addSystemdSource src sc)
      else sc)"

definition emptySources :: source_config where
  "emptySources = \<lparr> SummaryConfig = None, CadvisorConfig = None, ControlPlaneConfig = None, PrometheusConfigs = [],
     TelegrafConfigs = [], SystemdConfig = None, StatsConfig = None, StateConfig = None \<rparr>"

definition addSources :: "config \<Rightarrow> uri list \<Rightarrow> config" where
  "addSources cfg srcs = cfg \<lparr> Sources := Some (addSourcesTo srcs emptySources) \<rparr>"

definition addWavefrontSink :: "config \<Rightarrow> uri \<Rightarrow> config" where
  "addWavefrontSink cfg u =
     (let vals = uQuery u in
      cfg \<lparr> Sinks := Sinks cfg @
        [\<lparr> skTransforms = getTransforms vals, Server = DecodeValue vals ''server'', Token = DecodeValue vals ''token'',
           BatchSize = 0, MaxBufferSize = 0, ProxyAddress = DecodeValue vals ''proxyAddress'', TestMode = False,
           ErrorLogPercent = Fin 0, skClusterName = DecodeValue vals ''clusterName'', Version = Fin 0,
           InternalStatsPrefix = [], EventsEnabled = False \<rparr>] \<rparr>)"

fun addSinks :: "config \<Rightarrow> uri list \<Rightarrow> config" where
  "addSinks cfg [] = cfg"
| "addSinks cfg (sink # rest) =
     (if uKey sink = ''wavefront'' then addSinks (addWavefrontSink cfg sink) rest else cfg)"

definition addInternalStatsSource :: "config \<Rightarrow> string \<Rightarrow> config" where
  "addInternalStatsSource cfg prefix =
     cfg \<lparr> Sources := map_option (\<lambda>s. s \<lparr> StatsConfig := Some \<lparr> stTransforms = zeroTransforms \<lparr> Prefix := prefix \<rparr>,
       stCollection = zeroCollection \<rparr> \<rparr>) (Sources cfg) \<rparr>"

definition extractSinkProperties :: "config \<Rightarrow> config go_result" where
  "extractSinkProperties cfg =
     (case Sinks cfg of
        [] \<Rightarrow> Inl (GoPanic ''no sink configured'')
      | sink # sinks \<Rightarrow>
          (let prefix = Prefix (skTransforms sink) in
           if prefix \<noteq> []
           then (case Sources cfg of
                   None \<Rightarrow> Inl (GoPanic ''nil pointer dereference'')
                 | Some src \<Rightarrow>
                     (case SummaryConfig src of
                        None \<Rightarrow> Inl (GoPanic ''nil pointer dereference'')
                      | Some sm \<Rightarrow>
                          Inr (cfg \<lparr> Sinks := (sink \<lparr> skTransforms := (skTransforms sink) \<lparr> Prefix := [] \<rparr> \<rparr>) # sinks,
                                Sources := Some (src \<lparr> SummaryConfig := Some (sm \<lparr> smTransforms := (smTransforms sm) \<lparr> Prefix := prefix \<rparr> \<rparr>) \<rparr>),
                                cfgClusterName := skClusterName sink \<rparr>)))
           else Inr (cfg \<lparr> cfgClusterName := skClusterName sink \<rparr>)))"

record run_options =
  MetricResolution :: duration
  roSources :: "uri list"
  roSinks :: "uri list"
  roSinkExportDataTimeout :: duration
  roEnableDiscovery :: bool
  EnableRuntimeConfigs :: bool
  DiscoveryConfigFile :: string
  roInternalStatsPrefix :: string
  AgentType :: agent_type

text \<open>The discovery file, when one is named, is given by its loaded plugin list or the error of loading it.\<close>

definition Convert :: "(string \<Rightarrow> plugin_config list go_result) \<Rightarrow> run_options \<Rightarrow> config go_result" where
  "Convert loadDiscoveryFile opts =
     (let cfg = zeroConfig \<lparr> DefaultCollectionInterval := MetricResolution opts, FlushInterval := MetricResolution opts,
            SinkExportDataTimeout := roSinkExportDataTimeout opts, EnableDiscovery := roEnableDiscovery opts,
            cfgScrapeCluster := ScrapeCluster (AgentType opts) \<rparr>
      in if length (roSources opts) = 0 then Inl (Errorf ''missing sources'')
         else if length (roSinks opts) = 0 then Inl (Errorf ''missing sink'')
         else
           case extractSinkProperties (addInternalStatsSource (addSinks (addSources cfg (roSources opts)) (roSinks opts))
                  (roInternalStatsPrefix opts)) of
             Inl e \<Rightarrow> Inl e
           | Inr cfg \<Rightarrow>
               (if roEnableDiscovery opts
                then
                  (let dc = (DiscoveryConfig cfg) \<lparr> EnableRuntimePlugins := EnableRuntimeConfigs opts \<rparr>;
                       dc = (if DiscoveryInterval dc = 0 then dc \<lparr> DiscoveryInterval := 5 * Minute \<rparr> else dc)
                   in if DiscoveryConfigFile opts \<noteq> []
                      then (case loadDiscoveryFile (DiscoveryConfigFile opts) of
                              Inl e \<Rightarrow> Inl e
                            | Inr ps \<Rightarrow> Inr (cfg \<lparr> DiscoveryConfig := dc \<lparr> PluginConfigs := ps \<rparr> \<rparr>))
                      else Inr (cfg \<lparr> DiscoveryConfig := dc \<rparr>))
                else Inr cfg))"

section \<open>Legacy discovery rules\<close>

definition promToPlugin :: "prom_config \<Rightarrow> plugin_config" where
  "promToPlugin p = \<lparr> plName = pcName p, plType = ''prometheus'',
     plSelectors = \<lparr> ResourceType = pcResourceType p, Images = [],
       slLabels = (if length (pcLabels p) > 0 then map (\<lambda>(k, v). (k, [v])) (pcLabels p) else []),
       Namespaces = (if length (pcNamespace p) > 0 then [pcNamespace p] else []) \<rparr>,
     plPort = pcPort p, plScheme = pcScheme p, plPath = pcPath p, plConf = [], plSource = pcSource p,
     plPrefix = pcPrefix p, plTags = pcTags p, plIncludeLabels = pcIncludeLabels p, plFilters = pcFilters p,
     plCollection = zeroCollection, plInternal = False \<rparr>"

definition ConvertPromToPlugin :: "discovery_config \<Rightarrow> discovery_config" where
  "ConvertPromToPlugin cfg =
     (if length (PromConfigs cfg) > 0
      then cfg \<lparr> PluginConfigs := PluginConfigs cfg @ map promToPlugin (PromConfigs cfg) \<rparr>
      else cfg)"

section \<open>Defaults and validation\<close>

definition fillDefaults :: "agent_type \<Rightarrow> config \<Rightarrow> config" where
  "fillDefaults agent cfg =
     (let cfg = (if FlushInterval cfg = 0 then cfg \<lparr> FlushInterval := 60 * Second \<rparr> else cfg);
          cfg = (if DefaultCollectionInterval cfg = 0 then cfg \<lparr> DefaultCollectionInterval := 60 * Second \<rparr> else cfg);
          cfg = (if SinkExportDataTimeout cfg = 0 then cfg \<lparr> SinkExportDataTimeout := 20 * Second \<rparr> else cfg);
          cfg = (if cfgClusterName cfg = [] then cfg \<lparr> cfgClusterName := ''k8s-cluster'' \<rparr> else cfg);
          cfg = (if DiscoveryInterval (DiscoveryConfig cfg) = 0
                 then cfg \<lparr> DiscoveryConfig := (DiscoveryConfig cfg) \<lparr> DiscoveryInterval := 5 * Minute \<rparr> \<rparr> else cfg)
      in cfg \<lparr> cfgScrapeCluster := ScrapeCluster agent \<rparr>)"

definition validateCfg :: "config \<Rightarrow> go_error option" where
  "validateCfg cfg =
     (if FlushInterval cfg < 5 * Second then Some (Errorf ''metric resolution should not be less than 5 seconds'')
      else case Sources cfg of
             None \<Rightarrow> Some (Errorf ''missing sources'')
           | Some src \<Rightarrow>
               (if SummaryConfig src = None then Some (Errorf ''kubernetes_source is missing'')
                else if length (Sinks cfg) = 0 then Some (Errorf ''missing sink'')
                else None))"

text \<open>Loading: the parsed file (or the parse error) with defaults filled in, if it is valid.\<close>

definition loadConfigOrDie :: "agent_type \<Rightarrow> (string \<Rightarrow> config go_result) \<Rightarrow> string \<Rightarrow> config option go_result" where
  "loadConfigOrDie agent FromFile file =
     (if file = [] then Inr None
      else case FromFile file of
             Inl err \<Rightarrow> Inl (GoPanic ''error parsing configuration'')
           | Inr cfg \<Rightarrow>
               (let cfg = fillDefaults agent cfg in
                case validateCfg cfg of
                  Some err \<Rightarrow> Inl (GoPanic ''invalid configuration file'')
                | None \<Rightarrow> Inr (Some cfg)))"

definition convertOrDie ::
    "agent_type \<Rightarrow> (string \<Rightarrow> plugin_config list go_result) \<Rightarrow> run_options \<Rightarrow> config option \<Rightarrow> config go_result" where
  "convertOrDie agent loadDiscoveryFile opts cfg =
     (case cfg of
        Some cfg \<Rightarrow> Inr cfg
      | None \<Rightarrow>
          (case Convert loadDiscoveryFile opts of
             Inl err \<Rightarrow> Inl (GoPanic ''error converting flags to config'')
           | Inr cfg \<Rightarrow> Inr (fillDefaults agent cfg)))"

definition setInternalSinkProperties :: "f64 \<Rightarrow> config \<Rightarrow> config go_result" where
  "setInternalSinkProperties version cfg =
     (case Sources cfg of
        None \<Rightarrow> Inl (GoPanic ''nil pointer dereference'')
      | Some src \<Rightarrow>
          (let prefix = (case StatsConfig src of
                           None \<Rightarrow> []
                         | Some st \<Rightarrow> GetStringValue (Prefix (stTransforms st)) ''kubernetes.'')
           in Inr (cfg \<lparr> Sinks := map (\<lambda>sink. sink \<lparr> skClusterName := cfgClusterName cfg, InternalStatsPrefix := prefix,
                Version := version, EventsEnabled := EnableEvents cfg \<rparr>) (Sinks cfg) \<rparr>)))"

definition calculateCollectionInterval :: "config \<Rightarrow> duration go_result" where
  "calculateCollectionInterval cfg =
     (case Option.bind (Sources cfg) SummaryConfig of
        None \<Rightarrow> Inl (GoPanic ''nil pointer dereference'')
      | Some sm \<Rightarrow>
          Inr (if Interval (smCollection sm) > 0 then Interval (smCollection sm) else DefaultCollectionInterval cfg))"

section \<open>Properties\<close>

lemma fillDefaults_fields:
  "FlushInterval (fillDefaults a cfg) = (if FlushInterval cfg = 0 then 60 * Second else FlushInterval cfg)"
  "DefaultCollectionInterval (fillDefaults a cfg) = (if DefaultCollectionInterval cfg = 0 then 60 * Second else DefaultCollectionInterval cfg)"
  "SinkExportDataTimeout (fillDefaults a cfg) = (if SinkExportDataTimeout cfg = 0 then 20 * Second else SinkExportDataTimeout cfg)"
  "cfgClusterName (fillDefaults a cfg) = (if cfgClusterName cfg = [] then ''k8s-cluster'' else cfgClusterName cfg)"
  "DiscoveryInterval (DiscoveryConfig (fillDefaults a cfg)) =
     (if DiscoveryInterval (DiscoveryConfig cfg) = 0 then 5 * Minute else DiscoveryInterval (DiscoveryConfig cfg))"
  "Sources (fillDefaults a cfg) = Sources cfg" "Sinks (fillDefaults a cfg) = Sinks cfg"
  "cfgScrapeCluster (fillDefaults a cfg) = ScrapeCluster a"
  by (simp_all add: fillDefaults_def Let_def)

lemma validateCfg_ok:
  "validateCfg cfg = None \<longleftrightarrow> 5 * Second \<le> FlushInterval cfg \<and>
     (\<exists>src sm. Sources cfg = Some src \<and> SummaryConfig src = Some sm) \<and> Sinks cfg \<noteq> []"
  by (auto simp: validateCfg_def split: option.splits)

text \<open>
  C14. A configuration file that is accepted at startup yields a configuration in which every interval,
  timeout and name that has a default is set, flushing happens at most every five seconds, at least
  one sink exists and the interval of the summary source can be computed.
\<close>

theorem loadConfigOrDie_complete:
  assumes "loadConfigOrDie agent FromFile file = Inr (Some cfg)"
  shows "5 * Second \<le> FlushInterval cfg \<and> DefaultCollectionInterval cfg \<noteq> 0 \<and> SinkExportDataTimeout cfg \<noteq> 0 \<and>
    cfgClusterName cfg \<noteq> [] \<and> DiscoveryInterval (DiscoveryConfig cfg) \<noteq> 0 \<and> Sinks cfg \<noteq> [] \<and>
    cfgScrapeCluster cfg = ScrapeCluster agent \<and>
    (\<exists>i. calculateCollectionInterval cfg = Inr i \<and> i \<noteq> 0) \<and> (\<exists>cfg'. setInternalSinkProperties v cfg = Inr cfg')"
proof -
  obtain raw where raw: "cfg = fillDefaults agent raw" "validateCfg cfg = None"
    using assms by (auto simp: loadConfigOrDie_def Let_def split: if_splits sum.splits option.splits)
  from raw(2) obtain src sm where s: "5 * Second \<le> FlushInterval cfg" "Sources cfg = Some src" "SummaryConfig src = Some sm"
    "Sinks cfg \<noteq> []" unfolding validateCfg_ok by blast
  have "DefaultCollectionInterval cfg \<noteq> 0" "SinkExportDataTimeout cfg \<noteq> 0" "cfgClusterName cfg \<noteq> []"
    "DiscoveryInterval (DiscoveryConfig cfg) \<noteq> 0" "cfgScrapeCluster cfg = ScrapeCluster agent"
    unfolding raw(1) fillDefaults_fields by simp_all
  with s show ?thesis by (simp add: calculateCollectionInterval_def setInternalSinkProperties_def)
qed

definition sample_summary :: summary_source_config where
  "sample_summary = \<lparr> smTransforms = zeroTransforms, smCollection = zeroCollection, smURL = [], KubeletPort = [],
     KubeletHttps = [], InClusterConfig = [], UseServiceAccount = [], Insecure = [], Auth = [] \<rparr>"

definition sample_config :: config where
  "sample_config = zeroConfig \<lparr> Sources := Some (emptySources \<lparr> SummaryConfig := Some sample_summary \<rparr>),
     Sinks := [\<lparr> skTransforms = zeroTransforms, Server = [], Token = [], BatchSize = 0, MaxBufferSize = 0,
       ProxyAddress = ''proxy:2878'', TestMode = False, ErrorLogPercent = Fin 0, skClusterName = [], Version = Fin 0,
       InternalStatsPrefix = [], EventsEnabled = False \<rparr>] \<rparr>"

theorem loadConfigOrDie_complete_witness:
  "loadConfigOrDie NodeAgentType (\<lambda>_. Inr sample_config) ''collector.yaml'' = Inr (Some (fillDefaults NodeAgentType sample_config)) \<and>
   DefaultCollectionInterval (fillDefaults NodeAgentType sample_config) \<noteq> 0"
proof -
  have run: "loadConfigOrDie NodeAgentType (\<lambda>_. Inr sample_config) ''collector.yaml'' = Inr (Some (fillDefaults NodeAgentType sample_config))"
    by (simp add: loadConfigOrDie_def sample_config_def zeroConfig_def emptySources_def fillDefaults_def validateCfg_def)
  with loadConfigOrDie_complete [OF run] show ?thesis by blast
qed

definition known_source :: "uri \<Rightarrow> bool" where
  "known_source u \<longleftrightarrow> uKey u \<in> {''kubernetes.summary_api'', ''kubernetes.state'', ''prometheus'',
     ''kubernetes.cadvisor'', ''telegraf'', ''systemd''}"

lemma addSourcesTo_keeps_summary: "SummaryConfig sc \<noteq> None \<Longrightarrow> SummaryConfig (addSourcesTo us sc) \<noteq> None"
  by (induction us sc rule: addSourcesTo.induct)
     (auto simp: addSummarySource_def addStateSource_def addPrometheusSource_def addCadvisorSource_def
        addTelegrafSource_def addSystemdSource_def Let_def)

lemma addSourcesTo_summary:
  assumes "\<forall>u \<in> set us. known_source u" "\<exists>u \<in> set us. uKey u = ''kubernetes.summary_api''"
  shows "SummaryConfig (addSourcesTo us sc) \<noteq> None"
  using assms
proof (induction us arbitrary: sc)
  case (Cons u us)
  show ?case
  proof (cases "uKey u = ''kubernetes.summary_api''")
    case True
    then show ?thesis by (simp add: addSourcesTo_keeps_summary addSummarySource_def Let_def del: not_None_eq)
  next
    case False
    with Cons.prems have "known_source u" "\<exists>u \<in> set us. uKey u = ''kubernetes.summary_api''" "\<forall>u \<in> set us. known_source u" by auto
    with False Cons.IH show ?thesis by (auto simp: known_source_def)
  qed
qed simp

lemma addSinks_length:
  "\<forall>u \<in> set us. uKey u = ''wavefront'' \<Longrightarrow> length (Sinks (addSinks cfg us)) = length (Sinks cfg) + length us \<and>
     Sources (addSinks cfg us) = Sources cfg \<and> FlushInterval (addSinks cfg us) = FlushInterval cfg"
  by (induction us arbitrary: cfg) (auto simp: addWavefrontSink_def Let_def)

text \<open>
  Command line flags that name only known sources, among them the summary source, at least one
  Wavefront sink and a resolution of zero or at least five seconds are converted to a configuration
  that would pass the validation of configuration files.
\<close>

theorem convertOrDie_valid:
  assumes src: "\<forall>u \<in> set (roSources opts). known_source u" "\<exists>u \<in> set (roSources opts). uKey u = ''kubernetes.summary_api''"
    and sink: "roSinks opts \<noteq> []" "\<forall>u \<in> set (roSinks opts). uKey u = ''wavefront''"
    and res: "MetricResolution opts = 0 \<or> 5 * Second \<le> MetricResolution opts"
    and load: "\<exists>ps. loadDiscoveryFile (DiscoveryConfigFile opts) = Inr ps"
  shows "\<exists>cfg. convertOrDie agent loadDiscoveryFile opts None = Inr cfg \<and> validateCfg cfg = None"
proof -
  define cfg0 where "cfg0 = zeroConfig \<lparr> DefaultCollectionInterval := MetricResolution opts, FlushInterval := MetricResolution opts,
            SinkExportDataTimeout := roSinkExportDataTimeout opts, EnableDiscovery := roEnableDiscovery opts,
            cfgScrapeCluster := ScrapeCluster (AgentType opts) \<rparr>"
  define cfg1 where "cfg1 = addInternalStatsSource (addSinks (addSources cfg0 (roSources opts)) (roSinks opts)) (roInternalStatsPrefix opts)"
  have ne: "roSources opts \<noteq> []" using src(2) by auto
  have len: "length (Sinks cfg1) = length (roSinks opts)" "FlushInterval cfg1 = MetricResolution opts"
    "Sources cfg1 = Some ((addSourcesTo (roSources opts) emptySources) \<lparr> StatsConfig := Some \<lparr> stTransforms = zeroTransforms \<lparr> Prefix := roInternalStatsPrefix opts \<rparr>,
       stCollection = zeroCollection \<rparr> \<rparr>)"
    using addSinks_length [OF sink(2), of "addSources cfg0 (roSources opts)"]
    by (simp_all add: cfg1_def addInternalStatsSource_def addSources_def cfg0_def zeroConfig_def)
  obtain src1 sm where s1: "Sources cfg1 = Some src1" "SummaryConfig src1 = Some sm"
    using addSourcesTo_summary [OF src, of emptySources] len(3) by auto
  obtain sk sks where sk: "Sinks cfg1 = sk # sks" using len(1) sink(1) by (cases "Sinks cfg1") auto
  obtain cfg2 where cfg2: "extractSinkProperties cfg1 = Inr cfg2" "Sinks cfg2 \<noteq> []" "FlushInterval cfg2 = MetricResolution opts"
      "\<exists>src sm. Sources cfg2 = Some src \<and> SummaryConfig src = Some sm"
    using s1 sk len(2) by (cases "Prefix (skTransforms sk) = []") (auto simp: extractSinkProperties_def Let_def)
  obtain ps where ps: "loadDiscoveryFile (DiscoveryConfigFile opts) = Inr ps" using load by blast
  have "\<exists>cfg3. Convert loadDiscoveryFile opts = Inr cfg3 \<and> Sinks cfg3 = Sinks cfg2 \<and> Sources cfg3 = Sources cfg2 \<and>
      FlushInterval cfg3 = FlushInterval cfg2"
    unfolding Convert_def Let_def cfg0_def [symmetric] cfg1_def [symmetric]
    using cfg2(1) ne sink(1) ps by (cases "roEnableDiscovery opts"; cases "DiscoveryConfigFile opts = []") simp_all
  then obtain cfg3 where cfg3: "Convert loadDiscoveryFile opts = Inr cfg3" "Sinks cfg3 = Sinks cfg2" "Sources cfg3 = Sources cfg2"
      "FlushInterval cfg3 = FlushInterval cfg2" by blast
  have "validateCfg (fillDefaults agent cfg3) = None"
    unfolding validateCfg_ok fillDefaults_fields using cfg2 cfg3 res by auto
  with cfg3(1) show ?thesis by (simp add: convertOrDie_def)
qed

definition sample_uri :: "string \<Rightarrow> uri" where
  "sample_uri k = \<lparr> uKey = k, uScheme = [], uHost = [], uPath = [], uQuery = [] \<rparr>"

definition sample_options :: "string \<Rightarrow> run_options" where
  "sample_options k = \<lparr> MetricResolution = 60 * Second, roSources = [sample_uri k], roSinks = [sample_uri ''wavefront''],
     roSinkExportDataTimeout = 0, roEnableDiscovery = False, EnableRuntimeConfigs = False, DiscoveryConfigFile = [],
     roInternalStatsPrefix = [], AgentType = AllAgentType \<rparr>"

theorem convertOrDie_valid_witness:
  "\<exists>cfg. convertOrDie AllAgentType (\<lambda>_. Inr []) (sample_options ''kubernetes.summary_api'') None = Inr cfg \<and> validateCfg cfg = None"
  by (rule convertOrDie_valid) (simp_all add: sample_options_def sample_uri_def known_source_def)

text \<open>
  Flags are not validated: without a summary source the conversion still succeeds, and computing
  the collection interval then dereferences a nil pointer.
\<close>

lemma convertOrDie_unvalidated:
  "\<exists>cfg. convertOrDie AllAgentType (\<lambda>_. Inr []) (sample_options ''prometheus'') None = Inr cfg \<and>
     validateCfg cfg \<noteq> None \<and> calculateCollectionInterval cfg = Inl (GoPanic ''nil pointer dereference'')"
  by (simp add: convertOrDie_def Convert_def sample_options_def sample_uri_def addSources_def addWavefrontSink_def
      addPrometheusSource_def addInternalStatsSource_def extractSinkProperties_def getTransforms_def DecodeValue_def query_get_def
      fillDefaults_def validateCfg_def calculateCollectionInterval_def zeroConfig_def emptySources_def Let_def)

end
