(* ===== verification/Wf_Sink.thy ===== *)
theory Wf_Sink
  imports Batch Tag_Cleaning Configuration
begin

text \<open>
  The Wavefront sink (\<^verbatim>\<open>plugins/sinks/wavefront/wavefront.go\<close>) and the sink factory: creation from
  the configuration, the sending of points and distributions through the sink, the export of a
  batch with its counters, and events.

  The clients of the SDK are parameters: \<open>newProxy\<close> and \<open>newDirect\<close> give a client or an error, and a
  client answers a call with an error or nothing. The counters of the process are a record.
\<close>

definition maxWavefrontTags :: int where "maxWavefrontTags = 19"

record 'c wavefront_sink =
  WavefrontClient :: 'c
  ClusterName :: string
  sinkPrefix :: string
  globalTags :: strmap
  filters :: "glob_filter option"
  forceGC :: bool
  logPercent :: f64

record sink_counters =
  sentPoints :: nat
  errPoints :: nat
  filteredPoints :: nat

section \<open>Sending through the sink\<close>

text \<open>\<^verbatim>\<open>strings.NewReplacer("+", "-")\<close>\<close>

definition sanitizedChars :: "string \<Rightarrow> string" where
  "sanitizedChars s = map (\<lambda>c. if c = CHR ''+'' then CHR ''-'' else c) s"

definition sinkName :: "'c wavefront_sink \<Rightarrow> string \<Rightarrow> string" where
  "sinkName sink name =
     (let name = sanitizedChars name in
      if length (sinkPrefix sink) > 0 then sinkPrefix sink @ ''.'' @ name else name)"

text \<open>The call the client receives for a call on the sink.\<close>

fun sinkCall :: "'c wavefront_sink \<Rightarrow> send_call \<Rightarrow> send_call" where
  "sinkCall sink (SendMetricCall name v ts source tags) =
     SendMetricCall (sinkName sink name) v ts source (snd (cleanTags tags maxWavefrontTags))"
| "sinkCall sink (SendDistributionCall name centroids hgs ts source tags) =
     SendDistributionCall (sinkName sink name) centroids hgs ts source (snd (cleanTags tags maxWavefrontTags))"

text \<open>The sink as the sender of a metric: \<^verbatim>\<open>SendMetric\<close> and \<^verbatim>\<open>SendDistribution\<close>.\<close>

definition sinkSender :: "('c \<Rightarrow> sender) \<Rightarrow> 'c wavefront_sink \<Rightarrow> sender" where
  "sinkSender client sink c = client (WavefrontClient sink) (sinkCall sink c)"

section \<open>Export\<close>

text \<open>
  One metric of the batch: cluster tag, global tags, filter, then sending. The result is the
  calls the client received and the counters.
\<close>

fun exportMetric :: "('c \<Rightarrow> sender) \<Rightarrow> 'c wavefront_sink \<Rightarrow> wf_metric option \<Rightarrow>
    send_call list \<times> sink_counters \<Rightarrow> send_call list \<times> sink_counters" where
  "exportMetric client sink None (calls, cnt) = (calls, cnt)"
| "exportMetric client sink (Some m) (calls, cnt) =
     (let m = m_OverrideTag (Key LabelCluster) (ClusterName sink) m;
          m = m_AddTags (globalTags sink) m;
          (r, filtered) = wf_Filter (filters sink) (Some m);
          cnt = cnt \<lparr> filteredPoints := filteredPoints cnt + filtered \<rparr>
      in case r of
           None \<Rightarrow> (calls, cnt)
         | Some m \<Rightarrow>
             (let (sent, err) = m_Send (sinkSender client sink) m;
                  calls = calls @ map (sinkCall sink) sent
              in (case err of
                    Some _ \<Rightarrow> (calls, cnt \<lparr> errPoints := errPoints cnt + 1 \<rparr>)
                  | None \<Rightarrow> (calls, cnt \<lparr> sentPoints := sentPoints cnt + 1 \<rparr>))))"

definition Export :: "('c \<Rightarrow> sender) \<Rightarrow> 'c wavefront_sink \<Rightarrow> batch \<Rightarrow> sink_counters \<Rightarrow> send_call list \<times> sink_counters" where
  "Export client sink b cnt = fold (exportMetric client sink) (Metrics b) ([], cnt)"

section \<open>Creation\<close>

datatype client_kind = TestClient | ProxyClient | DirectClient

text \<open>
  \<^verbatim>\<open>NewWavefrontSink\<close>. \<open>forceGC\<close> is whether the environment asks for it. The result also says
  which kind of client was made (the gauge \<^verbatim>\<open>wavefront.sender.type\<close>).
\<close>

definition NewWavefrontSink ::
    "glob_compiler \<Rightarrow> bool \<Rightarrow> 'c \<Rightarrow> (string \<Rightarrow> int \<Rightarrow> 'c go_result) \<Rightarrow> (string \<Rightarrow> string \<Rightarrow> int \<Rightarrow> int \<Rightarrow> 'c go_result) \<Rightarrow>
      wavefront_sink_config \<Rightarrow> ('c wavefront_sink \<times> client_kind) go_result" where
  "NewWavefrontSink gc gcEnv testSender newProxy newDirect cfg =
     (let client =
        (if TestMode cfg then Inr (testSender, TestClient)
         else if ProxyAddress cfg \<noteq> []
         then (let s = split_on CHR '':'' (ProxyAddress cfg) in
               if length s < 2 then Inl (GoPanic ''index out of range'')
               else case Atoi (s ! 1) of
                      None \<Rightarrow> Inl (Errorf ''error parsing proxy port'')
                    | Some port \<Rightarrow>
                        (case newProxy (s ! 0) port of
                           Inl _ \<Rightarrow> Inl (Errorf ''error creating proxy sender'')
                         | Inr c \<Rightarrow> Inr (c, ProxyClient)))
         else if Server cfg \<noteq> []
         then (if length (Token cfg) = 0 then Inl (Errorf ''token missing for Wavefront sink'')
               else case newDirect (Server cfg) (Token cfg) (BatchSize cfg) (MaxBufferSize cfg) of
                      Inl _ \<Rightarrow> Inl (Errorf ''error creating direct sender'')
                    | Inr c \<Rightarrow> Inr (c, DirectClient))
         else Inl (Errorf ''proxyAddress or server property required for Wavefront sink''))
      in case client of
           Inl e \<Rightarrow> Inl e
         | Inr (c, kind) \<Rightarrow>
             Inr (\<lparr> WavefrontClient = c,
                    ClusterName = GetStringValue (skClusterName cfg) ''k8s-cluster'',
                    sinkPrefix = (if Prefix (skTransforms cfg) \<noteq> [] then TrimDots (Prefix (skTransforms cfg)) else []),
                    globalTags = Tags (skTransforms cfg),
                    filters = FromConfig gc (Filters (skTransforms cfg)),
                    forceGC = gcEnv,
                    logPercent = (if f_lt (Fin 0) (ErrorLogPercent cfg) \<and> f_le (ErrorLogPercent cfg) (Fin 1)
                                  then ErrorLogPercent cfg else Fin (1 / 100)) \<rparr>, kind))"

text \<open>\<^verbatim>\<open>BuildAll\<close>: configurations that fail are skipped; it is fatal when none is left.\<close>

definition BuildAll :: "(wavefront_sink_config \<Rightarrow> 'k go_result) \<Rightarrow> wavefront_sink_config list \<Rightarrow> 'k list go_result" where
  "BuildAll build cfgs =
     (case fold (\<lambda>cfg acc. case acc of
                             Inl e \<Rightarrow> Inl e
                           | Inr ss \<Rightarrow> (case build cfg of
                                          Inl (GoPanic p) \<Rightarrow> Inl (GoPanic p)
                                        | Inl (Errorf _) \<Rightarrow> Inr ss
                                        | Inr s \<Rightarrow> Inr (ss @ [s]))) cfgs (Inr []) of
        Inl e \<Rightarrow> Inl e
      | Inr [] \<Rightarrow> Inl (GoPanic ''No available sink to use'')
      | Inr ss \<Rightarrow> Inr ss)"

section \<open>Accounting\<close>

lemma m_Send_calls: "length (fst (m_Send to m)) \<le> 1"
  by (cases m) (simp_all add: Point_Send_def Distribution_Send_def Let_def)

definition non_nil :: "batch \<Rightarrow> wf_metric list" where
  "non_nil b = map the (filter (\<lambda>m. m \<noteq> None) (Metrics b))"

lemma wf_Filter_cases: "(\<exists>m'. wf_Filter flt (Some m) = (Some m', 0)) \<or> wf_Filter flt (Some m) = (None, 1)"
  by (simp add: wf_Filter_def split: option.split)

lemma exportMetric_step:
  "(let (calls', cnt') = exportMetric client sink (Some m) (calls, cnt) in
      sentPoints cnt' + errPoints cnt' + filteredPoints cnt' = sentPoints cnt + errPoints cnt + filteredPoints cnt + 1 \<and>
      length calls' + filteredPoints cnt' \<le> length calls + filteredPoints cnt + 1 \<and>
      filteredPoints cnt \<le> filteredPoints cnt')"
proof -
  let ?m = "m_AddTags (globalTags sink) (m_OverrideTag (Key LabelCluster) (ClusterName sink) m)"
  consider (1) m' where "wf_Filter (filters sink) (Some ?m) = (Some m', 0)" | (2) "wf_Filter (filters sink) (Some ?m) = (None, 1)"
    using wf_Filter_cases by blast
  then show ?thesis
  proof cases
    case (1 m')
    have "length (fst (m_Send (sinkSender client sink) m')) \<le> 1" by (rule m_Send_calls)
    with 1 show ?thesis
      by (auto simp: Let_def case_prod_unfold simp del: label_keys split: option.splits)
  next
    case 2
    then show ?thesis by (simp add: Let_def del: label_keys)
  qed
qed

text \<open>
  C9. Export accounts for every metric: each non-nil metric of the batch is counted exactly once, as
  sent, failed or filtered, and the client receives at most one call for each metric that is not filtered.
\<close>

theorem Export_accounting:
  "let (calls, cnt') = Export client sink b cnt in
     sentPoints cnt' + errPoints cnt' + filteredPoints cnt' =
       sentPoints cnt + errPoints cnt + filteredPoints cnt + length (non_nil b) \<and>
     length calls + (filteredPoints cnt' - filteredPoints cnt) \<le> length (non_nil b)"
proof -
  have "let (calls', cnt') = fold (exportMetric client sink) ms (calls, cnt) in
     sentPoints cnt' + errPoints cnt' + filteredPoints cnt' =
       sentPoints cnt + errPoints cnt + filteredPoints cnt + length (filter (\<lambda>m. m \<noteq> None) ms) \<and>
     length calls' + filteredPoints cnt' \<le> length calls + filteredPoints cnt + length (filter (\<lambda>m. m \<noteq> None) ms) \<and>
     filteredPoints cnt \<le> filteredPoints cnt'" for ms calls cnt
  proof (induction ms arbitrary: calls cnt)
    case (Cons m ms)
    show ?case
    proof (cases m)
      case None
      with Cons show ?thesis by simp
    next
      case (Some x)
      obtain c n where cn: "exportMetric client sink (Some x) (calls, cnt) = (c, n)" by force
      with exportMetric_step [of client sink x calls cnt] Cons [of c n] Some show ?thesis
        by (auto simp del: exportMetric.simps)
    qed
  qed simp
  from this [of "Metrics b" "[]" cnt] show ?thesis
    by (auto simp: Export_def non_nil_def)
qed

section \<open>The cluster tag\<close>

fun call_tags :: "send_call \<Rightarrow> strmap" where
  "call_tags (SendMetricCall name v ts source tags) = tags"
| "call_tags (SendDistributionCall name centroids hgs ts source tags) = tags"

text \<open>A tag that was set by \<^verbatim>\<open>OverrideTag\<close> survives the adding of other tags, label pairs or not.\<close>

lemma override_then_add:
  assumes "valid_metric m"
  shows "map_of (m_Tags (m_AddTags ts (m_OverrideTag k v m))) k = Some v"
proof (cases m)
  case (MPoint p)
  have valid: "valid_point (Point_AddTags ts (Point_OverrideTag k v p))" using assms MPoint by simp
  show ?thesis
    using map_of_Point_Tags [OF valid] Point_AddTags_fields [of ts "Point_OverrideTag k v p"]
    by (simp add: MPoint Point_OverrideTag_def map_add_def)
next
  case (MDist d)
  with assms show ?thesis by (simp add: dist.override_survives_add)
qed

lemma m_Send_tags: "c \<in> set (fst (m_Send to m)) \<Longrightarrow> call_tags c = m_Tags m"
  by (cases m) (auto simp: Point_Send_def Distribution_Send_def Let_def split: if_splits)

lemma exportMetric_calls:
  assumes "valid_metric m" "\<forall>f. filters sink = Some f \<longrightarrow> MatchTag f (Key LabelCluster)"
    and "call \<in> set (fst (exportMetric client sink (Some m) (calls, cnt)))"
  shows "call \<in> set calls \<or> (\<exists>c. call = sinkCall sink c \<and> wf_map (call_tags c) \<and>
    map_of (call_tags c) (Key LabelCluster) = Some (ClusterName sink))"
proof -
  let ?m = "m_AddTags (globalTags sink) (m_OverrideTag (Key LabelCluster) (ClusterName sink) m)"
  have v: "valid_metric ?m" using assms(1) by simp
  have t: "map_of (m_Tags ?m) (Key LabelCluster) = Some (ClusterName sink)" by (rule override_then_add [OF assms(1)])
  consider (1) m' where "wf_Filter (filters sink) (Some ?m) = (Some m', 0)" | (2) "wf_Filter (filters sink) (Some ?m) = (None, 1)"
    using wf_Filter_cases by blast
  then show ?thesis
  proof cases
    case (1 m')
    have "valid_metric m'" "map_of (m_Tags m') (Key LabelCluster) = Some (ClusterName sink)"
      using 1 v t assms(2) by (auto simp: wf_Filter_def met.tags_filter simp del: label_keys split: option.splits if_splits)
    moreover have "call \<in> set calls \<or> (\<exists>c \<in> set (fst (m_Send (sinkSender client sink) m')). call = sinkCall sink c)"
      using assms(3) 1 by (auto simp: Let_def case_prod_unfold simp del: label_keys split: option.splits)
    ultimately show ?thesis using met.wf_tags m_Send_tags by metis
  next
    case 2
    with assms(3) show ?thesis by (simp add: Let_def del: label_keys)
  qed
qed


definition sample_sink :: "unit wavefront_sink" where
  "sample_sink = \<lparr> WavefrontClient = (), ClusterName = ''prod'', sinkPrefix = ''k8s'', globalTags = [(''cluster'', ''x''), (''env'', ''a'')],
     filters = None, forceGC = False, logPercent = Fin 1 \<rparr>"

definition sample_export :: "send_call list" where
  "sample_export = fst (Export (\<lambda>_ _. None) sample_sink
      \<lparr> Timestamp = 0, Sets = [], Metrics = [None, Some (MPoint (NewPoint ''cpu+x'' (Fin 1) 5 ''n1'' [(''cluster'', ''old'')]))] \<rparr>
      \<lparr> sentPoints = 0, errPoints = 0, filteredPoints = 0 \<rparr>)"


text \<open>
  Creating a sink panics only for a proxy address without a port, provided the SDK's constructors
  do not; every other bad configuration is reported as an error.
\<close>

theorem NewWavefrontSink_panics_iff:
  "(\<exists>p. NewWavefrontSink gc env ts newProxy newDirect cfg = Inl (GoPanic p)) \<longleftrightarrow>
     \<not> TestMode cfg \<and> ProxyAddress cfg \<noteq> [] \<and> CHR '':'' \<notin> set (ProxyAddress cfg)"
proof -
  have "length (split_on CHR '':'' s) < 2 \<longleftrightarrow> CHR '':'' \<notin> set s" for s
    by (auto simp: length_split_on count_list_0_iff)
  then show ?thesis
    by (auto simp: NewWavefrontSink_def Let_def split: sum.splits option.splits if_splits)
qed

end
