(* ===== verification/Kube_Util.thy ===== *)
theory Kube_Util
  imports Metrics_Core Go_Strings Go_Time Configuration
begin

text \<open>
  The Kubernetes objects the collector reads, with the fields it uses, and the helpers of
  \<^verbatim>\<open>internal/util\<close> on them: \<^verbatim>\<open>util.go\<close> (node roles, node addresses, container states, pod phases, the
  environment of the process) and \<^verbatim>\<open>label_copier.go\<close>. The lemmas say which node address is taken
  and that copying labels does not depend on the order in which Go visits the label map.
\<close>

section \<open>Kubernetes objects\<close>

text \<open>A \<^verbatim>\<open>resource.Quantity\<close> by its two readings, \<^verbatim>\<open>MilliValue()\<close> and \<^verbatim>\<open>Value()\<close>.\<close>

record quantity =
  MilliValue :: int64
  QValue :: int64

definition zeroQuantity :: quantity where
  "zeroQuantity = \<lparr> MilliValue = 0, QValue = 0 \<rparr>"

type_synonym resource_list = "(string, quantity) gomap"

abbreviation ResourceCPU :: string where "ResourceCPU \<equiv> ''cpu''"
abbreviation ResourceMemory :: string where "ResourceMemory \<equiv> ''memory''"
abbreviation ResourceEphemeralStorage :: string where "ResourceEphemeralStorage \<equiv> ''ephemeral-storage''"

definition get_quantity :: "resource_list \<Rightarrow> string \<Rightarrow> quantity" where
  "get_quantity rs n = (case map_of rs n of None \<Rightarrow> zeroQuantity | Some q \<Rightarrow> q)"

record object_meta =
  mtName :: string
  mtNamespace :: string
  mtUID :: string
  mtLabels :: strmap
  mtAnnotations :: strmap

record container =
  cName :: string
  cImage :: string
  cRequests :: resource_list
  cLimits :: resource_list

record terminated_state =
  tReason :: string
  tExitCode :: "32 word"
  FinishedAt :: time

text \<open>A container state has three optional members; a waiting state has a reason.\<close>

record container_state =
  stRunning :: bool
  stWaiting :: "string option"
  stTerminated :: "terminated_state option"

record container_status =
  csName :: string
  csImage :: string
  RestartCount :: "32 word"
  csState :: container_state
  LastTerminationState :: container_state

record pod_condition =
  pcType :: string
  pcStatus :: string
  pcReason :: string
  pcMessage :: string

record pod =
  podMeta :: object_meta
  podNodeName :: string
  podContainers :: "container list"
  podPhase :: string
  podStartTime :: "time option"
  podIP :: string
  podConditions :: "pod_condition list"
  ContainerStatuses :: "container_status list"

record node_address =
  naType :: string
  naAddress :: string

record node_taint =
  taintKey :: string
  taintValue :: string
  taintEffect :: string

record node =
  nodeMeta :: object_meta
  Capacity :: resource_list
  Allocatable :: resource_list
  nodeConditions :: "(string \<times> string) list"
  Addresses :: "node_address list"
  Taints :: "node_taint list"
  ProviderID :: string
  PodCIDR :: string
  KernelVersion :: string
  OSImage :: string
  ContainerRuntimeVersion :: string
  KubeletVersion :: string
  KubeProxyVersion :: string

abbreviation PodRunning :: string where "PodRunning \<equiv> ''Running''"

text \<open>\<^verbatim>\<open>(*metav1.Time).IsZero\<close>: a nil pointer and the zero time.\<close>

definition start_time :: "pod \<Rightarrow> time option" where
  "start_time p = (case podStartTime p of None \<Rightarrow> None | Some t \<Rightarrow> if t = zero_time then None else Some t)"

section \<open>Phases and states\<close>

definition ConvertPodPhase :: "string \<Rightarrow> int64" where
  "ConvertPodPhase phase =
     (if phase = ''Pending'' then 1 else if phase = ''Running'' then 2 else if phase = ''Succeeded'' then 3
      else if phase = ''Failed'' then 4 else if phase = ''Unknown'' then 5 else 5)"

record container_state_info =
  siValue :: int
  siState :: string
  siReason :: string
  siExitCode :: "32 word"

definition NewContainerStateInfo :: "container_state \<Rightarrow> container_state_info" where
  "NewContainerStateInfo st =
     (if stRunning st then \<lparr> siValue = 1, siState = ''running'', siReason = [], siExitCode = 0 \<rparr>
      else case stWaiting st of
        Some reason \<Rightarrow> \<lparr> siValue = 2, siState = ''waiting'', siReason = reason, siExitCode = 0 \<rparr>
      | None \<Rightarrow>
          (case stTerminated st of
             Some t \<Rightarrow> \<lparr> siValue = 3, siState = ''terminated'', siReason = tReason t, siExitCode = tExitCode t \<rparr>
           | None \<Rightarrow> \<lparr> siValue = 0, siState = ''unknown'', siReason = [], siExitCode = 0 \<rparr>))"

definition IsKnownState :: "container_state_info \<Rightarrow> bool" where
  "IsKnownState csi \<longleftrightarrow> siValue csi > 0"

text \<open>\<^verbatim>\<open>fmt.Sprint\<close> of a signed number.\<close>

definition show_int :: "int \<Rightarrow> string" where
  "show_int i = (if i < 0 then ''-'' @ show_nat (nat (- i)) else show_nat (nat i))"

definition AddMetricTags :: "container_state_info \<Rightarrow> strmap \<Rightarrow> strmap" where
  "AddMetricTags csi tags =
     (if IsKnownState csi
      then (let tags = gput ''status'' (siState csi) tags in
            if siReason csi \<noteq> []
            then gput ''exit_code'' (show_int (sint (siExitCode csi))) (gput ''reason'' (siReason csi) tags)
            else tags)
      else tags)"

section \<open>Nodes\<close>

definition GetNodeRole :: "node \<Rightarrow> string" where
  "GetNodeRole n =
     (if map_of (mtLabels (nodeMeta n)) ''node-role.kubernetes.io/control-plane'' \<noteq> None then ''control-plane''
      else if map_of (mtLabels (nodeMeta n)) ''node-role.kubernetes.io/master'' \<noteq> None then ''control-plane''
      else ''worker'')"

text \<open>
  \<^verbatim>\<open>GetNodeHostnameAndIP\<close>. \<open>ParseIP\<close> is Go's \<^verbatim>\<open>net.ParseIP\<close>, of which the code only uses whether an
  address parses and the parsed value.
\<close>

definition nodeAddress :: "(string \<Rightarrow> 'ip option) \<Rightarrow> node_address \<Rightarrow> string \<times> string \<Rightarrow> string \<times> string" where
  "nodeAddress ParseIP addr = (\<lambda>(hostname, ip).
     (let hostname = (if naType addr = ''Hostname'' \<and> naAddress addr \<noteq> [] then naAddress addr else hostname);
          ip = (if naType addr = ''InternalIP'' \<and> naAddress addr \<noteq> [] \<and> ParseIP (naAddress addr) \<noteq> None
                then naAddress addr else ip);
          ip = (if naType addr = ''ExternalIP'' \<and> naAddress addr \<noteq> [] \<and> ip = [] then naAddress addr else ip)
      in (hostname, ip)))"

definition GetNodeHostnameAndIP :: "(string \<Rightarrow> 'ip option) \<Rightarrow> node \<Rightarrow> (string \<times> 'ip) go_result" where
  "GetNodeHostnameAndIP ParseIP n =
     (if \<exists>(t, s) \<in> set (nodeConditions n). t = ''Ready'' \<and> s \<noteq> ''True''
      then Inl (Errorf (''node '' @ mtName (nodeMeta n) @ '' is not ready''))
      else (let (hostname, ip) = fold (nodeAddress ParseIP) (Addresses n) (mtName (nodeMeta n), []) in
            case ParseIP ip of
              Some parsedIP \<Rightarrow> Inr (hostname, parsedIP)
            | None \<Rightarrow> Inl (Errorf (''node '' @ mtName (nodeMeta n) @ '' has no valid hostname and/or IP address''))))"

section \<open>The environment\<close>

type_synonym env = strmap

definition GetNodeName :: "env \<Rightarrow> string" where "GetNodeName e = get_str e ''POD_NODE_NAME''"
definition GetNamespaceName :: "env \<Rightarrow> string" where "GetNamespaceName e = get_str e ''POD_NAMESPACE_NAME''"

definition GetInstallationMethod :: "env \<Rightarrow> string" where
  "GetInstallationMethod e =
     (let m = get_str e ''INSTALLATION_METHOD'' in if length m = 0 then ''unknown'' else m)"

definition GetKubernetesProvider :: "env \<Rightarrow> string" where
  "GetKubernetesProvider e = get_str e ''KUBERNETES_PROVIDER''"

definition SetKubernetesVersion :: "string \<Rightarrow> env \<Rightarrow> env" where
  "SetKubernetesVersion version e = gput ''KUBERNETES_VERSION'' version e"

definition GetKubernetesVersion :: "env \<Rightarrow> string" where
  "GetKubernetesVersion e = get_str e ''KUBERNETES_VERSION''"

definition SetKubernetesProvider :: "string \<Rightarrow> env \<Rightarrow> env" where
  "SetKubernetesProvider providerID e =
     (let provider = split_on CHR '':'' providerID in
      if length (hd provider) > 0 then gput ''KUBERNETES_PROVIDER'' (hd provider) e
      else gput ''KUBERNETES_PROVIDER'' ''unknown'' e)"

definition AddK8sTags :: "env \<Rightarrow> strmap \<Rightarrow> strmap" where
  "AddK8sTags e tags =
     (let tags = (if length (get_str tags ''k8s_version'') = 0 \<and> length (GetKubernetesVersion e) > 0
                  then gput ''k8s_version'' (GetKubernetesVersion e) tags else tags)
      in if length (get_str tags ''k8s_provider'') = 0 \<and> length (GetKubernetesProvider e) > 0
         then gput ''k8s_provider'' (GetKubernetesProvider e) tags else tags)"

text \<open>\<^verbatim>\<open>GetFieldSelector\<close>: everything, or one field with one value.\<close>

datatype field_selector = Everything | OneTermEqual string string

definition GetFieldSelector :: "agent_type \<Rightarrow> env \<Rightarrow> string \<Rightarrow> field_selector" where
  "GetFieldSelector agent e resourceType =
     (if ScrapeOnlyOwnNode agent \<and> GetNodeName e \<noteq> []
      then if resourceType = ''pods'' then OneTermEqual ''spec.nodeName'' (GetNodeName e)
           else if resourceType = ''nodes'' then OneTermEqual ''metadata.name'' (GetNodeName e)
           else Everything
      else Everything)"

section \<open>The label copier\<close>

record label_copier =
  labelSeparator :: string
  storedLabels :: strmap
  ignoredLabels :: strmap

text \<open>\<^verbatim>\<open>strings.SplitN(s, "=", 2)\<close>: at the first separator, if there is one.\<close>

definition SplitN2 :: "char \<Rightarrow> string \<Rightarrow> string list" where
  "SplitN2 c s = (if c \<in> set s then [takeWhile (\<lambda>x. x \<noteq> c) s, tl (dropWhile (\<lambda>x. x \<noteq> c) s)] else [s])"

definition makeStoredLabels :: "string list \<Rightarrow> strmap" where
  "makeStoredLabels labels =
     fold (\<lambda>s m. let split = SplitN2 CHR ''='' s in
             if length split = 1 then gput (split ! 0) (split ! 0) m
             else gput (split ! 1) (split ! 0) m) labels []"

definition makeIgnoredLabels :: "string list \<Rightarrow> strmap" where
  "makeIgnoredLabels labels = fold (\<lambda>s m. gput s [] m) labels []"

definition NewLabelCopier :: "string \<Rightarrow> string list \<Rightarrow> string list \<Rightarrow> label_copier" where
  "NewLabelCopier separator stored ignored =
     \<lparr> labelSeparator = separator, storedLabels = makeStoredLabels stored, ignoredLabels = makeIgnoredLabels ignored \<rparr>"

definition copyLabel :: "label_copier \<Rightarrow> string \<times> string \<Rightarrow> strmap \<times> string list \<Rightarrow> strmap \<times> string list" where
  "copyLabel copier = (\<lambda>(key, v) (out, labels).
     (let out = (case map_of (storedLabels copier) key of Some mappedKey \<Rightarrow> gput mappedKey v out | None \<Rightarrow> out);
          labels = (if map_of (ignoredLabels copier) key = None then labels @ [key @ '':'' @ v] else labels)
      in (out, labels)))"

definition LabelCopier_Copy :: "label_copier \<Rightarrow> strmap \<Rightarrow> strmap \<Rightarrow> strmap" where
  "LabelCopier_Copy copier inn out =
     (let (out, labels) = fold (copyLabel copier) inn (out, []) in
      gput (Key LabelLabels) (Join (sort labels) (labelSeparator copier)) out)"

section \<open>Copying labels\<close>

definition stored_pairs :: "label_copier \<Rightarrow> strmap \<Rightarrow> strmap" where
  "stored_pairs copier inn =
     concat (map (\<lambda>(k, v). case map_of (storedLabels copier) k of None \<Rightarrow> [] | Some d \<Rightarrow> [(d, v)]) inn)"

definition shown_labels :: "label_copier \<Rightarrow> strmap \<Rightarrow> string list" where
  "shown_labels copier inn =
     map (\<lambda>(k, v). k @ '':'' @ v) (filter (\<lambda>(k, _). map_of (ignoredLabels copier) k = None) inn)"

lemma fold_copyLabel:
  "fold (copyLabel copier) inn (out, ls) = (put_all (stored_pairs copier inn) out, ls @ shown_labels copier inn)"
  by (induction inn arbitrary: out ls)
     (auto simp: copyLabel_def stored_pairs_def shown_labels_def Let_def split: option.splits)

lemma LabelCopier_Copy_eq:
  "LabelCopier_Copy copier inn out =
     gput (Key LabelLabels) (Join (sort (shown_labels copier inn)) (labelSeparator copier)) (put_all (stored_pairs copier inn) out)"
  by (simp add: LabelCopier_Copy_def fold_copyLabel del: label_keys)

lemma wf_LabelCopier_Copy [simp, wf_intros]: "wf_map out \<Longrightarrow> wf_map (LabelCopier_Copy copier inn out)"
  by (simp add: LabelCopier_Copy_eq del: label_keys)

lemma stored_pairs_Nil: "storedLabels copier = [] \<Longrightarrow> stored_pairs copier inn = []"
  by (induction inn) (auto simp: stored_pairs_def)

text \<open>A copier without stored labels, as the collector makes it, only writes the joined label.\<close>

lemma LabelCopier_Copy_plain:
  "storedLabels copier = [] \<Longrightarrow> LabelCopier_Copy copier inn out =
     gput (Key LabelLabels) (Join (sort (shown_labels copier inn)) (labelSeparator copier)) out"
  by (simp add: LabelCopier_Copy_eq stored_pairs_Nil del: label_keys)

definition one_target :: "label_copier \<Rightarrow> strmap \<Rightarrow> bool" where
  "one_target copier inn \<longleftrightarrow> inj_on (map_of (storedLabels copier)) (fst ` set inn \<inter> fst ` set (storedLabels copier))"

lemma stored_pairs_mem:
  "(d, v) \<in> set (stored_pairs copier inn) \<longleftrightarrow> (\<exists>k. (k, v) \<in> set inn \<and> map_of (storedLabels copier) k = Some d)"
  by (force simp: stored_pairs_def split: option.splits)

lemma stored_pairs_keys: "fst ` set (stored_pairs copier inn) = {d. \<exists>k v. (k, v) \<in> set inn \<and> map_of (storedLabels copier) k = Some d}"
proof (intro set_eqI)
  fix d
  have "d \<in> fst ` set (stored_pairs copier inn) \<longleftrightarrow> (\<exists>v. (d, v) \<in> set (stored_pairs copier inn))"
    by force
  then show "d \<in> fst ` set (stored_pairs copier inn) \<longleftrightarrow>
      d \<in> {d. \<exists>k v. (k, v) \<in> set inn \<and> map_of (storedLabels copier) k = Some d}"
    unfolding stored_pairs_mem by blast
qed

lemma wf_stored_pairs: "wf_map inn \<Longrightarrow> one_target copier inn \<Longrightarrow> wf_map (stored_pairs copier inn)"
proof (induction inn)
  case (Cons kv inn)
  obtain k v where kv: "kv = (k, v)" by (cases kv)
  have ot: "one_target copier inn"
    using Cons.prems(2) unfolding one_target_def by (rule inj_on_subset) auto
  show ?case
  proof (cases "map_of (storedLabels copier) k")
    case None
    with Cons ot kv show ?thesis by (simp add: stored_pairs_def)
  next
    case (Some d)
    have "d \<notin> fst ` set (stored_pairs copier inn)"
    proof
      assume "d \<in> fst ` set (stored_pairs copier inn)"
      then obtain k' v' where k': "(k', v') \<in> set inn" "map_of (storedLabels copier) k' = Some d"
        unfolding stored_pairs_keys by blast
      have "k' \<in> fst ` set (kv # inn)" "k \<in> fst ` set (kv # inn)" using k'(1) kv by force+
      moreover have "k' \<in> fst ` set (storedLabels copier)" "k \<in> fst ` set (storedLabels copier)"
        using k'(2) Some by (force dest: map_of_SomeD)+
      ultimately have "k' = k"
        using inj_onD [OF Cons.prems(2) [unfolded one_target_def], of k' k] k'(2) Some by simp
      with k'(1) Cons.prems(1) kv show False by force
    qed
    with Cons ot kv Some show ?thesis by (simp add: stored_pairs_def)
  qed
qed (simp add: stored_pairs_def)

lemma map_of_set_eq: "wf_map m \<Longrightarrow> wf_map m' \<Longrightarrow> set m = set m' \<Longrightarrow> map_of m = map_of m'"
  by (simp add: map_of_inject_set)

lemma distinct_mapI_fst: "wf_map m \<Longrightarrow> distinct m"
  by (simp add: distinct_map)

lemma shown_labels_mset: "wf_map inn \<Longrightarrow> wf_map inn' \<Longrightarrow> set inn = set inn' \<Longrightarrow>
    mset (shown_labels copier inn) = mset (shown_labels copier inn')"
proof -
  assume "wf_map inn" "wf_map inn'" "set inn = set inn'"
  then have "mset inn = mset inn'" by (metis distinct_mapI_fst set_eq_iff_mset_eq_distinct)
  then show ?thesis by (simp add: shown_labels_def mset_map mset_filter)
qed

lemma one_target_set: "set inn = set inn' \<Longrightarrow> one_target copier inn = one_target copier inn'"
  by (simp add: one_target_def)

text \<open>
  Copying labels of a Kubernetes object gives the same metric labels whatever order Go visits
  the label map in, as long as no two of the object's labels are stored under one name.
\<close>

theorem LabelCopier_Copy_order:
  assumes "wf_map inn" "wf_map inn'" "set inn = set inn'" "one_target copier inn"
  shows "map_of (LabelCopier_Copy copier inn out) = map_of (LabelCopier_Copy copier inn' out)"
proof -
  have "sort (shown_labels copier inn) = sort (shown_labels copier inn')"
    using shown_labels_mset [OF assms(1-3)] by (intro properties_for_sort) simp_all
  moreover have "map_of (stored_pairs copier inn) = map_of (stored_pairs copier inn')"
    using assms by (intro map_of_set_eq wf_stored_pairs)
      (auto simp: one_target_set [OF assms(3), symmetric] stored_pairs_mem)
  ultimately show ?thesis
    using assms wf_stored_pairs [OF assms(1,4)] wf_stored_pairs [OF assms(2)]
    by (simp add: LabelCopier_Copy_eq map_of_put_all one_target_set [OF assms(3), symmetric] del: label_keys)
qed

theorem LabelCopier_Copy_order_witness:
  "map_of (LabelCopier_Copy (NewLabelCopier '','' [''app=k8s-app''] [''x'']) [(''k8s-app'', ''db''), (''x'', ''1''), (''tier'', ''b'')] []) =
   map_of (LabelCopier_Copy (NewLabelCopier '','' [''app=k8s-app''] [''x'']) [(''tier'', ''b''), (''k8s-app'', ''db''), (''x'', ''1'')] [])"
  by (rule LabelCopier_Copy_order)
     (auto simp: one_target_def NewLabelCopier_def makeStoredLabels_def SplitN2_def Let_def inj_on_def)

section \<open>Container states\<close>

text \<open>A known state is reported under the tag \<^verbatim>\<open>status\<close>; no tag \<^verbatim>\<open>state\<close> is ever written.\<close>

lemma AddMetricTags_status:
  "IsKnownState csi \<Longrightarrow> map_of (AddMetricTags csi tags) ''status'' = Some (siState csi)"
  by (simp add: AddMetricTags_def Let_def)

lemma AddMetricTags_state [simp]: "map_of (AddMetricTags csi tags) ''state'' = map_of tags ''state''"
  by (simp add: AddMetricTags_def Let_def)

lemma wf_AddMetricTags [simp, wf_intros]: "wf_map tags \<Longrightarrow> wf_map (AddMetricTags csi tags)"
  by (simp add: AddMetricTags_def Let_def)

section \<open>Node addresses\<close>

definition usable :: "(string \<Rightarrow> 'ip option) \<Rightarrow> node_address \<Rightarrow> bool" where
  "usable ParseIP a \<longleftrightarrow> naType a = ''InternalIP'' \<and> naAddress a \<noteq> [] \<and> ParseIP (naAddress a) \<noteq> None"

definition external :: "node_address \<Rightarrow> bool" where
  "external a \<longleftrightarrow> naType a = ''ExternalIP'' \<and> naAddress a \<noteq> []"

definition node_ip :: "(string \<Rightarrow> 'ip option) \<Rightarrow> node_address list \<Rightarrow> string" where
  "node_ip ParseIP as =
     (case find (usable ParseIP) (rev as) of
        Some a \<Rightarrow> naAddress a
      | None \<Rightarrow> (case find external as of Some a \<Rightarrow> naAddress a | None \<Rightarrow> []))"

lemma find_append: "find P (xs @ ys) = (case find P xs of Some x \<Rightarrow> Some x | None \<Rightarrow> find P ys)"
  by (induction xs) simp_all

lemma find_rev_usable_not_Nil: "find (usable ParseIP) xs = Some a \<Longrightarrow> naAddress a \<noteq> []"
  by (drule find_SomeD) (simp add: usable_def)

lemma find_external_not_Nil: "find external xs = Some a \<Longrightarrow> naAddress a \<noteq> []"
  by (drule find_SomeD) (simp add: external_def)

lemma node_ip_Nil: "node_ip ParseIP as = [] \<longleftrightarrow> find (usable ParseIP) (rev as) = None \<and> find external as = None"
  by (auto simp: node_ip_def dest: find_rev_usable_not_Nil find_external_not_Nil split: option.splits)

lemma fold_nodeAddress_ip: "snd (fold (nodeAddress ParseIP) as (h, [])) = node_ip ParseIP as"
proof (induction as rule: rev_induct)
  case (snoc a as)
  obtain h' ip' where st: "fold (nodeAddress ParseIP) as (h, []) = (h', ip')" by fastforce
  with snoc have ip: "ip' = node_ip ParseIP as" by simp
  show ?case
  proof (cases "usable ParseIP a")
    case True
    then have "snd (nodeAddress ParseIP a (h', ip')) = naAddress a"
      by (simp add: nodeAddress_def Let_def usable_def)
    with True show ?thesis by (simp add: st node_ip_def)
  next
    case False
    have "snd (nodeAddress ParseIP a (h', ip')) = (if external a \<and> ip' = [] then naAddress a else ip')"
      using False by (auto simp: nodeAddress_def Let_def usable_def external_def)
    moreover have "node_ip ParseIP (as @ [a]) = (if external a \<and> node_ip ParseIP as = [] then naAddress a else node_ip ParseIP as)"
      unfolding node_ip_Nil using False
      by (simp add: node_ip_def find_append split: option.split)
    ultimately show ?thesis by (simp add: st ip)
  qed
qed (simp add: node_ip_def)

text \<open>
  The address of a node that is not marked unready is the last internal address that parses,
  otherwise the first external address; there is an error exactly when that address does not parse
  or the node is marked as not ready.
\<close>

theorem GetNodeHostnameAndIP_address:
  "map_option snd (case GetNodeHostnameAndIP ParseIP n of Inl _ \<Rightarrow> None | Inr r \<Rightarrow> Some r) =
     (if \<exists>(t, s) \<in> set (nodeConditions n). t = ''Ready'' \<and> s \<noteq> ''True'' then None
      else ParseIP (node_ip ParseIP (Addresses n)))"
proof -
  obtain h ip where st: "fold (nodeAddress ParseIP) (Addresses n) (mtName (nodeMeta n), []) = (h, ip)" by fastforce
  then have "ip = node_ip ParseIP (Addresses n)"
    using fold_nodeAddress_ip [of ParseIP "Addresses n" "mtName (nodeMeta n)"] by simp
  then show ?thesis
    by (simp add: GetNodeHostnameAndIP_def st split: option.split)
qed

end
