(* ===== verification/Enrichers.thy ===== *)
theory Enrichers
  imports Aggregators Kube_Util
begin

text \<open>
  The enriching processors (\<^verbatim>\<open>plugins/processors\<close>): \<^verbatim>\<open>namespace_based_enricher.go\<close> adds the UID of the
  namespace, \<^verbatim>\<open>pod_based_enricher.go\<close> adds what the pod object says (identity, labels, phase, resource
  requests and limits, container states) and creates the sets that are missing, and
  \<^verbatim>\<open>node_autoscaling_enricher.go\<close> adds capacity, utilization and reservation to nodes.

  Listers and stores of the Kubernetes client are parameters: functions from a name to the object
  found. A set is a value that is written back under its key; a pod's stub is in the map of new sets
  while its containers are added, so it is put there before and after.
\<close>

section \<open>Namespaces\<close>

text \<open>What \<^verbatim>\<open>cache.Store.GetByKey\<close> can give for a namespace: its UID, nothing, an error or another object.\<close>

datatype store_result = StoreNamespace string | StoreMissing | StoreError | StoreOther

definition addNamespaceInfo :: "(string \<Rightarrow> store_result) \<Rightarrow> metric_set \<Rightarrow> metric_set" where
  "addNamespaceInfo store ms =
     (case map_of (Labels ms) (Key LabelMetricSetType) of
        None \<Rightarrow> ms
      | Some metricSetType \<Rightarrow>
          (if metricSetType \<noteq> MetricSetTypePodContainer \<and> metricSetType \<noteq> MetricSetTypePod \<and>
              metricSetType \<noteq> MetricSetTypeNamespace then ms
           else case map_of (Labels ms) (Key LabelNamespaceName) of
                  None \<Rightarrow> ms
                | Some namespaceName \<Rightarrow>
                    (case store namespaceName of
                       StoreNamespace uid \<Rightarrow> ms \<lparr> Labels := gput (Key LabelPodNamespaceUID) uid (Labels ms) \<rparr>
                     | _ \<Rightarrow> ms)))"

definition NamespaceBasedEnricher_Process :: "(string \<Rightarrow> store_result) \<Rightarrow> batch \<Rightarrow> batch go_result" where
  "NamespaceBasedEnricher_Process store b =
     Inr (b \<lparr> Sets := map (\<lambda>(k, ms). (k, addNamespaceInfo store ms)) (Sets b) \<rparr>)"

definition NamespaceBasedEnricher_Name :: string where
  "NamespaceBasedEnricher_Name = ''namespace_based_enricher''"

section \<open>Nodes\<close>

definition getInt :: "metric_set \<Rightarrow> metric \<Rightarrow> int64" where
  "getInt ms m = (case map_of (Values ms) (Name m) of Some v \<Rightarrow> IntValue v | None \<Rightarrow> 0)"

definition setFloat :: "metric \<Rightarrow> f64 \<Rightarrow> metric_set \<Rightarrow> metric_set" where
  "setFloat m x ms = ms \<lparr> Values := gput (Name m) \<lparr> IntValue = 0, FloatValue = x, ValueType = ValueFloat \<rparr> (Values ms) \<rparr>"

definition f_ratio :: "int64 \<Rightarrow> int64 \<Rightarrow> f64" where
  "f_ratio a b = f_div (f_of_int64 a) (f_of_int64 b)"

definition autoscaleNode :: "label_copier \<Rightarrow> node \<Rightarrow> metric_set \<Rightarrow> metric_set" where
  "autoscaleNode copier node ms =
     (let ms = ms \<lparr> Labels := gput (Key LabelNodeRole) (GetNodeRole node)
                              (LabelCopier_Copy copier (mtLabels (nodeMeta node)) (Labels ms)) \<rparr>;
          capacityCpu = get_quantity (Capacity node) ResourceCPU;
          capacityMem = get_quantity (Capacity node) ResourceMemory;
          capacityEphemeralStorage = map_of (Capacity node) ResourceEphemeralStorage;
          allocatableCpu = get_quantity (Allocatable node) ResourceCPU;
          allocatableMem = get_quantity (Allocatable node) ResourceMemory;
          allocatableEphemeralStorage = map_of (Allocatable node) ResourceEphemeralStorage;
          cpuRequested = getInt ms MetricCpuRequest; cpuUsed = getInt ms MetricCpuUsageRate;
          memRequested = getInt ms MetricMemoryRequest; memWorkingSet = getInt ms MetricMemoryWorkingSet;
          epheRequested = getInt ms MetricEphemeralStorageRequest; epheUsed = getInt ms MetricEphemeralStorageUsage;
          ms = (if MilliValue allocatableCpu \<noteq> 0
                then setFloat MetricNodeCpuReservation (f_ratio cpuRequested (MilliValue allocatableCpu))
                      (setFloat MetricNodeCpuUtilization (f_ratio cpuUsed (MilliValue allocatableCpu)) ms)
                else ms);
          ms = setFloat MetricNodeCpuAllocatable (f_of_int64 (MilliValue allocatableCpu))
                 (setFloat MetricNodeCpuCapacity (f_of_int64 (MilliValue capacityCpu)) ms);
          ms = (if QValue allocatableMem \<noteq> 0
                then setFloat MetricNodeMemoryReservation (f_ratio memRequested (QValue allocatableMem))
                      (setFloat MetricNodeMemoryUtilization (f_ratio memWorkingSet (QValue allocatableMem)) ms)
                else ms);
          ms = setFloat MetricNodeMemoryAllocatable (f_of_int64 (QValue allocatableMem))
                 (setFloat MetricNodeMemoryCapacity (f_of_int64 (QValue capacityMem)) ms)
      in case (capacityEphemeralStorage, allocatableEphemeralStorage) of
           (Some cap, Some alloc) \<Rightarrow>
             (let ms = setFloat MetricNodeEphemeralStorageAllocatable (f_of_int64 (QValue alloc))
                         (setFloat MetricNodeEphemeralStorageCapacity (f_of_int64 (QValue cap)) ms)
              in if QValue alloc \<noteq> 0
                 then setFloat MetricNodeEphemeralStorageReservation (f_ratio epheRequested (QValue alloc))
                        (setFloat MetricNodeEphemeralStorageUtilization (f_ratio epheUsed (QValue alloc)) ms)
                 else ms)
         | _ \<Rightarrow> ms)"

definition NodeAutoscalingEnricher_Process :: "node list go_result \<Rightarrow> label_copier \<Rightarrow> batch \<Rightarrow> batch go_result" where
  "NodeAutoscalingEnricher_Process listed copier b =
     (case listed of
        Inl err \<Rightarrow> Inl err
      | Inr nodes \<Rightarrow>
          Inr (fold (\<lambda>node b. case map_of (Sets b) (NodeKey (mtName (nodeMeta node))) of
                       None \<Rightarrow> b
                     | Some ms \<Rightarrow> b \<lparr> Sets := gput (NodeKey (mtName (nodeMeta node))) (autoscaleNode copier node ms) (Sets b) \<rparr>)
                nodes b))"

definition NodeAutoscalingEnricher_Name :: string where
  "NodeAutoscalingEnricher_Name = ''node_autoscaling_enricher''"

section \<open>Pods\<close>

definition intValue :: "int64 \<Rightarrow> mvalue" where
  "intValue i = \<lparr> IntValue = i, FloatValue = Fin 0, ValueType = ValueInt64 \<rparr>"

definition putInt :: "string \<Rightarrow> int64 \<Rightarrow> metric_set \<Rightarrow> metric_set" where
  "putInt name i ms = ms \<lparr> Values := gput name (intValue i) (Values ms) \<rparr>"

definition addLabeledIntMetric :: "metric_set \<Rightarrow> metric \<Rightarrow> strmap \<Rightarrow> int64 \<Rightarrow> metric_set" where
  "addLabeledIntMetric ms m labels i =
     ms \<lparr> LabeledValues := LabeledValues ms @ [\<lparr> lvName = Name m, lvLabels = labels, lvValue = intValue i \<rparr>] \<rparr>"

text \<open>
  The registry of request metrics (\<^verbatim>\<open>metrics.ResourceRequestMetrics\<close>) grows when an unknown resource
  is requested.
\<close>

type_synonym request_metrics = "(string, metric) gomap"

definition ResourceRequestMetrics :: request_metrics where
  "ResourceRequestMetrics =
     [(ResourceCPU, MetricCpuRequest), (ResourceMemory, MetricMemoryRequest),
      (ResourceEphemeralStorage, MetricEphemeralStorageRequest)]"

definition requestMetric :: "string \<Rightarrow> metric" where
  "requestMetric key = plainMetric (key @ ''/request'') (key @ '' resource request. This metric is Kubernetes specific.'')
     [] Gauge ValueInt64 Count"

fun addRequest :: "string \<times> quantity \<Rightarrow> request_metrics \<times> metric_set \<Rightarrow> request_metrics \<times> metric_set" where
  "addRequest (key, val) (reg, ms) =
     (let (reg, m) = (case map_of reg key of Some m \<Rightarrow> (reg, m) | None \<Rightarrow> (gput key (requestMetric key) reg, requestMetric key))
      in (reg, putInt (Name m) (if key = ResourceCPU then MilliValue val else QValue val) ms))"

definition zeroUnless :: "resource_list \<Rightarrow> string \<Rightarrow> metric \<Rightarrow> metric_set \<Rightarrow> metric_set" where
  "zeroUnless requests key m ms = (if map_of requests key = None then putInt (Name m) 0 ms else ms)"

definition updateContainerResourcesAndLimits :: "request_metrics \<Rightarrow> metric_set \<Rightarrow> container \<Rightarrow> request_metrics \<times> metric_set" where
  "updateContainerResourcesAndLimits reg ms container =
     (let requests = cRequests container; limits = cLimits container;
          (reg, ms) = fold addRequest requests (reg, ms);
          ms = zeroUnless requests ResourceCPU MetricCpuRequest ms;
          ms = zeroUnless requests ResourceMemory MetricMemoryRequest ms;
          ms = zeroUnless requests ResourceEphemeralStorage MetricEphemeralStorageRequest ms;
          ms = putInt (Name MetricCpuLimit) (case map_of limits ResourceCPU of Some q \<Rightarrow> MilliValue q | None \<Rightarrow> 0) ms;
          ms = putInt (Name MetricMemoryLimit) (case map_of limits ResourceMemory of Some q \<Rightarrow> QValue q | None \<Rightarrow> 0) ms;
          ms = putInt (Name MetricEphemeralStorageLimit)
                 (case map_of limits ResourceEphemeralStorage of Some q \<Rightarrow> QValue q | None \<Rightarrow> 0) ms
      in (reg, ms))"

text \<open>The enricher; the pod lister returns an error or a possibly nil pod.\<close>

record pod_based_enricher =
  podLister :: "string \<Rightarrow> string \<Rightarrow> pod option go_result"
  labelCopier :: label_copier
  collectionInterval :: duration

definition NewPodBasedEnricher ::
    "(string \<Rightarrow> string \<Rightarrow> pod option go_result) \<Rightarrow> label_copier \<Rightarrow> duration \<Rightarrow> pod_based_enricher" where
  "NewPodBasedEnricher lister copier interval =
     \<lparr> podLister = lister, labelCopier = copier, collectionInterval = interval \<rparr>"

definition PodBasedEnricher_Name :: string where
  "PodBasedEnricher_Name = ''pod_based_enricher''"

definition getPod :: "pod_based_enricher \<Rightarrow> string \<Rightarrow> string \<Rightarrow> pod go_result" where
  "getPod pbe ns name =
     (case podLister pbe ns name of
        Inl err \<Rightarrow> Inl err
      | Inr None \<Rightarrow> Inl (Errorf ''cannot find pod definition'')
      | Inr (Some p) \<Rightarrow> Inr p)"

definition findContainerState :: "pod_based_enricher \<Rightarrow> time \<Rightarrow> container_status \<Rightarrow> container_state_info" where
  "findContainerState pbe collectionTime status =
     (case stTerminated (LastTerminationState status) of
        None \<Rightarrow> NewContainerStateInfo (csState status)
      | Some t \<Rightarrow>
          (let lastCollectionTime = collectionTime + - 1 * collectionInterval pbe in
           if lastCollectionTime > FinishedAt t then NewContainerStateInfo (csState status)
           else NewContainerStateInfo (LastTerminationState status)))"

definition addContainerStatus :: "pod_based_enricher \<Rightarrow> time \<Rightarrow> metric_set \<Rightarrow> metric \<Rightarrow> container_status \<Rightarrow> metric_set" where
  "addContainerStatus pbe collectionTime ms m status =
     (let info = findContainerState pbe collectionTime status in
      addLabeledIntMetric ms m (AddMetricTags info []) (word_of_int (siValue info)))"

definition updateContainerStatus :: "pod_based_enricher \<Rightarrow> (resource_key, metric_set) gomap \<Rightarrow> pod \<Rightarrow>
    container_status list \<Rightarrow> time \<Rightarrow> (resource_key, metric_set) gomap" where
  "updateContainerStatus pbe sets pod statuses collectionTime =
     fold (\<lambda>status sets.
             let key = PodContainerKey (mtNamespace (podMeta pod)) (mtName (podMeta pod)) (csName status) in
             case map_of sets key of
               None \<Rightarrow> sets
             | Some ms \<Rightarrow> gput key (addContainerStatus pbe collectionTime ms MetricContainerStatus status) sets)
       statuses sets"

type_synonym new_sets = "(resource_key, metric_set) gomap"

definition copyStartTime :: "pod \<Rightarrow> metric_set \<Rightarrow> metric_set" where
  "copyStartTime pod ms = (case start_time pod of None \<Rightarrow> ms | Some t \<Rightarrow> ms \<lparr> EntityCreateTime := t \<rparr>)"

definition containerStub :: "pod_based_enricher \<Rightarrow> metric_set \<Rightarrow> pod \<Rightarrow> container \<Rightarrow> metric_set" where
  "containerStub pbe podMs pod container =
     (newSet (LabelCopier_Copy (labelCopier pbe) (mtLabels (podMeta pod))
        [(Key LabelMetricSetType, MetricSetTypePodContainer), (Key LabelNamespaceName, mtNamespace (podMeta pod)),
         (Key LabelPodName, mtName (podMeta pod)), (Key LabelContainerName, cName container),
         (Key LabelContainerBaseImage, cImage container), (Key LabelPodId, mtUID (podMeta pod)),
         (Key LabelNodename, get_str (Labels podMs) (Key LabelNodename)),
         (Key LabelHostname, get_str (Labels podMs) (Key LabelHostname)),
         (Key LabelHostID, get_str (Labels podMs) (Key LabelHostID))]))
       \<lparr> EntityCreateTime := CollectionStartTime podMs \<rparr>"

fun addStub :: "pod_based_enricher \<Rightarrow> batch \<Rightarrow> metric_set \<Rightarrow> pod \<Rightarrow> container \<Rightarrow>
    new_sets \<times> request_metrics \<Rightarrow> new_sets \<times> request_metrics" where
  "addStub pbe b podMs pod container (newMs, reg) =
     (let containerKey = PodContainerKey (mtNamespace (podMeta pod)) (mtName (podMeta pod)) (cName container) in
      if map_of (Sets b) containerKey \<noteq> None then (newMs, reg)
      else if map_of newMs containerKey \<noteq> None then (newMs, reg)
      else (let (reg, containerMs) = updateContainerResourcesAndLimits reg (containerStub pbe podMs pod container) container
            in (gput containerKey containerMs newMs, reg)))"

definition addPodInfo :: "pod_based_enricher \<Rightarrow> metric_set \<Rightarrow> pod \<Rightarrow> batch \<Rightarrow> new_sets \<times> request_metrics \<Rightarrow>
    metric_set \<times> new_sets \<times> request_metrics" where
  "addPodInfo pbe podMs pod b = (\<lambda>(newMs, reg).
     (if podPhase pod \<noteq> PodRunning then (podMs, newMs, reg)
      else (let podMs = podMs \<lparr> Labels := gput (Key LabelPodId) (mtUID (podMeta pod)) (Labels podMs) \<rparr>;
                podMs = copyStartTime pod podMs;
                podMs = podMs \<lparr> Labels := LabelCopier_Copy (labelCopier pbe) (mtLabels (podMeta pod)) (Labels podMs) \<rparr>;
                podMs = addLabeledIntMetric podMs MetricPodPhase [(''phase'', podPhase pod)] (ConvertPodPhase (podPhase pod));
                (newMs, reg) = fold (addStub pbe b podMs pod) (podContainers pod) (newMs, reg)
            in (podMs, updateContainerStatus pbe newMs pod (ContainerStatuses pod) (Timestamp b), reg))))"

definition containerSpecInfo :: "resource_key \<Rightarrow> pod \<Rightarrow> request_metrics \<times> metric_set \<Rightarrow> request_metrics \<times> metric_set" where
  "containerSpecInfo key pod = (\<lambda>(reg, ms).
     (case find (\<lambda>c. key = PodContainerKey (mtNamespace (podMeta pod)) (mtName (podMeta pod)) (cName c)) (podContainers pod) of
        None \<Rightarrow> (reg, ms)
      | Some container \<Rightarrow>
          (let (reg, ms) = updateContainerResourcesAndLimits reg ms container in
           (reg, if map_of (Labels ms) (Key LabelContainerBaseImage) = None
                 then ms \<lparr> Labels := gput (Key LabelContainerBaseImage) (cImage container) (Labels ms) \<rparr> else ms))))"

definition containerStatusInfo :: "pod_based_enricher \<Rightarrow> time \<Rightarrow> resource_key \<Rightarrow> pod \<Rightarrow> metric_set \<Rightarrow> metric_set" where
  "containerStatusInfo pbe collectionTime key pod ms =
     (case find (\<lambda>s. key = PodContainerKey (mtNamespace (podMeta pod)) (mtName (podMeta pod)) (csName s)) (ContainerStatuses pod) of
        None \<Rightarrow> ms
      | Some status \<Rightarrow>
          addContainerStatus pbe collectionTime
            (copyStartTime pod (putInt (Name MetricRestartCount) (word_of_int (sint (RestartCount status))) ms))
            MetricContainerStatus status)"

definition podStub :: "pod \<Rightarrow> metric_set \<Rightarrow> string \<Rightarrow> string \<Rightarrow> metric_set" where
  "podStub pod containerMs ns podName =
     copyStartTime pod (newSet
       [(Key LabelMetricSetType, MetricSetTypePod), (Key LabelNamespaceName, ns), (Key LabelPodName, podName),
        (Key LabelNodename, get_str (Labels containerMs) (Key LabelNodename)),
        (Key LabelHostname, get_str (Labels containerMs) (Key LabelHostname)),
        (Key LabelHostID, get_str (Labels containerMs) (Key LabelHostID))])"

definition addContainerInfo :: "pod_based_enricher \<Rightarrow> resource_key \<Rightarrow> metric_set \<Rightarrow> pod \<Rightarrow> batch \<Rightarrow> new_sets \<times> request_metrics \<Rightarrow>
    metric_set \<times> new_sets \<times> request_metrics" where
  "addContainerInfo pbe key containerMs pod b = (\<lambda>(newMs, reg).
     (let (reg, ms) = containerSpecInfo key pod (reg, containerMs);
          ms = containerStatusInfo pbe (Timestamp b) key pod ms;
          ms = ms \<lparr> Labels := LabelCopier_Copy (labelCopier pbe) (mtLabels (podMeta pod))
                       (gput (Key LabelPodId) (mtUID (podMeta pod)) (Labels ms)) \<rparr>;
          namespace = get_str (Labels ms) (Key LabelNamespaceName);
          podName = get_str (Labels ms) (Key LabelPodName);
          podKey = PodKey namespace podName
      in if map_of (Sets b) podKey \<noteq> None \<or> map_of newMs podKey \<noteq> None then (ms, newMs, reg)
         else (let podMs = podStub pod ms namespace podName;
                   (podMs', newMs', reg') = addPodInfo pbe podMs pod b (gput podKey podMs newMs, reg)
               in (ms, gput podKey podMs' newMs', reg'))))"

type_synonym enrich_state = "batch \<times> new_sets \<times> request_metrics"

fun enrichSet :: "pod_based_enricher \<Rightarrow> resource_key \<times> metric_set \<Rightarrow> enrich_state \<Rightarrow> enrich_state" where
  "enrichSet pbe (k, v) (b, newMs, reg) =
     (let t = get_str (Labels v) (Key LabelMetricSetType);
          namespace = get_str (Labels v) (Key LabelNamespaceName);
          podName = get_str (Labels v) (Key LabelPodName) in
      if t = MetricSetTypePod
      then (case getPod pbe namespace podName of
              Inl _ \<Rightarrow> (b \<lparr> Sets := gdel k (Sets b) \<rparr>, newMs, reg)
            | Inr pod \<Rightarrow>
                (let (v, newMs, reg) = addPodInfo pbe v pod b (newMs, reg)
                 in (b \<lparr> Sets := gput k v (Sets b) \<rparr>, newMs, reg)))
      else if t = MetricSetTypePodContainer
      then (case getPod pbe namespace podName of
              Inl _ \<Rightarrow> (b \<lparr> Sets := gdel k (Sets b) \<rparr>, newMs, reg)
            | Inr pod \<Rightarrow>
                (let (v, newMs, reg) = addContainerInfo pbe k v pod b (newMs, reg)
                 in (b \<lparr> Sets := gput k v (Sets b) \<rparr>, newMs, reg)))
      else (b, newMs, reg))"

definition PodBasedEnricher_Process :: "pod_based_enricher \<Rightarrow> request_metrics \<Rightarrow> batch \<Rightarrow> (batch \<times> request_metrics) go_result" where
  "PodBasedEnricher_Process pbe reg b =
     (let (b', newMs, reg') = fold (enrichSet pbe) (Sets b) (b, [], reg)
      in Inr (b' \<lparr> Sets := put_all newMs (Sets b') \<rparr>, reg'))"

section \<open>Which sets exist after enrichment\<close>

definition container_keys :: "pod \<Rightarrow> resource_key set" where
  "container_keys p = (\<lambda>c. PodContainerKey (mtNamespace (podMeta p)) (mtName (podMeta p)) (cName c)) ` set (podContainers p)"

lemma key_mem: "map_of m k \<noteq> None \<longleftrightarrow> k \<in> fst ` set m"
  by (simp add: map_of_eq_None_iff)

lemma addStub_keys:
  "fst ` set (fst (addStub pbe b ms p c st)) =
     fst ` set (fst st) \<union> ({PodContainerKey (mtNamespace (podMeta p)) (mtName (podMeta p)) (cName c)} - fst ` set (Sets b))"
  by (cases st) (auto simp: Let_def map_of_eq_None_iff case_prod_unfold keys_gput simp del: not_None_eq)

lemma fold_addStub_keys:
  "fst ` set (fst (fold (addStub pbe b ms p) cs st)) = fst ` set (fst st) \<union>
     ((\<lambda>c. PodContainerKey (mtNamespace (podMeta p)) (mtName (podMeta p)) (cName c)) ` set cs - fst ` set (Sets b))"
  by (induction cs arbitrary: st) (auto simp: addStub_keys)

lemma updateContainerStatus_keys [simp]:
  "fst ` set (updateContainerStatus pbe sets p sts t) = fst ` set sets"
  unfolding updateContainerStatus_def
proof (induction sts arbitrary: sets)
  case (Cons st sts)
  let ?k = "PodContainerKey (mtNamespace (podMeta p)) (mtName (podMeta p)) (csName st)"
  show ?case
  proof (cases "map_of sets ?k")
    case (Some ms)
    then have "?k \<in> fst ` set sets" by (metis key_mem option.simps(3))
    with Some Cons show ?thesis by (simp add: keys_gput insert_absorb Let_def)
  qed (use Cons in \<open>simp add: Let_def\<close>)
qed simp

lemma addPodInfo_running:
  assumes "podPhase p = PodRunning"
  shows "\<exists>podMs. addPodInfo pbe ms p b (newMs, reg) =
    (podMs, updateContainerStatus pbe (fst (fold (addStub pbe b podMs p) (podContainers p) (newMs, reg))) p (ContainerStatuses p) (Timestamp b),
     snd (fold (addStub pbe b podMs p) (podContainers p) (newMs, reg)))"
  using assms by (simp add: addPodInfo_def Let_def case_prod_unfold)

lemma addPodInfo_keys:
  assumes "addPodInfo pbe ms p b (newMs, reg) = (ms', newMs', reg')"
  shows "fst ` set newMs' = fst ` set newMs \<union> (if podPhase p = PodRunning then container_keys p - fst ` set (Sets b) else {})"
proof (cases "podPhase p = PodRunning")
  case True
  from addPodInfo_running [OF this, of pbe ms b newMs reg] assms obtain podMs where
    "newMs' = updateContainerStatus pbe (fst (fold (addStub pbe b podMs p) (podContainers p) (newMs, reg))) p (ContainerStatuses p) (Timestamp b)"
    by auto
  then have "fst ` set newMs' = fst ` set (fst (fold (addStub pbe b podMs p) (podContainers p) (newMs, reg)))"
    by (simp only: updateContainerStatus_keys)
  with True show ?thesis by (simp add: fold_addStub_keys container_keys_def)
next
  case False
  with assms show ?thesis by (simp add: addPodInfo_def)
qed

lemma copyStartTime_Labels [simp]: "Labels (copyStartTime p ms) = Labels ms"
  by (simp add: copyStartTime_def split: option.split)

lemma putInt_Labels [simp]: "Labels (putInt n i ms) = Labels ms"
  by (simp add: putInt_def)

lemma addRequest_Labels: "Labels (snd (addRequest x st)) = Labels (snd st)"
  by (cases x; cases st) (simp add: case_prod_unfold Let_def)

lemma fold_addRequest_Labels: "Labels (snd (fold addRequest xs st)) = Labels (snd st)"
  by (induction xs arbitrary: st) (simp_all add: addRequest_Labels)

lemma updateContainerResourcesAndLimits_Labels [simp]:
  "Labels (snd (updateContainerResourcesAndLimits reg ms c)) = Labels ms"
  using fold_addRequest_Labels [of "cRequests c" "(reg, ms)"]
  by (simp add: updateContainerResourcesAndLimits_def Let_def case_prod_unfold zeroUnless_def)

lemma addContainerStatus_Labels [simp]: "Labels (addContainerStatus pbe t ms m st) = Labels ms"
  by (simp add: addContainerStatus_def addLabeledIntMetric_def Let_def)

lemma containerSpecInfo_label:
  "key' \<noteq> Key LabelContainerBaseImage \<Longrightarrow> get_str (Labels (snd (containerSpecInfo key p (reg, ms)))) key' = get_str (Labels ms) key'"
  by (simp add: containerSpecInfo_def Let_def case_prod_unfold del: label_keys split: option.split)

lemma containerStatusInfo_Labels [simp]: "Labels (containerStatusInfo pbe t key p ms) = Labels ms"
  by (simp add: containerStatusInfo_def split: option.split)

text \<open>With a copier that stores no labels, adding container information keeps the names.\<close>

lemma addContainerInfo_keys:
  assumes "storedLabels (labelCopier pbe) = []"
    and "addContainerInfo pbe k ms p b (newMs, reg) = (ms', newMs', reg')"
  defines "pk \<equiv> PodKey (get_str (Labels ms) (Key LabelNamespaceName)) (get_str (Labels ms) (Key LabelPodName))"
  shows "fst ` set newMs' = fst ` set newMs \<union> (if pk \<in> fst ` set (Sets b) \<union> fst ` set newMs then {}
    else insert pk (if podPhase p = PodRunning then container_keys p - fst ` set (Sets b) else {}))"
proof -
  obtain reg1 ms1 where 1: "containerSpecInfo k p (reg, ms) = (reg1, ms1)" by fastforce
  let ?ms = "containerStatusInfo pbe (Timestamp b) k p ms1"
  let ?L = "LabelCopier_Copy (labelCopier pbe) (mtLabels (podMeta p)) (gput (Key LabelPodId) (mtUID (podMeta p)) (Labels ?ms))"
  have "get_str ?L l = get_str (Labels ms) l" if "l \<in> {Key LabelNamespaceName, Key LabelPodName}" for l
    using that containerSpecInfo_label [of l k p reg ms] 1
    by (auto simp: LabelCopier_Copy_plain [OF assms(1)])
  then have names: "get_str ?L (Key LabelNamespaceName) = get_str (Labels ms) (Key LabelNamespaceName)"
    "get_str ?L (Key LabelPodName) = get_str (Labels ms) (Key LabelPodName)" by blast+
  show ?thesis
  proof (cases "pk \<in> fst ` set (Sets b) \<union> fst ` set newMs")
    case True
    with assms(2) 1 names show ?thesis
      by (auto simp: addContainerInfo_def Let_def map_of_eq_None_iff pk_def simp del: label_keys not_None_eq)
  next
    case False
    let ?stub = "podStub p (?ms \<lparr> Labels := ?L \<rparr>) (get_str (Labels ms) (Key LabelNamespaceName)) (get_str (Labels ms) (Key LabelPodName))"
    obtain a newMs2 reg2 where 2: "addPodInfo pbe ?stub p b (gput pk ?stub newMs, reg1) = (a, newMs2, reg2)" by (metis prod_cases3)
    have "newMs' = gput pk a newMs2"
      using assms(2) 1 names False 2 by (simp add: addContainerInfo_def Let_def map_of_eq_None_iff pk_def del: label_keys not_None_eq)
    then show ?thesis using addPodInfo_keys [OF 2] False by (auto simp: keys_gput)
  qed
qed

text \<open>The names a set carries, and whether it belongs to a pod.\<close>

definition ns_of :: "metric_set \<Rightarrow> string" where "ns_of v = get_str (Labels v) (Key LabelNamespaceName)"
definition pod_of :: "metric_set \<Rightarrow> string" where "pod_of v = get_str (Labels v) (Key LabelPodName)"
definition type_of :: "metric_set \<Rightarrow> string" where "type_of v = get_str (Labels v) (Key LabelMetricSetType)"

definition podish :: "metric_set \<Rightarrow> bool" where
  "podish v \<longleftrightarrow> type_of v = MetricSetTypePod \<or> type_of v = MetricSetTypePodContainer"

definition dropped :: "pod_based_enricher \<Rightarrow> metric_set \<Rightarrow> bool" where
  "dropped pbe v \<longleftrightarrow> podish v \<and> (\<exists>e. getPod pbe (ns_of v) (pod_of v) = Inl e)"

text \<open>The sets that must exist because of a pod: its own, and its containers' when it runs.\<close>

definition pod_targets :: "string \<Rightarrow> string \<Rightarrow> pod \<Rightarrow> resource_key set" where
  "pod_targets ns n p = insert (PodKey ns n) (if podPhase p = PodRunning then container_keys p else {})"

definition targets :: "pod_based_enricher \<Rightarrow> metric_set \<Rightarrow> resource_key set" where
  "targets pbe v = (if podish v then (case getPod pbe (ns_of v) (pod_of v) of Inl _ \<Rightarrow> {} | Inr p \<Rightarrow> pod_targets (ns_of v) (pod_of v) p) else {})"

text \<open>
  What the sources and the Kubernetes client guarantee: pod and container sets are stored under the
  key of their labels, nothing else is stored under a pod's key, and the lister returns the pod that
  was asked for, whose names are valid.
\<close>

definition keyed :: "resource_key \<Rightarrow> metric_set \<Rightarrow> bool" where
  "keyed k v \<longleftrightarrow>
     (type_of v = MetricSetTypePod \<longrightarrow> k = PodKey (ns_of v) (pod_of v) \<and> no_slash (ns_of v) \<and> no_slash (pod_of v)) \<and>
     (type_of v = MetricSetTypePodContainer \<longrightarrow> (\<exists>c. k = PodContainerKey (ns_of v) (pod_of v) c) \<and> no_slash (ns_of v) \<and> no_slash (pod_of v)) \<and>
     (\<not> podish v \<longrightarrow> \<not> HasPrefix k ''namespace:'' \<or> no_slash k)"

definition lister_ok :: "pod_based_enricher \<Rightarrow> bool" where
  "lister_ok pbe \<longleftrightarrow> (\<forall>ns n p. podLister pbe ns n = Inr (Some p) \<longrightarrow>
     mtNamespace (podMeta p) = ns \<and> mtName (podMeta p) = n \<and> no_slash ns \<and> no_slash n)"

lemma getPod_ok:
  assumes "lister_ok pbe" "getPod pbe ns n = Inr p"
  shows "mtNamespace (podMeta p) = ns" "mtName (podMeta p) = n" "no_slash ns" "no_slash n"
  using assms by (auto simp: getPod_def lister_ok_def split: sum.splits option.splits)

lemma keyed_pod_key:
  assumes "keyed k v" "k \<in> pod_targets ns n p" "lister_ok pbe" "getPod pbe ns n = Inr p"
  shows "podish v \<and> ns_of v = ns \<and> pod_of v = n \<and> (k = PodKey ns n \<longrightarrow> type_of v = MetricSetTypePod)"
proof -
  note p = getPod_ok [OF assms(3,4)]
  have k: "k = PodKey ns n \<or> (\<exists>c. k = PodContainerKey ns n c)"
    using assms(2) p by (auto simp: pod_targets_def container_keys_def split: if_splits)
  have "HasPrefix k ''namespace:'' \<and> \<not> no_slash k"
    using k by (auto simp: PodKey_def PodContainerKey_def HasPrefix_def)
  with assms(1) have pd: "podish v" by (auto simp: keyed_def)
  show ?thesis
  proof (cases "type_of v = MetricSetTypePod")
    case True
    with assms(1) have v: "k = PodKey (ns_of v) (pod_of v)" "no_slash (ns_of v)" "no_slash (pod_of v)" by (simp_all add: keyed_def)
    with k p(3,4) have "k = PodKey ns n" using PodKey_neq_PodContainerKey [OF v(2) p(3) v(3)] by auto
    with v pd p(3) True show ?thesis by (simp add: PodKey_inject)
  next
    case False
    with pd have c: "type_of v = MetricSetTypePodContainer" by (simp add: podish_def)
    with assms(1) obtain c where v: "k = PodContainerKey (ns_of v) (pod_of v) c" "no_slash (ns_of v)" "no_slash (pod_of v)"
      by (auto simp: keyed_def)
    have ne: "k \<noteq> PodKey ns n" unfolding v(1) using PodKey_neq_PodContainerKey [OF p(3) v(2) p(4)] by metis
    with k obtain c' where "k = PodContainerKey ns n c'" by blast
    with v p have "ns_of v = ns \<and> pod_of v = n" by (simp add: PodContainerKey_inject)
    with pd ne show ?thesis by simp
  qed
qed

lemma targets_cong:
  "podish v \<Longrightarrow> podish v' \<Longrightarrow> ns_of v = ns_of v' \<Longrightarrow> pod_of v = pod_of v' \<Longrightarrow> targets pbe v = targets pbe v'"
  by (simp add: targets_def split: sum.split)

text \<open>A set that a pod needs is never one that the enricher removes.\<close>

lemma target_not_dropped:
  assumes "lister_ok pbe" "keyed k v" "k \<in> targets pbe w"
  shows "\<not> dropped pbe v"
proof -
  obtain p where "podish w" "getPod pbe (ns_of w) (pod_of w) = Inr p" "k \<in> pod_targets (ns_of w) (pod_of w) p"
    using assms(3) by (auto simp: targets_def split: if_splits sum.splits)
  with keyed_pod_key [OF assms(2) _ assms(1)] show ?thesis by (fastforce simp: dropped_def)
qed

definition enriched :: "pod_based_enricher \<Rightarrow> batch \<Rightarrow> (resource_key \<times> metric_set) list \<Rightarrow> enrich_state \<Rightarrow> bool" where
  "enriched pbe b0 xs = (\<lambda>(b, newMs, reg).
     fst ` set (Sets b) = fst ` set (Sets b0) - fst ` set (filter (\<lambda>x. dropped pbe (snd x)) xs) \<and>
     fst ` set newMs \<subseteq> (\<Union>x \<in> set xs. targets pbe (snd x)) \<and>
     (\<forall>x \<in> set xs. type_of (snd x) = MetricSetTypePod \<or> PodKey (ns_of (snd x)) (pod_of (snd x)) \<notin> fst ` set (Sets b0) \<longrightarrow>
        targets pbe (snd x) \<subseteq> fst ` set newMs \<union> fst ` set (Sets b0)))"

lemma keys_gdel: "fst ` set (gdel k m) = fst ` set m - {k}"
  by (simp flip: dom_map_of_conv_image_fst)

lemma enrichSet_unknown: "dropped pbe v \<Longrightarrow> enrichSet pbe (k, v) (b, newMs, reg) = (b \<lparr> Sets := gdel k (Sets b) \<rparr>, newMs, reg)"
  by (auto simp: dropped_def podish_def type_of_def ns_of_def pod_of_def Let_def simp del: label_keys)

lemma enrichSet_other: "\<not> podish v \<Longrightarrow> enrichSet pbe (k, v) (b, newMs, reg) = (b, newMs, reg)"
  by (simp add: podish_def type_of_def Let_def del: label_keys)

text \<open>What a set of a known pod adds to the new sets.\<close>

lemma enrichSet_known_keys:
  assumes "podish v" "getPod pbe (ns_of v) (pod_of v) = Inr p" "storedLabels (labelCopier pbe) = []"
    and "enrichSet pbe (k, v) (b, newMs, reg) = (b', newMs', reg')"
  shows "fst ` set (Sets b') = insert k (fst ` set (Sets b))"
    and "fst ` set newMs' = fst ` set newMs \<union>
      (let pk = PodKey (ns_of v) (pod_of v); cs = (if podPhase p = PodRunning then container_keys p - fst ` set (Sets b) else {}) in
       if type_of v = MetricSetTypePod then cs
       else if pk \<in> fst ` set (Sets b) \<union> fst ` set newMs then {} else insert pk cs)"
proof -
  consider (pod) "type_of v = MetricSetTypePod" | (cont) "type_of v = MetricSetTypePodContainer"
    using assms(1) by (auto simp: podish_def)
  then have "fst ` set (Sets b') = insert k (fst ` set (Sets b)) \<and> fst ` set newMs' = fst ` set newMs \<union>
      (let pk = PodKey (ns_of v) (pod_of v); cs = (if podPhase p = PodRunning then container_keys p - fst ` set (Sets b) else {}) in
       if type_of v = MetricSetTypePod then cs
       else if pk \<in> fst ` set (Sets b) \<union> fst ` set newMs then {} else insert pk cs)"
  proof cases
    case pod
    obtain v1 n1 r1 where 1: "addPodInfo pbe v p b (newMs, reg) = (v1, n1, r1)" by (metis prod_cases3)
    have "b' = b \<lparr> Sets := gput k v1 (Sets b) \<rparr>" "newMs' = n1"
      using assms(2,4) pod 1 by (simp_all add: type_of_def ns_of_def pod_of_def Let_def del: label_keys)
    with addPodInfo_keys [OF 1] pod show ?thesis by (simp add: keys_gput)
  next
    case cont
    obtain v1 n1 r1 where 1: "addContainerInfo pbe k v p b (newMs, reg) = (v1, n1, r1)" by (metis prod_cases3)
    have "b' = b \<lparr> Sets := gput k v1 (Sets b) \<rparr>" "newMs' = n1"
      using assms(2,4) cont 1 by (simp_all add: type_of_def ns_of_def pod_of_def Let_def del: label_keys)
    with addContainerInfo_keys [OF assms(3) 1] cont show ?thesis
      by (simp add: keys_gput Let_def ns_of_def pod_of_def del: label_keys)
  qed
  then show "fst ` set (Sets b') = insert k (fst ` set (Sets b))"
    and "fst ` set newMs' = fst ` set newMs \<union>
      (let pk = PodKey (ns_of v) (pod_of v); cs = (if podPhase p = PodRunning then container_keys p - fst ` set (Sets b) else {}) in
       if type_of v = MetricSetTypePod then cs
       else if pk \<in> fst ` set (Sets b) \<union> fst ` set newMs then {} else insert pk cs)" by blast+
qed

lemma new_targets:
  assumes "K \<subseteq> Old" "pt \<longrightarrow> pk \<in> Old" "pt \<or> pk \<notin> Old" "\<not> (pk \<in> N \<and> \<not> pt)"
    and "N' = N \<union> (if pt then if run then cs - K else {} else if pk \<in> K \<union> N then {} else insert pk (if run then cs - K else {}))"
  shows "insert pk (if run then cs else {}) \<subseteq> N' \<union> Old"
  using assms by auto

lemma enrichSet_enriched:
  assumes ok: "lister_ok pbe" "storedLabels (labelCopier pbe) = []"
    and b0: "wf_map (Sets b0)" "\<forall>(k, v) \<in> set (Sets b0). keyed k v"
    and x: "set xs \<subseteq> set (Sets b0)" "(k, v) \<in> set (Sets b0)"
    and st: "enriched pbe b0 xs (b, newMs, reg)" "enrichSet pbe (k, v) (b, newMs, reg) = (b', newMs', reg')"
  shows "enriched pbe b0 (xs @ [(k, v)]) (b', newMs', reg')"
proof -
  let ?Old = "fst ` set (Sets b0)" and ?K = "fst ` set (Sets b)" and ?N = "fst ` set newMs"
  note inv = st(1) [unfolded enriched_def prod.case]
  have K0: "k' \<in> ?K" if "k' \<in> ?Old" "\<And>v'. (k', v') \<in> set xs \<Longrightarrow> \<not> dropped pbe v'" for k'
    unfolding conjunct1 [OF inv] using that by auto
  consider (drop) "dropped pbe v" | (other) "\<not> podish v" | (known) p where "podish v" "getPod pbe (ns_of v) (pod_of v) = Inr p"
    by (cases "getPod pbe (ns_of v) (pod_of v)") (auto simp: dropped_def)
  then show ?thesis
  proof cases
    case drop
    then have "targets pbe v = {}" by (auto simp: dropped_def targets_def)
    moreover have "b' = b \<lparr> Sets := gdel k (Sets b) \<rparr>" "newMs' = newMs" using st(2) enrichSet_unknown [OF drop] by simp_all
    ultimately show ?thesis using inv drop by (auto simp: enriched_def keys_gdel)
  next
    case other
    then have "targets pbe v = {}" "\<not> dropped pbe v" by (simp_all add: dropped_def targets_def)
    moreover have "b' = b" "newMs' = newMs" using st(2) enrichSet_other [OF other] by simp_all
    ultimately show ?thesis using inv by (auto simp: enriched_def)
  next
    case known
    then have nd: "\<not> dropped pbe v" and tg: "targets pbe v = pod_targets (ns_of v) (pod_of v) p"
      by (auto simp: dropped_def targets_def)
    have kept: "k' \<in> ?K" if "k' \<in> ?Old" "k' \<in> targets pbe v" for k'
    proof (rule K0 [OF that(1)])
      fix v' assume "(k', v') \<in> set xs"
      with x(1) b0(2) have "keyed k' v'" by blast
      from this that(2) show "\<not> dropped pbe v'" by (rule target_not_dropped [OF ok(1)])
    qed
    have "v2 = v" if "(k, v2) \<in> set xs" for v2
      using that x b0(1) by (meson eq_key_imp_eq_value subsetD)
    moreover have k0: "k \<in> ?Old" using x(2) by (rule image_eqI [rotated]) simp
    ultimately have "k \<in> ?K" using nd by (intro K0) simp_all
    then have K: "fst ` set (Sets b') = ?K"
      using enrichSet_known_keys(1) [OF known ok(2) st(2)] by (simp add: insert_absorb)
    note N = enrichSet_known_keys(2) [OF known ok(2) st(2), unfolded Let_def]
    have sub: "fst ` set newMs' \<subseteq> ?N \<union> targets pbe v" "?N \<subseteq> fst ` set newMs'"
      unfolding N tg by (auto simp: pod_targets_def)
    have full: "targets pbe v \<subseteq> fst ` set newMs' \<union> ?Old"
      if c: "type_of v = MetricSetTypePod \<or> PodKey (ns_of v) (pod_of v) \<notin> ?Old"
    proof (cases "PodKey (ns_of v) (pod_of v) \<in> ?N \<and> type_of v \<noteq> MetricSetTypePod")
      case False
      have "type_of v = MetricSetTypePod \<longrightarrow> k = PodKey (ns_of v) (pod_of v)" using b0(2) x(2) by (fastforce simp: keyed_def)
      with k0 have "type_of v = MetricSetTypePod \<longrightarrow> PodKey (ns_of v) (pod_of v) \<in> ?Old" by metis
      moreover have "?K \<subseteq> ?Old" unfolding conjunct1 [OF inv] by blast
      ultimately show ?thesis unfolding tg pod_targets_def by (intro new_targets [OF _ _ c False N])
    next
      case True
      then obtain y where y: "y \<in> set xs" "PodKey (ns_of v) (pod_of v) \<in> targets pbe (snd y)" using inv by blast
      have kp: "keyed k v" using b0(2) x(2) by blast
      have "podish (snd y) \<and> ns_of (snd y) = ns_of v \<and> pod_of (snd y) = pod_of v"
      proof -
        obtain q where q: "podish (snd y)" "getPod pbe (ns_of (snd y)) (pod_of (snd y)) = Inr q"
            "PodKey (ns_of v) (pod_of v) \<in> pod_targets (ns_of (snd y)) (pod_of (snd y)) q"
          using y(2) by (auto simp: targets_def split: if_splits sum.splits)
        note gp = getPod_ok [OF ok(1) known(2)] and gq = getPod_ok [OF ok(1) q(2)]
        have "PodKey (ns_of v) (pod_of v) \<notin> container_keys q"
          using PodKey_neq_PodContainerKey [OF gp(3) gq(3) gp(4)] gq by (auto simp: container_keys_def)
        with q gp gq show ?thesis by (auto simp: pod_targets_def PodKey_inject split: if_splits)
      qed
      with known(1) have "targets pbe (snd y) = targets pbe v" "ns_of (snd y) = ns_of v" "pod_of (snd y) = pod_of v"
        using targets_cong [of "snd y" v pbe] by blast+
      moreover from this c True have "targets pbe (snd y) \<subseteq> ?N \<union> ?Old" using bspec [OF conjunct2 [OF conjunct2 [OF inv]] y(1)] by auto
      ultimately show ?thesis using sub(2) by blast
    qed
    have "targets pbe (snd y) \<subseteq> fst ` set newMs' \<union> ?Old"
      if "y \<in> set (xs @ [(k, v)])" "type_of (snd y) = MetricSetTypePod \<or> PodKey (ns_of (snd y)) (pod_of (snd y)) \<notin> ?Old" for y
    proof (cases "y = (k, v)")
      case True
      with full that(2) show ?thesis by simp
    next
      case False
      with that inv have "targets pbe (snd y) \<subseteq> ?N \<union> ?Old" by auto
      with sub(2) show ?thesis by blast
    qed
    moreover have "fst ` set newMs' \<subseteq> (\<Union>x \<in> set (xs @ [(k, v)]). targets pbe (snd x))"
      using order_trans [OF sub(1) Un_mono [OF conjunct1 [OF conjunct2 [OF inv]] subset_refl]] by simp blast
    ultimately show ?thesis using inv K nd unfolding enriched_def prod.case by simp
  qed
qed

lemma fold_enriched:
  assumes "lister_ok pbe" "storedLabels (labelCopier pbe) = []" "wf_map (Sets b0)" "\<forall>(k, v) \<in> set (Sets b0). keyed k v"
    and "xs @ ys = Sets b0" "enriched pbe b0 xs st"
  shows "enriched pbe b0 (Sets b0) (fold (enrichSet pbe) ys st)"
  using assms(5,6)
proof (induction ys arbitrary: xs st)
  case (Cons y ys)
  obtain k v where y: "y = (k, v)" by (cases y)
  obtain b newMs reg where st: "st = (b, newMs, reg)" by (metis prod_cases3)
  obtain b' newMs' reg' where st': "enrichSet pbe (k, v) (b, newMs, reg) = (b', newMs', reg')" by (metis prod_cases3)
  have "set xs \<subseteq> set (Sets b0)" "(k, v) \<in> set (Sets b0)" unfolding Cons.prems(1) [symmetric] y by auto
  from enrichSet_enriched [OF assms(1-4) this _ st'] Cons.prems(2)
  have "enriched pbe b0 (xs @ [y]) (enrichSet pbe y st)" by (simp only: st y st')
  with Cons.IH [of "xs @ [y]"] Cons.prems(1) show ?case by simp
qed simp

lemma enriched_kept:
  assumes "wf_map (Sets b)" "enriched pbe b (Sets b) (b1, newMs, reg)"
  shows "fst ` set (Sets b1) = {k. \<exists>v. (k, v) \<in> set (Sets b) \<and> \<not> dropped pbe v}"
proof -
  have "fst ` set (filter P m) = {k. \<exists>v. (k, v) \<in> set m \<and> P (k, v)}" for P :: "string \<times> metric_set \<Rightarrow> bool" and m by force
  moreover have "k \<in> fst ` set (Sets b) \<longleftrightarrow> (\<exists>v. (k, v) \<in> set (Sets b))" for k by force
  ultimately show ?thesis using assms unfolding enriched_def prod.case by (auto dest: eq_key_imp_eq_value)
qed

text \<open>Some set of the pod made the enricher look after all of the pod's sets.\<close>

lemma representative:
  assumes "lister_ok pbe" "\<forall>(k, v) \<in> set (Sets b). keyed k v" "(k, v) \<in> set (Sets b)" "podish v"
    "getPod pbe (ns_of v) (pod_of v) = Inr p"
  shows "\<exists>x \<in> set (Sets b). targets pbe (snd x) = targets pbe v \<and>
    (type_of (snd x) = MetricSetTypePod \<or> PodKey (ns_of (snd x)) (pod_of (snd x)) \<notin> fst ` set (Sets b))"
proof (cases "PodKey (ns_of v) (pod_of v) \<in> fst ` set (Sets b)")
  case True
  then obtain w where w: "(PodKey (ns_of v) (pod_of v), w) \<in> set (Sets b)" by auto
  with assms(2) have "keyed (PodKey (ns_of v) (pod_of v)) w" by blast
  from keyed_pod_key [OF this _ assms(1,5)] have "podish w" "ns_of w = ns_of v" "pod_of w = pod_of v" "type_of w = MetricSetTypePod"
    by (auto simp: pod_targets_def)
  with w assms(4) targets_cong [of w v pbe] show ?thesis by (intro bexI [OF _ w]) simp
next
  case False
  with assms(3) show ?thesis by (intro bexI [OF _ assms(3)]) simp
qed

lemma enriched_targets:
  assumes "lister_ok pbe" "wf_map (Sets b)" "\<forall>(k, v) \<in> set (Sets b). keyed k v" "enriched pbe b (Sets b) (b1, newMs, reg)"
    and v: "(k, v) \<in> set (Sets b)"
  shows "targets pbe v \<subseteq> fst ` set newMs \<union> fst ` set (Sets b1)"
proof (cases "podish v \<and> (\<exists>p. getPod pbe (ns_of v) (pod_of v) = Inr p)")
  case True
  then obtain x where "x \<in> set (Sets b)" "targets pbe (snd x) = targets pbe v"
      "type_of (snd x) = MetricSetTypePod \<or> PodKey (ns_of (snd x)) (pod_of (snd x)) \<notin> fst ` set (Sets b)"
    using representative [OF assms(1,3) v] by blast
  with assms(4) have "targets pbe v \<subseteq> fst ` set newMs \<union> fst ` set (Sets b)" unfolding enriched_def prod.case by metis
  moreover have "k' \<in> fst ` set (Sets b1)" if k': "k' \<in> fst ` set (Sets b)" "k' \<in> targets pbe v" for k'
  proof -
    from k'(1) obtain w where "(k', w) \<in> set (Sets b)" by auto
    with target_not_dropped [OF assms(1) _ k'(2)] assms(3) show ?thesis
      unfolding enriched_kept [OF assms(2,4)] by blast
  qed
  ultimately show ?thesis by (meson Un_iff subsetD subsetI)
next
  case False
  then have "targets pbe v = {}" by (auto simp: targets_def split: sum.split)
  then show ?thesis by simp
qed

text \<open>
  C15. Enrichment with pod information leaves exactly these metric sets: every set of the batch except
  the pod and container sets whose pod the API server does not know, a set for every pod that some
  set belongs to, and, when such a pod runs, a set for each container of its specification. The order
  in which Go visits the batch does not matter.
\<close>

theorem PodBasedEnricher_sets:
  assumes "lister_ok pbe" "storedLabels (labelCopier pbe) = []" "wf_map (Sets b)" "\<forall>(k, v) \<in> set (Sets b). keyed k v"
  shows "\<exists>b' reg'. PodBasedEnricher_Process pbe reg b = Inr (b', reg') \<and>
    fst ` set (Sets b') = {k. \<exists>v. (k, v) \<in> set (Sets b) \<and> \<not> dropped pbe v} \<union> (\<Union>(k, v) \<in> set (Sets b). targets pbe v)"
proof -
  obtain b1 newMs reg' where st: "fold (enrichSet pbe) (Sets b) (b, [], reg) = (b1, newMs, reg')" by (metis prod_cases3)
  have "enriched pbe b [] (b, [], reg)" by (simp add: enriched_def)
  from fold_enriched [OF assms _ this, of "Sets b"]
  have inv: "enriched pbe b (Sets b) (b1, newMs, reg')" by (simp only: st append_Nil simp_thms)
  have "fst ` set newMs \<subseteq> (\<Union>(k, v) \<in> set (Sets b). targets pbe v)"
    using inv by (simp add: enriched_def case_prod_unfold)
  with enriched_targets [OF assms(1,3,4) inv]
  have "fst ` set newMs \<union> fst ` set (Sets b1) =
      {k. \<exists>v. (k, v) \<in> set (Sets b) \<and> \<not> dropped pbe v} \<union> (\<Union>(k, v) \<in> set (Sets b). targets pbe v)"
    unfolding enriched_kept [OF assms(3) inv, symmetric] by blast
  then show ?thesis by (simp add: PodBasedEnricher_Process_def st keys_put_all)
qed

definition sample_pod :: pod where
  "sample_pod = \<lparr> podMeta = \<lparr> mtName = ''web'', mtNamespace = ''shop'', mtUID = ''u1'', mtLabels = [(''app'', ''web'')], mtAnnotations = [] \<rparr>,
     podNodeName = ''n1'', podContainers = [\<lparr> cName = ''nginx'', cImage = ''nginx:1'', cRequests = [], cLimits = [] \<rparr>],
     podPhase = ''Running'', podStartTime = None, podIP = [], podConditions = [], ContainerStatuses = [] \<rparr>"

definition sample_enricher :: pod_based_enricher where
  "sample_enricher = NewPodBasedEnricher
     (\<lambda>ns n. if ns = ''shop'' \<and> n = ''web'' then Inr (Some sample_pod) else Inl (Errorf ''not found''))
     (NewLabelCopier '','' [] []) 60"

definition sample_pod_batch :: batch where
  "sample_pod_batch = \<lparr> Timestamp = 0, Sets =
     [(PodKey ''shop'' ''web'', newSet [(''type'', ''pod''), (''namespace_name'', ''shop''), (''pod_name'', ''web'')]),
      (PodKey ''shop'' ''gone'', newSet [(''type'', ''pod''), (''namespace_name'', ''shop''), (''pod_name'', ''gone'')])], Metrics = [] \<rparr>"

theorem PodBasedEnricher_sets_witness:
  "\<exists>b' reg'. PodBasedEnricher_Process sample_enricher ResourceRequestMetrics sample_pod_batch = Inr (b', reg') \<and>
    fst ` set (Sets b') = {PodKey ''shop'' ''web'', PodContainerKey ''shop'' ''web'' ''nginx''}"
proof -
  have 1: "lister_ok sample_enricher" "storedLabels (labelCopier sample_enricher) = []"
    by (auto simp: lister_ok_def sample_enricher_def NewPodBasedEnricher_def sample_pod_def NewLabelCopier_def makeStoredLabels_def split: if_splits)
  have 2: "wf_map (Sets sample_pod_batch)" by (simp add: sample_pod_batch_def PodKey_def)
  have 3: "\<forall>(k, v) \<in> set (Sets sample_pod_batch). keyed k v"
    by (simp add: sample_pod_batch_def keyed_def podish_def type_of_def ns_of_def pod_of_def newSet_def get_str_def)
  have "\<not> dropped sample_enricher (newSet [(''type'', ''pod''), (''namespace_name'', ''shop''), (''pod_name'', ''web'')])"
    "dropped sample_enricher (newSet [(''type'', ''pod''), (''namespace_name'', ''shop''), (''pod_name'', ''gone'')])"
    by (simp_all add: dropped_def podish_def type_of_def ns_of_def pod_of_def newSet_def get_str_def
        getPod_def sample_enricher_def NewPodBasedEnricher_def)
  then have "{k. \<exists>v. (k, v) \<in> set (Sets sample_pod_batch) \<and> \<not> dropped sample_enricher v} = {PodKey ''shop'' ''web''}"
    unfolding sample_pod_batch_def by (simp add: conj_disj_distribR ex_disj_distrib)
  moreover have "(\<Union>(k, v) \<in> set (Sets sample_pod_batch). targets sample_enricher v) = {PodKey ''shop'' ''web'', PodContainerKey ''shop'' ''web'' ''nginx''}"
    by (simp add: sample_pod_batch_def targets_def podish_def type_of_def ns_of_def pod_of_def newSet_def get_str_def
        getPod_def sample_enricher_def NewPodBasedEnricher_def pod_targets_def container_keys_def sample_pod_def)
  ultimately have "{k. \<exists>v. (k, v) \<in> set (Sets sample_pod_batch) \<and> \<not> dropped sample_enricher v} \<union>
      (\<Union>(k, v) \<in> set (Sets sample_pod_batch). targets sample_enricher v) = {PodKey ''shop'' ''web'', PodContainerKey ''shop'' ''web'' ''nginx''}"
    by (simp add: insert_commute)
  with PodBasedEnricher_sets [OF 1 2 3, of ResourceRequestMetrics] show ?thesis by simp
qed

section \<open>Requests and limits\<close>

text \<open>The registry knows the three standard resources and names every other one after itself.\<close>

definition reg_ok :: "request_metrics \<Rightarrow> bool" where
  "reg_ok reg \<longleftrightarrow> (\<forall>k m. map_of ResourceRequestMetrics k = Some m \<longrightarrow> map_of reg k = Some m) \<and>
     (\<forall>k m. map_of reg k = Some m \<longrightarrow> map_of ResourceRequestMetrics k = Some m \<or> Name m = k @ ''/request'')"

lemma reg_ok_initial: "reg_ok ResourceRequestMetrics"
  by (simp add: reg_ok_def)

definition request_name :: "string \<Rightarrow> string" where
  "request_name k = (case map_of ResourceRequestMetrics k of Some m \<Rightarrow> Name m | None \<Rightarrow> k @ ''/request'')"

lemma map_of_Values_putInt [simp]:
  "map_of (Values (putInt n i ms)) = (map_of (Values ms))(n \<mapsto> intValue i)"
  by (simp add: putInt_def)

definition request_value :: "string \<times> quantity \<Rightarrow> int64" where
  "request_value = (\<lambda>(k, q). if k = ResourceCPU then MilliValue q else QValue q)"

lemma addRequest_eq:
  assumes "reg_ok reg"
  obtains reg' where "addRequest (k, q) (reg, ms) = (reg', putInt (request_name k) (request_value (k, q)) ms)"
    "reg_ok reg'"
proof (cases "map_of reg k")
  case None
  with assms have new: "map_of ResourceRequestMetrics k = None" unfolding reg_ok_def by (metis not_None_eq)
  have "reg_ok (gput k (requestMetric k) reg)"
    using assms new by (auto simp: reg_ok_def requestMetric_def plainMetric_def)
  with None new that show ?thesis by (simp add: request_name_def requestMetric_def plainMetric_def request_value_def)
next
  case (Some m)
  have "Name m = request_name k"
  proof (cases "map_of ResourceRequestMetrics k")
    case None
    with assms Some show ?thesis unfolding reg_ok_def request_name_def by fastforce
  next
    case (Some m')
    with assms \<open>map_of reg k = Some m\<close> show ?thesis unfolding reg_ok_def request_name_def by fastforce
  qed
  with Some assms that show ?thesis by (simp add: request_value_def)
qed

lemma fold_addRequest:
  assumes "reg_ok reg"
  shows "\<exists>reg'. fold addRequest rs (reg, ms) = (reg', fold (\<lambda>(k, q). putInt (request_name k) (request_value (k, q))) rs ms) \<and> reg_ok reg'"
  using assms
proof (induction rs arbitrary: reg ms)
  case (Cons r rs)
  obtain k q where r: "r = (k, q)" by (cases r)
  obtain reg1 where 1: "addRequest (k, q) (reg, ms) = (reg1, putInt (request_name k) (request_value (k, q)) ms)" "reg_ok reg1"
    using addRequest_eq [OF Cons.prems, of k q ms] by metis
  from Cons.IH [OF 1(2), of "putInt (request_name k) (request_value (k, q)) ms"] 1(1) r show ?case by simp
qed simp

lemma fold_putInt_other:
  "\<forall>(k, q) \<in> set rs. request_name k \<noteq> n \<Longrightarrow>
     map_of (Values (fold (\<lambda>(k, q). putInt (request_name k) (request_value (k, q))) rs ms)) n = map_of (Values ms) n"
  by (induction rs arbitrary: ms) auto

lemma fold_putInt_at:
  assumes "wf_map rs" "(k, q) \<in> set rs" "\<forall>(k', q') \<in> set rs. request_name k' = request_name k \<longrightarrow> k' = k"
  shows "map_of (Values (fold (\<lambda>(k, q). putInt (request_name k) (request_value (k, q))) rs ms)) (request_name k) =
    Some (intValue (request_value (k, q)))"
  using assms
proof (induction rs arbitrary: ms)
  case (Cons r rs)
  show ?case
  proof (cases "r = (k, q)")
    case True
    with Cons.prems have "\<forall>(k', q') \<in> set rs. request_name k' \<noteq> request_name k" by force
    from fold_putInt_other [OF this] True show ?thesis by simp
  next
    case False
    with Cons.prems have "wf_map rs" "(k, q) \<in> set rs" "\<forall>(k', q') \<in> set rs. request_name k' = request_name k \<longrightarrow> k' = k" by auto
    from Cons.IH [OF this] show ?thesis by (cases r) simp
  qed
qed simp

text \<open>Request metrics of different resources have different names, unless a resource is called like the metric prefix.\<close>

lemma request_name_standard:
  "request_name ResourceCPU = Name MetricCpuRequest" "request_name ResourceMemory = Name MetricMemoryRequest"
  "request_name ResourceEphemeralStorage = Name MetricEphemeralStorageRequest"
  by (simp_all add: request_name_def ResourceRequestMetrics_def)

lemma request_name_inj:
  assumes "k \<noteq> ''ephemeral_storage''" "k' \<noteq> ''ephemeral_storage''" "request_name k = request_name k'"
  shows "k = k'"
proof -
  have "request_name k = (if k = ResourceEphemeralStorage then ''ephemeral_storage'' else k) @ ''/request''" for k
    by (simp add: request_name_def ResourceRequestMetrics_def)
  with assms show ?thesis by (auto split: if_splits)
qed

text \<open>
  A container's set gets its CPU, memory and ephemeral-storage requests and limits: CPU in
  millicores, the others in units, and zero where nothing is specified.
\<close>

theorem updateContainerResourcesAndLimits_values:
  assumes "reg_ok reg" "wf_map (cRequests c)" "''ephemeral_storage'' \<notin> fst ` set (cRequests c)"
  shows "let v = map_of (Values (snd (updateContainerResourcesAndLimits reg ms c))) in
    v (Name MetricCpuRequest) = Some (intValue (MilliValue (get_quantity (cRequests c) ResourceCPU))) \<and>
    v (Name MetricMemoryRequest) = Some (intValue (QValue (get_quantity (cRequests c) ResourceMemory))) \<and>
    v (Name MetricEphemeralStorageRequest) = Some (intValue (QValue (get_quantity (cRequests c) ResourceEphemeralStorage))) \<and>
    v (Name MetricCpuLimit) = Some (intValue (MilliValue (get_quantity (cLimits c) ResourceCPU))) \<and>
    v (Name MetricMemoryLimit) = Some (intValue (QValue (get_quantity (cLimits c) ResourceMemory))) \<and>
    v (Name MetricEphemeralStorageLimit) = Some (intValue (QValue (get_quantity (cLimits c) ResourceEphemeralStorage)))"
proof -
  let ?f = "fold (\<lambda>(k, q). putInt (request_name k) (request_value (k, q))) (cRequests c) ms"
  obtain reg' where f: "fold addRequest (cRequests c) (reg, ms) = (reg', ?f)" using fold_addRequest [OF assms(1)] by blast
  have at: "map_of (Values ?f) (request_name k) = Some (intValue (request_value (k, q)))"
    if q: "map_of (cRequests c) k = Some q" for k q
  proof (rule fold_putInt_at [OF assms(2) map_of_SomeD [OF q]])
    have ne: "k' \<noteq> ''ephemeral_storage''" if "(k', q') \<in> set (cRequests c)" for k' q'
      using that assms(3) by (metis fst_conv image_eqI)
    show "\<forall>(k', q') \<in> set (cRequests c). request_name k' = request_name k \<longrightarrow> k' = k"
      using ne request_name_inj ne [OF map_of_SomeD [OF q]] by blast
  qed
  show ?thesis
    using at [of ResourceCPU] at [of ResourceMemory] at [of ResourceEphemeralStorage]
    by (simp add: updateContainerResourcesAndLimits_def f Let_def zeroUnless_def get_quantity_def zeroQuantity_def
        request_name_standard request_value_def split: option.split)
qed

theorem updateContainerResourcesAndLimits_values_witness:
  "map_of (Values (snd (updateContainerResourcesAndLimits ResourceRequestMetrics (newSet [])
     \<lparr> cName = ''c'', cImage = ''i'', cRequests = [(''cpu'', \<lparr> MilliValue = 250, QValue = 1 \<rparr>)], cLimits = [] \<rparr>)))
     (Name MetricCpuRequest) = Some (intValue 250)"
  using updateContainerResourcesAndLimits_values [OF reg_ok_initial, of
      "\<lparr> cName = ''c'', cImage = ''i'', cRequests = [(''cpu'', \<lparr> MilliValue = 250, QValue = 1 \<rparr>)], cLimits = [] \<rparr>" "newSet []"]
  by (simp add: Let_def get_quantity_def)

section \<open>Container states and the aggregators\<close>

text \<open>
  The state of a terminated container is reported under the label \<^verbatim>\<open>status\<close>, while the aggregators
  look for \<^verbatim>\<open>state\<close>: every container set that gets its state from the enricher counts as taking up
  resources.
\<close>

lemma addContainerStatus_takesUpResources:
  assumes "wf_set ms" "map_of (Labels ms) ''state'' = None" "map_of (Values ms) (Name MetricContainerStatus) = None"
    "find (\<lambda>lv. lvName lv = Name MetricContainerStatus) (LabeledValues ms) = None"
  shows "podContainerTakesUpResources (addContainerStatus pbe t ms MetricContainerStatus st)"
proof -
  let ?ms = "addContainerStatus pbe t ms MetricContainerStatus st"
  let ?lv = "\<lparr> lvName = Name MetricContainerStatus, lvLabels = AddMetricTags (findContainerState pbe t st) [],
               lvValue = intValue (word_of_int (siValue (findContainerState pbe t st))) \<rparr>"
  have lv: "LabeledValues ?ms = LabeledValues ms @ [?lv]" "Values ?ms = Values ms" "Labels ?ms = Labels ms"
    by (simp_all add: addContainerStatus_def addLabeledIntMetric_def Let_def)
  have wf: "wf_set ?ms" using assms(1) lv by (simp add: wf_set_def)
  have "find (\<lambda>lv. lvName lv = Name MetricContainerStatus) (LabeledValues ?ms) = Some ?lv"
    unfolding lv find_append assms(4) by simp
  from FindLabels_labeled(1) [OF wf _ this] assms(2,3)
  have "map_of (fst (FindLabels ?ms (Name MetricContainerStatus))) ''state'' = None" by (simp add: lv map_add_def)
  then show ?thesis by (simp add: podContainerTakesUpResources_def get_str_def)
qed

section \<open>Utilization and reservation of nodes\<close>

lemma rndq_power63: "rndq (2 ^ 63) = 2 ^ 63"
proof -
  have l: "ilog2 (2 ^ 63 :: rat) = 63" by (rule ilog2_eqI) (simp_all add: power_int_def)
  have "(2 ^ 63 :: rat) = of_int (2 ^ 52) * ulp (2 ^ 63)" unfolding ulp_def l by (simp add: power_int_def)
  then have "round_pos (2 ^ 63) = (2 ^ 63 :: rat)" by (rule round_pos_multiple)
  then show ?thesis by (simp add: rndq_def)
qed

text \<open>Converting an \<^verbatim>\<open>int64\<close> to \<^verbatim>\<open>float64\<close> never overflows and is monotone.\<close>

lemma f_of_int64_nonneg:
  assumes "0 \<le> sint w"
  shows "f_of_int64 w = Fin (rndq (of_int (sint w)))" "0 \<le> rndq (of_int (sint w))"
proof -
  show "0 \<le> rndq (of_int (sint w))" using assms by (intro rndq_nonneg) (simp only: of_int_0_le_iff)
  have "sint w < 2 ^ 63" using sint_lt [of w] by simp
  then have "(of_int (sint w) :: rat) \<le> of_int (2 ^ 63)" by (intro of_int_le_iff [THEN iffD2]) linarith
  then have "(of_int (sint w) :: rat) \<le> 2 ^ 63" by (simp only: of_int_power of_int_numeral)
  from rndq_mono [OF this] have "rndq (of_int (sint w)) \<le> 2 ^ 63" by (simp only: rndq_power63)
  moreover have "(2::rat) ^ 63 < 2 ^ 1024" by (rule power_strict_increasing) simp_all
  ultimately have "rndq (of_int (sint w)) < 2 ^ 1024" by (rule order_le_less_trans)
  moreover have "- (2 ^ 1024) < rndq (of_int (sint w))"
    using \<open>0 \<le> rndq (of_int (sint w))\<close> by (meson less_le_trans neg_less_0_iff_less zero_less_numeral zero_less_power)
  ultimately show "f_of_int64 w = Fin (rndq (of_int (sint w)))"
    by (simp add: f_of_int64_def rnd_def Let_def)
qed

lemma f_ratio_unit:
  assumes "0 \<le> sint a" "sint a \<le> sint b" "0 < sint b"
  shows "\<exists>q. f_ratio a b = Fin q \<and> 0 \<le> q \<and> q \<le> 1"
proof -
  let ?a = "rndq (of_int (sint a))" and ?b = "rndq (of_int (sint b))"
  have "(1::rat) \<le> of_int (sint b)" using assms(3) of_int_le_iff [of 1 "sint b"] by (simp only: of_int_1)
  from rndq_mono [OF this] have b: "1 \<le> ?b" using rndq_of_int [of 1] by simp
  have ab: "0 \<le> ?a" "?a \<le> ?b" using f_of_int64_nonneg(2) [OF assms(1)] rndq_mono assms(2) by (simp_all only: of_int_le_iff)
  have "f_ratio a b = rnd (?a / ?b)"
    using f_of_int64_nonneg(1) [OF assms(1)] f_of_int64_nonneg(1) [of b] assms(3) b by (simp add: f_ratio_def)
  moreover have "of_int 0 \<le> ?a / ?b" "?a / ?b \<le> of_int 1" using ab b by simp_all
  ultimately show ?thesis using rnd_between [of 0 "?a / ?b" 1] by simp
qed

lemma map_of_Values_setFloat [simp]:
  "map_of (Values (setFloat m x ms)) = (map_of (Values ms))(Name m \<mapsto> \<lparr> IntValue = 0, FloatValue = x, ValueType = ValueFloat \<rparr>)"
  by (simp add: setFloat_def)

lemma getInt_Labels [simp]: "getInt (ms \<lparr> Labels := l \<rparr>) m = getInt ms m"
  by (simp add: getInt_def)

lemma autoscaleNode_cpu:
  "map_of (Values (autoscaleNode copier node ms)) (Name MetricNodeCpuReservation) =
     (let alloc = MilliValue (get_quantity (Allocatable node) ResourceCPU) in
      if alloc \<noteq> 0 then Some \<lparr> IntValue = 0, FloatValue = f_ratio (getInt ms MetricCpuRequest) alloc, ValueType = ValueFloat \<rparr>
      else map_of (Values ms) (Name MetricNodeCpuReservation))"
  "map_of (Values (autoscaleNode copier node ms)) (Name MetricNodeCpuUtilization) =
     (let alloc = MilliValue (get_quantity (Allocatable node) ResourceCPU) in
      if alloc \<noteq> 0 then Some \<lparr> IntValue = 0, FloatValue = f_ratio (getInt ms MetricCpuUsageRate) alloc, ValueType = ValueFloat \<rparr>
      else map_of (Values ms) (Name MetricNodeCpuUtilization))"
  by (simp_all add: autoscaleNode_def Let_def split: option.split)

lemma autoscaleNode_memory:
  "map_of (Values (autoscaleNode copier node ms)) (Name MetricNodeMemoryReservation) =
     (let alloc = QValue (get_quantity (Allocatable node) ResourceMemory) in
      if alloc \<noteq> 0 then Some \<lparr> IntValue = 0, FloatValue = f_ratio (getInt ms MetricMemoryRequest) alloc, ValueType = ValueFloat \<rparr>
      else map_of (Values ms) (Name MetricNodeMemoryReservation))"
  "map_of (Values (autoscaleNode copier node ms)) (Name MetricNodeMemoryUtilization) =
     (let alloc = QValue (get_quantity (Allocatable node) ResourceMemory) in
      if alloc \<noteq> 0 then Some \<lparr> IntValue = 0, FloatValue = f_ratio (getInt ms MetricMemoryWorkingSet) alloc, ValueType = ValueFloat \<rparr>
      else map_of (Values ms) (Name MetricNodeMemoryUtilization))"
  by (simp_all add: autoscaleNode_def Let_def split: option.split)

definition fits :: "int64 \<Rightarrow> int64 \<Rightarrow> bool" where
  "fits a b \<longleftrightarrow> 0 \<le> sint a \<and> sint a \<le> sint b \<and> 0 < sint b"

definition unit_metric :: "metric_set \<Rightarrow> metric \<Rightarrow> bool" where
  "unit_metric ms m \<longleftrightarrow> (\<exists>q. map_of (Values ms) (Name m) = Some \<lparr> IntValue = 0, FloatValue = Fin q, ValueType = ValueFloat \<rparr> \<and> 0 \<le> q \<and> q \<le> 1)"

text \<open>
  When a node's requests and usage are between zero and what it can allocate, its CPU and memory
  reservation and utilization are fractions between 0 and 1, also after rounding to floating point
  and for any 64-bit amounts.
\<close>

theorem autoscaleNode_unit:
  assumes "fits (getInt ms MetricCpuRequest) (MilliValue (get_quantity (Allocatable node) ResourceCPU))"
    "fits (getInt ms MetricCpuUsageRate) (MilliValue (get_quantity (Allocatable node) ResourceCPU))"
    "fits (getInt ms MetricMemoryRequest) (QValue (get_quantity (Allocatable node) ResourceMemory))"
    "fits (getInt ms MetricMemoryWorkingSet) (QValue (get_quantity (Allocatable node) ResourceMemory))"
  shows "unit_metric (autoscaleNode copier node ms) MetricNodeCpuReservation \<and>
    unit_metric (autoscaleNode copier node ms) MetricNodeCpuUtilization \<and>
    unit_metric (autoscaleNode copier node ms) MetricNodeMemoryReservation \<and>
    unit_metric (autoscaleNode copier node ms) MetricNodeMemoryUtilization"
proof -
  have "\<exists>q. f_ratio a b = Fin q \<and> 0 \<le> q \<and> q \<le> 1" "b \<noteq> 0" if "fits a b" for a b
    using that f_ratio_unit by (auto simp: fits_def)
  note unit = this
  show ?thesis unfolding unit_metric_def autoscaleNode_cpu autoscaleNode_memory Let_def
    using unit [OF assms(1)] unit [OF assms(2)] unit [OF assms(3)] unit [OF assms(4)] by auto
qed

definition sample_node :: node where
  "sample_node = \<lparr> nodeMeta = \<lparr> mtName = ''n1'', mtNamespace = [], mtUID = [], mtLabels = [], mtAnnotations = [] \<rparr>,
     Capacity = [], Allocatable = [(''cpu'', \<lparr> MilliValue = 4000, QValue = 4 \<rparr>), (''memory'', \<lparr> MilliValue = 0, QValue = 1024 \<rparr>)],
     nodeConditions = [], Addresses = [], Taints = [], ProviderID = [], PodCIDR = [], KernelVersion = [], OSImage = [],
     ContainerRuntimeVersion = [], KubeletVersion = [], KubeProxyVersion = [] \<rparr>"

theorem autoscaleNode_unit_witness:
  "unit_metric (autoscaleNode (NewLabelCopier '','' [] []) sample_node (putInt (Name MetricCpuRequest) 1000 (newSet []))) MetricNodeCpuReservation"
  using autoscaleNode_unit [of "putInt (Name MetricCpuRequest) 1000 (newSet [])" sample_node]
  by (simp add: fits_def getInt_def sample_node_def get_quantity_def newSet_def intValue_def)

section \<open>Namespaces\<close>

lemma addNamespaceInfo_other: "l \<noteq> Key LabelPodNamespaceUID \<Longrightarrow> map_of (Labels (addNamespaceInfo store ms)) l = map_of (Labels ms) l"
  by (simp add: addNamespaceInfo_def del: label_keys split: option.split store_result.split)

lemma addNamespaceInfo_Values [simp]:
  "Values (addNamespaceInfo store ms) = Values ms" "LabeledValues (addNamespaceInfo store ms) = LabeledValues ms"
  by (simp_all add: addNamespaceInfo_def split: option.split store_result.split)

end
