(* ===== verification/Point_Converter.thy ===== *)
theory Point_Converter
  imports Aggregators Kube_Util
begin

text \<open>
  The last processor of the pipeline (\<^verbatim>\<open>plugins/sources/summary/wavefront_converter.go\<close> and
  \<^verbatim>\<open>converter_utils.go\<close>): it turns the values of the metric sets into Wavefront points.

  The code makes one tag map for each set, and every point of the set holds that same map; filtering
  the tags of one point therefore changes the map for the points after it. The map is threaded
  through the conversion of a set. (The points before it had the same filter applied, so the map only
  changes at the first point that passes.)
\<close>

section \<open>Model\<close>

record point_converter =
  cvCluster :: string
  cvPrefix :: string
  cvTags :: strmap
  cvFilters :: "glob_filter option"

definition NewPointConverter :: "glob_compiler \<Rightarrow> summary_source_config \<Rightarrow> string \<Rightarrow> point_converter" where
  "NewPointConverter gc cfg cluster =
     (let cluster = TrimSpace cluster; cluster = (if cluster = [] then ''k8s-cluster'' else cluster) in
      \<lparr> cvCluster = cluster, cvPrefix = GetStringValue (Prefix (smTransforms cfg)) ''kubernetes.'',
        cvTags = Tags (smTransforms cfg), cvFilters = FromConfig gc (Filters (smTransforms cfg)) \<rparr>)"

definition PointConverter_Name :: string where
  "PointConverter_Name = ''wavefront_point_converter''"

abbreviation sysSubContainerName :: string where
  "sysSubContainerName \<equiv> ''system.slice/''"

definition sortedMetricSetKeys :: "(resource_key, metric_set) gomap \<Rightarrow> resource_key list" where
  "sortedMetricSetKeys m = sort (map fst m)"

definition sortedMetricValueKeys :: "(string, mvalue) gomap \<Rightarrow> string list" where
  "sortedMetricValueKeys m = sort (map fst m)"

definition sortedLabelKeys :: "strmap \<Rightarrow> string list" where
  "sortedLabelKeys m = sort (map fst m)"

definition addUserLabel :: "string \<Rightarrow> strmap \<Rightarrow> strmap" where
  "addUserLabel label tags =
     (let tagParts = SplitN2 CHR '':'' label in
      if length tagParts = 2 then gput (''label.'' @ tagParts ! 0) (tagParts ! 1) tags else tags)"

definition addLabelTags :: "metric_set \<Rightarrow> strmap \<Rightarrow> strmap" where
  "addLabelTags ms tags =
     fold (\<lambda>labelName tags.
             let labelValue = get_str (Labels ms) labelName in
             if labelName = ''labels'' then fold addUserLabel (split_on CHR '','' labelValue) tags
             else gput labelName labelValue tags)
       (sortedLabelKeys (Labels ms)) tags"

definition cleanMetricName :: "point_converter \<Rightarrow> string \<Rightarrow> string \<Rightarrow> string" where
  "cleanMetricName conv metricType metricName = cvPrefix conv @ metricType @ ''.'' @ ReplaceAll metricName ''/'' ''.''"

definition floatOf :: "mvalue \<Rightarrow> f64 option" where
  "floatOf v = (if ValueType v = ValueInt64 then Some (f_of_int64 (IntValue v))
                else if ValueType v = ValueFloat then Some (FloatValue v) else None)"

text \<open>The state of the conversion: the metrics so far and the two counters.\<close>

record conv_state =
  cvMetrics :: "wf_metric option list"
  collectedPoints :: nat
  cvFiltered :: nat

text \<open>One point is made, filtered and appended; the result also has the tag map after filtering.\<close>

definition emitPoint :: "point_converter \<Rightarrow> string \<Rightarrow> f64 \<Rightarrow> int64 \<Rightarrow> string \<Rightarrow> strmap \<Rightarrow> conv_state \<Rightarrow> strmap \<times> conv_state" where
  "emitPoint conv name v ts source tags st =
     (let (res, n) = wf_Filter (cvFilters conv) (Some (MPoint (NewPoint name v ts source tags)));
          st = st \<lparr> collectedPoints := collectedPoints st + 1, cvFiltered := cvFiltered st + n \<rparr>
      in case res of
           Some m \<Rightarrow> ((case m of MPoint p \<Rightarrow> ptags p | MDist _ \<Rightarrow> tags), st \<lparr> cvMetrics := cvMetrics st @ [Some m] \<rparr>)
         | None \<Rightarrow> (tags, st))"

definition valueSource :: "point_converter \<Rightarrow> string \<Rightarrow> string \<Rightarrow> string \<Rightarrow> strmap \<Rightarrow> string" where
  "valueSource conv nodeName metricType hostname tags =
     (if nodeName \<noteq> [] then nodeName
      else if metricType = ''cluster'' then cvCluster conv
      else if metricType = ''ns'' then get_str tags ''namespace_name'' @ ''-ns''
      else hostname)"

fun convertValues :: "point_converter \<Rightarrow> string \<Rightarrow> time \<Rightarrow> string \<Rightarrow> string \<Rightarrow> (string, mvalue) gomap \<Rightarrow> string list \<Rightarrow>
    strmap \<times> conv_state \<Rightarrow> strmap \<times> conv_state" where
  "convertValues conv nodeName ts metricType hostname vals [] st = st"
| "convertValues conv nodeName ts metricType hostname vals (metricName # names) (tags, st) =
     (case map_option floatOf (map_of vals metricName) of
        Some (Some v) \<Rightarrow>
          convertValues conv nodeName ts metricType hostname vals names
            (emitPoint conv (cleanMetricName conv metricType metricName) v (Time_Unix ts)
               (valueSource conv nodeName metricType hostname tags) tags st)
      | _ \<Rightarrow> convertValues conv nodeName ts metricType hostname vals names (tags, st))"

text \<open>A labelled value has its own map, into which the tags of the set are copied.\<close>

fun convertLabeled :: "point_converter \<Rightarrow> string \<Rightarrow> time \<Rightarrow> string \<Rightarrow> string \<Rightarrow> strmap \<Rightarrow> labeled_value list \<Rightarrow> conv_state \<Rightarrow>
    labeled_value list \<times> conv_state" where
  "convertLabeled conv nodeName ts metricType hostname tags [] st = ([], st)"
| "convertLabeled conv nodeName ts metricType hostname tags (metric # rest) st =
     (case floatOf (lvValue metric) of
        None \<Rightarrow> (let (lvs, st) = convertLabeled conv nodeName ts metricType hostname tags rest st in (metric # lvs, st))
      | Some v \<Rightarrow>
          (let source = (if nodeName = [] then hostname else nodeName);
               labels = put_all tags (lvLabels metric);
               (labels, st) = emitPoint conv (cleanMetricName conv metricType (lvName metric)) v (Time_Unix ts) source labels st;
               (lvs, st) = convertLabeled conv nodeName ts metricType hostname tags rest st
           in (metric \<lparr> lvLabels := labels \<rparr> # lvs, st)))"

definition convertSet :: "point_converter \<Rightarrow> string \<Rightarrow> time \<Rightarrow> metric_set \<Rightarrow> conv_state \<Rightarrow> metric_set \<times> conv_state" where
  "convertSet conv nodeName ts ms st =
     (let tags = addLabelTags ms [];
          hostname = get_str tags ''hostname''; metricType = get_str tags ''type'' in
      if Contains (get_str tags ''container_name'') sysSubContainerName then (ms, st)
      else (let (tags, st) = convertValues conv nodeName ts metricType hostname (Values ms) (sortedMetricValueKeys (Values ms)) (tags, st);
                (lvs, st) = convertLabeled conv nodeName ts metricType hostname tags (LabeledValues ms) st
            in (ms \<lparr> LabeledValues := lvs \<rparr>, st)))"

fun convertSets :: "point_converter \<Rightarrow> string \<Rightarrow> time \<Rightarrow> resource_key list \<Rightarrow> (resource_key, metric_set) gomap \<times> conv_state \<Rightarrow>
    (resource_key, metric_set) gomap \<times> conv_state" where
  "convertSets conv nodeName ts [] st = st"
| "convertSets conv nodeName ts (key # keys) (sets, st) =
     (case map_of sets key of
        None \<Rightarrow> convertSets conv nodeName ts keys (sets, st)
      | Some ms \<Rightarrow>
          (let (ms, st) = convertSet conv nodeName ts ms st
           in convertSets conv nodeName ts keys (gput key ms sets, st)))"

text \<open>\<^verbatim>\<open>Process\<close>; the counters of the process are threaded.\<close>

definition PointConverter_Process :: "point_converter \<Rightarrow> env \<Rightarrow> nat \<times> nat \<Rightarrow> batch \<Rightarrow> batch go_result \<times> nat \<times> nat" where
  "PointConverter_Process conv e = (\<lambda>(collected, filtered) b.
     (if length (Sets b) = 0 then (Inr b, collected, filtered)
      else (let (sets, st) = convertSets conv (GetNodeName e) (Timestamp b) (sortedMetricSetKeys (Sets b))
                   (Sets b, \<lparr> cvMetrics = Metrics b, collectedPoints = collected, cvFiltered = filtered \<rparr>)
            in (Inr (b \<lparr> Sets := sets, Metrics := cvMetrics st \<rparr>), collectedPoints st, cvFiltered st))))"

section \<open>Accounting\<close>

definition numeric :: "mvalue \<Rightarrow> bool" where "numeric v \<longleftrightarrow> floatOf v \<noteq> None"

definition is_system :: "metric_set \<Rightarrow> bool" where
  "is_system ms \<longleftrightarrow> Contains (get_str (addLabelTags ms []) ''container_name'') sysSubContainerName"

definition set_points :: "metric_set \<Rightarrow> nat" where
  "set_points ms = (if is_system ms then 0
     else length (filter (\<lambda>(_, v). numeric v) (Values ms)) + length (filter (\<lambda>l. numeric (lvValue l)) (LabeledValues ms)))"

text \<open>\<open>n\<close> points were collected between two states, and each was appended or filtered.\<close>

definition advanced :: "nat \<Rightarrow> conv_state \<Rightarrow> conv_state \<Rightarrow> bool" where
  "advanced n st st' \<longleftrightarrow> collectedPoints st' = collectedPoints st + n \<and>
     length (cvMetrics st') + cvFiltered st' = length (cvMetrics st) + cvFiltered st + n"

lemma advanced_0 [simp]: "advanced 0 st st"
  by (simp add: advanced_def)

lemma advanced_trans: "advanced m st st' \<Longrightarrow> advanced n st' st'' \<Longrightarrow> advanced (m + n) st st''"
  by (simp add: advanced_def)

lemma emitPoint_advanced: "advanced 1 st (snd (emitPoint conv name v ts source tags st))"
  by (simp add: emitPoint_def advanced_def wf_Filter_def Let_def split: option.split)

lemma convertValues_advanced:
  "advanced (length (filter (\<lambda>n. \<exists>v. map_of vals n = Some v \<and> numeric v) names)) (snd st)
     (snd (convertValues conv nodeName ts mt host vals names st))"
proof (induction conv nodeName ts mt host vals names st rule: convertValues.induct)
  case (2 conv nodeName ts mt host vals n names tags st)
  show ?case
  proof (cases "map_option floatOf (map_of vals n)")
    case None
    with 2 show ?thesis by simp
  next
    case (Some o1)
    show ?thesis
    proof (cases o1)
      case None
      with Some 2 show ?thesis by (auto simp: numeric_def)
    next
      case x: (Some x)
      let ?st = "emitPoint conv (cleanMetricName conv mt n) x (Time_Unix ts) (valueSource conv nodeName mt host tags) tags st"
      have "advanced (length (filter (\<lambda>n. \<exists>v. map_of vals n = Some v \<and> numeric v) names)) (snd ?st)
          (snd (convertValues conv nodeName ts mt host vals names ?st))"
        using 2 Some x by simp
      from advanced_trans [OF emitPoint_advanced this] Some x show ?thesis by (auto simp: numeric_def)
    qed
  qed
qed simp

lemma convertLabeled_advanced:
  "advanced (length (filter (\<lambda>l. numeric (lvValue l)) lvs)) st (snd (convertLabeled conv nodeName ts mt host tags lvs st))"
proof (induction lvs arbitrary: st)
  case (Cons lv lvs)
  show ?case
  proof (cases "floatOf (lvValue lv)")
    case None
    with Cons [of st] show ?thesis by (simp add: numeric_def case_prod_unfold Let_def)
  next
    case (Some x)
    let ?e = "emitPoint conv (cleanMetricName conv mt (lvName lv)) x (Time_Unix ts) (if nodeName = [] then host else nodeName)
      (put_all tags (lvLabels lv)) st"
    from advanced_trans [OF emitPoint_advanced Cons [of "snd ?e"]] Some show ?thesis
      by (simp add: numeric_def case_prod_unfold Let_def)
  qed
qed simp

lemma numeric_keys:
  fixes m :: "(string, mvalue) gomap"
  assumes "wf_map m"
  shows "length (filter (\<lambda>n. \<exists>v. map_of m n = Some v \<and> numeric v) (sort (map fst m))) = length (filter (\<lambda>(_, v). numeric v) m)"
proof -
  have sorted: "length (filter P (sort xs)) = length (filter P xs)" for P and xs :: "string list"
    by (metis mset_filter mset_sort size_mset)
  have "filter (\<lambda>n. \<exists>v. map_of m n = Some v \<and> numeric v) (map fst m) = map fst (filter (\<lambda>(_, v). numeric v) m)"
    unfolding filter_map comp_def using assms by (intro arg_cong [of _ _ "map fst"] filter_cong)
      (auto dest: eq_key_imp_eq_value)
  then show ?thesis by (simp only: sorted length_map)
qed

lemma convertSet_advanced:
  assumes "wf_map (Values ms)"
  shows "advanced (set_points ms) st (snd (convertSet conv nodeName ts ms st))"
proof (cases "is_system ms")
  case True
  then show ?thesis by (simp add: convertSet_def is_system_def set_points_def Let_def)
next
  case False
  let ?tags = "addLabelTags ms []"
  let ?v = "convertValues conv nodeName ts (get_str ?tags ''type'') (get_str ?tags ''hostname'') (Values ms) (sortedMetricValueKeys (Values ms)) (?tags, st)"
  have "advanced (length (filter (\<lambda>(_, v). numeric v) (Values ms))) st (snd ?v)"
    unfolding numeric_keys [OF assms, symmetric] sortedMetricValueKeys_def
    by (rule convertValues_advanced [where st = "(?tags, st)", unfolded snd_conv])
  from advanced_trans [OF this convertLabeled_advanced] False show ?thesis
    by (simp add: convertSet_def is_system_def set_points_def Let_def case_prod_unfold)
qed

lemma convertSets_advanced:
  assumes "distinct keys" "\<forall>k ms. map_of sets k = Some ms \<longrightarrow> wf_map (Values ms)"
  shows "advanced (\<Sum>k \<leftarrow> keys. case map_of sets k of None \<Rightarrow> 0 | Some ms \<Rightarrow> set_points ms) st
    (snd (convertSets conv nodeName ts keys (sets, st)))"
  using assms
proof (induction keys arbitrary: sets st)
  case (Cons k keys)
  show ?case
  proof (cases "map_of sets k")
    case None
    with Cons show ?thesis by simp
  next
    case (Some ms)
    obtain ms' st' where c: "convertSet conv nodeName ts ms st = (ms', st')" by fastforce
    have "Values ms' = Values ms"
      using c by (auto simp: convertSet_def Let_def case_prod_unfold split: if_splits)
    with Cons.prems Some have "\<forall>k' ms. map_of (gput k ms' sets) k' = Some ms \<longrightarrow> wf_map (Values ms)" by auto
    moreover have "(\<Sum>x \<leftarrow> keys. case map_of (gput k ms' sets) x of None \<Rightarrow> 0 | Some ms \<Rightarrow> set_points ms) =
        (\<Sum>x \<leftarrow> keys. case map_of sets x of None \<Rightarrow> 0 | Some ms \<Rightarrow> set_points ms)"
      using Cons.prems(1) by (intro arg_cong [of _ _ sum_list] map_cong) auto
    ultimately have "advanced (\<Sum>x \<leftarrow> keys. case map_of sets x of None \<Rightarrow> 0 | Some ms \<Rightarrow> set_points ms) st'
        (snd (convertSets conv nodeName ts keys (gput k ms' sets, st')))"
      using Cons.IH [of "gput k ms' sets" st'] Cons.prems(1) by simp
    moreover have "advanced (set_points ms) st st'" using convertSet_advanced [of ms st conv nodeName ts] Cons.prems(2) Some c by simp
    ultimately show ?thesis using advanced_trans Some c by simp
  qed
qed simp

lemma sum_sorted_keys:
  assumes "wf_map m"
  shows "(\<Sum>k \<leftarrow> sort (map fst m). case map_of m k of None \<Rightarrow> 0 | Some x \<Rightarrow> f x) = (\<Sum>(k, x) \<leftarrow> m. f x :: nat)"
proof -
  let ?g = "\<lambda>k. case map_of m k of None \<Rightarrow> 0 | Some x \<Rightarrow> f x"
  have "mset (map ?g (sort (map fst m))) = mset (map ?g (map fst m))" by (simp only: mset_map mset_sort)
  then have "sum_list (map ?g (sort (map fst m))) = sum_list (map ?g (map fst m))"
    by (metis sum_mset_sum_list)
  also have "map ?g (map fst m) = map (\<lambda>(k, x). f x) m"
    using assms by (auto intro!: map_cong simp: comp_def)
  finally show ?thesis .
qed

text \<open>
  C16. Converting a batch collects exactly one point for each numeric value and labelled value of the
  sets that are not system sub-containers, and each collected point is either appended to the batch or
  counted as filtered.
\<close>

theorem PointConverter_accounting:
  assumes "wf_batch b"
  shows "\<exists>b' collected' filtered'. PointConverter_Process conv e (collected, filtered) b = (Inr b', collected', filtered') \<and>
    collected' = collected + (\<Sum>(k, ms) \<leftarrow> Sets b. set_points ms) \<and>
    length (Metrics b') + filtered' = length (Metrics b) + filtered + (\<Sum>(k, ms) \<leftarrow> Sets b. set_points ms)"
proof -
  let ?st = "\<lparr> cvMetrics = Metrics b, collectedPoints = collected, cvFiltered = filtered \<rparr>"
  have wf: "wf_map (Sets b)" "\<forall>k ms. map_of (Sets b) k = Some ms \<longrightarrow> wf_map (Values ms)"
    using assms by (auto simp: wf_batch_def wf_set_def dest: map_of_SomeD)
  have "distinct (sortedMetricSetKeys (Sets b))" using wf by (simp add: sortedMetricSetKeys_def)
  from convertSets_advanced [OF this wf(2), of ?st conv "GetNodeName e" "Timestamp b"]
  have adv: "advanced (\<Sum>(k, ms) \<leftarrow> Sets b. set_points ms) ?st
      (snd (convertSets conv (GetNodeName e) (Timestamp b) (sortedMetricSetKeys (Sets b)) (Sets b, ?st)))"
    by (simp only: sortedMetricSetKeys_def sum_sorted_keys [OF wf(1)])
  show ?thesis
  proof (cases "Sets b = []")
    case True
    then show ?thesis by (simp add: PointConverter_Process_def)
  next
    case False
    with adv show ?thesis by (simp add: PointConverter_Process_def case_prod_unfold advanced_def Let_def)
  qed
qed

definition sample_sets :: "(resource_key, metric_set) gomap" where
  "sample_sets =
     [(NodeKey ''n1'', (newSet [(''type'', ''node''), (''hostname'', ''h1''), (''labels'', ''role:db,x'')])
         \<lparr> Values := [(''cpu/usage_rate'', \<lparr> IntValue = 250, FloatValue = Fin 0, ValueType = ValueInt64 \<rparr>),
                     (''uptime'', \<lparr> IntValue = 7, FloatValue = Fin 0, ValueType = ValueInt64 \<rparr>)] \<rparr>)]"

section \<open>Points of an unfiltered set\<close>

lemma emitPoint_unfiltered:
  "cvFilters conv = None \<Longrightarrow> emitPoint conv name v ts source tags st =
     (tags, st \<lparr> cvMetrics := cvMetrics st @ [Some (MPoint (NewPoint name v ts source tags))], collectedPoints := collectedPoints st + 1 \<rparr>)"
  by (simp add: emitPoint_def wf_Filter_def Let_def NewPoint_def)

lemma emitPoint_extends: "\<exists>ms. cvMetrics (snd (emitPoint conv name v ts source tags st)) = cvMetrics st @ ms"
  by (simp add: emitPoint_def Let_def wf_Filter_def split: option.split)

lemma convertValues_extends: "\<exists>ms. cvMetrics (snd (convertValues conv nodeName ts mt host vals names st)) = cvMetrics (snd st) @ ms"
proof (induction names arbitrary: st)
  case (Cons n names)
  obtain tags s where st: "st = (tags, s)" by (cases st)
  show ?case
  proof (cases "\<exists>v. map_option floatOf (map_of vals n) = Some (Some v)")
    case True
    then obtain v where v: "map_option floatOf (map_of vals n) = Some (Some v)" by blast
    let ?e = "emitPoint conv (cleanMetricName conv mt n) v (Time_Unix ts) (valueSource conv nodeName mt host tags) tags s"
    obtain m1 where "cvMetrics (snd ?e) = cvMetrics s @ m1" using emitPoint_extends by blast
    with Cons [of ?e] v st show ?thesis by (auto simp: append_assoc)
  qed (use Cons [of st] st in \<open>auto split: option.splits\<close>)
qed simp

lemma convertLabeled_extends: "\<exists>ms. cvMetrics (snd (convertLabeled conv nodeName ts mt host tags lvs st)) = cvMetrics st @ ms"
proof (induction lvs arbitrary: st)
  case (Cons lv lvs)
  show ?case
  proof (cases "floatOf (lvValue lv)")
    case None
    with Cons [of st] show ?thesis by (simp add: case_prod_unfold Let_def)
  next
    case (Some v)
    let ?e = "emitPoint conv (cleanMetricName conv mt (lvName lv)) v (Time_Unix ts) (if nodeName = [] then host else nodeName)
      (put_all tags (lvLabels lv)) st"
    obtain m1 where "cvMetrics (snd ?e) = cvMetrics st @ m1" using emitPoint_extends by blast
    with Cons [of "snd ?e"] Some show ?thesis by (auto simp: case_prod_unfold Let_def append_assoc)
  qed
qed simp

lemma convertSet_extends: "\<exists>ms'. cvMetrics (snd (convertSet conv nodeName ts ms st)) = cvMetrics st @ ms'"
proof (cases "is_system ms")
  case True
  then show ?thesis by (simp add: convertSet_def is_system_def Let_def)
next
  case False
  let ?tags = "addLabelTags ms []"
  let ?v = "convertValues conv nodeName ts (get_str ?tags ''type'') (get_str ?tags ''hostname'') (Values ms) (sortedMetricValueKeys (Values ms)) (?tags, st)"
  let ?l = "convertLabeled conv nodeName ts (get_str ?tags ''type'') (get_str ?tags ''hostname'') (fst ?v) (LabeledValues ms) (snd ?v)"
  obtain m1 m2 where "cvMetrics (snd ?v) = cvMetrics st @ m1" "cvMetrics (snd ?l) = cvMetrics (snd ?v) @ m2"
    using convertValues_extends [of conv nodeName ts _ _ _ _ "(?tags, st)"] convertLabeled_extends by (metis snd_conv)
  moreover have "snd (convertSet conv nodeName ts ms st) = snd ?l"
    using False by (simp add: convertSet_def is_system_def Let_def case_prod_unfold)
  ultimately show ?thesis by simp
qed

lemma convertSets_extends: "\<exists>ms'. cvMetrics (snd (convertSets conv nodeName ts keys (sets, st))) = cvMetrics st @ ms'"
proof (induction keys arbitrary: sets st)
  case (Cons k keys)
  show ?case
  proof (cases "map_of sets k")
    case None
    with Cons show ?thesis by simp
  next
    case (Some ms)
    obtain ms' st' where c: "convertSet conv nodeName ts ms st = (ms', st')" by fastforce
    with convertSet_extends [of conv nodeName ts ms st] obtain m1 where "cvMetrics st' = cvMetrics st @ m1" by auto
    with Cons [of "gput k ms' sets" st'] Some c show ?thesis by (auto simp: append_assoc)
  qed
qed simp

text \<open>The point of one value of a set.\<close>

definition value_point :: "point_converter \<Rightarrow> string \<Rightarrow> time \<Rightarrow> metric_set \<Rightarrow> string \<Rightarrow> f64 \<Rightarrow> wf_metric" where
  "value_point conv nodeName ts ms n x =
     (let tags = addLabelTags ms [] in
      MPoint (NewPoint (cleanMetricName conv (get_str tags ''type'') n) x (Time_Unix ts)
        (valueSource conv nodeName (get_str tags ''type'') (get_str tags ''hostname'') tags) tags))"

lemma convertValues_emits:
  assumes "cvFilters conv = None" "n \<in> set names" "map_of vals n = Some v" "floatOf v = Some x"
  shows "Some (MPoint (NewPoint (cleanMetricName conv mt n) x (Time_Unix ts) (valueSource conv nodeName mt host tags) tags)) \<in>
    set (cvMetrics (snd (convertValues conv nodeName ts mt host vals names (tags, st))))"
  using assms(2)
proof (induction names arbitrary: st)
  case (Cons n' names)
  show ?case
  proof (cases "n' = n")
    case True
    let ?e = "emitPoint conv (cleanMetricName conv mt n) x (Time_Unix ts) (valueSource conv nodeName mt host tags) tags st"
    obtain m where "cvMetrics (snd (convertValues conv nodeName ts mt host vals names ?e)) = cvMetrics (snd ?e) @ m"
      using convertValues_extends by blast
    with True assms show ?thesis by (simp add: emitPoint_unfiltered [OF assms(1)])
  next
    case False
    with Cons show ?thesis
      by (cases "map_option floatOf (map_of vals n')" rule: option.exhaust)
         (auto simp: emitPoint_unfiltered [OF assms(1)] split: option.splits)
  qed
qed simp

lemma convertSet_emits:
  assumes "cvFilters conv = None" "\<not> is_system ms" "map_of (Values ms) n = Some v" "floatOf v = Some x"
  shows "Some (value_point conv nodeName ts ms n x) \<in> set (cvMetrics (snd (convertSet conv nodeName ts ms st)))"
proof -
  let ?tags = "addLabelTags ms []"
  let ?v = "convertValues conv nodeName ts (get_str ?tags ''type'') (get_str ?tags ''hostname'') (Values ms) (sortedMetricValueKeys (Values ms)) (?tags, st)"
  let ?l = "convertLabeled conv nodeName ts (get_str ?tags ''type'') (get_str ?tags ''hostname'') (fst ?v) (LabeledValues ms) (snd ?v)"
  have "n \<in> set (sortedMetricValueKeys (Values ms))"
    using map_of_SomeD [OF assms(3)] by (force simp: sortedMetricValueKeys_def)
  from convertValues_emits [OF assms(1) this assms(3,4)]
  have "Some (value_point conv nodeName ts ms n x) \<in> set (cvMetrics (snd ?v))" by (simp add: value_point_def Let_def)
  moreover obtain m where "cvMetrics (snd ?l) = cvMetrics (snd ?v) @ m" using convertLabeled_extends by blast
  moreover have "snd (convertSet conv nodeName ts ms st) = snd ?l"
    using assms(2) by (simp add: convertSet_def is_system_def Let_def case_prod_unfold)
  ultimately show ?thesis by simp
qed

lemma convertSets_emits:
  assumes "cvFilters conv = None" "\<not> is_system ms" "map_of (Values ms) n = Some v" "floatOf v = Some x"
    and "distinct keys" "k \<in> set keys" "map_of sets k = Some ms"
  shows "Some (value_point conv nodeName ts ms n x) \<in> set (cvMetrics (snd (convertSets conv nodeName ts keys (sets, st))))"
  using assms(5-7)
proof (induction keys arbitrary: sets st)
  case (Cons k' keys)
  show ?case
  proof (cases "k' = k")
    case True
    obtain ms' st' where c: "convertSet conv nodeName ts ms st = (ms', st')" by fastforce
    have "Some (value_point conv nodeName ts ms n x) \<in> set (cvMetrics st')"
      using convertSet_emits [OF assms(1-4), of nodeName ts st] c by simp
    moreover obtain m where "cvMetrics (snd (convertSets conv nodeName ts keys (gput k ms' sets, st'))) = cvMetrics st' @ m"
      using convertSets_extends by blast
    ultimately show ?thesis using True Cons.prems c by simp
  next
    case False
    show ?thesis
    proof (cases "map_of sets k'")
      case None
      with False Cons show ?thesis by simp
    next
      case (Some ms2)
      obtain ms3 st' where c: "convertSet conv nodeName ts ms2 st = (ms3, st')" by fastforce
      with Cons.IH [of "gput k' ms3 sets" st'] Cons.prems False Some show ?thesis by simp
    qed
  qed
qed simp


definition sample_converter :: point_converter where
  "sample_converter = \<lparr> cvCluster = ''prod'', cvPrefix = ''kubernetes.'', cvTags = [], cvFilters = None \<rparr>"

definition sample_conv_batch :: batch where
  "sample_conv_batch = \<lparr> Timestamp = 5 * 10 ^ 9, Sets = sample_sets, Metrics = [] \<rparr>"

lemma sample_conv_wf: "wf_batch sample_conv_batch"
  by (simp add: wf_batch_def sample_conv_batch_def sample_sets_def wf_set_def newSet_def)

theorem PointConverter_accounting_witness:
  "\<exists>b' c f. PointConverter_Process sample_converter [] (0, 0) sample_conv_batch = (Inr b', c, f) \<and> length (Metrics b') + f = c"
  using PointConverter_accounting [OF sample_conv_wf, of sample_converter "[]" 0 0] by (simp add: sample_conv_batch_def) metis


section \<open>Well-formed results\<close>

lemma fold_wf: "(\<And>x m. wf_map m \<Longrightarrow> wf_map (f x m)) \<Longrightarrow> wf_map m \<Longrightarrow> wf_map (fold f xs m)"
  by (induction xs arbitrary: m) simp_all

lemma wf_addLabelTags [simp, wf_intros]: "wf_map tags \<Longrightarrow> wf_map (addLabelTags ms tags)"
  unfolding addLabelTags_def
  by (rule fold_wf) (auto simp: Let_def intro!: fold_wf simp: addUserLabel_def)

definition valid_state :: "conv_state \<Rightarrow> bool" where
  "valid_state st \<longleftrightarrow> (\<forall>m. Some m \<in> set (cvMetrics st) \<longrightarrow> valid_metric m)"

lemma emitPoint_wf:
  assumes "wf_map tags" "valid_state st" "emitPoint conv name v ts source tags st = (tags', st')"
  shows "wf_map tags' \<and> valid_state st'"
proof -
  have "valid_point (NewPoint name v ts source tags)" using assms(1) by (simp add: valid_point_def NewPoint_def)
  with pt.valid_kept(1) [OF this] assms show ?thesis
    by (auto simp: emitPoint_def wf_Filter_def Let_def valid_state_def valid_point_def NewPoint_def split: option.splits if_splits)
qed

lemma convertValues_wf:
  "wf_map (fst st) \<Longrightarrow> valid_state (snd st) \<Longrightarrow> wf_map (fst (convertValues conv nodeName ts mt host vals names st)) \<and>
     valid_state (snd (convertValues conv nodeName ts mt host vals names st))"
proof (induction names arbitrary: st)
  case (Cons n names)
  obtain tags s where st: "st = (tags, s)" by (cases st)
  show ?case
  proof (cases "\<exists>v. map_option floatOf (map_of vals n) = Some (Some v)")
    case True
    then obtain v where v: "map_option floatOf (map_of vals n) = Some (Some v)" by blast
    let ?e = "emitPoint conv (cleanMetricName conv mt n) v (Time_Unix ts) (valueSource conv nodeName mt host tags) tags s"
    have "wf_map (fst ?e) \<and> valid_state (snd ?e)"
      using emitPoint_wf [of tags s conv "cleanMetricName conv mt n" v "Time_Unix ts" "valueSource conv nodeName mt host tags"] Cons.prems st
      by (metis fst_conv snd_conv prod.collapse)
    with Cons.IH [of ?e] v st show ?thesis by auto
  qed (use Cons st in \<open>auto split: option.splits\<close>)
qed simp

lemma convertLabeled_wf:
  assumes "\<forall>lv \<in> set lvs. wf_map (lvLabels lv)" "valid_state st"
  shows "(\<forall>lv \<in> set (fst (convertLabeled conv nodeName ts mt host tags lvs st)). wf_map (lvLabels lv)) \<and>
    valid_state (snd (convertLabeled conv nodeName ts mt host tags lvs st))"
  using assms
proof (induction lvs arbitrary: st)
  case (Cons lv lvs)
  show ?case
  proof (cases "floatOf (lvValue lv)")
    case None
    with Cons show ?thesis by (simp add: case_prod_unfold Let_def)
  next
    case (Some v)
    let ?e = "emitPoint conv (cleanMetricName conv mt (lvName lv)) v (Time_Unix ts) (if nodeName = [] then host else nodeName)
      (put_all tags (lvLabels lv)) st"
    have "wf_map (fst ?e) \<and> valid_state (snd ?e)"
      using emitPoint_wf [of "put_all tags (lvLabels lv)" st] Cons.prems wf_put_all
      by (metis list.set_intros(1) prod.collapse)
    with Cons.IH [of "snd ?e"] Cons.prems Some show ?thesis by (simp add: case_prod_unfold Let_def)
  qed
qed simp

lemma convertSet_wf:
  assumes "wf_set ms" "valid_state st"
  shows "wf_set (fst (convertSet conv nodeName ts ms st)) \<and> valid_state (snd (convertSet conv nodeName ts ms st))"
proof -
  let ?tags = "addLabelTags ms []"
  let ?v = "convertValues conv nodeName ts (get_str ?tags ''type'') (get_str ?tags ''hostname'') (Values ms) (sortedMetricValueKeys (Values ms)) (?tags, st)"
  have "valid_state (snd ?v)" using convertValues_wf [of "(?tags, st)"] assms(2) by simp
  with convertLabeled_wf [of "LabeledValues ms" "snd ?v"] assms show ?thesis
    by (simp add: convertSet_def Let_def case_prod_unfold wf_set_def)
qed

lemma convertSets_wf:
  assumes "wf_map sets" "\<forall>(k, s) \<in> set sets. wf_set s" "valid_state st"
  shows "wf_map (fst (convertSets conv nodeName ts keys (sets, st))) \<and>
    (\<forall>(k, s) \<in> set (fst (convertSets conv nodeName ts keys (sets, st))). wf_set s) \<and>
    valid_state (snd (convertSets conv nodeName ts keys (sets, st)))"
  using assms
proof (induction keys arbitrary: sets st)
  case (Cons k keys)
  show ?case
  proof (cases "map_of sets k")
    case None
    with Cons show ?thesis by simp
  next
    case (Some ms)
    obtain ms' st' where c: "convertSet conv nodeName ts ms st = (ms', st')" by fastforce
    have "wf_set ms" using Cons.prems(2) map_of_SomeD [OF Some] by blast
    with convertSet_wf [of ms st conv nodeName ts] Cons.prems(3) c have "wf_set ms'" "valid_state st'" by simp_all
    moreover from this(1) Cons.prems(2) set_gput [of k ms' sets] have "\<forall>(k, s) \<in> set (gput k ms' sets). wf_set s" by auto
    ultimately show ?thesis using Cons.IH [of "gput k ms' sets" st'] Cons.prems(1) Some c by simp
  qed
qed simp

lemma PointConverter_wf:
  assumes "wf_batch b"
  shows "\<exists>b' c. PointConverter_Process conv e cnt b = (Inr b', c) \<and> wf_batch b'"
proof -
  obtain collected filtered where cnt: "cnt = (collected, filtered)" by (cases cnt)
  show ?thesis
    using assms convertSets_wf [of "Sets b" "\<lparr> cvMetrics = Metrics b, collectedPoints = collected, cvFiltered = filtered \<rparr>"
        conv "GetNodeName e" "Timestamp b" "sortedMetricSetKeys (Sets b)"]
    by (simp add: cnt PointConverter_Process_def case_prod_unfold Let_def wf_batch_def valid_state_def)
qed

section \<open>The shared tag map\<close>

text \<open>
  Because all points of a set share one tag map, a filter that both selects by a tag and removes that
  tag drops every point of a set after the first one, though each of them matches on its own.
\<close>

definition hiding_filter :: glob_filter where
  "hiding_filter = \<lparr> metricAllowList = None, metricDenyList = None, metricTagAllowList = Some [(''type'', \<lambda>v. v = ''node'')],
     metricTagDenyList = None, tagInclude = None, tagExclude = Some (\<lambda>n. n = ''type'') \<rparr>"

lemma PointConverter_shared_tags:
  "MatchMetric hiding_filter name (addLabelTags (snd (hd sample_sets)) [])"
  "\<exists>b'. PointConverter_Process (sample_converter \<lparr> cvFilters := Some hiding_filter \<rparr>) [] (0, 0) sample_conv_batch = (Inr b', 2, 1)"
  by (simp_all add: MatchMetric_def MatchTag_def hiding_filter_def sample_sets_def sample_converter_def sample_conv_batch_def
      PointConverter_Process_def sortedMetricSetKeys_def convertSet_def addLabelTags_def sortedLabelKeys_def sortedMetricValueKeys_def
      newSet_def addUserLabel_def SplitN2_def Let_def get_str_def HasPrefix_def emitPoint_def wf_Filter_def floatOf_def
      NewPoint_def Point_Name_def Point_Tags_def Point_FilterTags_def)

end
