(* ===== verification/Machine.thy ===== *)
theory Machine
  imports Prelude
begin

text \<open>
  The interface of a component with state: an initial state, a step relation and an invariant. The
  provider proves that the invariant holds initially and that each step keeps it; what holds in every
  reachable state, and along every run, follows here once.
\<close>

locale machine =
  fixes initial :: "'s \<Rightarrow> bool"
    and step :: "'s \<Rightarrow> 'e \<Rightarrow> 's \<Rightarrow> bool"
    and invar :: "'s \<Rightarrow> bool"
  assumes invar_initial: "initial s \<Longrightarrow> invar s"
    and invar_step: "invar s \<Longrightarrow> step s e t \<Longrightarrow> invar t"
begin

inductive run :: "'s \<Rightarrow> 'e list \<Rightarrow> 's \<Rightarrow> bool" where
  run_Nil: "run s [] s"
| run_Cons: "step s e t \<Longrightarrow> run t es u \<Longrightarrow> run s (e # es) u"

inductive reachable :: "'s \<Rightarrow> bool" where
  reachable_initial: "initial s \<Longrightarrow> reachable s"
| reachable_step: "reachable s \<Longrightarrow> step s e t \<Longrightarrow> reachable t"

lemma run_invar: "run s es t \<Longrightarrow> invar s \<Longrightarrow> invar t"
  by (induction rule: run.induct) (auto intro: invar_step)

lemma reachable_invar: "reachable s \<Longrightarrow> invar s"
  by (induction rule: reachable.induct) (auto intro: invar_initial invar_step)

lemma reachable_run: "run s es t \<Longrightarrow> reachable s \<Longrightarrow> reachable t"
  by (induction rule: run.induct) (auto intro: reachable_step)

lemma run_append: "run s es t \<Longrightarrow> run t es' u \<Longrightarrow> run s (es @ es') u"
  by (induction rule: run.induct) (auto intro: run_Cons)

end

text \<open>A deterministic machine is given by a function.\<close>

locale det_machine =
  fixes start :: 's
    and next_state :: "'s \<Rightarrow> 'e \<Rightarrow> 's"
    and invar :: "'s \<Rightarrow> bool"
  assumes invar_start: "invar start"
    and invar_next: "invar s \<Longrightarrow> invar (next_state s e)"
begin

definition exec :: "'e list \<Rightarrow> 's" where
  "exec es = foldl next_state start es"

lemma foldl_invar: "invar s \<Longrightarrow> invar (foldl next_state s es)"
  by (induction es arbitrary: s) (simp_all add: invar_next)

lemma exec_invar: "invar (exec es)"
  by (simp add: exec_def foldl_invar invar_start)

lemma exec_Nil [simp]: "exec [] = start"
  by (simp add: exec_def)

lemma exec_snoc [simp]: "exec (es @ [e]) = next_state (exec es) e"
  by (simp add: exec_def)

end

sublocale det_machine \<subseteq> m: machine "\<lambda>s. s = start" "\<lambda>s e t. t = next_state s e" invar
  by unfold_locales (auto simp: invar_start invar_next)

end
