(* ===== verification/Source_Manager.thy ===== *)
theory Source_Manager
  imports Batch Configuration Machine
begin

text \<open>
  The source manager (\<^verbatim>\<open>plugins/sources/manager.go\<close>), its interval timers (\<^verbatim>\<open>interval_timer.go\<close>) and
  the provider defaults of \<^verbatim>\<open>internal/metrics/types.go\<close>.

  A registered provider has a timer, a quit channel and a goroutine that scrapes it. Channels are
  numbered; closing one ends the goroutine that listens to it. What a provider's
  \<^verbatim>\<open>GetMetricsSources\<close> returns may depend on the time of the call (a provider may only scrape while it
  leads), so it is an argument of the operations that call it; so are the current time and the outcome
  of scraping a source.
\<close>

section \<open>Interval timers\<close>

record interval_timer =
  tmInterval :: duration
  tmStart :: time
  tmLastReset :: time
  tmWait :: duration

definition NewIntervalTimer :: "time \<Rightarrow> duration \<Rightarrow> interval_timer" where
  "NewIntervalTimer now interval = \<lparr> tmInterval = interval, tmStart = now, tmLastReset = now, tmWait = interval \<rparr>"

definition scaleInterval :: "duration \<Rightarrow> f64 \<Rightarrow> duration" where
  "scaleInterval interval ratio = sint (int64_of_f (f_mul (f_of_int64 (word_of_int interval)) ratio))"

definition intervalsMissed :: "interval_timer \<Rightarrow> time \<Rightarrow> int go_result" where
  "intervalsMissed t now =
     (if Time_Sub now (tmLastReset t) < tmInterval t then Inr 0
      else if tmInterval t = 0 then Inl (GoPanic ''integer divide by zero'')
      else Inr (Time_Sub now (tmLastReset t) sdiv tmInterval t - 1))"

definition waitToNextInterval :: "interval_timer \<Rightarrow> duration \<Rightarrow> duration go_result" where
  "waitToNextInterval t diff =
     (if tmInterval t = 0 then Inl (GoPanic ''integer divide by zero'')
      else (let wait = tmInterval t - diff smod tmInterval t in
            Inr (if wait < scaleInterval (tmInterval t) (rnd (333 / 10000)) then wait + tmInterval t else wait)))"

definition IntervalTimer_Reset :: "interval_timer \<Rightarrow> time \<Rightarrow> (interval_timer \<times> int) go_result" where
  "IntervalTimer_Reset t now =
     (case intervalsMissed t now of
        Inl e \<Rightarrow> Inl e
      | Inr intervals \<Rightarrow>
          (case waitToNextInterval t (Time_Sub now (tmStart t)) of
             Inl e \<Rightarrow> Inl e
           | Inr wait \<Rightarrow> Inr (t \<lparr> tmLastReset := now, tmWait := wait \<rparr>, intervals)))"

section \<open>Providers\<close>

record 's provider =
  pvName :: string
  pvInterval :: duration
  pvTimeout :: duration
  pvConfigurable :: bool
  pvSources :: "'s list"

text \<open>\<^verbatim>\<open>DefaultSourceProvider.Configure\<close>\<close>

definition Configure :: "duration \<Rightarrow> duration \<Rightarrow> 's provider \<Rightarrow> 's provider" where
  "Configure interval timeout p =
     p \<lparr> pvInterval := interval, pvTimeout := (if timeout = 0 then 30 * Second else timeout) \<rparr>"

definition appendProvider :: "'s provider list \<Rightarrow> 's provider go_result \<Rightarrow> collection_config \<Rightarrow> 's provider list" where
  "appendProvider ps p cfg =
     (case p of
        Inl err \<Rightarrow> ps
      | Inr provider \<Rightarrow>
          ps @ [if pvConfigurable provider then Configure (Interval cfg) (Timeout cfg) provider else provider])"

text \<open>The constructors of the source packages.\<close>

record 's provider_factories =
  NewSummaryProvider :: "summary_source_config \<Rightarrow> 's provider go_result"
  NewCadvisorProvider :: "cadvisor_source_config \<Rightarrow> summary_source_config \<Rightarrow> 's provider go_result"
  NewControlPlaneProvider :: "control_plane_source_config \<Rightarrow> summary_source_config \<Rightarrow> 's provider go_result"
  NewSystemdProvider :: "systemd_source_config \<Rightarrow> 's provider go_result"
  NewStatsProvider :: "stats_source_config \<Rightarrow> 's provider go_result"
  NewStateProvider :: "state_source_config \<Rightarrow> 's provider go_result"
  NewTelegrafProvider :: "telegraf_source_config \<Rightarrow> 's provider go_result"
  NewPromProvider :: "prometheus_source_config \<Rightarrow> 's provider go_result"

definition buildProviders :: "'s provider_factories \<Rightarrow> source_config \<Rightarrow> 's provider list go_result" where
  "buildProviders fs cfg =
     (let result = (case SummaryConfig cfg of
             None \<Rightarrow> []
           | Some sm \<Rightarrow>
               (let result = appendProvider [] (NewSummaryProvider fs sm) (smCollection sm);
                    result = (case CadvisorConfig cfg of None \<Rightarrow> result
                              | Some c \<Rightarrow> appendProvider result (NewCadvisorProvider fs c sm) (caCollection c))
                in case ControlPlaneConfig cfg of None \<Rightarrow> result
                   | Some c \<Rightarrow> appendProvider result (NewControlPlaneProvider fs c sm) (cpCollection c)));
          result = (case SystemdConfig cfg of None \<Rightarrow> result
                    | Some c \<Rightarrow> appendProvider result (NewSystemdProvider fs c) (sdCollection c));
          result = (case StatsConfig cfg of None \<Rightarrow> result
                    | Some c \<Rightarrow> appendProvider result (NewStatsProvider fs c) (stCollection c));
          result = (case StateConfig cfg of None \<Rightarrow> result
                    | Some c \<Rightarrow> appendProvider result (NewStateProvider fs c) (ksCollection c));
          result = fold (\<lambda>c r. appendProvider r (NewTelegrafProvider fs c) (tgCollection c)) (TelegrafConfigs cfg) result;
          result = fold (\<lambda>c r. appendProvider r (NewPromProvider fs c) (prCollection c)) (PrometheusConfigs cfg) result
      in if length result = 0 then Inl (GoPanic ''No available source to use'') else Inr result)"

section \<open>The manager\<close>

record 's source_manager =
  smProviders :: "(string, 's provider) gomap"
  smTimers :: "(string, interval_timer) gomap"
  smQuits :: "(string, nat) gomap"
  smDefaultInterval :: duration
  smResponse :: "batch list"
  smProviderCount :: nat
  smNextChan :: nat
  smScrapers :: "(nat \<times> 's provider) list"
  smCleaned :: "'s list"

definition Manager :: "'s source_manager" where
  "Manager = \<lparr> smProviders = [], smTimers = [], smQuits = [], smDefaultInterval = Minute, smResponse = [],
     smProviderCount = 0, smNextChan = 0, smScrapers = [], smCleaned = [] \<rparr>"

definition SetDefaultCollectionInterval :: "duration \<Rightarrow> 's source_manager \<Rightarrow> 's source_manager" where
  "SetDefaultCollectionInterval d sm = sm \<lparr> smDefaultInterval := d \<rparr>"

definition DeleteProvider :: "('s provider \<Rightarrow> 's list) \<Rightarrow> string \<Rightarrow> 's source_manager \<Rightarrow> 's source_manager" where
  "DeleteProvider getSources name sm =
     (case map_of (smProviders sm) name of
        None \<Rightarrow> sm
      | Some provider \<Rightarrow>
          (let sm = sm \<lparr> smProviders := gdel name (smProviders sm) \<rparr>;
               sm = sm \<lparr> smTimers := gdel name (smTimers sm) \<rparr>;
               sm = (case map_of (smQuits sm) name of
                       Some quit \<Rightarrow> sm \<lparr> smScrapers := filter (\<lambda>(q, _). q \<noteq> quit) (smScrapers sm), smQuits := gdel name (smQuits sm) \<rparr>
                     | None \<Rightarrow> sm)
           in sm \<lparr> smCleaned := smCleaned sm @ getSources provider \<rparr>))"

definition providerInterval :: "'s source_manager \<Rightarrow> 's provider \<Rightarrow> duration" where
  "providerInterval sm provider = (if pvInterval provider > 0 then pvInterval provider else smDefaultInterval sm)"

definition AddProvider :: "('s provider \<Rightarrow> 's list) \<Rightarrow> time \<Rightarrow> 's provider \<Rightarrow> 's source_manager \<Rightarrow> 's source_manager" where
  "AddProvider getSources now provider sm =
     (let name = pvName provider;
          sm = (if map_of (smProviders sm) name \<noteq> None then DeleteProvider getSources name sm else sm);
          quit = smNextChan sm;
          sm = sm \<lparr> smNextChan := quit + 1, smProviders := gput name provider (smProviders sm),
                    smTimers := gput name (NewIntervalTimer now (providerInterval sm provider)) (smTimers sm),
                    smQuits := gput name quit (smQuits sm) \<rparr>
      in sm \<lparr> smProviderCount := length (smProviders sm), smScrapers := smScrapers sm @ [(quit, provider)] \<rparr>)"

definition StopProviders :: "('s provider \<Rightarrow> 's list) \<Rightarrow> 's source_manager \<Rightarrow> 's source_manager" where
  "StopProviders getSources sm = fold (DeleteProvider getSources) (map fst (smProviders sm)) sm"

definition BuildProviders :: "('s provider \<Rightarrow> 's list) \<Rightarrow> time \<Rightarrow> 's provider_factories \<Rightarrow> source_config \<Rightarrow> 's source_manager \<Rightarrow>
    's source_manager go_result" where
  "BuildProviders getSources now fs cfg sm =
     (case buildProviders fs cfg of
        Inl e \<Rightarrow> Inl e
      | Inr ps \<Rightarrow>
          (let sm = fold (AddProvider getSources now) ps sm in
           if length (smProviders sm) = 0 then Inl (Errorf ''no available sources to use'') else Inr sm))"

text \<open>The receiving loop, and the hand-over of the pending batches. \<open>srt\<close> is \<^verbatim>\<open>sort.Slice\<close> by timestamp.\<close>

definition receiveBatch :: "batch option \<Rightarrow> 's source_manager \<Rightarrow> 's source_manager" where
  "receiveBatch b sm = (case b of None \<Rightarrow> sm | Some b \<Rightarrow> sm \<lparr> smResponse := smResponse sm @ [b] \<rparr>)"

definition rotateResponse :: "'s source_manager \<Rightarrow> batch list \<times> 's source_manager" where
  "rotateResponse sm = (smResponse sm, sm \<lparr> smResponse := [] \<rparr>)"

definition GetPendingMetrics :: "(batch list \<Rightarrow> batch list) \<Rightarrow> 's source_manager \<Rightarrow> batch list \<times> 's source_manager" where
  "GetPendingMetrics srt sm = (let (response, sm) = rotateResponse sm in (srt response, sm))"

section \<open>Scraping\<close>

record scrape_counters =
  scrapeErrors :: nat
  scrapeWarnings :: nat
  scrapeTimeouts :: nat
  scrapeLatency :: "duration list"

fun scrapeSources :: "('s \<Rightarrow> batch go_result) \<Rightarrow> ('s \<Rightarrow> bool) \<Rightarrow> ('s \<Rightarrow> duration) \<Rightarrow> duration \<Rightarrow> 's list \<Rightarrow>
    batch list \<times> scrape_counters \<Rightarrow> batch list \<times> scrape_counters" where
  "scrapeSources scr auto lat timeout [] st = st"
| "scrapeSources scr auto lat timeout (source # rest) (sent, c) =
     (let timeout' = (if timeout \<le> 0 then Minute else timeout) in
      case scr source of
        Inl err \<Rightarrow> (sent, if auto source then c \<lparr> scrapeWarnings := scrapeWarnings c + 1 \<rparr>
                             else c \<lparr> scrapeErrors := scrapeErrors c + 1 \<rparr>)
      | Inr dataBatch \<Rightarrow>
          (let latency = lat source;
               c = c \<lparr> scrapeLatency := scrapeLatency c @ [latency] \<rparr>;
               c = (if \<not> latency < timeout' then c \<lparr> scrapeTimeouts := scrapeTimeouts c + 1 \<rparr> else c)
           in scrapeSources scr auto lat timeout rest (sent @ [dataBatch], c)))"

definition scrape :: "('s \<Rightarrow> batch go_result) \<Rightarrow> ('s \<Rightarrow> bool) \<Rightarrow> ('s \<Rightarrow> duration) \<Rightarrow> ('s provider \<Rightarrow> 's list) \<Rightarrow>
    's provider \<Rightarrow> scrape_counters \<Rightarrow> batch list \<times> scrape_counters" where
  "scrape scr auto lat getSources provider c = scrapeSources scr auto lat (pvTimeout provider) (getSources provider) ([], c)"

section \<open>The timer\<close>

lemma scaleInterval_bounds:
  assumes "0 \<le> d" "d \<le> 2 ^ 53"
  shows "0 \<le> scaleInterval d (rnd (333 / 10000))" "scaleInterval d (rnd (333 / 10000)) \<le> d"
proof -
  have d64: "sint (word_of_int d :: int64) = d" using assms by (intro sint_word_of_int_64) simp_all
  obtain c where c: "rnd (333 / 10000) = Fin c" "0 \<le> c" "c \<le> 1"
    using rnd_between [of 0 "333 / 10000" 1] by auto
  have fd: "f_of_int64 (word_of_int d) = Fin (of_int d)" using f_of_int64_small [of "word_of_int d"] assms d64 by simp
  have "of_int 0 \<le> of_int d * c" "of_int d * c \<le> of_int d"
    using assms c by (simp_all add: mult_left_le)
  from rnd_between [OF this] assms obtain q where q: "rnd (of_int d * c) = Fin q" "0 \<le> q" "q \<le> of_int d" by auto
  have t: "0 \<le> trunc_rat q" "trunc_rat q \<le> d" using q by (simp_all add: trunc_rat_def floor_le_iff)
  have "scaleInterval d (rnd (333 / 10000)) = trunc_rat q"
    using t assms by (simp add: scaleInterval_def fd c q sint_word_of_int_64)
  with t show "0 \<le> scaleInterval d (rnd (333 / 10000))" "scaleInterval d (rnd (333 / 10000)) \<le> d" by simp_all
qed



lemma intervalsMissed_nonneg:
  assumes "0 < tmInterval t" "tmLastReset t \<le> now"
  shows "\<exists>n. intervalsMissed t now = Inr n \<and> 0 \<le> n"
proof (cases "Time_Sub now (tmLastReset t) < tmInterval t")
  case False
  then have "1 \<le> Time_Sub now (tmLastReset t) div tmInterval t"
    using assms zdiv_mono1 [of "tmInterval t" "Time_Sub now (tmLastReset t)" "tmInterval t"] by simp
  then have "1 \<le> Time_Sub now (tmLastReset t) sdiv tmInterval t" using False assms by (simp add: sdiv_nonneg)
  with False assms show ?thesis by (simp add: intervalsMissed_def)
qed (simp add: intervalsMissed_def)

section \<open>The registry\<close>

text \<open>
  The registry is consistent when the three maps have the same names, quit channels are not shared and
  were handed out, and the live goroutines are exactly one for each registered provider.
\<close>

definition sm_inv :: "'s source_manager \<Rightarrow> bool" where
  "sm_inv sm \<longleftrightarrow> wf_map (smProviders sm) \<and> wf_map (smTimers sm) \<and> wf_map (smQuits sm) \<and>
     dom (map_of (smTimers sm)) = dom (map_of (smProviders sm)) \<and>
     dom (map_of (smQuits sm)) = dom (map_of (smProviders sm)) \<and>
     (\<forall>n n' q. map_of (smQuits sm) n = Some q \<longrightarrow> map_of (smQuits sm) n' = Some q \<longrightarrow> n = n') \<and>
     (\<forall>n q. map_of (smQuits sm) n = Some q \<longrightarrow> q < smNextChan sm) \<and>
     distinct (map fst (smScrapers sm)) \<and>
     (\<forall>q p. (q, p) \<in> set (smScrapers sm) \<longleftrightarrow>
        (\<exists>n. map_of (smQuits sm) n = Some q \<and> map_of (smProviders sm) n = Some p)) \<and>
     (\<forall>n p. map_of (smProviders sm) n = Some p \<longrightarrow> pvName p = n)"

lemma sm_inv_Manager: "sm_inv Manager"
  by (simp add: sm_inv_def Manager_def)

lemma sm_invD:
  assumes "sm_inv sm"
  shows "wf_map (smProviders sm)" "wf_map (smTimers sm)" "wf_map (smQuits sm)"
    "dom (map_of (smTimers sm)) = dom (map_of (smProviders sm))" "dom (map_of (smQuits sm)) = dom (map_of (smProviders sm))"
    "map_of (smQuits sm) n = Some q \<Longrightarrow> map_of (smQuits sm) n' = Some q \<Longrightarrow> n = n'"
    "map_of (smQuits sm) n = Some q \<Longrightarrow> q < smNextChan sm"
    "distinct (map fst (smScrapers sm))"
    "(q, p) \<in> set (smScrapers sm) \<longleftrightarrow> (\<exists>n. map_of (smQuits sm) n = Some q \<and> map_of (smProviders sm) n = Some p)"
    "map_of (smProviders sm) n = Some p \<Longrightarrow> pvName p = n"
  using assms unfolding sm_inv_def by blast+

lemma sm_invI:
  assumes "wf_map (smProviders sm)" "wf_map (smTimers sm)" "wf_map (smQuits sm)"
    "dom (map_of (smTimers sm)) = dom (map_of (smProviders sm))" "dom (map_of (smQuits sm)) = dom (map_of (smProviders sm))"
    "\<And>n n' q. map_of (smQuits sm) n = Some q \<Longrightarrow> map_of (smQuits sm) n' = Some q \<Longrightarrow> n = n'"
    "\<And>n q. map_of (smQuits sm) n = Some q \<Longrightarrow> q < smNextChan sm"
    "distinct (map fst (smScrapers sm))"
    "\<And>q p. (q, p) \<in> set (smScrapers sm) \<longleftrightarrow> (\<exists>n. map_of (smQuits sm) n = Some q \<and> map_of (smProviders sm) n = Some p)"
    "\<And>n p. map_of (smProviders sm) n = Some p \<Longrightarrow> pvName p = n"
  shows "sm_inv sm"
  unfolding sm_inv_def using assms by blast

lemma DeleteProvider_maps:
  assumes "sm_inv sm" "map_of (smProviders sm) name = Some p"
  shows "\<exists>quit. map_of (smQuits sm) name = Some quit \<and> DeleteProvider getSources name sm =
    sm \<lparr> smProviders := gdel name (smProviders sm), smTimers := gdel name (smTimers sm), smQuits := gdel name (smQuits sm),
         smScrapers := filter (\<lambda>(q, _). q \<noteq> quit) (smScrapers sm), smCleaned := smCleaned sm @ getSources p \<rparr>"
proof -
  have "name \<in> dom (map_of (smQuits sm))" using assms by (auto simp: sm_inv_def)
  then obtain quit where "map_of (smQuits sm) name = Some quit" by blast
  with assms(2) show ?thesis by (simp add: DeleteProvider_def Let_def)
qed

lemma sm_inv_Delete:
  assumes "sm_inv sm"
  shows "sm_inv (DeleteProvider getSources name sm)"
proof (cases "map_of (smProviders sm) name")
  case None
  with assms show ?thesis by (simp add: DeleteProvider_def)
next
  case (Some p)
  obtain quit where q: "map_of (smQuits sm) name = Some quit" and eq: "DeleteProvider getSources name sm =
      sm \<lparr> smProviders := gdel name (smProviders sm), smTimers := gdel name (smTimers sm), smQuits := gdel name (smQuits sm),
           smScrapers := filter (\<lambda>(q, _). q \<noteq> quit) (smScrapers sm), smCleaned := smCleaned sm @ getSources p \<rparr>"
    using DeleteProvider_maps [OF assms Some] by blast
  note I = sm_invD [OF assms]
  have scr: "(q', p') \<in> set (filter (\<lambda>(q, _). q \<noteq> quit) (smScrapers sm)) \<longleftrightarrow>
      (\<exists>n. ((map_of (smQuits sm))(name := None)) n = Some q' \<and> ((map_of (smProviders sm))(name := None)) n = Some p')" for q' p'
  proof -
    have n: "q' = quit \<longleftrightarrow> n = name" if "map_of (smQuits sm) n = Some q'" for n
      using sm_invD(6) [OF assms that, of name] q that by auto
    have "(q', p') \<in> set (filter (\<lambda>(q, _). q \<noteq> quit) (smScrapers sm)) \<longleftrightarrow>
        q' \<noteq> quit \<and> (\<exists>n. map_of (smQuits sm) n = Some q' \<and> map_of (smProviders sm) n = Some p')"
      unfolding set_filter mem_Collect_eq prod.case using I(9) [of q' p'] by blast
    also have "\<dots> \<longleftrightarrow> (\<exists>n. n \<noteq> name \<and> map_of (smQuits sm) n = Some q' \<and> map_of (smProviders sm) n = Some p')"
      using n by blast
    also have "\<dots> \<longleftrightarrow> (\<exists>n. ((map_of (smQuits sm))(name := None)) n = Some q' \<and> ((map_of (smProviders sm))(name := None)) n = Some p')"
      by (intro ex_cong1) simp
    finally show ?thesis .
  qed
  show ?thesis unfolding eq
  proof (rule sm_invI, goal_cases)
    case (6 n n' q) then show ?case using I(6) [of n q n'] by (simp split: if_splits)
  next
    case (7 n q) then show ?case using I(7) [of n q] by (simp split: if_splits)
  next
    case (9 q' p') show ?case using scr [of q' p'] by simp
  next
    case (10 n p) then show ?case using I(10) [of n p] by (simp split: if_splits)
  qed (use I(1-5,8) in \<open>simp_all add: distinct_map_filter\<close>)
qed

lemma sm_inv_Add:
  assumes "sm_inv sm"
  shows "sm_inv (AddProvider getSources now p sm)"
proof -
  define sm1 where "sm1 = (if map_of (smProviders sm) (pvName p) \<noteq> None then DeleteProvider getSources (pvName p) sm else sm)"
  have inv1: "sm_inv sm1" using assms sm_inv_Delete [OF assms, of getSources "pvName p"] by (simp add: sm1_def)
  have new: "map_of (smProviders sm1) (pvName p) = None"
  proof (cases "map_of (smProviders sm) (pvName p)")
    case (Some p')
    with DeleteProvider_maps [OF assms this, of getSources] show ?thesis by (auto simp: sm1_def)
  qed (simp add: sm1_def)
  have newq: "map_of (smQuits sm1) (pvName p) = None" using inv1 new unfolding sm_inv_def by (metis domIff)
  note I = sm_invD [OF inv1]
  have fresh: "map_of (smQuits sm1) n \<noteq> Some (smNextChan sm1)" for n using I(7) [of n "smNextChan sm1"] by blast
  have freshs: "smNextChan sm1 \<notin> fst ` set (smScrapers sm1)" using fresh I(9) [of "smNextChan sm1"] by auto
  have eq: "AddProvider getSources now p sm =
      sm1 \<lparr> smNextChan := smNextChan sm1 + 1, smProviders := gput (pvName p) p (smProviders sm1),
            smTimers := gput (pvName p) (NewIntervalTimer now (providerInterval sm1 p)) (smTimers sm1),
            smQuits := gput (pvName p) (smNextChan sm1) (smQuits sm1), smProviderCount := length (gput (pvName p) p (smProviders sm1)),
            smScrapers := smScrapers sm1 @ [(smNextChan sm1, p)] \<rparr>"
    by (simp add: AddProvider_def Let_def sm1_def)
  have scr: "(q, p') \<in> set (smScrapers sm1 @ [(smNextChan sm1, p)]) \<longleftrightarrow>
      (\<exists>n. ((map_of (smQuits sm1))(pvName p \<mapsto> smNextChan sm1)) n = Some q \<and> ((map_of (smProviders sm1))(pvName p \<mapsto> p)) n = Some p')" for q p'
  proof -
    have "(\<exists>n. ((map_of (smQuits sm1))(pvName p \<mapsto> smNextChan sm1)) n = Some q \<and> ((map_of (smProviders sm1))(pvName p \<mapsto> p)) n = Some p') \<longleftrightarrow>
        (q, p') = (smNextChan sm1, p) \<or> (\<exists>n. map_of (smQuits sm1) n = Some q \<and> map_of (smProviders sm1) n = Some p')"
      (is "?L \<longleftrightarrow> ?R \<or> ?E")
    proof
      assume ?L
      then obtain n where n: "((map_of (smQuits sm1))(pvName p \<mapsto> smNextChan sm1)) n = Some q" "((map_of (smProviders sm1))(pvName p \<mapsto> p)) n = Some p'" by blast
      then show "?R \<or> ?E" by (cases "n = pvName p") auto
    next
      assume "?R \<or> ?E"
      then show ?L
      proof
        assume ?E
        then obtain n where n: "map_of (smQuits sm1) n = Some q" "map_of (smProviders sm1) n = Some p'" by blast
        then have "n \<noteq> pvName p" using new by auto
        with n show ?L by (intro exI [of _ n]) simp
      qed (rule exI [of _ "pvName p"], simp)
    qed
    then show ?thesis using I(9) [of q p'] by auto
  qed
  show ?thesis unfolding eq
  proof (rule sm_invI, goal_cases)
    case (6 n n' q) then show ?case using I(6) [of n q n'] fresh [of n] fresh [of n'] by (auto split: if_splits)
  next
    case (7 n q) then show ?case using I(7) [of n q] by (auto split: if_splits)
  next
    case (9 q p') show ?case using scr [of q p'] by simp
  next
    case (10 n p') then show ?case using I(10) [of n p'] by (simp split: if_splits)
  qed (use I(1-5,8) freshs in \<open>simp_all\<close>)
qed


lemma sm_inv_Stop: "sm_inv sm \<Longrightarrow> sm_inv (StopProviders getSources sm)"
  unfolding StopProviders_def by (rule fold_invariant [where Q = "\<lambda>_. True"]) (simp_all add: sm_inv_Delete)

lemma sm_inv_irrelevant [simp]:
  "sm_inv (sm \<lparr> smDefaultInterval := d \<rparr>) = sm_inv sm" "sm_inv (sm \<lparr> smResponse := r \<rparr>) = sm_inv sm"
  by (simp_all add: sm_inv_def)

lemma DeleteProvider_providers:
  "smProviders (DeleteProvider getSources name sm) = gdel name (smProviders sm)"
proof (cases "map_of (smProviders sm) name")
  case None
  then have "name \<notin> fst ` set (smProviders sm)" by (simp add: map_of_eq_None_iff)
  with None show ?thesis by (simp add: DeleteProvider_def delete_id)
qed (simp add: DeleteProvider_def Let_def split: option.splits)

lemma DeleteProvider_all:
  "fst ` set (smProviders sm) \<subseteq> set names \<Longrightarrow> smProviders (fold (DeleteProvider getSources) names sm) = []"
proof (induction names arbitrary: sm)
  case (Cons n names)
  have "fst ` set (smProviders (DeleteProvider getSources n sm)) \<subseteq> set names"
    using Cons.prems by (auto simp: DeleteProvider_providers AList.delete_eq)
  from Cons.IH [OF this] show ?case by simp
qed simp

lemma DeleteProvider_response: "smResponse (DeleteProvider gs name sm) = smResponse sm"
  by (auto simp: DeleteProvider_def Let_def split: option.splits)

lemma AddProvider_response: "smResponse (AddProvider gs now p sm) = smResponse sm"
  by (simp add: AddProvider_def Let_def DeleteProvider_response)

lemma StopProviders_response: "smResponse (StopProviders gs sm) = smResponse sm"
proof -
  have "smResponse (fold (DeleteProvider gs) names sm) = smResponse sm" for names
    by (induction names arbitrary: sm) (simp_all add: DeleteProvider_response)
  then show ?thesis by (simp add: StopProviders_def)
qed

lemmas sm_response = DeleteProvider_response AddProvider_response StopProviders_response

text \<open>The calls that reach the manager, in the order its mutexes give them.\<close>

datatype 's sm_event =
    EvAdd "'s provider \<Rightarrow> 's list" time "'s provider"
  | EvDelete "'s provider \<Rightarrow> 's list" string
  | EvStop "'s provider \<Rightarrow> 's list"
  | EvInterval duration
  | EvReceive "batch option"
  | EvFlush

fun sm_step :: "(batch list \<Rightarrow> batch list) \<Rightarrow> 's source_manager \<times> batch list \<Rightarrow> 's sm_event \<Rightarrow> 's source_manager \<times> batch list" where
  "sm_step srt (sm, out) (EvAdd gs now p) = (AddProvider gs now p sm, out)"
| "sm_step srt (sm, out) (EvDelete gs name) = (DeleteProvider gs name sm, out)"
| "sm_step srt (sm, out) (EvStop gs) = (StopProviders gs sm, out)"
| "sm_step srt (sm, out) (EvInterval d) = (SetDefaultCollectionInterval d sm, out)"
| "sm_step srt (sm, out) (EvReceive b) = (receiveBatch b sm, out)"
| "sm_step srt (sm, out) EvFlush = (let (pending, sm) = GetPendingMetrics srt sm in (sm, out @ pending))"

definition received :: "'s sm_event list \<Rightarrow> batch list" where
  "received es = concat (map (\<lambda>e. case e of EvReceive (Some b) \<Rightarrow> [b] | _ \<Rightarrow> []) es)"

lemma sm_step_inv: "sm_inv (fst s) \<Longrightarrow> sm_inv (fst (sm_step srt s e))"
  by (cases s; cases e) (auto simp: sm_inv_Add sm_inv_Delete sm_inv_Stop SetDefaultCollectionInterval_def receiveBatch_def
      GetPendingMetrics_def rotateResponse_def split: option.splits)

interpretation smm: det_machine "(Manager, [])" "sm_step srt" "\<lambda>s. sm_inv (fst s)" for srt
  by unfold_locales (simp_all add: sm_inv_Manager sm_step_inv)

text \<open>
  C18. Whatever sequence of registrations, replacements, deletions, stops and flushes the manager has
  seen, every registered provider is scraped by exactly one live goroutine, and no goroutine is left
  that scrapes a provider which is no longer registered.
\<close>

theorem sm_one_scraper:
  "let sm = fst (foldl (sm_step srt) (Manager, []) es) in distinct (map fst (smScrapers sm)) \<and>
    (\<forall>p. (map_of (smProviders sm) (pvName p) = Some p) = (\<exists>q. map_of (smQuits sm) (pvName p) = Some q \<and> (q, p) \<in> set (smScrapers sm))) \<and>
    (\<forall>q p. (q, p) \<in> set (smScrapers sm) = (map_of (smQuits sm) (pvName p) = Some q \<and> map_of (smProviders sm) (pvName p) = Some p))"
proof -
  define sm where "sm = fst (foldl (sm_step srt) (Manager, []) es)"
  have inv: "sm_inv sm" unfolding sm_def using smm.exec_invar [where srt = srt and es = es] by (simp add: smm.exec_def)
  note I = sm_invD [OF inv]
  have B: "(q, p) \<in> set (smScrapers sm) \<longleftrightarrow> map_of (smQuits sm) (pvName p) = Some q \<and> map_of (smProviders sm) (pvName p) = Some p" for q p
    unfolding I(9) using I(10) by blast
  have "\<exists>q. map_of (smQuits sm) n = Some q" if "map_of (smProviders sm) n = Some p" for n p
    using I(5) that by blast
  then show ?thesis unfolding Let_def sm_def [symmetric] using I(8) B by blast
qed

text \<open>
  C19. No batch is lost or delivered twice between the scraping goroutines and the flush: after any
  sequence of calls, the batches handed out together with those pending are the batches received.
\<close>

theorem GetPendingMetrics_complete:
  assumes "\<And>bs. mset (srt bs) = mset bs"
  shows "mset (snd (foldl (sm_step srt) (Manager, []) es)) + mset (smResponse (fst (foldl (sm_step srt) (Manager, []) es))) =
    mset (received es)"
proof (induction es rule: rev_induct)
  case (snoc e es)
  define st where "st = foldl (sm_step srt) (Manager, []) es"
  obtain sm out where st: "st = (sm, out)" by (cases st)
  have "mset (snd (sm_step srt st e)) + mset (smResponse (fst (sm_step srt st e))) =
      mset out + mset (smResponse sm) + mset (received [e])"
    by (cases e) (simp_all add: st received_def sm_response SetDefaultCollectionInterval_def receiveBatch_def GetPendingMetrics_def
        rotateResponse_def assms split: option.splits)
  with snoc show ?case by (simp add: st_def [symmetric] st received_def)
qed (simp add: received_def Manager_def)

theorem GetPendingMetrics_complete_witness:
  "mset (snd (foldl (sm_step (sort_key Timestamp)) (Manager :: nat source_manager, [])
      [EvReceive (Some \<lparr> Timestamp = 2, Sets = [], Metrics = [] \<rparr>), EvReceive None, EvFlush])) = {# \<lparr> Timestamp = 2, Sets = [], Metrics = [] \<rparr> #}"
  using GetPendingMetrics_complete [of "sort_key Timestamp" "[EvReceive (Some \<lparr> Timestamp = 2, Sets = [], Metrics = [] \<rparr>), EvReceive None, EvFlush] :: nat sm_event list"]
  by (simp add: received_def receiveBatch_def GetPendingMetrics_def rotateResponse_def Manager_def)

section \<open>One round of scraping\<close>

text \<open>
  A scrape hands over the batches of the provider's sources in order, up to the first source that
  fails; that failure is counted once, as a warning for a discovered source and as an error
  otherwise, and the sources behind it are not scraped in this round.
\<close>

theorem scrape_prefix:
  "scrape scr auto lat gs p c = (let ok = takeWhile (\<lambda>s. \<exists>b. scr s = Inr b) (gs p); rest = drop (length ok) (gs p) in
     (map (\<lambda>s. projr (scr s)) ok,
      \<lparr> scrapeErrors = scrapeErrors c + (if rest \<noteq> [] \<and> \<not> auto (hd rest) then 1 else 0),
        scrapeWarnings = scrapeWarnings c + (if rest \<noteq> [] \<and> auto (hd rest) then 1 else 0),
        scrapeTimeouts = scrapeTimeouts c + length (filter (\<lambda>s. (if pvTimeout p \<le> 0 then Minute else pvTimeout p) \<le> lat s) ok),
        scrapeLatency = scrapeLatency c @ map lat ok \<rparr>))"
proof -
  have "scrapeSources scr auto lat tmo ss (sent, c) = (let ok = takeWhile (\<lambda>s. \<exists>b. scr s = Inr b) ss; rest = drop (length ok) ss in
     (sent @ map (\<lambda>s. projr (scr s)) ok,
      \<lparr> scrapeErrors = scrapeErrors c + (if rest \<noteq> [] \<and> \<not> auto (hd rest) then 1 else 0),
        scrapeWarnings = scrapeWarnings c + (if rest \<noteq> [] \<and> auto (hd rest) then 1 else 0),
        scrapeTimeouts = scrapeTimeouts c + length (filter (\<lambda>s. (if tmo \<le> 0 then Minute else tmo) \<le> lat s) ok),
        scrapeLatency = scrapeLatency c @ map lat ok \<rparr>))" for tmo ss sent
  proof (induction ss arbitrary: sent c)
    case (Cons a ss)
    show ?case by (cases "scr a") (auto simp: Cons Let_def not_less)
  qed simp
  then show ?thesis by (simp add: scrape_def)
qed

text \<open>The gauge of the number of providers is not updated by a deletion.\<close>

lemma DeleteProvider_stale_count:
  assumes "sm_inv sm" "map_of (smProviders sm) name = Some p" "smProviderCount sm = length (smProviders sm)"
  shows "length (smProviders (DeleteProvider gs name sm)) < smProviderCount (DeleteProvider gs name sm)"
proof -
  have "length (gdel name (smProviders sm)) < length (smProviders sm)"
    using map_of_SomeD [OF assms(2)] by (auto simp: AList.delete_eq intro!: length_filter_less)
  with DeleteProvider_maps [OF assms(1,2), of gs] assms(3) show ?thesis by auto
qed

lemma StopProviders_empty: "smProviders (StopProviders gs sm) = []"
  unfolding StopProviders_def by (rule DeleteProvider_all) simp

end
