(* ===== verification/Pipeline.thy ===== *)
theory Pipeline
  imports Aggregators Rate_Calculators Enrichers Point_Converter Source_Manager
begin

text \<open>
  The flush manager (\<^verbatim>\<open>plugins/manager/manager.go\<close>) and the list of processors it runs, which is made by
  \<^verbatim>\<open>createDataProcessorsOrDie\<close> of \<^verbatim>\<open>cmd/wavefront-collector/main.go\<close>. The pending batches are
  combined into one, which goes through the processors in order; the first error ends the flush and
  nothing is exported.
\<close>

section \<open>Processors\<close>

text \<open>The implementations of \<^verbatim>\<open>metrics.Processor\<close>, each with the state it keeps between flushes.\<close>

datatype 'h processor =
    RateProcessor rate_calculator
  | DistributionRateProcessor "'h dist_cache"
  | CumulativeProcessor
  | PodEnricherProcessor pod_based_enricher
  | NamespaceEnricherProcessor
  | PodAggregatorProcessor "string set"
  | SumCountProcessor sum_count_aggregator
  | AutoscalingProcessor label_copier
  | ConverterProcessor point_converter

text \<open>What the processors read of the outside during one flush, and the package variables they write.\<close>

record 'h flush_env =
  feNow :: time
  feNow' :: time
  feSum256 :: "string \<Rightarrow> 'h"
  feNamespaces :: "string \<Rightarrow> store_result"
  feNodes :: "node list go_result"
  feEnv :: env

record flush_globals =
  fgDuplicates :: nat
  fgRequestMetrics :: request_metrics
  fgCollected :: nat
  fgFiltered :: nat

fun Process :: "'h flush_env \<Rightarrow> 'h processor \<Rightarrow> flush_globals \<Rightarrow> batch \<Rightarrow> batch go_result \<times> 'h processor \<times> flush_globals" where
  "Process fe (RateProcessor rc) g b =
     (case RateCalculator_Process (feNow fe) (feNow' fe) rc b of
        Inl err \<Rightarrow> (Inl err, RateProcessor rc, g)
      | Inr (rc, b) \<Rightarrow> (Inr b, RateProcessor rc, g))"
| "Process fe (DistributionRateProcessor cache) g b =
     (let (cache, dups, b) = DistributionRateCalculator_Process (feSum256 fe) cache b
      in (Inr b, DistributionRateProcessor cache, g \<lparr> fgDuplicates := fgDuplicates g + dups \<rparr>))"
| "Process fe CumulativeProcessor g b = (CumulativeDistributionConverter_Process b, CumulativeProcessor, g)"
| "Process fe (PodEnricherProcessor pbe) g b =
     (case PodBasedEnricher_Process pbe (fgRequestMetrics g) b of
        Inl err \<Rightarrow> (Inl err, PodEnricherProcessor pbe, g)
      | Inr (b, reg) \<Rightarrow> (Inr b, PodEnricherProcessor pbe, g \<lparr> fgRequestMetrics := reg \<rparr>))"
| "Process fe NamespaceEnricherProcessor g b =
     (NamespaceBasedEnricher_Process (feNamespaces fe) b, NamespaceEnricherProcessor, g)"
| "Process fe (PodAggregatorProcessor skipped) g b = (PodAggregator_Process skipped b, PodAggregatorProcessor skipped, g)"
| "Process fe (SumCountProcessor a) g b = (SumCountAggregator_Process a b, SumCountProcessor a, g)"
| "Process fe (AutoscalingProcessor copier) g b =
     (NodeAutoscalingEnricher_Process (feNodes fe) copier b, AutoscalingProcessor copier, g)"
| "Process fe (ConverterProcessor conv) g b =
     (let (r, collected, filtered) = PointConverter_Process conv (feEnv fe) (fgCollected g, fgFiltered g) b
      in (r, ConverterProcessor conv, g \<lparr> fgCollected := collected, fgFiltered := filtered \<rparr>))"

definition metricsToAggregate :: "string list" where
  "metricsToAggregate = map Name [MetricCpuUsageRate, MetricMemoryUsage, MetricCpuRequest, MetricCpuLimit, MetricMemoryRequest,
     MetricMemoryLimit]"

definition metricsToAggregateForNode :: "string list" where
  "metricsToAggregateForNode = map Name [MetricCpuRequest, MetricCpuLimit, MetricMemoryRequest, MetricMemoryLimit,
     MetricEphemeralStorageRequest, MetricEphemeralStorageLimit]"

definition createDataProcessorsOrDie ::
    "glob_compiler \<Rightarrow> time \<Rightarrow> string \<Rightarrow> (string \<Rightarrow> string \<Rightarrow> pod option go_result) \<Rightarrow> config \<Rightarrow> 'h processor list go_result" where
  "createDataProcessorsOrDie gc now cluster lister cfg =
     (let copier = NewLabelCopier '','' [] [] in
      case calculateCollectionInterval cfg of
        Inl err \<Rightarrow> Inl err
      | Inr interval \<Rightarrow>
          (case Option.bind (Sources cfg) SummaryConfig of
             None \<Rightarrow> Inl (GoPanic ''nil pointer dereference'')
           | Some summary \<Rightarrow> Inr
               [RateProcessor (NewRateCalculator now RateMetricsMapping),
                DistributionRateProcessor NewDistributionRateCalculator,
                CumulativeProcessor,
                PodEnricherProcessor (NewPodBasedEnricher lister copier interval),
                NamespaceEnricherProcessor,
                PodAggregatorProcessor NewPodAggregator,
                SumCountProcessor (NewNamespaceAggregator metricsToAggregate),
                SumCountProcessor (NewNodeAggregator metricsToAggregateForNode),
                SumCountProcessor (NewClusterAggregator metricsToAggregate),
                AutoscalingProcessor copier,
                ConverterProcessor (NewPointConverter gc summary cluster)]))"

section \<open>The flush manager\<close>

definition combineMetricSets :: "batch \<Rightarrow> batch \<Rightarrow> batch" where
  "combineMetricSets src dst =
     \<lparr> Timestamp = Timestamp src, Sets = put_all (Sets src) (Sets dst), Metrics = Metrics dst @ Metrics src \<rparr>"

text \<open>\<open>zeroTime\<close> is the timestamp of a batch without one.\<close>

definition combineAll :: "time \<Rightarrow> batch list \<Rightarrow> batch" where
  "combineAll zeroTime batches = fold combineMetricSets batches \<lparr> Timestamp = zeroTime, Sets = [], Metrics = [] \<rparr>"

text \<open>The loop over the processors; \<open>process\<close> is the call of one of them.\<close>

fun runProcessors :: "('p \<Rightarrow> 'g \<Rightarrow> batch \<Rightarrow> batch go_result \<times> 'p \<times> 'g) \<Rightarrow> 'p list \<Rightarrow> 'g \<Rightarrow> batch \<Rightarrow>
    batch go_result \<times> 'p list \<times> 'g" where
  "runProcessors process [] g b = (Inr b, [], g)"
| "runProcessors process (p # ps) g b =
     (case process p g b of
        (Inl err, p, g) \<Rightarrow> (Inl err, p # ps, g)
      | (Inr b, p, g) \<Rightarrow> (let (r, ps, g) = runProcessors process ps g b in (r, p # ps, g)))"

text \<open>An error is logged and ends the flush; a panic of a processor ends the program.\<close>

datatype flush_outcome = Exported batch | Abandoned string | Crashed string

definition push :: "(batch list \<Rightarrow> batch list) \<Rightarrow> time \<Rightarrow> 'h flush_env \<Rightarrow> 'h processor list \<times> flush_globals \<Rightarrow> 's source_manager \<Rightarrow>
    flush_outcome \<times> ('h processor list \<times> flush_globals) \<times> 's source_manager" where
  "push srt zeroTime fe = (\<lambda>(ps, g) sm.
     (let (dataBatches, sm) = GetPendingMetrics srt sm;
          (r, ps, g) = runProcessors (Process fe) ps g (combineAll zeroTime dataBatches)
      in (case r of
            Inl (Errorf e) \<Rightarrow> Abandoned e
          | Inl (GoPanic e) \<Rightarrow> Crashed e
          | Inr b \<Rightarrow> Exported b,
          (ps, g), sm)))"

section \<open>What a processor may do to a batch\<close>

text \<open>The metrics of a batch that are not histograms.\<close>

fun plain :: "wf_metric option \<Rightarrow> bool" where
  "plain (Some (MDist d)) = False"
| "plain m = True"

abbreviation points :: "wf_metric option list \<Rightarrow> wf_metric option list" where
  "points ms \<equiv> filter plain ms"

definition extends_batch :: "batch \<Rightarrow> batch \<Rightarrow> bool" where
  "extends_batch b b' \<longleftrightarrow> Timestamp b' = Timestamp b \<and> (\<exists>ms. points (Metrics b') = points (Metrics b) @ ms) \<and>
     (wf_map (Sets b) \<longrightarrow> wf_map (Sets b'))"

lemma extends_refl [simp]: "extends_batch b b"
  by (simp add: extends_batch_def)

lemma extends_trans: "extends_batch b b' \<Longrightarrow> extends_batch b' b'' \<Longrightarrow> extends_batch b b''"
  by (auto simp: extends_batch_def)

text \<open>
  The contract of a processor: it keeps the timestamp and the points of the batch in their order,
  adding points only at the end, and leaves the metric sets a map.
\<close>

locale batch_processor =
  fixes process :: "'p \<Rightarrow> 'g \<Rightarrow> batch \<Rightarrow> batch go_result \<times> 'p \<times> 'g"
  assumes process_extends: "process p g b = (Inr b', p', g') \<Longrightarrow> extends_batch b b'"
begin

lemma run_extends: "runProcessors process ps g b = (Inr b', ps', g') \<Longrightarrow> extends_batch b b'"
proof (induction ps arbitrary: g b ps')
  case (Cons p ps)
  obtain r p1 g1 where one: "process p g b = (r, p1, g1)" by (metis prod_cases3)
  with Cons.prems obtain b1 ps1 where r: "r = Inr b1" "runProcessors process ps g1 b1 = (Inr b', ps1, g')"
    by (cases r) (auto split: prod.splits)
  from extends_trans [OF process_extends [OF one [unfolded r(1)]] Cons.IH [OF r(2)]] show ?case .
qed simp

lemma run_length: "runProcessors process ps g b = (r, ps', g') \<Longrightarrow> length ps' = length ps"
proof (induction ps arbitrary: g b ps' r)
  case (Cons p ps)
  then show ?case by (auto split: prod.splits sum.splits)
qed simp

end

section \<open>Every processor keeps the contract\<close>

lemma set_only: "Metrics b' = Metrics b \<Longrightarrow> Timestamp b' = Timestamp b \<Longrightarrow> (wf_map (Sets b) \<Longrightarrow> wf_map (Sets b')) \<Longrightarrow> extends_batch b b'"
  by (simp add: extends_batch_def)

lemma extends_put: "extends_batch (b \<lparr> Sets := gput k v (Sets b) \<rparr>) b' \<Longrightarrow> extends_batch b b'"
  by (auto simp: extends_batch_def)

lemma rateSets_extends: "rateSets ks (rc, b) = Inr (rc', b') \<Longrightarrow> extends_batch b b'"
proof (induction ks arbitrary: rc b)
  case (Cons k ks)
  show ?case
  proof (cases "map_of (Sets b) k")
    case None
    with Cons show ?thesis by simp
  next
    case (Some newMs)
    then obtain ms store where "rateSet rc k newMs = Inr (ms, store)"
      using Cons.prems by (cases "rateSet rc k newMs") auto
    with Cons.prems Some have "extends_batch (b \<lparr> Sets := gput k ms (Sets b) \<rparr>) b'" by (auto intro: Cons.IH)
    then show ?thesis by (auto simp: extends_batch_def)
  qed
qed simp

lemma rate_points: "filter plain (concat (map (rateAgainst sum256 cache) ms)) = filter plain ms"
proof (induction ms)
  case (Cons m ms)
  then show ?case by (cases "(sum256, cache, m)" rule: rateAgainst.cases) (auto split: option.split)
qed simp

lemma firsts_points: "filter plain (firsts sum256 seen ms) = filter plain ms"
  by (induction sum256 seen ms rule: firsts.induct) auto

lemma convert_points: "mapInPlace convertMetric ms = Inr ms' \<Longrightarrow> filter plain ms' = filter plain ms"
proof (induction ms arbitrary: ms')
  case (Cons m ms)
  then show ?case by (cases m rule: convertMetric.cases) (auto split: sum.splits)
qed simp

lemma enrichSet_frame:
  "Metrics (fst (enrichSet pbe kv st)) = Metrics (fst st) \<and> Timestamp (fst (enrichSet pbe kv st)) = Timestamp (fst st) \<and>
   (wf_map (Sets (fst st)) \<longrightarrow> wf_map (Sets (fst (enrichSet pbe kv st))))"
proof (cases kv; cases st)
  fix k v b newMs reg assume "kv = (k, v)" "st = (b, newMs, reg)"
  then show ?thesis by (simp add: Let_def split: sum.split prod.split)
qed

lemma fold_enrich_frame:
  "Metrics (fst (fold (enrichSet pbe) kvs st)) = Metrics (fst st) \<and> Timestamp (fst (fold (enrichSet pbe) kvs st)) = Timestamp (fst st) \<and>
   (wf_map (Sets (fst st)) \<longrightarrow> wf_map (Sets (fst (fold (enrichSet pbe) kvs st))))"
  by (induction kvs arbitrary: st) (simp_all add: enrichSet_frame del: enrichSet.simps)

lemma podSets_extends: "podSets skipped ks (b, newPods, req) = Inr (b', newPods', req') \<Longrightarrow> extends_batch b b'"
proof (induction ks arbitrary: b newPods req)
  case (Cons k ks)
  show ?case
  proof (cases "map_of (Sets b) k")
    case None
    with Cons show ?thesis by simp
  next
    case ms: (Some ms)
    show ?thesis
    proof (cases "map_of (Labels ms) (Key LabelMetricSetType) = Some MetricSetTypePodContainer")
      case False
      with ms Cons show ?thesis by simp
    next
      case container: True
      show ?thesis
      proof (cases "(map_of (Labels ms) (Key LabelPodName), map_of (Labels ms) (Key LabelNamespaceName))")
        case (Pair podName ns)
        show ?thesis
        proof (cases "podName = None \<or> ns = None")
          case True
          with ms container Pair Cons.prems have "podSets skipped ks (b, newPods, req) = Inr (b', newPods', req')"
            by (auto split: option.splits)
          then show ?thesis by (rule Cons.IH)
        next
          case False
          then obtain p n where "podName = Some p" "ns = Some n" by auto
          note known = ms container Pair this
          show ?thesis
          proof (cases "map_of (Sets b) (PodKey n p)")
            case (Some pod)
            with known Cons.prems obtain pod1 req1 where
              "podSets skipped ks (b \<lparr> Sets := gput (PodKey n p) pod1 (Sets b) \<rparr>, newPods, req1) = Inr (b', newPods', req')"
              by (auto simp: Let_def split: sum.splits)
            then show ?thesis by (rule extends_put [OF Cons.IH])
          next
            case None
            with known Cons.prems obtain newPods1 req1 where "podSets skipped ks (b, newPods1, req1) = Inr (b', newPods', req')"
              by (auto simp: Let_def split: sum.splits)
            then show ?thesis by (rule Cons.IH)
          qed
        qed
      qed
    qed
  qed
qed simp

lemma sumCountSets_extends: "sumCountSets spec ks b = Inr b' \<Longrightarrow> extends_batch b b'"
proof (induction ks arbitrary: b)
  case (Cons k ks)
  then show ?case by (auto intro: extends_put split: option.splits if_splits prod.splits sum.splits)
qed simp

lemma sumCountSpecs_extends: "sumCountSpecs specs b = Inr b' \<Longrightarrow> extends_batch b b'"
proof (induction specs arbitrary: b)
  case (Cons spec specs)
  then show ?case by (auto intro: extends_trans [OF sumCountSets_extends] split: sum.splits)
qed simp

lemma autoscale_frame:
  "extends_batch b (fold (\<lambda>node b. case map_of (Sets b) (key node) of None \<Rightarrow> b
      | Some ms \<Rightarrow> b \<lparr> Sets := gput (key node) (f node ms) (Sets b) \<rparr>) nodes b)"
proof (induction nodes arbitrary: b)
  case (Cons node nodes)
  show ?case
  proof (cases "map_of (Sets b) (key node)")
    case None
    with Cons.IH [of b] show ?thesis by simp
  next
    case (Some ms)
    have "extends_batch b (b \<lparr> Sets := gput (key node) (f node ms) (Sets b) \<rparr>)" by (simp add: extends_batch_def)
    from extends_trans [OF this Cons.IH] Some show ?thesis by simp
  qed
qed simp

lemma convertSets_wf_map: "wf_map (fst st) \<Longrightarrow> wf_map (fst (convertSets conv nodeName ts keys st))"
proof (induction keys arbitrary: st)
  case (Cons k ks)
  then show ?case by (cases st) (simp add: case_prod_unfold Let_def split: option.split)
qed simp

lemma Process_extends: "Process fe p g b = (Inr b', p', g') \<Longrightarrow> extends_batch b b'"
proof (cases p)
  case (RateProcessor rc)
  then show "Process fe p g b = (Inr b', p', g') \<Longrightarrow> extends_batch b b'"
    by (auto simp: RateCalculator_Process_def intro: rateSets_extends split: sum.splits)
next
  case (DistributionRateProcessor cache)
  obtain c d b1 where r: "DistributionRateCalculator_Process (feSum256 fe) cache b = (c, d, b1)" by (metis prod_cases3)
  then have "points (Metrics b1) = points (Metrics b)"
    using process_rates [of "feSum256 fe" cache b] by (simp add: rate_points firsts_points)
  moreover from r have "Timestamp b1 = Timestamp b" "Sets b1 = Sets b"
    by (auto simp: DistributionRateCalculator_Process_def Let_def split: prod.splits)
  ultimately show "Process fe p g b = (Inr b', p', g') \<Longrightarrow> extends_batch b b'"
    by (auto simp: DistributionRateProcessor r extends_batch_def)
next
  case CumulativeProcessor
  then show "Process fe p g b = (Inr b', p', g') \<Longrightarrow> extends_batch b b'"
    by (auto simp: CumulativeDistributionConverter_Process_def extends_batch_def dest: convert_points split: sum.splits)
next
  case (PodEnricherProcessor pbe)
  then show "Process fe p g b = (Inr b', p', g') \<Longrightarrow> extends_batch b b'"
    using fold_enrich_frame [of pbe "Sets b" "(b, [], fgRequestMetrics g)"]
    by (auto simp: PodBasedEnricher_Process_def case_prod_unfold Let_def intro!: set_only)
next
  case NamespaceEnricherProcessor
  then show "Process fe p g b = (Inr b', p', g') \<Longrightarrow> extends_batch b b'"
    by (auto simp: NamespaceBasedEnricher_Process_def comp_def case_prod_unfold intro!: set_only)
next
  case (PodAggregatorProcessor skipped)
  then show "Process fe p g b = (Inr b', p', g') \<Longrightarrow> extends_batch b b'"
    by (auto simp: PodAggregator_Process_def dest!: podSets_extends split: sum.splits) (auto simp: extends_batch_def)
next
  case (SumCountProcessor a)
  then show "Process fe p g b = (Inr b', p', g') \<Longrightarrow> extends_batch b b'"
    by (auto simp: SumCountAggregator_Process_def intro: sumCountSpecs_extends)
next
  case (AutoscalingProcessor copier)
  then show "Process fe p g b = (Inr b', p', g') \<Longrightarrow> extends_batch b b'"
    by (auto simp: NodeAutoscalingEnricher_Process_def intro: autoscale_frame split: sum.splits)
next
  case (ConverterProcessor conv)
  let ?st = "\<lparr> cvMetrics = Metrics b, collectedPoints = fgCollected g, cvFiltered = fgFiltered g \<rparr>"
  obtain ms where "cvMetrics (snd (convertSets conv (GetNodeName (feEnv fe)) (Timestamp b) (sortedMetricSetKeys (Sets b)) (Sets b, ?st))) =
      Metrics b @ ms"
    using convertSets_extends [of conv "GetNodeName (feEnv fe)" "Timestamp b" "sortedMetricSetKeys (Sets b)" "Sets b" ?st] by auto
  moreover have "wf_map (Sets b) \<Longrightarrow>
      wf_map (fst (convertSets conv (GetNodeName (feEnv fe)) (Timestamp b) (sortedMetricSetKeys (Sets b)) (Sets b, ?st)))"
    by (rule convertSets_wf_map) simp
  ultimately show "Process fe p g b = (Inr b', p', g') \<Longrightarrow> extends_batch b b'"
    by (auto simp: ConverterProcessor PointConverter_Process_def extends_batch_def case_prod_unfold Let_def split: if_splits)
qed

interpretation flush: batch_processor "Process fe" for fe :: "'h flush_env"
  by unfold_locales (rule Process_extends)


section \<open>A flush\<close>

lemma combineAll_Metrics: "Metrics (fold combineMetricSets bs b) = Metrics b @ concat (map Metrics bs)"
  by (induction bs arbitrary: b) (simp_all add: combineMetricSets_def)

lemma combineAll_Timestamp: "Timestamp (fold combineMetricSets bs b) = (if bs = [] then Timestamp b else Timestamp (last bs))"
  by (induction bs arbitrary: b) (simp_all add: combineMetricSets_def)

lemma combineAll_wf: "wf_map (Sets b) \<Longrightarrow> wf_map (Sets (fold combineMetricSets bs b))"
  by (induction bs arbitrary: b) (simp_all add: combineMetricSets_def)

lemma combineAll_lookup:
  "(\<And>x. x \<in> set bs \<Longrightarrow> wf_map (Sets x)) \<Longrightarrow>
     map_of (Sets (fold combineMetricSets bs b)) k =
       fold (\<lambda>x found. case map_of (Sets x) k of None \<Rightarrow> found | Some s \<Rightarrow> Some s) bs (map_of (Sets b) k)"
proof (induction bs arbitrary: b)
  case (Cons x bs)
  have "map_of (Sets (combineMetricSets x b)) k = (case map_of (Sets x) k of None \<Rightarrow> map_of (Sets b) k | Some s \<Rightarrow> Some s)"
    using map_of_put_all [of "Sets x" "Sets b"] Cons.prems by (simp add: combineMetricSets_def map_add_def)
  with Cons.IH [of "combineMetricSets x b"] Cons.prems show ?case by simp
qed simp

text \<open>What a flush exports, in terms of the pending batches.\<close>

lemma push_exported:
  assumes "push srt zeroTime fe (ps, g) sm = (Exported b, (ps', g'), sm')"
  shows "(\<exists>added. points (Metrics b) = concat (map (\<lambda>x. points (Metrics x)) (srt (smResponse sm))) @ added) \<and>
    Timestamp b = (if srt (smResponse sm) = [] then zeroTime else Timestamp (last (srt (smResponse sm)))) \<and>
    wf_map (Sets b) \<and> length ps' = length ps \<and> smResponse sm' = []"
proof -
  let ?bs = "srt (smResponse sm)" and ?b0 = "combineAll zeroTime (srt (smResponse sm))"
  have run: "runProcessors (Process fe) ps g ?b0 = (Inr b, ps', g')" and sm': "smResponse sm' = []"
    using assms by (auto simp: push_def GetPendingMetrics_def rotateResponse_def Let_def split: prod.splits sum.splits go_error.splits)
  from flush.run_extends [OF run] have ext: "extends_batch ?b0 b" .
  have m: "Metrics ?b0 = concat (map Metrics ?bs)" and t: "Timestamp ?b0 = (if ?bs = [] then zeroTime else Timestamp (last ?bs))"
    and w: "wf_map (Sets ?b0)"
    by (simp_all add: combineAll_def combineAll_Metrics combineAll_Timestamp combineAll_wf)
  have "\<exists>added. points (Metrics b) = concat (map (\<lambda>x. points (Metrics x)) ?bs) @ added"
    using ext m by (auto simp: extends_batch_def filter_concat comp_def)
  with ext t w sm' flush.run_length [OF run] show ?thesis by (simp add: extends_batch_def)
qed

text \<open>
  C21. A flush that exports a batch loses nothing that was scraped and is not a histogram: the points of
  all pending batches are the first points of the exported batch, in the order of the batches and
  within each batch; what the processors add comes after them. The batch has the timestamp of the
  most recent pending one, its metric sets have distinct keys, the number of processors is unchanged
  and the pending list is empty afterwards.
\<close>

theorem push_keeps_points:
  assumes "push srt zeroTime fe (ps, g) sm = (Exported b, (ps', g'), sm')"
  shows "(\<exists>added. points (Metrics b) = concat (map (\<lambda>x. points (Metrics x)) (srt (smResponse sm))) @ added) \<and>
    Timestamp b = (if srt (smResponse sm) = [] then zeroTime else Timestamp (last (srt (smResponse sm)))) \<and>
    wf_map (Sets b) \<and> length ps' = length ps \<and> smResponse sm' = []"
  using push_exported [OF assms] .

text \<open>Without metric sets and histograms no processor has anything to do, and none fails while the nodes can be listed.\<close>

lemma rates_plain: "list_all plain ms \<Longrightarrow> snd (filterMapInPlace (distributionRateStep sum256) st ms) = ms"
proof (induction ms arbitrary: st)
  case (Cons m ms)
  then show ?case by (cases "(sum256, st, m)" rule: distributionRateStep.cases) (auto simp: case_prod_unfold Let_def)
qed simp

lemma convert_plain: "list_all plain ms \<Longrightarrow> mapInPlace convertMetric ms = Inr ms"
proof (induction ms)
  case (Cons m ms)
  then show ?case by (cases m rule: convertMetric.cases) auto
qed simp

lemma sumCount_no_sets: "Sets b = [] \<Longrightarrow> sumCountSpecs specs b = Inr b"
  by (induction specs) simp_all

lemma Process_plain:
  assumes "Sets b = []" "list_all plain (Metrics b)" "feNodes fe = Inr nodes"
  shows "fst (Process fe p g b) = Inr b"
proof (cases p)
  case (AutoscalingProcessor copier)
  have "fold (\<lambda>node b. case map_of (Sets b) (key node) of None \<Rightarrow> b
      | Some ms \<Rightarrow> b \<lparr> Sets := gput (key node) (f node ms) (Sets b) \<rparr>) ns b = b" for ns :: "node list" and key f
    using assms(1) by (induction ns) simp_all
  with AutoscalingProcessor assms show ?thesis by (simp add: NodeAutoscalingEnricher_Process_def)
qed (use assms in \<open>simp_all add: RateCalculator_Process_def DistributionRateCalculator_Process_def rates_plain case_prod_unfold Let_def
    CumulativeDistributionConverter_Process_def convert_plain PodBasedEnricher_Process_def NamespaceBasedEnricher_Process_def
    PodAggregator_Process_def SumCountAggregator_Process_def sumCount_no_sets PointConverter_Process_def\<close>)

lemma run_plain:
  assumes "Sets b = []" "list_all plain (Metrics b)" "feNodes fe = Inr nodes"
  shows "fst (runProcessors (Process fe) ps g b) = Inr b"
proof (induction ps arbitrary: g)
  case (Cons p ps)
  obtain p' g' where "Process fe p g b = (Inr b, p', g')" using Process_plain [OF assms] by (metis eq_fst_iff prod_cases3)
  with Cons.IH [of g'] show ?case by (simp add: case_prod_unfold Let_def)
qed simp

lemma combine_no_sets: "(\<And>x. x \<in> set bs \<Longrightarrow> Sets x = []) \<Longrightarrow> Sets b = [] \<Longrightarrow> Sets (fold combineMetricSets bs b) = []"
  by (induction bs arbitrary: b) (simp_all add: combineMetricSets_def)

text \<open>
  C22. A flush always reaches the sinks when the pending batches hold points only (no metric sets and no
  histograms, as on an agent that scrapes Prometheus and Telegraf endpoints) and the nodes can be
  listed: whatever the states of the processors are, no processor fails, and the exported metrics are
  exactly the pending ones in their order.
\<close>

theorem push_delivers:
  assumes "\<And>x. x \<in> set (srt (smResponse sm)) \<Longrightarrow> Sets x = [] \<and> list_all plain (Metrics x)" "feNodes fe = Inr nodes"
  shows "fst (push srt zeroTime fe (ps, g) sm) = Exported \<lparr>
    Timestamp = (if srt (smResponse sm) = [] then zeroTime else Timestamp (last (srt (smResponse sm)))),
    Sets = [], Metrics = concat (map Metrics (srt (smResponse sm))) \<rparr>"
proof -
  let ?b = "combineAll zeroTime (srt (smResponse sm))"
  have b: "?b = \<lparr> Timestamp = (if srt (smResponse sm) = [] then zeroTime else Timestamp (last (srt (smResponse sm)))),
      Sets = [], Metrics = concat (map Metrics (srt (smResponse sm))) \<rparr>"
    using assms(1) by (intro batch.equality) (simp_all add: combineAll_def combineAll_Metrics combineAll_Timestamp combine_no_sets)
  have "list_all plain (Metrics ?b)" using assms(1) by (auto simp: b list_all_iff)
  with run_plain [OF _ this assms(2), of ps g] have "fst (runProcessors (Process fe) ps g ?b) = Inr ?b" by (simp add: b)
  then show ?thesis by (simp add: push_def GetPendingMetrics_def rotateResponse_def case_prod_unfold Let_def b)
qed

definition sample_flush :: "string flush_env" where
  "sample_flush = \<lparr> feNow = 5, feNow' = 6, feSum256 = id, feNamespaces = (\<lambda>_. undefined), feNodes = Inr [], feEnv = [] \<rparr>"

definition sample_points :: "wf_metric option list" where
  "sample_points = [Some (MPoint (NewPoint ''a'' (Fin 1) 2 ''s'' [])), None, Some (MPoint (NewPoint ''b'' (Fin 2) 2 ''s'' []))]"

definition sample_sm :: "nat source_manager" where
  "sample_sm = Manager \<lparr> smResponse := [\<lparr> Timestamp = 3, Sets = [], Metrics = drop 1 sample_points \<rparr>,
     \<lparr> Timestamp = 2, Sets = [], Metrics = take 1 sample_points \<rparr>] \<rparr>"

lemma sample_sorted: "sort_key Timestamp (smResponse sample_sm) =
    [\<lparr> Timestamp = 2, Sets = [], Metrics = take 1 sample_points \<rparr>, \<lparr> Timestamp = 3, Sets = [], Metrics = drop 1 sample_points \<rparr>]"
  by (simp add: sample_sm_def)

theorem push_delivers_witness:
  "fst (push (sort_key Timestamp) 0 sample_flush ([CumulativeProcessor, PodAggregatorProcessor NewPodAggregator],
       \<lparr> fgDuplicates = 0, fgRequestMetrics = [], fgCollected = 0, fgFiltered = 0 \<rparr>) sample_sm) =
     Exported \<lparr> Timestamp = 3, Sets = [], Metrics = sample_points \<rparr>"
proof (subst push_delivers [where nodes = "[]"])
  show "Sets x = [] \<and> list_all plain (Metrics x)" if "x \<in> set (sort_key Timestamp (smResponse sample_sm))" for x
    using that by (auto simp: sample_sorted sample_points_def simp del: set_sort)
qed (simp_all add: sample_sorted sample_flush_def sample_points_def)

definition sample_processors :: "string processor list \<times> flush_globals" where
  "sample_processors = ([DistributionRateProcessor NewDistributionRateCalculator, CumulativeProcessor, NamespaceEnricherProcessor],
     \<lparr> fgDuplicates = 0, fgRequestMetrics = [], fgCollected = 0, fgFiltered = 0 \<rparr>)"

lemma sample_push: "push (sort_key Timestamp) 0 sample_flush sample_processors sample_sm =
    (Exported \<lparr> Timestamp = 3, Sets = [], Metrics = sample_points \<rparr>, sample_processors, sample_sm \<lparr> smResponse := [] \<rparr>)"
  by (simp add: push_def GetPendingMetrics_def rotateResponse_def sample_sorted combineAll_def combineMetricSets_def
      sample_processors_def sample_flush_def sample_points_def DistributionRateCalculator_Process_def NewDistributionRateCalculator_def
      CumulativeDistributionConverter_Process_def NamespaceBasedEnricher_Process_def sample_sm_def Manager_def)

theorem push_keeps_points_witness:
  "fst (push (sort_key Timestamp) 0 sample_flush sample_processors sample_sm) =
     Exported \<lparr> Timestamp = 3, Sets = [], Metrics = sample_points \<rparr> \<and>
   (\<exists>added. points sample_points = points (take 1 sample_points) @ points (drop 1 sample_points) @ added)"
  using push_keeps_points [OF sample_push [unfolded sample_processors_def]] unfolding sample_sorted by (simp add: sample_push)

end
