(* ===== verification/Events.thy ===== *)
theory Events
  imports Wf_Sink Kube_Util
begin

text \<open>
  Kubernetes events: the filter and the router of \<^verbatim>\<open>plugins/events\<close> and the export of an event by the
  Wavefront sink. The options of the SDK are the event type and annotations.
\<close>

section \<open>The filter\<close>

record event_filter =
  efAllowList :: "(string, glob) gomap option"
  efDenyList :: "(string, glob) gomap option"
  efAllowListSets :: "(string, glob) gomap option list"
  efDenyListSets :: "(string, glob) gomap option list"

definition newEventFilter :: "glob_compiler \<Rightarrow> events_filter \<Rightarrow> event_filter" where
  "newEventFilter gc flt =
     (let allowList = (if length (TagAllowList flt) > 0 then TagAllowList flt else TagWhitelist flt);
          denyList = (if length (TagDenyList flt) > 0 then TagDenyList flt else TagBlacklist flt);
          allowListSets = (if length (TagAllowListSets flt) > 0 then TagAllowListSets flt else TagWhitelistSets flt);
          denyListSets = (if length (TagDenyListSets flt) > 0 then TagDenyListSets flt else TagBlacklistSets flt)
      in \<lparr> efAllowList = MultiCompile gc allowList, efDenyList = MultiCompile gc denyList,
           efAllowListSets = MultiSetCompile gc allowListSets, efDenyListSets = MultiSetCompile gc denyListSets \<rparr>)"

text \<open>A nil map has no entries.\<close>

definition entries :: "(string, glob) gomap option \<Rightarrow> (string, glob) gomap" where
  "entries m = (case m of None \<Rightarrow> [] | Some ms \<Rightarrow> ms)"

definition ef_matches :: "event_filter \<Rightarrow> strmap \<Rightarrow> bool" where
  "ef_matches ef tags =
     (if length (entries (efAllowList ef)) > 0 \<and> \<not> MatchesTags (entries (efAllowList ef)) tags then False
      else if length (entries (efDenyList ef)) > 0 \<and> MatchesTags (entries (efDenyList ef)) tags then False
      else if length (efAllowListSets ef) > 0 then list_ex (\<lambda>wl. MatchesAllTags (entries wl) tags) (efAllowListSets ef)
      else if length (efDenyListSets ef) > 0 then \<not> list_ex (\<lambda>bl. MatchesAllTags (entries bl) tags) (efDenyListSets ef)
      else True)"

section \<open>The router\<close>

record kube_event =
  evMessage :: string
  evLastTimestamp :: time
  evNamespace :: string
  evKind :: string
  evName :: string
  evReason :: string
  evComponent :: string
  evHost :: string
  evType :: string

datatype event_option = EventType string | Annotate string string

record event =
  exMessage :: string
  exTs :: time
  exHost :: string
  exTags :: strmap
  exOptions :: "event_option list"

definition newEvent :: "string \<Rightarrow> time \<Rightarrow> string \<Rightarrow> strmap \<Rightarrow> event_option list \<Rightarrow> event" where
  "newEvent message ts host tags options =
     \<lparr> exMessage = message, exTs = ts, exHost = host, exTags = [], exOptions = options @ map (\<lambda>(k, v). Annotate k v) tags \<rparr>"

record event_counters =
  receivedEvents :: nat
  filteredEvents :: nat
  routedEvents :: nat

definition eventTags :: "kube_event \<Rightarrow> strmap" where
  "eventTags e =
     (let ns = (if length (evNamespace e) = 0 then ''default'' else evNamespace e);
          tags = [(''namespace_name'', ns), (''kind'', evKind e), (''reason'', evReason e), (''component'', evComponent e)]
      in if evName e \<noteq> [] then
           (if ToLower (evKind e) = ''pod'' then gput ''pod_name'' (evName e) tags else gput ''resource_name'' (evName e) tags)
         else tags)"

definition addEvent :: "event_filter \<Rightarrow> time \<Rightarrow> kube_event option \<Rightarrow> event_counters \<Rightarrow> event option \<times> event_counters" where
  "addEvent flt now obj c =
     (case obj of
        None \<Rightarrow> (None, c)
      | Some e \<Rightarrow>
          if evLastTimestamp e < now - Minute then (None, c)
          else
            (let tags = eventTags e;
                 c = c \<lparr> receivedEvents := receivedEvents c + 1 \<rparr>
             in if \<not> ef_matches flt tags then (None, c \<lparr> filteredEvents := filteredEvents c + 1 \<rparr>)
                else
                  (let c = c \<lparr> routedEvents := routedEvents c + 1 \<rparr>;
                       eType = (if length (evType e) = 0 then ''Normal'' else evType e)
                   in (Some (newEvent (evMessage e) (evLastTimestamp e) (evHost e) tags [EventType eType]), c))))"

section \<open>Export\<close>

text \<open>
  \<^verbatim>\<open>ExportEvent\<close> appends the cluster annotation to the event it is given, and sends it under the
  cluster's name; the event of the caller is changed. The second component says whether the client
  reported an error.
\<close>

record event_call =
  ecMessage :: string
  ecStart :: int64
  ecSource :: string
  ecTags :: strmap
  ecOptions :: "event_option list"

definition ExportEvent :: "('c \<Rightarrow> event_call \<Rightarrow> go_error option) \<Rightarrow> 'c wavefront_sink \<Rightarrow> event \<Rightarrow> event \<times> event_call \<times> bool" where
  "ExportEvent client sink ev =
     (let ev = ev \<lparr> exOptions := exOptions ev @ [Annotate ''cluster'' (ClusterName sink)] \<rparr>;
          call = \<lparr> ecMessage = exMessage ev, ecStart = Time_Unix (exTs ev), ecSource = ClusterName sink, ecTags = exTags ev, ecOptions = exOptions ev \<rparr>
      in (ev, call, client (WavefrontClient sink) call \<noteq> None))"

section \<open>What is routed\<close>

lemma MatchesTags_ex: "MatchesTags ms tags \<longleftrightarrow> list_ex (\<lambda>(k, g). \<exists>v. map_of tags k = Some v \<and> g v) ms"
  by (induction ms tags rule: MatchesTags.induct) (auto split: option.splits)

lemma MatchesAllTags_all: "MatchesAllTags ms tags \<longleftrightarrow> list_all (\<lambda>(k, g). \<exists>v. map_of tags k = Some v \<and> g v) ms"
  by (induction ms tags rule: MatchesAllTags.induct) (auto split: option.splits)

lemma eventTags_wf: "wf_map (eventTags e)"
  by (simp add: eventTags_def Let_def)

text \<open>
  Every event the collector looks at is counted once as received and once as filtered or routed;
  exactly the recent events that the filter accepts are routed, annotated with the namespace, kind,
  reason and component of the object.
\<close>

theorem addEvent_routes:
  "let (out, c') = addEvent flt now (Some e) c in
     (out \<noteq> None) = (now - Minute \<le> evLastTimestamp e \<and> ef_matches flt (eventTags e)) \<and>
     receivedEvents c' - receivedEvents c = (filteredEvents c' - filteredEvents c) + (routedEvents c' - routedEvents c) \<and>
     routedEvents c' = routedEvents c + (if out = None then 0 else 1) \<and>
     (\<forall>k v. (case out of None \<Rightarrow> False | Some ev \<Rightarrow> Annotate k v \<in> set (exOptions ev)) =
        (out \<noteq> None \<and> map_of (eventTags e) k = Some v))"
proof -
  have "(Annotate k v \<in> (\<lambda>(k, v). Annotate k v) ` set (eventTags e)) = (map_of (eventTags e) k = Some v)" for k v
    using map_of_eq_Some_iff [OF eventTags_wf, of e k v] by (force simp: image_iff)
  then show ?thesis by (auto simp: addEvent_def Let_def newEvent_def)
qed

text \<open>Two sinks that export the same event both leave their annotation on it.\<close>

lemma ExportEvent_accumulates:
  "ecOptions (fst (snd (ExportEvent client s2 (fst (ExportEvent client s1 ev))))) =
     exOptions ev @ [Annotate ''cluster'' (ClusterName s1), Annotate ''cluster'' (ClusterName s2)]"
  by (simp add: ExportEvent_def Let_def)

end
