(* ===== verification/Sink_Manager.thy ===== *)
theory Sink_Manager
  imports Events Machine
begin

text \<open>
  The sink manager (\<^verbatim>\<open>plugins/sinks/manager.go\<close>). Every sink has a goroutine that takes one message at
  a time from unbuffered channels. A call of \<^verbatim>\<open>Export\<close>, \<^verbatim>\<open>ExportEvent\<close> or \<^verbatim>\<open>Stop\<close> starts one push per
  sink, which either hands its message over or gives up when its timer fires; the first two wait
  for all their pushes.

  The state holds the pushes in flight and the clock. A step is one of the things that can happen
  next; a step that cannot happen has no successor. Timers fire on time: the clock does not pass the
  deadline of a push that is still waiting.
\<close>

section \<open>State\<close>

datatype holder_status = Receiving | Exporting | HolderStopped

datatype sink_message = DataMessage batch | EventMessage event | StopMessage

record sink_push =
  puSink :: nat
  puCall :: nat
  puMessage :: sink_message
  puDeadline :: time

record sink_manager =
  exportDataTimeout :: duration
  stopTimeout :: duration
  skHolders :: "holder_status list"
  skWaiting :: "sink_push list"
  skClock :: time
  skCalls :: nat
  skDelivered :: "sink_push list"
  sinkTimeouts :: nat
  skExpired :: "sink_push list"

definition DefaultSinkStopTimeout :: duration where
  "DefaultSinkStopTimeout = 60 * Second"

definition NewSinkManager :: "nat \<Rightarrow> duration \<Rightarrow> duration \<Rightarrow> time \<Rightarrow> sink_manager" where
  "NewSinkManager sinks et st now =
     \<lparr> exportDataTimeout = et, stopTimeout = st, skHolders = replicate sinks Receiving, skWaiting = [],
       skClock = now, skCalls = 0, skDelivered = [], sinkTimeouts = 0, skExpired = [] \<rparr>"

section \<open>Calls\<close>

definition startPushes :: "sink_message \<Rightarrow> duration \<Rightarrow> sink_manager \<Rightarrow> sink_manager" where
  "startPushes message timeout sm =
     sm \<lparr> skWaiting := skWaiting sm @ map (\<lambda>i. \<lparr> puSink = i, puCall = skCalls sm, puMessage = message, puDeadline = skClock sm + timeout \<rparr>)
            [0..<length (skHolders sm)],
          skCalls := skCalls sm + 1 \<rparr>"

definition sinks_Export :: "batch \<Rightarrow> sink_manager \<Rightarrow> sink_manager" where
  "sinks_Export data sm = startPushes (DataMessage data) (max 0 (exportDataTimeout sm)) sm"

definition sinks_ExportEvent :: "event \<Rightarrow> sink_manager \<Rightarrow> sink_manager" where
  "sinks_ExportEvent ev sm = startPushes (EventMessage ev) (max 0 (exportDataTimeout sm)) sm"

definition sinks_Stop :: "sink_manager \<Rightarrow> sink_manager" where
  "sinks_Stop sm = startPushes StopMessage (max 0 (stopTimeout sm)) sm"

text \<open>The call has returned when none of its pushes is waiting (\<^verbatim>\<open>wg.Wait\<close>).\<close>

definition returned :: "nat \<Rightarrow> sink_manager \<Rightarrow> bool" where
  "returned call sm \<longleftrightarrow> list_all (\<lambda>p. puCall p \<noteq> call) (skWaiting sm)"

section \<open>Steps\<close>

text \<open>The goroutine of a sink takes the message of a waiting push.\<close>

definition acceptPush :: "sink_push \<Rightarrow> sink_manager \<Rightarrow> sink_manager option" where
  "acceptPush p sm =
     (if p \<in> set (skWaiting sm) \<and> puSink p < length (skHolders sm) \<and> skHolders sm ! puSink p = Receiving
      then Some (sm \<lparr> skWaiting := remove1 p (skWaiting sm),
                      skHolders := (skHolders sm) [puSink p := (if puMessage p = StopMessage then HolderStopped else Exporting)],
                      skDelivered := skDelivered sm @ [p] \<rparr>)
      else None)"

text \<open>The timer of a push fires. Only the timeouts of exports are counted.\<close>

definition expirePush :: "sink_push \<Rightarrow> sink_manager \<Rightarrow> sink_manager option" where
  "expirePush p sm =
     (if p \<in> set (skWaiting sm) \<and> puDeadline p \<le> skClock sm
      then Some (sm \<lparr> skWaiting := remove1 p (skWaiting sm), skExpired := skExpired sm @ [p],
                      sinkTimeouts := sinkTimeouts sm + (if puMessage p = StopMessage then 0 else 1) \<rparr>)
      else None)"

text \<open>A sink is done with its message and its goroutine listens again.\<close>

definition finishExport :: "nat \<Rightarrow> sink_manager \<Rightarrow> sink_manager option" where
  "finishExport i sm =
     (if i < length (skHolders sm) \<and> skHolders sm ! i = Exporting
      then Some (sm \<lparr> skHolders := (skHolders sm) [i := Receiving] \<rparr>) else None)"

definition passTime :: "time \<Rightarrow> sink_manager \<Rightarrow> sink_manager option" where
  "passTime t sm =
     (if skClock sm \<le> t \<and> list_all (\<lambda>p. t \<le> puDeadline p) (skWaiting sm) then Some (sm \<lparr> skClock := t \<rparr>) else None)"

datatype sink_event =
    SinkExport batch
  | SinkExportEvent event
  | SinkStop
  | SinkAccept sink_push
  | SinkExpire sink_push
  | SinkFinish nat
  | SinkTime time

fun sink_step :: "sink_manager \<Rightarrow> sink_event \<Rightarrow> sink_manager option" where
  "sink_step sm (SinkExport data) = Some (sinks_Export data sm)"
| "sink_step sm (SinkExportEvent ev) = Some (sinks_ExportEvent ev sm)"
| "sink_step sm SinkStop = Some (sinks_Stop sm)"
| "sink_step sm (SinkAccept p) = acceptPush p sm"
| "sink_step sm (SinkExpire p) = expirePush p sm"
| "sink_step sm (SinkFinish i) = finishExport i sm"
| "sink_step sm (SinkTime t) = passTime t sm"

section \<open>Invariant\<close>

text \<open>
  Every sink has one push of every call so far, which is waiting, delivered or expired. The waiting ones
  are not overdue, and the expired exports are counted.
\<close>

definition push_id :: "sink_push \<Rightarrow> nat \<times> nat" where
  "push_id p = (puCall p, puSink p)"

definition pushes :: "sink_manager \<Rightarrow> sink_push list" where
  "pushes sm = skWaiting sm @ skDelivered sm @ skExpired sm"

definition sink_inv :: "sink_manager \<Rightarrow> bool" where
  "sink_inv sm \<longleftrightarrow>
     mset (map push_id (pushes sm)) = mset (List.product [0..<skCalls sm] [0..<length (skHolders sm)]) \<and>
     sinkTimeouts sm = length (filter (\<lambda>p. puMessage p \<noteq> StopMessage) (skExpired sm)) \<and>
     list_all (\<lambda>p. skClock sm \<le> puDeadline p) (skWaiting sm)"

lemma sink_inv_start: "sink_inv (NewSinkManager n et st now)"
  by (simp add: sink_inv_def NewSinkManager_def pushes_def)

lemma product_snoc: "List.product (xs @ [x]) ys = List.product xs ys @ map (Pair x) ys"
  by (induction xs) simp_all

lemma startPushes_inv:
  assumes "sink_inv sm" "0 \<le> timeout"
  shows "sink_inv (startPushes message timeout sm)"
  using assms by (simp add: sink_inv_def startPushes_def pushes_def list_all_iff comp_def product_snoc ball_Un push_id_def)

lemma list_all_remove1: "list_all P xs \<Longrightarrow> list_all P (remove1 x xs)"
  using set_remove1_subset [of x xs] by (auto simp: list_all_iff)

lemma moved_push:
  assumes "x \<in> set xs"
  shows "add_mset (f x) (image_mset f (mset xs - {#x#}) + N) = image_mset f (mset xs) + N"
proof -
  have "image_mset f (mset xs) = add_mset (f x) (image_mset f (mset xs - {#x#}))"
    using assms by (metis image_mset_add_mset insert_DiffM set_mset_mset)
  then show ?thesis by simp
qed

lemma acceptPush_inv: "sink_inv sm \<Longrightarrow> acceptPush p sm = Some sm' \<Longrightarrow> sink_inv sm'"
  by (auto simp: sink_inv_def acceptPush_def pushes_def moved_push intro: list_all_remove1 split: if_splits)

lemma expirePush_inv: "sink_inv sm \<Longrightarrow> expirePush p sm = Some sm' \<Longrightarrow> sink_inv sm'"
  by (auto simp: sink_inv_def expirePush_def pushes_def moved_push intro: list_all_remove1 split: if_splits)

lemma finishExport_inv: "sink_inv sm \<Longrightarrow> finishExport i sm = Some sm' \<Longrightarrow> sink_inv sm'"
  by (auto simp: finishExport_def sink_inv_def pushes_def split: if_splits)

lemma passTime_inv: "sink_inv sm \<Longrightarrow> passTime t sm = Some sm' \<Longrightarrow> sink_inv sm'"
  by (auto simp: passTime_def sink_inv_def pushes_def split: if_splits)

lemma sink_step_inv: "sink_inv sm \<Longrightarrow> sink_step sm e = Some sm' \<Longrightarrow> sink_inv sm'"
  by (cases e) (auto simp only: sink_step.simps sinks_Export_def sinks_ExportEvent_def sinks_Stop_def option.inject
      intro!: startPushes_inv max.cobounded1 dest: acceptPush_inv expirePush_inv finishExport_inv passTime_inv)

interpretation sinks: machine "\<lambda>sm. \<exists>n et st now. sm = NewSinkManager n et st now" "\<lambda>s e t. sink_step s e = Some t" sink_inv
  by unfold_locales (auto intro: sink_inv_start sink_step_inv)

text \<open>A sequence of steps.\<close>

fun sink_run :: "sink_manager \<Rightarrow> sink_event list \<Rightarrow> sink_manager option" where
  "sink_run sm [] = Some sm"
| "sink_run sm (e # es) = (case sink_step sm e of None \<Rightarrow> None | Some sm \<Rightarrow> sink_run sm es)"

lemma sink_run_run: "sink_run sm es = Some u \<Longrightarrow> sinks.run sm es u"
proof (induction es arbitrary: sm)
  case Nil
  then show ?case by (auto intro: sinks.run_Nil)
next
  case (Cons e es)
  then show ?case by (auto intro: sinks.run_Cons split: option.splits)
qed

lemma sink_run_inv: "sink_run (NewSinkManager n et st now) es = Some sm \<Longrightarrow> sink_inv sm"
  using sinks.run_invar [OF sink_run_run sink_inv_start] .

lemma sink_step_constant:
  "sink_step sm e = Some sm' \<Longrightarrow> exportDataTimeout sm' = exportDataTimeout sm \<and> stopTimeout sm' = stopTimeout sm \<and>
     length (skHolders sm') = length (skHolders sm) \<and> skCalls sm \<le> skCalls sm' \<and> skClock sm \<le> skClock sm'"
  by (cases e) (auto simp: sinks_Export_def sinks_ExportEvent_def sinks_Stop_def startPushes_def acceptPush_def expirePush_def
      finishExport_def passTime_def split: if_splits)

lemma sink_run_constant:
  "sink_run sm es = Some sm' \<Longrightarrow> exportDataTimeout sm' = exportDataTimeout sm \<and> stopTimeout sm' = stopTimeout sm \<and>
     length (skHolders sm') = length (skHolders sm) \<and> skCalls sm \<le> skCalls sm' \<and> skClock sm \<le> skClock sm'"
proof (induction es arbitrary: sm)
  case (Cons e es)
  then obtain sm1 where one: "sink_step sm e = Some sm1" "sink_run sm1 es = Some sm'" by (auto split: option.splits)
  with Cons.IH [OF one(2)] sink_step_constant [OF one(1)] show ?case by auto
qed simp

section \<open>Calls return\<close>

definition due_by :: "nat \<Rightarrow> time \<Rightarrow> sink_manager \<Rightarrow> bool" where
  "due_by c d sm \<longleftrightarrow> c < skCalls sm \<and> list_all (\<lambda>p. puCall p = c \<longrightarrow> puDeadline p \<le> d) (skWaiting sm)"

lemma due_by_step: "sink_step sm e = Some sm' \<Longrightarrow> due_by c d sm \<Longrightarrow> due_by c d sm'"
  by (cases e) (auto simp: due_by_def sinks_Export_def sinks_ExportEvent_def sinks_Stop_def startPushes_def acceptPush_def expirePush_def
      finishExport_def passTime_def list_all_iff dest: notin_set_remove1 split: if_splits)

lemma due_by_run: "sink_run sm es = Some sm' \<Longrightarrow> due_by c d sm \<Longrightarrow> due_by c d sm'"
  by (induction es arbitrary: sm) (auto intro: due_by_step split: option.splits)

lemma due_by_returned: "sink_inv sm \<Longrightarrow> due_by c d sm \<Longrightarrow> d < skClock sm \<Longrightarrow> returned c sm"
  by (fastforce simp: sink_inv_def due_by_def returned_def list_all_iff)

lemma waiting_call:
  assumes "sink_inv sm" "p \<in> set (skWaiting sm)"
  shows "puCall p < skCalls sm"
proof -
  have "push_id p \<in> set_mset (mset (map push_id (pushes sm)))" using assms(2) by (simp add: pushes_def)
  then have "push_id p \<in> set (List.product [0..<skCalls sm] [0..<length (skHolders sm)])"
    using assms(1) unfolding sink_inv_def by (metis set_mset_mset)
  then show ?thesis by (simp add: push_id_def)
qed

lemma sinks_Export_due:
  assumes "sink_inv sm"
  shows "due_by (skCalls sm) (skClock sm + max 0 (exportDataTimeout sm)) (sinks_Export data sm)"
  using waiting_call [OF assms] by (fastforce simp: due_by_def sinks_Export_def startPushes_def list_all_iff)

text \<open>Something can always happen: a timer is due, or time can pass.\<close>

lemma sink_progress:
  assumes "sink_inv sm"
  shows "\<exists>e sm'. sink_step sm e = Some sm' \<and> (skClock sm < skClock sm' \<or> length (skWaiting sm') < length (skWaiting sm))"
proof (cases "\<exists>p \<in> set (skWaiting sm). puDeadline p \<le> skClock sm")
  case True
  then obtain p where p: "p \<in> set (skWaiting sm)" "puDeadline p \<le> skClock sm" by blast
  then have "\<exists>sm'. expirePush p sm = Some sm' \<and> length (skWaiting sm') < length (skWaiting sm)"
    by (auto simp: expirePush_def length_remove1 intro: diff_less length_pos_if_in_set)
  then show ?thesis by (metis sink_step.simps(5))
next
  case False
  then have "\<forall>p \<in> set (skWaiting sm). skClock sm + 1 \<le> puDeadline p" by auto
  then have "sink_step sm (SinkTime (skClock sm + 1)) = Some (sm \<lparr> skClock := skClock sm + 1 \<rparr>)"
    by (simp add: passTime_def list_all_iff)
  then show ?thesis by (metis add.commute less_add_one sink_manager.select_convs(5) sink_manager.surjective sink_manager.update_convs(5))
qed

text \<open>
  C24. An export returns: in every history of the sink manager, once more than the export timeout has
  passed since the call, all its pushes have been taken by a sink or have timed out, whatever the
  sinks do. And the manager is never stuck: either a timer that is due can fire, or time can pass.
\<close>

theorem sinks_Export_returns:
  assumes "sink_run (NewSinkManager n et st now) before = Some sm"
    and "sink_run (sinks_Export data sm) after = Some u"
    and "skClock sm + max 0 et < skClock u"
  shows "returned (skCalls sm) u \<and>
    (\<exists>e u'. sink_step u e = Some u' \<and> (skClock u < skClock u' \<or> length (skWaiting u') < length (skWaiting u)))"
proof -
  have inv: "sink_inv sm" by (rule sink_run_inv [OF assms(1)])
  have "exportDataTimeout sm = et" using sink_run_constant [OF assms(1)] by (simp add: NewSinkManager_def)
  with sinks_Export_due [OF inv] have "due_by (skCalls sm) (skClock sm + max 0 et) u" by (auto intro: due_by_run [OF assms(2)])
  moreover have "sink_inv (sinks_Export data sm)" using inv by (simp add: sinks_Export_def startPushes_inv)
  from sinks.run_invar [OF sink_run_run [OF assms(2)] this] have "sink_inv u" .
  ultimately show ?thesis using assms(3) due_by_returned sink_progress by blast
qed

text \<open>
  C25. Every push is accounted for: in every history, each sink has exactly one push of each call, and it
  is waiting, delivered or expired; the counter of timeouts is the number of expired exports.
\<close>

theorem sink_pushes_accounted:
  assumes "sink_run (NewSinkManager n et st now) es = Some sm"
  shows "mset (map push_id (skWaiting sm @ skDelivered sm @ skExpired sm)) = mset (List.product [0..<skCalls sm] [0..<n]) \<and>
    sinkTimeouts sm = length (filter (\<lambda>p. puMessage p \<noteq> StopMessage) (skExpired sm))"
  using sink_run_inv [OF assms] sink_run_constant [OF assms] by (simp add: sink_inv_def NewSinkManager_def pushes_def)

definition sample_batch_out :: batch where
  "sample_batch_out = \<lparr> Timestamp = 1, Sets = [], Metrics = [] \<rparr>"

definition sample_sink_push :: "nat \<Rightarrow> sink_push" where
  "sample_sink_push i = \<lparr> puSink = i, puCall = 0, puMessage = DataMessage sample_batch_out, puDeadline = 20 \<rparr>"

text \<open>Two sinks, of which the second one never listens.\<close>

definition sample_sink_history :: "sink_event list" where
  "sample_sink_history = [SinkAccept (sample_sink_push 0), SinkTime 20, SinkExpire (sample_sink_push 1), SinkTime 21]"

lemmas sink_sample_simps = NewSinkManager_def sinks_Export_def startPushes_def sample_sink_history_def sample_sink_push_def
  acceptPush_def expirePush_def passTime_def upt_rec

theorem sinks_Export_returns_witness:
  "\<exists>u. sink_run (sinks_Export sample_batch_out (NewSinkManager 2 20 60 0)) sample_sink_history = Some u \<and> returned 0 u \<and> sinkTimeouts u = 1"
proof -
  obtain u where u: "sink_run (sinks_Export sample_batch_out (NewSinkManager 2 20 60 0)) sample_sink_history = Some u"
    "skClock u = 21" "sinkTimeouts u = 1"
    by (simp add: sink_sample_simps)
  have "sink_run (NewSinkManager 2 20 60 0) [] = Some (NewSinkManager 2 20 60 0)" by simp
  from sinks_Export_returns [OF this u(1)] u show ?thesis by (simp add: NewSinkManager_def)
qed

theorem sink_pushes_accounted_witness:
  "\<exists>u. sink_run (NewSinkManager 2 20 60 0) (SinkExport sample_batch_out # sample_sink_history) = Some u \<and>
     mset (map push_id (skWaiting u @ skDelivered u @ skExpired u)) = {# (0, 0), (0, 1) #}"
proof -
  obtain u where u: "sink_run (NewSinkManager 2 20 60 0) (SinkExport sample_batch_out # sample_sink_history) = Some u" "skCalls u = 1"
    by (simp add: sink_sample_simps)
  from sink_pushes_accounted [OF u(1)] u show ?thesis by (simp add: upt_rec)
qed

end
