(* ===== verification/Go_Duration.thy ===== *)
theory Go_Duration
  imports Go_Time Go_Strings
begin

text \<open>
  \<^verbatim>\<open>Duration.String\<close> and \<^verbatim>\<open>time.ParseDuration\<close>, which the discovery of endpoints uses to merge the
  intervals of a rule with those of an annotation, and their round trip. Both work on \<^verbatim>\<open>uint64\<close>; the
  model has natural numbers, with the wrap-around written out in the one sum that can overflow.
\<close>

section \<open>Printing\<close>

fun fmtFrac :: "nat \<Rightarrow> nat \<Rightarrow> bool \<Rightarrow> string \<Rightarrow> string \<times> nat" where
  "fmtFrac 0 v prnt buf = (if prnt then CHR ''.'' # buf else buf, v)"
| "fmtFrac (Suc i) v prnt buf =
     (let digit = v mod 10; prnt = (prnt \<or> digit \<noteq> 0)
      in fmtFrac i (v div 10) prnt (if prnt then char_of (48 + digit) # buf else buf))"

definition micro :: string where "micro = [CHR 0xC2, CHR 0xB5]"

definition durationText :: "nat \<Rightarrow> string" where
  "durationText u =
     (if u < 1000000000 then
        (if u = 0 then ''0s''
         else (let (prec, unit) = (if u < 1000 then (0, ''ns'') else if u < 1000000 then (3, micro @ ''s'') else (6, ''ms''));
                   (buf, v) = fmtFrac prec u False unit
               in show_nat v @ buf))
      else (let (buf, v) = fmtFrac 9 u False ''s'' in
            let buf = show_nat (v mod 60) @ buf; v = v div 60 in
            if v > 0 then
              (let buf = show_nat (v mod 60) @ CHR ''m'' # buf; v = v div 60 in
               if v > 0 then show_nat v @ CHR ''h'' # buf else buf)
            else buf))"

definition Duration_String :: "duration \<Rightarrow> string" where
  "Duration_String d = (if d < 0 then CHR ''-'' # durationText (nat \<bar>d\<bar>) else durationText (nat \<bar>d\<bar>))"

section \<open>Parsing\<close>

definition is_digit :: "char \<Rightarrow> bool" where
  "is_digit c \<longleftrightarrow> 48 \<le> (of_char c :: nat) \<and> (of_char c :: nat) \<le> 57"

definition digit_val :: "char \<Rightarrow> nat" where
  "digit_val c = of_char c - 48"

fun leadingInt :: "nat \<Rightarrow> string \<Rightarrow> (nat \<times> string) option" where
  "leadingInt x [] = Some (x, [])"
| "leadingInt x (c # s) =
     (if \<not> is_digit c then Some (x, c # s)
      else if x > 2 ^ 63 div 10 then None
      else (let x = x * 10 + digit_val c in if x > 2 ^ 63 then None else leadingInt x s))"

fun leadingFraction :: "nat \<Rightarrow> f64 \<Rightarrow> bool \<Rightarrow> string \<Rightarrow> nat \<times> f64 \<times> string" where
  "leadingFraction x scale overflow [] = (x, scale, [])"
| "leadingFraction x scale overflow (c # s) =
     (if \<not> is_digit c then (x, scale, c # s)
      else if overflow then leadingFraction x scale overflow s
      else if x > (2 ^ 63 - 1) div 10 then leadingFraction x scale True s
      else (let y = x * 10 + digit_val c in
            if y > 2 ^ 63 then leadingFraction x scale True s
            else leadingFraction y (f_mul scale (Fin 10)) False s))"

definition unitMap :: "(string, nat) gomap" where
  "unitMap = [(''ns'', 1), (''us'', 1000), (micro @ ''s'', 1000), ([CHR 0xCE, CHR 0xBC] @ ''s'', 1000),
     (''ms'', 1000000), (''s'', 1000000000), (''m'', 60000000000), (''h'', 3600000000000)]"

definition unit_char :: "char \<Rightarrow> bool" where
  "unit_char c \<longleftrightarrow> \<not> (c = CHR ''.'' \<or> is_digit c)"

text \<open>The optional fraction of a number, and whether it has digits.\<close>

definition parseFraction :: "string \<Rightarrow> nat \<times> f64 \<times> string \<times> bool" where
  "parseFraction s =
     (if s \<noteq> [] \<and> hd s = CHR ''.'' then
        (let (f, scale, r) = leadingFraction 0 (Fin 1) False (tl s) in (f, scale, r, length (tl s) \<noteq> length r))
      else (0, Fin 1, s, False))"

text \<open>One round of the loop: a number and its unit, and the rest of the text.\<close>

definition parseTerm :: "string \<Rightarrow> (nat \<times> string) option" where
  "parseTerm s =
     (if unit_char (hd s) then None
      else (case leadingInt 0 s of
              None \<Rightarrow> None
            | Some (v, s1) \<Rightarrow>
                (let pre = length s \<noteq> length s1;
                     (f, scale, s2, post) = parseFraction s1;
                     u = takeWhile unit_char s2;
                     rest = dropWhile unit_char s2
                 in if \<not> pre \<and> \<not> post then None
                    else if u = [] then None
                    else (case map_of unitMap u of
                            None \<Rightarrow> None
                          | Some unit \<Rightarrow>
                              if v > 2 ^ 63 div unit then None
                              else (let v = v * unit;
                                        v = (if f > 0 then v + unat (int64_of_f (f_mul (rnd (of_nat f)) (f_div (rnd (of_nat unit)) scale))) else v)
                                    in if v > 2 ^ 63 then None else Some (v, rest))))))"

lemma leadingInt_length: "leadingInt x s = Some (v, r) \<Longrightarrow> length r \<le> length s"
  by (induction x s rule: leadingInt.induct) (auto simp: Let_def split: if_splits)

lemma leadingFraction_length: "leadingFraction x sc ov s = (f, scale, r) \<Longrightarrow> length r \<le> length s"
  by (induction x sc ov s rule: leadingFraction.induct) (auto simp: Let_def split: if_splits)

lemma dropWhile_shorter: "takeWhile P s \<noteq> [] \<Longrightarrow> length (dropWhile P s) < length s"
  by (cases s) (auto intro: le_imp_less_Suc length_dropWhile_le split: if_splits)

lemma parseFraction_length:
  assumes "parseFraction s = (f, scale, r, post)"
  shows "length r \<le> length s"
proof (cases "s \<noteq> [] \<and> hd s = CHR ''.''")
  case True
  obtain f' sc' r' where l: "leadingFraction 0 (Fin 1) False (tl s) = (f', sc', r')" by (cases "leadingFraction 0 (Fin 1) False (tl s)")
  with True assms have "r = r'" by (simp add: parseFraction_def)
  with leadingFraction_length [OF l] show ?thesis by simp
next
  case False
  then have "parseFraction s = (0, Fin 1, s, False)" by (auto simp: parseFraction_def)
  with assms show ?thesis by simp
qed

lemma parseTerm_shorter:
  assumes "parseTerm s = Some (v, r)"
  shows "length r < length s"
proof -
  obtain w s1 where 1: "leadingInt 0 s = Some (w, s1)"
    using assms by (auto simp: parseTerm_def split: if_splits option.splits)
  obtain f scale s2 post where 2: "parseFraction s1 = (f, scale, s2, post)" by (cases "parseFraction s1")
  from parseFraction_length [OF this] have "length s2 \<le> length s1" .
  moreover have "r = dropWhile unit_char s2" "takeWhile unit_char s2 \<noteq> []"
    using assms unfolding parseTerm_def 1 option.case prod.case 2 Let_def
    by (auto split: if_splits option.splits)
  ultimately show ?thesis using leadingInt_length [OF 1] dropWhile_shorter [of unit_char s2] by simp
qed

function parseTerms :: "nat \<Rightarrow> string \<Rightarrow> nat option" where
  "parseTerms d s =
     (if s = [] then Some d
      else (case parseTerm s of
              None \<Rightarrow> None
            | Some (v, rest) \<Rightarrow> (let d = (d + v) mod 2 ^ 64 in if d > 2 ^ 63 then None else parseTerms d rest)))"
  by pat_completeness auto
termination
  by (relation "measure (\<lambda>(_, s). length s)") (auto dest: parseTerm_shorter)

declare parseTerms.simps [simp del]

definition ParseDuration :: "string \<Rightarrow> duration go_result" where
  "ParseDuration s =
     (let (neg, s') = (if s \<noteq> [] \<and> (hd s = CHR ''-'' \<or> hd s = CHR ''+'') then (hd s = CHR ''-'', tl s) else (False, s)) in
      if s' = ''0'' then Inr 0
      else if s' = [] then Inl (Errorf (''time: invalid duration '' @ s))
      else (case parseTerms 0 s' of
              None \<Rightarrow> Inl (Errorf (''time: invalid duration '' @ s))
            | Some d \<Rightarrow>
                if neg then Inr (- int d)
                else if d > 2 ^ 63 - 1 then Inl (Errorf (''time: invalid duration '' @ s))
                else Inr (int d)))"

section \<open>The round trip\<close>

definition digits_val :: "nat \<Rightarrow> string \<Rightarrow> nat" where
  "digits_val x ds = foldl (\<lambda>x c. x * 10 + digit_val c) x ds"

lemma digits_val_simps [simp]:
  "digits_val x [] = x" "digits_val x (c # s) = digits_val (x * 10 + digit_val c) s"
  "digits_val x (s @ t) = digits_val (digits_val x s) t"
  by (simp_all add: digits_val_def)

lemma digits_val_ge: "x \<le> digits_val x s"
proof (induction s arbitrary: x)
  case (Cons c s)
  have "x \<le> x * 10 + digit_val c" by simp
  also have "\<dots> \<le> digits_val x (c # s)" by (simp add: Cons)
  finally show ?case .
qed simp

lemma digit_char [simp]: "n < 10 \<Longrightarrow> is_digit (char_of (48 + n))" "n < 10 \<Longrightarrow> digit_val (char_of (48 + n)) = n"
  by (simp_all add: is_digit_def digit_val_def)

lemma show_nat_digits: "list_all is_digit (show_nat n) \<and> show_nat n \<noteq> [] \<and> digits_val 0 (show_nat n) = n"
proof (induction n rule: less_induct)
  case (less n)
  show ?case
  proof (cases "n < 10")
    case False
    then have "list_all is_digit (show_nat (n div 10)) \<and> digits_val 0 (show_nat (n div 10)) = n div 10" using less [of "n div 10"] by simp
    with False show ?thesis by (subst (1 2 3) show_nat.simps) simp
  qed (subst (1 2 3) show_nat.simps, simp)
qed

abbreviation no_digit :: "string \<Rightarrow> bool" where
  "no_digit r \<equiv> r = [] \<or> \<not> is_digit (hd r)"

lemma leadingInt_digits:
  "list_all is_digit ds \<Longrightarrow> no_digit r \<Longrightarrow> digits_val x ds \<le> 2 ^ 63 \<Longrightarrow> leadingInt x (ds @ r) = Some (digits_val x ds, r)"
proof (induction ds arbitrary: x)
  case Nil
  then show ?case by (cases r) auto
next
  case (Cons c ds)
  have "x * 10 + digit_val c \<le> 2 ^ 63" using Cons.prems(3) digits_val_ge [of "x * 10 + digit_val c" ds] by simp
  moreover from this have "x \<le> 2 ^ 63 div 10" by simp
  ultimately show ?case using Cons by (simp add: Let_def)
qed

lemma leadingFraction_digits:
  "list_all is_digit ds \<Longrightarrow> no_digit r \<Longrightarrow> j + length ds \<le> 9 \<Longrightarrow> x < 10 ^ j \<Longrightarrow>
     leadingFraction x (Fin (10 ^ j)) False (ds @ r) = (digits_val x ds, Fin (10 ^ (j + length ds)), r)"
proof (induction ds arbitrary: x j)
  case Nil
  then show ?case by (cases r) auto
next
  case (Cons c ds)
  have j: "j \<le> 8" using Cons.prems(3) by simp
  have "digit_val c < 10" using Cons.prems(1) by (auto simp: is_digit_def digit_val_def)
  then have x: "x * 10 + digit_val c < 10 ^ Suc j" using Cons.prems(4) by simp
  have "(10::nat) ^ Suc j \<le> 10 ^ 9" using j by (intro power_increasing) simp_all
  then have b: "x * 10 + digit_val c \<le> 10 ^ 9" using x by linarith
  then have small: "x \<le> (2 ^ 63 - 1) div 10" "x * 10 + digit_val c \<le> 2 ^ 63" by simp_all
  have "(10::int) ^ Suc j \<le> 10 ^ 9" using j by (intro power_increasing) simp_all
  then have "rnd (of_int (10 ^ Suc j)) = Fin (of_int (10 ^ Suc j))" by (intro rnd_of_int) simp
  then have "f_mul (Fin (10 ^ j)) (Fin 10) = Fin (10 ^ Suc j)" by (simp add: mult.commute)
  then show ?case using Cons.IH [OF _ Cons.prems(2), of "Suc j" "x * 10 + digit_val c"] Cons.prems small x
    by (simp add: Let_def)
qed

lemma fmtFrac_True:
  "\<exists>ds. fmtFrac p v True buf = (CHR ''.'' # ds @ buf, v div 10 ^ p) \<and> list_all is_digit ds \<and> length ds = p \<and>
     (\<forall>x. digits_val x ds = x * 10 ^ p + v mod 10 ^ p)"
proof (induction p arbitrary: v buf)
  case (Suc p)
  from Suc [of "v div 10" "char_of (48 + v mod 10) # buf"] obtain ds where ds:
    "fmtFrac p (v div 10) True (char_of (48 + v mod 10) # buf) = (CHR ''.'' # ds @ char_of (48 + v mod 10) # buf, v div 10 div 10 ^ p)"
    "list_all is_digit ds" "length ds = p" "\<forall>x. digits_val x ds = x * 10 ^ p + v div 10 mod 10 ^ p" by blast
  have "v div 10 mod 10 ^ p * 10 + v mod 10 = v mod 10 ^ Suc p" by (simp add: mod_mult2_eq)
  with ds show ?case
    by (intro exI [of _ "ds @ [char_of (48 + v mod 10)]"]) (simp add: div_mult2_eq algebra_simps)
qed simp

definition frac_text :: "string \<Rightarrow> nat \<Rightarrow> nat \<Rightarrow> bool" where
  "frac_text fr p m \<longleftrightarrow> (fr = [] \<and> m = 0) \<or>
     (\<exists>ds. fr = CHR ''.'' # ds \<and> ds \<noteq> [] \<and> list_all is_digit ds \<and> length ds \<le> p \<and> digits_val 0 ds * 10 ^ (p - length ds) = m \<and> 0 < m)"

lemma fmtFrac_False:
  "\<exists>fr. fmtFrac p v False buf = (fr @ buf, v div 10 ^ p) \<and> frac_text fr p (v mod 10 ^ p)"
proof (induction p arbitrary: v buf)
  case (Suc p)
  have split: "v mod 10 ^ Suc p = v div 10 mod 10 ^ p * 10 + v mod 10" by (simp add: mod_mult2_eq)
  show ?case
  proof (cases "v mod 10 = 0")
    case True
    obtain fr where fr: "fmtFrac p (v div 10) False buf = (fr @ buf, v div 10 div 10 ^ p)" "frac_text fr p (v div 10 mod 10 ^ p)"
      using Suc [of "v div 10" buf] by blast
    have "frac_text fr (Suc p) (v mod 10 ^ Suc p)"
      using fr(2) unfolding split True frac_text_def by (auto simp: Suc_diff_le)
    with fr(1) True show ?thesis by (intro exI [of _ fr]) (simp add: div_mult2_eq)
  next
    case False
    obtain ds where ds: "fmtFrac p (v div 10) True (char_of (48 + v mod 10) # buf) = (CHR ''.'' # ds @ char_of (48 + v mod 10) # buf, v div 10 div 10 ^ p)"
        "list_all is_digit ds" "length ds = p" "\<forall>x. digits_val x ds = x * 10 ^ p + v div 10 mod 10 ^ p"
      using fmtFrac_True [of p "v div 10" "char_of (48 + v mod 10) # buf"] by blast
    have "frac_text (CHR ''.'' # ds @ [char_of (48 + v mod 10)]) (Suc p) (v mod 10 ^ Suc p)"
      unfolding split frac_text_def using ds(2-4) False by (intro disjI2 exI [of _ "ds @ [char_of (48 + v mod 10)]"]) simp
    with ds(1) False show ?thesis
      by (intro exI [of _ "CHR ''.'' # ds @ [char_of (48 + v mod 10)]"]) (simp add: div_mult2_eq)
  qed
qed (simp add: frac_text_def)

lemma frac_scaled:
  assumes "k \<le> p" "p \<le> 9" "0 < f" "f * 10 ^ (p - k) < 10 ^ p"
  shows "unat (int64_of_f (f_mul (rnd (of_nat f)) (f_div (rnd (of_nat (10 ^ p))) (Fin (10 ^ k))))) = f * 10 ^ (p - k)"
proof -
  define m where "m = f * 10 ^ (p - k)"
  have p: "(10::nat) ^ p \<le> 10 ^ 9" using assms(2) by (intro power_increasing) simp_all
  have m: "m \<le> 10 ^ 9" using assms(4) p by (simp add: m_def)
  have "f \<le> m" unfolding m_def by simp
  then have f: "f \<le> 10 ^ 9" using m by (rule order_trans)
  have rn: "rnd (of_nat n) = Fin (of_nat n)" if "n \<le> 10 ^ 9" for n
    using rnd_of_int [of "int n"] that by simp
  have pk: "(10::rat) ^ p / 10 ^ k = 10 ^ (p - k)" using assms(1) by (simp add: power_diff)
  have "(10::nat) ^ (p - k) \<le> 10 ^ 9" using assms by (intro power_increasing) simp_all
  from rn [OF this] have "rnd (10 ^ (p - k)) = Fin (10 ^ (p - k))" by simp
  then have "f_div (rnd (of_nat (10 ^ p))) (Fin (10 ^ k)) = Fin (10 ^ (p - k))" using rn [OF p] by (simp add: pk)
  then have "f_mul (rnd (of_nat f)) (f_div (rnd (of_nat (10 ^ p))) (Fin (10 ^ k))) = rnd (of_nat m)"
    using rn [OF f] by (simp add: m_def)
  moreover have "unat (int64_of_f (rnd (of_nat m))) = m"
  proof -
    have "trunc_rat (of_nat m) = int m" using trunc_rat_of_int [of "int m"] by simp
    then have "int64_of_f (rnd (of_nat m)) = word_of_int (int m)" using m rn [OF m] by simp
    then show ?thesis using m by (simp add: take_bit_nat_eq_self unat_of_nat)
  qed
  ultimately show ?thesis by (simp add: m_def)
qed

lemma takeWhile_unit:
  "list_all unit_char u \<Longrightarrow> rest = [] \<or> \<not> unit_char (hd rest) \<Longrightarrow>
     takeWhile unit_char (u @ rest) = u \<and> dropWhile unit_char (u @ rest) = rest"
  by (cases rest) (auto simp: list_all_iff takeWhile_append2 dropWhile_append2)

lemma no_digit_unit: "u \<noteq> [] \<Longrightarrow> list_all unit_char u \<Longrightarrow> \<not> is_digit (hd (u @ rest)) \<and> hd (u @ rest) \<noteq> CHR ''.''"
  by (cases u) (auto simp: unit_char_def)

lemma parseFraction_text:
  assumes "frac_text fr p m" "p \<le> 9" "u \<noteq> []" "list_all unit_char u"
  shows "\<exists>f k post. parseFraction (fr @ u @ rest) = (f, Fin (10 ^ k), u @ rest, post) \<and> k \<le> p \<and> m = f * 10 ^ (p - k)"
proof (cases "fr = []")
  case True
  with assms no_digit_unit [OF assms(3,4), of rest] show ?thesis
    by (intro exI [of _ 0] exI [of _ "0::nat"]) (auto simp: frac_text_def parseFraction_def)
next
  case False
  then obtain ds where ds: "fr = CHR ''.'' # ds" "list_all is_digit ds" "length ds \<le> p" "digits_val 0 ds * 10 ^ (p - length ds) = m"
    using assms(1) by (auto simp: frac_text_def)
  have "leadingFraction 0 (Fin (10 ^ 0)) False (ds @ u @ rest) = (digits_val 0 ds, Fin (10 ^ (0 + length ds)), u @ rest)"
    using ds assms no_digit_unit [OF assms(3,4), of rest] by (intro leadingFraction_digits) simp_all
  with ds show ?thesis
    by (intro exI [of _ "digits_val 0 ds"] exI [of _ "length ds"]) (auto simp: parseFraction_def)
qed

lemma parseTerm_text:
  assumes fr: "frac_text fr p m" "p \<le> 9" "m < 10 ^ p" and u: "u \<noteq> []" "list_all unit_char u" "map_of unitMap u = Some unit" "0 < unit"
    and scale: "m = 0 \<or> unit = 10 ^ p" and range: "n * unit + m \<le> 2 ^ 63"
    and rest: "rest = [] \<or> \<not> unit_char (hd rest)"
  shows "parseTerm (show_nat n @ fr @ u @ rest) = Some (n * unit + m, rest)"
proof -
  note sn = show_nat_digits [of n]
  have hd: "\<not> unit_char (hd (show_nat n @ fr @ u @ rest))" using sn by (cases "show_nat n") (auto simp: unit_char_def)
  have fru: "no_digit (fr @ u @ rest)" using fr(1) no_digit_unit [OF u(1,2), of rest] by (auto simp: frac_text_def is_digit_def)
  have n: "n \<le> 2 ^ 63 div unit" using range u(4) by (metis add_leD1 less_eq_div_iff_mult_less_eq)
  have "n \<le> n * unit" using u(4) by simp
  also have "n * unit \<le> 2 ^ 63" using range by simp
  finally have li: "leadingInt 0 (show_nat n @ fr @ u @ rest) = Some (n, fr @ u @ rest)"
    using leadingInt_digits [of "show_nat n" "fr @ u @ rest" 0] sn fru by simp
  obtain f k post where pf: "parseFraction (fr @ u @ rest) = (f, Fin (10 ^ k), u @ rest, post)" "k \<le> p" "m = f * 10 ^ (p - k)"
    using parseFraction_text [OF fr(1,2) u(1,2)] by blast
  have v: "(if f > 0 then n * unit + unat (int64_of_f (f_mul (rnd (of_nat f)) (f_div (rnd (of_nat unit)) (Fin (10 ^ k))))) else n * unit) = n * unit + m"
  proof (cases "f > 0")
    case True
    then have "m \<noteq> 0" using pf(3) by simp
    with scale have "unit = 10 ^ p" by simp
    with True frac_scaled [OF pf(2) fr(2) True] fr(3) pf(3) show ?thesis by simp
  qed (use pf(3) in simp)
  have len: "length (show_nat n @ fr @ u @ rest) \<noteq> length (fr @ u @ rest)" using sn by simp
  show ?thesis
    unfolding parseTerm_def li option.case prod.case Let_def pf(1)
    using hd len takeWhile_unit [OF u(2) rest] u(1,3) n v range by simp
qed

lemma parseTerms_Cons:
  assumes "parseTerm s = Some (v, rest)" "s \<noteq> []" "d + v \<le> 2 ^ 63"
  shows "parseTerms d s = parseTerms (d + v) rest"
  using assms by (subst parseTerms.simps) (simp add: Let_def mod_less)

lemma unit_facts:
  "map_of unitMap ''h'' = Some 3600000000000" "map_of unitMap ''m'' = Some 60000000000" "map_of unitMap ''s'' = Some 1000000000"
  "map_of unitMap ''ms'' = Some 1000000" "map_of unitMap (micro @ ''s'') = Some 1000" "map_of unitMap ''ns'' = Some 1"
  "list_all unit_char ''h''" "list_all unit_char ''m''" "list_all unit_char ''s''"
  "list_all unit_char ''ms''" "list_all unit_char (micro @ ''s'')" "list_all unit_char ''ns''"
  by (simp_all add: unitMap_def micro_def unit_char_def is_digit_def)

lemma show_nat_not_unit: "\<not> unit_char (hd (show_nat n @ r))"
  using show_nat_digits [of n] by (cases "show_nat n") (auto simp: unit_char_def)

lemma parseTerms_one:
  assumes "frac_text fr p m" "p \<le> 9" "m < 10 ^ p" "u \<noteq> []" "list_all unit_char u" "map_of unitMap u = Some unit" "0 < unit"
    "m = 0 \<or> unit = 10 ^ p" "d + n * unit + m \<le> 2 ^ 63" "rest = [] \<or> \<not> unit_char (hd rest)"
  shows "parseTerms d (show_nat n @ fr @ u @ rest) = parseTerms (d + n * unit + m) rest"
proof -
  have "parseTerm (show_nat n @ fr @ u @ rest) = Some (n * unit + m, rest)"
    using assms by (intro parseTerm_text) simp_all
  from parseTerms_Cons [OF this, of d] show ?thesis using assms(4,9) by (simp add: add.assoc)
qed

lemma parseTerms_Nil [simp]: "parseTerms d [] = Some d"
  by (simp add: parseTerms.simps)

lemma frac_text_none: "frac_text [] 0 0"
  by (simp add: frac_text_def)

text \<open>The text of a duration of at least a second.\<close>

lemma parseTerms_long:
  assumes fr: "frac_text fr 9 m" "m < 10 ^ 9" and range: "v * 1000000000 + m \<le> 2 ^ 63"
  shows "parseTerms 0 (let buf = show_nat (v mod 60) @ fr @ ''s''; v = v div 60 in
      if v > 0 then (let buf = show_nat (v mod 60) @ CHR ''m'' # buf; v = v div 60 in if v > 0 then show_nat v @ CHR ''h'' # buf else buf) else buf) =
    Some (v * 1000000000 + m)"
proof -
  define h mi sec where "h = v div 60 div 60" and "mi = v div 60 mod 60" and "sec = v mod 60"
  have "v = v div 60 * 60 + v mod 60" "v div 60 = v div 60 div 60 * 60 + v div 60 mod 60" by simp_all
  then have v: "v = h * 3600 + mi * 60 + sec" unfolding h_def mi_def sec_def by linarith
  define bs bm where "bs = show_nat sec @ fr @ ''s''" and "bm = show_nat mi @ CHR ''m'' # bs"
  have s: "parseTerms d bs = Some (d + sec * 1000000000 + m)" if "d + sec * 1000000000 + m \<le> 2 ^ 63" for d
    using parseTerms_one [OF fr(1) _ fr(2), of "''s''" 1000000000 d sec "[]"] that unit_facts by (simp add: bs_def)
  have m: "parseTerms d bm = Some (d + mi * 60000000000 + sec * 1000000000 + m)"
    if "d + mi * 60000000000 + sec * 1000000000 + m \<le> 2 ^ 63" for d
    using parseTerms_one [OF frac_text_none, of "''m''" 60000000000 d mi bs] that unit_facts s show_nat_not_unit [of sec "fr @ ''s''"]
    by (simp add: bm_def bs_def)
  have h: "parseTerms 0 (show_nat h @ CHR ''h'' # bm) = Some (h * 3600000000000 + mi * 60000000000 + sec * 1000000000 + m)"
    using parseTerms_one [OF frac_text_none, of "''h''" 3600000000000 0 h bm] range v unit_facts m show_nat_not_unit [of mi "CHR ''m'' # bs"]
    by (simp add: bm_def)
  have eq: "(let buf = show_nat (v mod 60) @ fr @ ''s''; v = v div 60 in
      if v > 0 then (let buf = show_nat (v mod 60) @ CHR ''m'' # buf; v = v div 60 in if v > 0 then show_nat v @ CHR ''h'' # buf else buf) else buf) =
      (if v div 60 > 0 then if h > 0 then show_nat h @ CHR ''h'' # bm else bm else bs)"
    by (simp add: Let_def h_def bm_def bs_def mi_def sec_def)
  have z2: "mi = 0 \<and> h = 0" if "v div 60 = 0" using that by (simp add: mi_def h_def)
  consider "v div 60 = 0" | "0 < v div 60" "h = 0" | "0 < v div 60" "0 < h" by auto
  then show ?thesis
  proof cases
    case 1
    with z2 have "v = sec" using v by simp
    with s [of 0] range 1 show ?thesis unfolding eq by simp
  next
    case 2
    have "v * 1000000000 + m = mi * 60000000000 + sec * 1000000000 + m" using v 2 by simp
    with m [of 0] range 2 show ?thesis unfolding eq by simp
  next
    case 3
    have "v * 1000000000 + m = h * 3600000000000 + mi * 60000000000 + sec * 1000000000 + m" using v by simp
    with h 3 show ?thesis unfolding eq by simp
  qed
qed

lemma durationText_short:
  assumes "u mod 10 ^ p < 10 ^ p" "p \<le> 9" "map_of unitMap unit = Some (10 ^ p)" "unit \<noteq> []" "list_all unit_char unit" "u \<le> 2 ^ 63"
  shows "parseTerms 0 (let (buf, v) = fmtFrac p u False unit in show_nat v @ buf) = Some u"
proof -
  obtain fr where fr: "fmtFrac p u False unit = (fr @ unit, u div 10 ^ p)" "frac_text fr p (u mod 10 ^ p)"
    using fmtFrac_False [of p u unit] by blast
  have "u div 10 ^ p * 10 ^ p + u mod 10 ^ p = u" by (rule div_mult_mod_eq)
  with parseTerms_one [OF fr(2) assms(2,1,4,5,3), of 0 "u div 10 ^ p" "[]"] assms fr(1) show ?thesis by simp
qed

lemma parseTerms_durationText:
  assumes "u \<le> 2 ^ 63"
  shows "parseTerms 0 (durationText u) = Some u"
proof -
  consider "u = 0" | "0 < u" "u < 1000" | "1000 \<le> u" "u < 1000000" | "1000000 \<le> u" "u < 1000000000" | "1000000000 \<le> u" by linarith
  then show ?thesis
  proof cases
    case 1
    have "show_nat 0 = ''0''" by code_simp
    with 1 parseTerms_one [OF frac_text_none, of "''s''" 1000000000 0 0 "[]"] unit_facts show ?thesis by (simp add: durationText_def)
  next
    case 2
    with durationText_short [of u 0 "''ns''"] assms unit_facts show ?thesis by (simp add: durationText_def)
  next
    case 3
    with durationText_short [of u 3 "micro @ ''s''"] assms unit_facts show ?thesis by (simp add: durationText_def)
  next
    case 4
    with durationText_short [of u 6 "''ms''"] assms unit_facts show ?thesis by (simp add: durationText_def)
  next
    case 5
    obtain fr where fr: "fmtFrac 9 u False ''s'' = (fr @ ''s'', u div 10 ^ 9)" "frac_text fr 9 (u mod 10 ^ 9)"
      using fmtFrac_False [of 9 u "''s''"] by blast
    have "u div 10 ^ 9 * 1000000000 + u mod 10 ^ 9 = u" by simp
    with parseTerms_long [OF fr(2), of "u div 10 ^ 9"] assms fr(1) 5 show ?thesis by (simp add: durationText_def)
  qed
qed

lemma durationText_hd: "durationText u \<noteq> [] \<and> is_digit (hd (durationText u))"
proof -
  have z: "''0s'' = show_nat 0 @ ''s''" by code_simp
  have "\<exists>n r. durationText u = show_nat n @ r"
  proof (cases "u = 0")
    case True
    then have "durationText u = ''0s''" by (simp add: durationText_def)
    then show ?thesis using z by metis
  qed (auto simp: durationText_def Let_def split: prod.splits)
  then obtain n r where "durationText u = show_nat n @ r" by blast
  with show_nat_digits [of n] show ?thesis by (cases "show_nat n") auto
qed

lemma durationText_not_zero: "u \<le> 2 ^ 63 \<Longrightarrow> durationText u \<noteq> ''0''"
proof
  assume "u \<le> 2 ^ 63" "durationText u = ''0''"
  with parseTerms_durationText have "parseTerms 0 ''0'' = Some u" by metis
  moreover have "parseTerm ''0'' = None" by (simp add: parseTerm_def unit_char_def is_digit_def digit_val_def parseFraction_def)
  then have "parseTerms 0 ''0'' = None" by (simp add: parseTerms.simps)
  ultimately show False by simp
qed

text \<open>A printed duration is read back exactly.\<close>

lemma ParseDuration_String:
  assumes "minDuration \<le> d" "d \<le> maxDuration"
  shows "ParseDuration (Duration_String d) = Inr d"
proof -
  have u: "nat \<bar>d\<bar> \<le> 2 ^ 63" using assms by (auto simp: minDuration_def maxDuration_def)
  note p = parseTerms_durationText [OF u] and z = durationText_not_zero [OF u] and h = durationText_hd [of "nat \<bar>d\<bar>"]
  have nosign: "hd (durationText (nat \<bar>d\<bar>)) \<noteq> CHR ''-''" "hd (durationText (nat \<bar>d\<bar>)) \<noteq> CHR ''+''"
    using h by (auto simp: is_digit_def)
  show ?thesis
  proof (cases "d < 0")
    case True
    with p z h show ?thesis by (simp add: ParseDuration_def Duration_String_def)
  next
    case False
    with assms have "nat d \<le> 2 ^ 63 - 1" by (simp add: maxDuration_def)
    with False p z h nosign show ?thesis by (simp add: ParseDuration_def Duration_String_def)
  qed
qed

end
