(* ===== verification/Endpoint_Encoding.thy ===== *)
theory Endpoint_Encoding
  imports Go_Duration Kube_Util
begin

text \<open>
  How a discovered resource becomes the configuration of a source: the resources of
  \<^verbatim>\<open>internal/discovery/types.go\<close>, the helpers of \<^verbatim>\<open>internal/discovery/helper.go\<close> and
  \<^verbatim>\<open>utils/encoding.go\<close>, and the encoders of \<^verbatim>\<open>plugins/discovery/prometheus/encoder.go\<close> and
  \<^verbatim>\<open>plugins/discovery/telegraf/handler.go\<close>.

  The parser of the YAML text of an HTTP client configuration is the parameter \<open>httpYAML\<close>. An encoder
  returns \<open>None\<close> where the code returns false as its third result; no caller reads the other results
  then.
\<close>

section \<open>Resources\<close>

abbreviation PodType :: int where "PodType \<equiv> 1"
abbreviation ServiceType :: int where "ServiceType \<equiv> 2"
abbreviation NodeType :: int where "NodeType \<equiv> 3"

definition ResourceType_String :: "int \<Rightarrow> string" where
  "ResourceType_String t =
     (if t = PodType then ''pod'' else if t = ServiceType then ''service'' else if t = NodeType then ''node'' else show_int t)"

record resource =
  rsKind :: string
  rsIP :: string
  rsMeta :: object_meta
  rsStatus :: string
  rsContainers :: "container list"

definition ResourceName :: "string \<Rightarrow> object_meta \<Rightarrow> string" where
  "ResourceName kind meta =
     (if mtNamespace meta \<noteq> [] then mtNamespace meta @ ''-'' @ kind @ ''-'' @ mtName meta else kind @ ''-'' @ mtName meta)"

section \<open>Helpers\<close>

definition encodeTag :: "string \<Rightarrow> string \<times> string \<Rightarrow> strmap \<Rightarrow> strmap" where
  "encodeTag prefix kv dest =
     (let (k, v) = kv in
      if k \<noteq> ''pod-template-hash'' \<and> length k > 0 \<and> length v > 0 then gput (prefix @ k) v dest else dest)"

definition EncodeTags :: "string \<Rightarrow> strmap \<Rightarrow> strmap \<Rightarrow> strmap" where
  "EncodeTags prefix tags dest = fold (encodeTag prefix) tags dest"

definition EncodeMeta :: "string \<Rightarrow> object_meta \<Rightarrow> strmap \<Rightarrow> strmap" where
  "EncodeMeta kind meta tags =
     (let tags = gput kind (mtName meta) tags in
      if mtNamespace meta \<noteq> [] then gput ''namespace'' (mtNamespace meta) tags else tags)"

definition Param :: "object_meta \<Rightarrow> string \<Rightarrow> string \<Rightarrow> string \<Rightarrow> string" where
  "Param meta annotation cfgVal defaultVal =
     (let v = (if annotation \<noteq> [] then get_str (mtAnnotations meta) annotation else []);
          v = (if v = [] then cfgVal else v)
      in if v = [] then defaultVal else v)"

section \<open>The Prometheus encoder\<close>

record prometheus_encoder =
  scrapeAnnotation :: string
  schemeAnnotation :: string
  pathAnnotation :: string
  portAnnotation :: string
  prefixAnnotation :: string
  labelsAnnotation :: string
  sourceAnnotation :: string
  collectionIntervalAnnotation :: string
  timeoutAnnotation :: string
  insecureSkipVerifyAnnotation :: string
  serverNameAnnotation :: string

definition customAnnotation :: "string \<Rightarrow> string \<Rightarrow> string" where
  "customAnnotation suffix prefix = prefix @ suffix"

definition newPrometheusEncoder :: "string \<Rightarrow> prometheus_encoder" where
  "newPrometheusEncoder prefix =
     (let prefix = (if length prefix = 0 then ''prometheus.io'' else prefix) in
      \<lparr> scrapeAnnotation = customAnnotation ''/scrape'' prefix, schemeAnnotation = customAnnotation ''/scheme'' prefix,
        pathAnnotation = customAnnotation ''/path'' prefix, portAnnotation = customAnnotation ''/port'' prefix,
        prefixAnnotation = customAnnotation ''/prefix'' prefix, labelsAnnotation = customAnnotation ''/includeLabels'' prefix,
        sourceAnnotation = customAnnotation ''/source'' prefix,
        collectionIntervalAnnotation = customAnnotation ''/collectionInterval'' prefix,
        timeoutAnnotation = customAnnotation ''/timeout'' prefix,
        insecureSkipVerifyAnnotation = customAnnotation ''/insecureSkipVerify'' prefix,
        serverNameAnnotation = customAnnotation ''/serverName'' prefix \<rparr>)"

definition sanitizePort :: "string \<Rightarrow> string \<Rightarrow> string" where
  "sanitizePort name port = (if Contains name ''kube-state-metrics'' \<and> port = [] then ''8080'' else port)"

definition uniqueName :: "string \<Rightarrow> string \<Rightarrow> string \<Rightarrow> bool \<Rightarrow> string" where
  "uniqueName name port path internal =
     (let out = name;
          out = (if port \<noteq> [] then out @ '':'' @ port else out);
          out = (if path \<noteq> [] then out @ path else out)
      in if internal then out @ ''.internal'' else out)"

definition encodeBase :: "string \<Rightarrow> string \<Rightarrow> string \<Rightarrow> string \<Rightarrow> string \<Rightarrow> string \<Rightarrow> string \<Rightarrow>
    prometheus_source_config \<Rightarrow> prometheus_source_config" where
  "encodeBase scheme ip port path name source prefix cfg =
     (let port = (if port \<noteq> [] then '':'' @ port else port) in
      cfg \<lparr> prURL := scheme @ ''://'' @ ip @ port @ path, prName := name,
            prTransforms := (prTransforms cfg) \<lparr> Source := source, Prefix := prefix \<rparr> \<rparr>)"

definition encodeHTTPConf :: "(string \<Rightarrow> client_config option) \<Rightarrow> string \<Rightarrow> string \<Rightarrow> string \<Rightarrow>
    prometheus_source_config \<Rightarrow> prometheus_source_config option" where
  "encodeHTTPConf httpYAML conf insecure serverName cfg =
     (if conf \<noteq> [] then
        (case httpYAML conf of None \<Rightarrow> None | Some httpConf \<Rightarrow> Some (cfg \<lparr> HTTPClientConfig := httpConf \<rparr>))
      else
        (let insecureBool = (if length insecure > 0 then (case ParseBool insecure of None \<Rightarrow> False | Some b \<Rightarrow> b)
                             else \<not> (length serverName > 0))
         in Some (cfg \<lparr> HTTPClientConfig := zeroClientConfig \<lparr> TLSConfig := (TLSConfig zeroClientConfig)
              \<lparr> InsecureSkipVerify := insecureBool, ServerName := serverName \<rparr> \<rparr> \<rparr>)))"

definition zeroPromConfig :: prometheus_source_config where
  "zeroPromConfig = \<lparr> prTransforms = zeroTransforms, prCollection = zeroCollection, prURL = [], HTTPClientConfig = zeroClientConfig,
     prDiscovered = [], prName = [], prUseLeaderElection = False \<rparr>"

text \<open>The second half of \<^verbatim>\<open>Encode\<close>, from the scheme on.\<close>

definition encodeEndpoint :: "(string \<Rightarrow> client_config option) \<Rightarrow> string \<Rightarrow> prometheus_encoder \<Rightarrow>
    string \<Rightarrow> string \<Rightarrow> object_meta \<Rightarrow> plugin_config \<Rightarrow> prometheus_source_config \<Rightarrow> (string \<times> prometheus_source_config) option" where
  "encodeEndpoint httpYAML nodeName e ip kind meta rule result =
     (let scheme = Param meta (schemeAnnotation e) (plScheme rule) ''http'';
          path = Param meta (pathAnnotation e) (plPath rule) ''/metrics'';
          port = Param meta (portAnnotation e) (plPort rule) [];
          prefix = Param meta (prefixAnnotation e) (plPrefix rule) [];
          source = Param meta (sourceAnnotation e) (plSource rule) nodeName;
          includeLabels = Param meta (labelsAnnotation e) (plIncludeLabels rule) ''true'';
          insecureSkipVerify = Param meta (insecureSkipVerifyAnnotation e) [] [];
          serverName = Param meta (serverNameAnnotation e) [] [];
          source = (if source = [] then mtName meta else source);
          name = ResourceName kind meta;
          port = sanitizePort (mtName meta) port;
          name = uniqueName name port path (plInternal rule);
          result = encodeBase scheme ip port path name source prefix result;
          tags = EncodeMeta kind meta (Tags (prTransforms result));
          tags = EncodeTags [] (plTags rule) tags;
          tags = (if includeLabels = ''true'' then EncodeTags ''label.'' (mtLabels meta) tags else tags);
          result = result \<lparr> prTransforms := (prTransforms result) \<lparr> Tags := tags, Filters := plFilters rule \<rparr> \<rparr>
      in case encodeHTTPConf httpYAML (plConf rule) insecureSkipVerify serverName result of
           None \<Rightarrow> None
         | Some result \<Rightarrow> Some (name, result))"

definition prometheusEncoder_Encode :: "(string \<Rightarrow> client_config option) \<Rightarrow> string \<Rightarrow> prometheus_encoder \<Rightarrow>
    string \<Rightarrow> string \<Rightarrow> object_meta \<Rightarrow> plugin_config \<Rightarrow> (string \<times> prometheus_source_config) option" where
  "prometheusEncoder_Encode httpYAML nodeName e ip kind meta rule =
     (if ip = [] \<or> ip = ''None'' then None
      else
        (let result = zeroPromConfig \<lparr> prDiscovered := (if plName rule \<noteq> [] then ''rule'' else ''annotation''),
               prUseLeaderElection := (kind = ResourceType_String ServiceType) \<rparr>;
             collectionInterval = Param meta (collectionIntervalAnnotation e) (Duration_String (Interval (plCollection rule))) ''0s'';
             timeout = Param meta (timeoutAnnotation e) (Duration_String (Timeout (plCollection rule))) ''0s''
         in case ParseDuration collectionInterval of
              Inl err \<Rightarrow> None
            | Inr collectionDuration \<Rightarrow>
                (case ParseDuration timeout of
                   Inl err \<Rightarrow> None
                 | Inr timeoutDuration \<Rightarrow>
                     (let result = result \<lparr> prCollection := \<lparr> Interval = collectionDuration, Timeout = timeoutDuration \<rparr> \<rparr>;
                          scrape = Param meta (scrapeAnnotation e) [] ''false''
                      in if plName rule = [] \<and> scrape \<noteq> ''true'' then None
                         else encodeEndpoint httpYAML nodeName e ip kind meta rule result))))"

section \<open>The Telegraf encoder\<close>

abbreviation PrefixAnnotation :: string where "PrefixAnnotation \<equiv> ''wavefront.com/prefix''"
abbreviation LabelsAnnotation :: string where "LabelsAnnotation \<equiv> ''wavefront.com/includeLabels''"

definition telegrafUniqueName :: "string \<Rightarrow> string \<Rightarrow> string" where
  "telegrafUniqueName name port = (if port = [] then name else name @ '':'' @ port)"

definition zeroTelegrafConfig :: telegraf_source_config where
  "zeroTelegrafConfig = \<lparr> tgTransforms = zeroTransforms, tgCollection = zeroCollection, Plugins = [], tgConf = [],
     tgDiscovered = [], tgName = [], tgUseLeaderElection = False \<rparr>"

definition telegrafEncoder_Encode :: "string \<Rightarrow> string \<Rightarrow> object_meta \<Rightarrow> plugin_config \<Rightarrow> (string \<times> telegraf_source_config) option" where
  "telegrafEncoder_Encode ip kind meta cfg =
     (if ip = [] \<or> ip = ''None'' then None
      else
        (let name = telegrafUniqueName (ResourceName kind meta) (plPort cfg);
             pluginName = ReplaceAll (plType cfg) ''telegraf/'' [];
             scheme = Param meta [] (plScheme cfg) ''http'';
             server = scheme @ ''://'' @ ip @ '':'' @ plPort cfg;
             conf = ReplaceAll (plConf cfg) ''${server}'' server;
             conf = ReplaceAll conf ''${host}'' ip;
             conf = ReplaceAll conf ''${port}'' (plPort cfg);
             prefix = Param meta PrefixAnnotation (plPrefix cfg) [];
             includeLabels = Param meta LabelsAnnotation (plIncludeLabels cfg) ''true'';
             tags = EncodeMeta kind meta [];
             tags = EncodeTags [] (plTags cfg) tags;
             tags = (if includeLabels = ''true'' then EncodeTags ''label.'' (mtLabels meta) tags else tags)
         in Some (name, zeroTelegrafConfig
              \<lparr> tgUseLeaderElection := (kind = ResourceType_String ServiceType), tgDiscovered := ''rule'', Plugins := [pluginName],
                tgName := name, tgConf := conf, tgCollection := plCollection cfg,
                tgTransforms := zeroTransforms \<lparr> Prefix := prefix, Tags := tags, Filters := plFilters cfg \<rparr> \<rparr>)))"

section \<open>What an annotation overrides\<close>

definition annotation :: "object_meta \<Rightarrow> string \<Rightarrow> string" where
  "annotation meta a = get_str (mtAnnotations meta) a"

lemma Param_annotation:
  "a \<noteq> [] \<Longrightarrow> Param meta a cfgVal defaultVal =
     (if annotation meta a \<noteq> [] then annotation meta a else if cfgVal \<noteq> [] then cfgVal else defaultVal)"
  by (simp add: Param_def annotation_def Let_def)

lemma Duration_String_not_Nil [simp]: "Duration_String d \<noteq> []"
  using durationText_hd [of "nat \<bar>d\<bar>"] by (auto simp: Duration_String_def)

lemma encoder_annotations [simp]:
  "collectionIntervalAnnotation (newPrometheusEncoder p) \<noteq> []" "timeoutAnnotation (newPrometheusEncoder p) \<noteq> []"
  "scrapeAnnotation (newPrometheusEncoder p) \<noteq> []"
  by (simp_all add: newPrometheusEncoder_def customAnnotation_def Let_def)

text \<open>A duration that an annotation may override: its own text, and the value it gives.\<close>

definition merged_duration :: "object_meta \<Rightarrow> string \<Rightarrow> duration \<Rightarrow> duration go_result" where
  "merged_duration meta a d = (if annotation meta a = [] then Inr d else ParseDuration (annotation meta a))"

abbreviation in_range :: "duration \<Rightarrow> bool" where
  "in_range d \<equiv> minDuration \<le> d \<and> d \<le> maxDuration"

lemma ParseDuration_Param:
  assumes "a \<noteq> []" "in_range d"
  shows "ParseDuration (Param meta a (Duration_String d) ''0s'') = merged_duration meta a d"
  using assms by (simp add: Param_annotation merged_duration_def ParseDuration_String)

lemma encodeHTTPConf_Some:
  "(\<exists>r. encodeHTTPConf y conf ins sn cfg = Some r) \<longleftrightarrow> conf = [] \<or> y conf \<noteq> None"
  "encodeHTTPConf y conf ins sn cfg = Some r \<Longrightarrow> \<exists>h. r = cfg \<lparr> HTTPClientConfig := h \<rparr>"
  by (auto simp: encodeHTTPConf_def Let_def split: option.splits if_splits)

lemma case_Pair_map_option: "(case x of None \<Rightarrow> None | Some r \<Rightarrow> Some (n, r)) = map_option (Pair n) x"
  by (cases x) simp_all

lemma encodeEndpoint_collection:
  "(\<exists>name cfg. encodeEndpoint y nodeName e ip kind meta rule r = Some (name, cfg) \<and> prCollection cfg = c) \<longleftrightarrow>
     (plConf rule = [] \<or> y (plConf rule) \<noteq> None) \<and> prCollection r = c"
proof -
  have "\<exists>name r' ins sn. encodeEndpoint y nodeName e ip kind meta rule r =
      map_option (Pair name) (encodeHTTPConf y (plConf rule) ins sn r') \<and> prCollection r' = prCollection r"
    unfolding encodeEndpoint_def Let_def case_Pair_map_option
    by (intro exI conjI, rule refl) (simp add: encodeBase_def Let_def)
  then obtain name r' ins sn where eq: "encodeEndpoint y nodeName e ip kind meta rule r =
      map_option (Pair name) (encodeHTTPConf y (plConf rule) ins sn r')" "prCollection r' = prCollection r" by blast
  show ?thesis
  proof (cases "encodeHTTPConf y (plConf rule) ins sn r'")
    case None
    then show ?thesis using encodeHTTPConf_Some(1) [of y "plConf rule" ins sn r'] eq by simp
  next
    case (Some x)
    then have "prCollection x = prCollection r" using encodeHTTPConf_Some(2) eq(2) by fastforce
    with Some show ?thesis using encodeHTTPConf_Some(1) [of y "plConf rule" ins sn r'] eq by auto
  qed
qed

text \<open>
  C29. A resource becomes a Prometheus endpoint exactly when it has an address, is selected by a named
  rule or carries the scrape annotation, its duration annotations and the HTTP configuration of the
  rule parse. The endpoint's interval and timeout are those of the annotations, and of the rule where
  there is no annotation: printing and re-reading a duration loses nothing.
\<close>

theorem prometheusEncoder_Encode_iff:
  assumes "in_range (Interval (plCollection rule))" "in_range (Timeout (plCollection rule))"
  shows "(\<exists>name cfg. prometheusEncoder_Encode y nodeName (newPrometheusEncoder p) ip kind meta rule = Some (name, cfg) \<and>
        prCollection cfg = \<lparr> Interval = i, Timeout = t \<rparr>) =
    (ip \<noteq> [] \<and> ip \<noteq> ''None'' \<and>
     (plName rule \<noteq> [] \<or> annotation meta (scrapeAnnotation (newPrometheusEncoder p)) = ''true'') \<and>
     (plConf rule = [] \<or> y (plConf rule) \<noteq> None) \<and>
     merged_duration meta (collectionIntervalAnnotation (newPrometheusEncoder p)) (Interval (plCollection rule)) = Inr i \<and>
     merged_duration meta (timeoutAnnotation (newPrometheusEncoder p)) (Timeout (plCollection rule)) = Inr t)"
proof -
  let ?e = "newPrometheusEncoder p"
  note P = ParseDuration_Param [OF encoder_annotations(1) assms(1), of meta p] ParseDuration_Param [OF encoder_annotations(2) assms(2), of meta p]
  have scr: "Param meta (scrapeAnnotation ?e) [] ''false'' = ''true'' \<longleftrightarrow> annotation meta (scrapeAnnotation ?e) = ''true''"
    by (simp add: Param_annotation)
  show ?thesis
    unfolding prometheusEncoder_Encode_def Let_def P scr
    by (cases "merged_duration meta (collectionIntervalAnnotation ?e) (Interval (plCollection rule))";
        cases "merged_duration meta (timeoutAnnotation ?e) (Timeout (plCollection rule))")
      (auto simp: encodeEndpoint_collection)
qed

definition sample_rule :: plugin_config where
  "sample_rule = \<lparr> plName = ''redis'', plType = ''prometheus'', plSelectors = zeroSelectors, plPort = ''9121'', plScheme = [], plPath = [],
     plConf = [], plSource = [], plPrefix = [], plTags = [], plIncludeLabels = [], plFilters = empty_filter_config,
     plCollection = \<lparr> Interval = 90 * Second, Timeout = 0 \<rparr>, plInternal = False \<rparr>"

definition sample_meta :: object_meta where
  "sample_meta = \<lparr> mtName = ''redis-0'', mtNamespace = ''db'', mtUID = [], mtLabels = [], mtAnnotations = [] \<rparr>"

theorem prometheusEncoder_Encode_iff_witness:
  "\<exists>name cfg. prometheusEncoder_Encode (\<lambda>_. None) [] (newPrometheusEncoder []) ''10.0.0.1'' ''pod'' sample_meta sample_rule = Some (name, cfg) \<and>
     prCollection cfg = \<lparr> Interval = 90 * Second, Timeout = 0 \<rparr>"
proof -
  have "in_range (Interval (plCollection sample_rule))" "in_range (Timeout (plCollection sample_rule))"
    by (simp_all add: sample_rule_def minDuration_def maxDuration_def)
  from prometheusEncoder_Encode_iff [OF this, of "\<lambda>_. None" "[]" "[]" "''10.0.0.1''" "''pod''" sample_meta "90 * Second" 0]
  show ?thesis by (simp add: merged_duration_def annotation_def sample_meta_def sample_rule_def get_str_def)
qed

text \<open>
  The printed name of a resource does not identify it: a namespace may end in the name of a kind.
\<close>

lemma ResourceName_collision:
  "ResourceName ''pod'' (sample_meta \<lparr> mtNamespace := ''x-pod'', mtName := ''y'' \<rparr>) =
   ResourceName ''pod'' (sample_meta \<lparr> mtNamespace := ''x'', mtName := ''pod-y'' \<rparr>)"
  by (simp add: ResourceName_def)

text \<open>It does for resources of a kind in one namespace.\<close>

lemma ResourceName_inject:
  "mtNamespace m = mtNamespace m' \<Longrightarrow> ResourceName kind m = ResourceName kind m' \<longleftrightarrow> mtName m = mtName m'"
  by (simp add: ResourceName_def)

end
