(* ===== verification/Prometheus_Source.thy ===== *)
theory Prometheus_Source
  imports Batch Configuration Kube_Util Source_Manager
begin

text \<open>
  The Prometheus source (\<^verbatim>\<open>plugins/sources/prometheus\<close>): the reader that cuts an exposition into chunks
  of comments and metrics, the point builder, the source and its provider, with the string interner of
  \<^verbatim>\<open>internal/util\<close> and the experimental features of \<^verbatim>\<open>internal/experimental\<close> they use.

  Parameters: the text parser of the Prometheus library (\<open>parse\<close>, which may return families beside an
  error), the printing of a float in a tag (\<open>fmtFloat\<close>), the parsing and printing of a URL, the HTTP
  exchange and the creation of an HTTP client.
\<close>

section \<open>Experimental features\<close>

type_synonym features = "(string, bool) gomap"

abbreviation HistogramConversion :: string where "HistogramConversion \<equiv> ''histogram-conversion''"

definition IsEnabled :: "features \<Rightarrow> string \<Rightarrow> bool" where
  "IsEnabled enabled name = (case map_of enabled name of None \<Rightarrow> False | Some b \<Rightarrow> b)"

definition EnableFeature :: "string \<Rightarrow> features \<Rightarrow> features" where
  "EnableFeature name enabled = gput name True enabled"

definition DisableFeature :: "string \<Rightarrow> features \<Rightarrow> features" where
  "DisableFeature name enabled = gdel name enabled"

definition DisableAll :: "features \<Rightarrow> features" where
  "DisableAll enabled = []"

section \<open>Reading\<close>

text \<open>
  \<^verbatim>\<open>bufio.ScanLines\<close>: lines without the newline and one carriage return before it; an empty rest is
  no line. The scanner stops at the first line of 64 KiB or more, whose newline is not in its buffer.
\<close>

definition MaxScanTokenSize :: nat where "MaxScanTokenSize = 65536"

definition dropCR :: "string \<Rightarrow> string" where
  "dropCR l = (if l \<noteq> [] \<and> last l = CHR 0x0D then butlast l else l)"

definition rawLines :: "string \<Rightarrow> string list" where
  "rawLines text = (let ls = split_on CHR 0x0A text in if last ls = [] then butlast ls else ls)"

definition scanLines :: "string \<Rightarrow> string list" where
  "scanLines text = map dropCR (takeWhile (\<lambda>l. length l < MaxScanTokenSize) (rawLines text))"

text \<open>The look-ahead reader: the lines from the current one on; it is done when there is none.\<close>

record lookahead_reader =
  larLines :: "string list"
  lineCount :: nat

definition larAdvanceLine :: "lookahead_reader \<Rightarrow> lookahead_reader" where
  "larAdvanceLine r = r \<lparr> larLines := tl (larLines r), lineCount := lineCount r + 1 \<rparr>"

definition NewLookaheadReader :: "string \<Rightarrow> lookahead_reader" where
  "NewLookaheadReader text = \<lparr> larLines = scanLines text, lineCount = 1 \<rparr>"

definition larDone :: "lookahead_reader \<Rightarrow> bool" where
  "larDone r = (larLines r = [])"

definition larPeek :: "lookahead_reader \<Rightarrow> string" where
  "larPeek r = (case larLines r of [] \<Rightarrow> [] | l # _ \<Rightarrow> l)"

definition larRead :: "lookahead_reader \<Rightarrow> string \<times> lookahead_reader" where
  "larRead r = (if larDone r then ([], r) else (larPeek r, larAdvanceLine r))"

definition commentNext :: "lookahead_reader \<Rightarrow> bool" where
  "commentNext r = (TrimSpace (larPeek r) = [] \<or> HasPrefix (larPeek r) ''#'')"

lemma larAdvance_shorter: "\<not> larDone r \<Longrightarrow> length (larLines (larAdvanceLine r)) < length (larLines r)"
  by (cases "larLines r") (simp_all add: larDone_def larAdvanceLine_def)

function readComments :: "string \<Rightarrow> lookahead_reader \<Rightarrow> string \<times> lookahead_reader" where
  "readComments buffer r =
     (if larDone r \<or> \<not> commentNext r then (buffer, r)
      else readComments (buffer @ larPeek r @ [CHR 0x0A]) (larAdvanceLine r))"
  by pat_completeness auto
termination
  by (relation "measure (\<lambda>(_, r). length (larLines r))") (auto intro: larAdvance_shorter)

function readMetrics :: "string \<Rightarrow> lookahead_reader \<Rightarrow> string \<times> lookahead_reader" where
  "readMetrics buffer r =
     (if larDone r \<or> HasPrefix (larPeek r) ''#'' then (buffer, r)
      else readMetrics (buffer @ larPeek r @ [CHR 0x0A]) (larAdvanceLine r))"
  by pat_completeness auto
termination
  by (relation "measure (\<lambda>(_, r). length (larLines r))") (auto intro: larAdvance_shorter)

declare readComments.simps [simp del] readMetrics.simps [simp del]

definition MetricReader_Read :: "lookahead_reader \<Rightarrow> string \<times> lookahead_reader" where
  "MetricReader_Read r = (let (buffer, r) = readComments [] r in readMetrics buffer r)"

section \<open>Building points\<close>

text \<open>The string interner: a string is replaced by the first equal one it has seen.\<close>

definition Intern :: "strmap \<Rightarrow> string \<Rightarrow> string \<times> strmap" where
  "Intern interner s = (case map_of interner s of Some interned \<Rightarrow> (interned, interner) | None \<Rightarrow> (s, gput s s interner))"

text \<open>The parsed data of the client model library.\<close>

record prom_summary =
  psSampleCount :: int64
  psSampleSum :: f64
  psQuantile :: "(f64 \<times> f64) list"

record prom_bucket =
  CumulativeCount :: int64
  UpperBound :: f64

record prom_histogram =
  phSampleCount :: int64
  phSampleSum :: f64
  phBucket :: "prom_bucket list"

record prom_metric =
  pmLabel :: "(string \<times> string) list"
  pmGauge :: "f64 option"
  pmCounter :: "f64 option"
  pmUntyped :: "f64 option"
  pmSummary :: "prom_summary option"
  pmHistogram :: "prom_histogram option"

datatype metric_type = MetricType_COUNTER | MetricType_GAUGE | MetricType_SUMMARY | MetricType_UNTYPED | MetricType_HISTOGRAM

record metric_family =
  mfType :: metric_type
  mfMetric :: "prom_metric list"

record point_builder =
  pbFilters :: "glob_filter option"
  pbSource :: string
  pbPrefix :: string
  pbOmitBucketSuffix :: bool
  pbTags :: strmap

text \<open>What the builder writes to: its interner, the filtered counter and the result.\<close>

record builder_state =
  bsInterner :: strmap
  bsFiltered :: nat
  bsResult :: "wf_metric list"

fun deduplicate :: "strmap \<Rightarrow> strmap \<Rightarrow> (string \<times> string) list \<times> strmap" where
  "deduplicate [] interner = ([], interner)"
| "deduplicate ((k, v) # tags) interner =
     (let (k', interner) = Intern interner k;
          (v', interner) = Intern interner v;
          (pairs, interner) = deduplicate tags interner
      in ((k', v') # pairs, interner))"

definition builderName :: "point_builder \<Rightarrow> string \<Rightarrow> string" where
  "builderName b name = pbPrefix b @ ReplaceAll name ''_'' ''.''"

definition builderPoint :: "point_builder \<Rightarrow> string \<Rightarrow> f64 \<Rightarrow> int64 \<Rightarrow> string \<Rightarrow> strmap \<Rightarrow> strmap \<Rightarrow> point \<times> strmap" where
  "builderPoint b name v ts source tags interner =
     (let point = NewPoint (builderName b name) v ts source [];
          (pairs, interner) = deduplicate tags interner
      in (Point_SetLabelPairs pairs point, interner))"

text \<open>A point is built and appended unless the filters drop it.\<close>

definition appendPoint :: "point_builder \<Rightarrow> string \<Rightarrow> f64 \<Rightarrow> int64 \<Rightarrow> strmap \<Rightarrow> builder_state \<Rightarrow> builder_state" where
  "appendPoint b name v ts tags st =
     (let (point, interner) = builderPoint b name v ts (pbSource b) tags (bsInterner st);
          (result, n) = FilterAppend (pbFilters b) (bsResult st) (Some (MPoint point))
      in \<lparr> bsInterner = interner, bsFiltered = bsFiltered st + n, bsResult = result \<rparr>)"

definition buildTags :: "point_builder \<Rightarrow> prom_metric \<Rightarrow> strmap" where
  "buildTags b m =
     (let tags = fold (\<lambda>(k, v) tags. if length v > 0 then gput k v tags else tags) (pbTags b) []
      in fold (\<lambda>(n, v) tags. if length n > 0 \<and> length v > 0 then gput n v tags else tags) (pmLabel m) tags)"

definition histogramName :: "point_builder \<Rightarrow> string \<Rightarrow> string" where
  "histogramName b name = (if pbOmitBucketSuffix b then name else name @ ''.bucket'')"

definition buildPoints :: "point_builder \<Rightarrow> string \<Rightarrow> prom_metric \<Rightarrow> int64 \<Rightarrow> builder_state \<Rightarrow> builder_state" where
  "buildPoints b name m now st =
     (case pmGauge m of
        Some v \<Rightarrow> if v \<noteq> NaN then appendPoint b (name @ ''.gauge'') v now (buildTags b m) st else st
      | None \<Rightarrow>
          (case pmCounter m of
             Some v \<Rightarrow> if v \<noteq> NaN then appendPoint b (name @ ''.counter'') v now (buildTags b m) st else st
           | None \<Rightarrow>
               (case pmUntyped m of
                  Some v \<Rightarrow> if v \<noteq> NaN then appendPoint b (name @ ''.value'') v now (buildTags b m) st else st
                | None \<Rightarrow> st)))"

text \<open>The getters tolerate a missing summary or histogram, the field accesses behind them do not.\<close>

definition buildSummaryPoints :: "(f64 \<Rightarrow> string) \<Rightarrow> point_builder \<Rightarrow> string \<Rightarrow> prom_metric \<Rightarrow> int64 \<Rightarrow> strmap \<Rightarrow>
    builder_state \<Rightarrow> builder_state go_result" where
  "buildSummaryPoints fmtFloat b name m now tags st =
     (case pmSummary m of
        None \<Rightarrow> Inl (GoPanic ''nil pointer dereference'')
      | Some s \<Rightarrow>
          (let st = fold (\<lambda>(q, v) st. if v \<noteq> NaN then appendPoint b name v now (gput ''quantile'' (fmtFloat q) (put_all tags [])) st else st)
                      (psQuantile s) st;
               st = appendPoint b (name @ ''.count'') (f_of_uint64 (psSampleCount s)) now tags st
           in Inr (appendPoint b (name @ ''.sum'') (psSampleSum s) now tags st)))"

definition buildWFHistogram :: "point_builder \<Rightarrow> string \<Rightarrow> prom_metric \<Rightarrow> int64 \<Rightarrow> strmap \<Rightarrow> distribution go_result" where
  "buildWFHistogram b name m now tags =
     (case pmHistogram m of
        None \<Rightarrow> Inl (GoPanic ''nil pointer dereference'')
      | Some h \<Rightarrow> Inr (NewCumulativeDistribution (builderName b name) (pbSource b) tags
            (map (\<lambda>bucket. \<lparr> cValue = UpperBound bucket, cCount = f_of_uint64 (CumulativeCount bucket) \<rparr>) (phBucket h))
            (sint now * Second)))"

definition buildHistogramPoints :: "(f64 \<Rightarrow> string) \<Rightarrow> point_builder \<Rightarrow> string \<Rightarrow> prom_metric \<Rightarrow> int64 \<Rightarrow> strmap \<Rightarrow>
    builder_state \<Rightarrow> builder_state go_result" where
  "buildHistogramPoints fmtFloat b name m now tags st =
     (case pmHistogram m of
        None \<Rightarrow> Inl (GoPanic ''nil pointer dereference'')
      | Some h \<Rightarrow>
          (let st = fold (\<lambda>bk st. appendPoint b (histogramName b name) (f_of_uint64 (CumulativeCount bk)) now
                            (gput ''le'' (fmtFloat (UpperBound bk)) (put_all tags [])) st) (phBucket h) st;
               st = appendPoint b (name @ ''.count'') (f_of_uint64 (phSampleCount h)) now tags st
           in Inr (appendPoint b (name @ ''.sum'') (phSampleSum h) now tags st)))"

definition buildMetric :: "features \<Rightarrow> (f64 \<Rightarrow> string) \<Rightarrow> point_builder \<Rightarrow> int64 \<Rightarrow> string \<Rightarrow> metric_type \<Rightarrow> prom_metric \<Rightarrow>
    builder_state \<Rightarrow> builder_state go_result" where
  "buildMetric fs fmtFloat b now name t m st =
     (if t = MetricType_SUMMARY then buildSummaryPoints fmtFloat b name m now (buildTags b m) st
      else if t = MetricType_HISTOGRAM then
        (case (if IsEnabled fs HistogramConversion
               then (case buildWFHistogram b name m now (buildTags b m) of
                       Inl e \<Rightarrow> Inl e
                     | Inr d \<Rightarrow> (let (result, n) = FilterAppend (pbFilters b) (bsResult st) (Some (MDist d))
                                 in Inr (st \<lparr> bsResult := result, bsFiltered := bsFiltered st + n \<rparr>)))
               else Inr st) of
           Inl e \<Rightarrow> Inl e
         | Inr st \<Rightarrow> buildHistogramPoints fmtFloat b name m now (buildTags b m) st)
      else Inr (buildPoints b name m now st))"

fun buildAllOf :: "features \<Rightarrow> (f64 \<Rightarrow> string) \<Rightarrow> point_builder \<Rightarrow> int64 \<Rightarrow> (string \<times> metric_type \<times> prom_metric) list \<Rightarrow>
    builder_state \<Rightarrow> builder_state go_result" where
  "buildAllOf fs fmtFloat b now [] st = Inr st"
| "buildAllOf fs fmtFloat b now ((name, t, m) # rest) st =
     (case buildMetric fs fmtFloat b now name t m st of
        Inl e \<Rightarrow> Inl e
      | Inr st \<Rightarrow> buildAllOf fs fmtFloat b now rest st)"

definition builder_build :: "features \<Rightarrow> (f64 \<Rightarrow> string) \<Rightarrow> point_builder \<Rightarrow> int64 \<Rightarrow> (string, metric_family) gomap \<Rightarrow>
    builder_state \<Rightarrow> builder_state go_result" where
  "builder_build fs fmtFloat b now families st =
     buildAllOf fs fmtFloat b now (concat (map (\<lambda>(name, mf). map (\<lambda>m. (name, mfType mf, m)) (mfMetric mf)) families)) st"

section \<open>The source\<close>

record 'c prometheus_source =
  psMetricsURL :: string
  psPrefix :: string
  psSource :: string
  psTags :: strmap
  psFilters :: "glob_filter option"
  psClient :: 'c
  psInternalMetricsNames :: "string list"
  psAutoDiscovered :: bool
  psOmitBucketSuffix :: bool

definition NewPointBuilder :: "'c prometheus_source \<Rightarrow> point_builder" where
  "NewPointBuilder src = \<lparr> pbFilters = psFilters src, pbSource = psSource src, pbPrefix = psPrefix src,
     pbOmitBucketSuffix = psOmitBucketSuffix src, pbTags = psTags src \<rparr>"

text \<open>
  \<^verbatim>\<open>parseMetrics\<close>. The error of the parser is logged; the error that is returned is the outer variable,
  which no assignment reaches.
\<close>

lemma larLines_readComments: "length (larLines (snd (readComments buf r))) \<le> length (larLines r)"
proof (induction buf r rule: readComments.induct)
  case (1 buffer r)
  show ?case
  proof (cases "larDone r \<or> \<not> commentNext r")
    case False
    then have "length (larLines (snd (readComments buffer r))) \<le> length (larLines (larAdvanceLine r))"
      using 1 by (subst readComments.simps) simp
    also have "\<dots> \<le> length (larLines r)" by (simp add: larAdvanceLine_def)
    finally show ?thesis .
  qed (subst readComments.simps, simp)
qed

lemma larLines_readMetrics: "length (larLines (snd (readMetrics buf r))) \<le> length (larLines r)"
proof (induction buf r rule: readMetrics.induct)
  case (1 buffer r)
  show ?case
  proof (cases "larDone r \<or> HasPrefix (larPeek r) ''#''")
    case False
    then have "length (larLines (snd (readMetrics buffer r))) \<le> length (larLines (larAdvanceLine r))"
      using 1 by (subst readMetrics.simps) simp
    also have "\<dots> \<le> length (larLines r)" by (simp add: larAdvanceLine_def)
    finally show ?thesis .
  qed (subst readMetrics.simps, simp)
qed

text \<open>A round of the reader takes at least one line.\<close>

lemma MetricReader_Read_shorter:
  assumes "\<not> larDone r"
  shows "length (larLines (snd (MetricReader_Read r))) < length (larLines r)"
proof -
  obtain buf r' where rc: "readComments [] r = (buf, r')" by (cases "readComments [] r")
  have read: "snd (MetricReader_Read r) = snd (readMetrics buf r')" by (simp add: MetricReader_Read_def rc)
  show ?thesis
  proof (cases "commentNext r")
    case True
    then have "readComments [] r = readComments (larPeek r @ [CHR 0x0A]) (larAdvanceLine r)"
      using assms by (subst readComments.simps) simp
    then have "length (larLines r') \<le> length (larLines (larAdvanceLine r))"
      using larLines_readComments [of "larPeek r @ [CHR 0x0A]" "larAdvanceLine r"] rc by (metis snd_conv)
    with larAdvance_shorter [OF assms] larLines_readMetrics [of buf r'] read show ?thesis by simp
  next
    case False
    then have "r' = r" using rc by (subst (asm) readComments.simps) simp
    moreover have "readMetrics buf r = readMetrics (buf @ larPeek r @ [CHR 0x0A]) (larAdvanceLine r)"
      using False assms by (subst readMetrics.simps) (simp add: commentNext_def)
    ultimately show ?thesis
      using read larLines_readMetrics [of "buf @ larPeek r @ [CHR 0x0A]" "larAdvanceLine r"] larAdvance_shorter [OF assms] by simp
  qed
qed

function parseLoop :: "(string \<Rightarrow> (string, metric_family) gomap) \<Rightarrow> features \<Rightarrow> (f64 \<Rightarrow> string) \<Rightarrow> point_builder \<Rightarrow> (nat \<Rightarrow> int64) \<Rightarrow>
    lookahead_reader \<Rightarrow> builder_state \<Rightarrow> builder_state go_result" where
  "parseLoop parse fs fmtFloat b clock r st =
     (if larDone r then Inr st
      else (case builder_build fs fmtFloat b (clock (lineCount r)) (parse (fst (MetricReader_Read r))) st of
              Inl e \<Rightarrow> Inl e
            | Inr st \<Rightarrow> parseLoop parse fs fmtFloat b clock (snd (MetricReader_Read r)) st))"
  by pat_completeness auto
termination
  by (relation "measure (\<lambda>(_, _, _, _, _, r, _). length (larLines r))") (auto intro: MetricReader_Read_shorter)

declare parseLoop.simps [simp del]

record prom_counters =
  prCollectErrors :: nat
  prFilteredPoints :: nat
  prCollectedPoints :: nat
  prPps :: nat
  prEps :: nat

definition parseMetrics :: "(string \<Rightarrow> (string, metric_family) gomap) \<Rightarrow> features \<Rightarrow> (f64 \<Rightarrow> string) \<Rightarrow> (nat \<Rightarrow> int64) \<Rightarrow>
    'c prometheus_source \<Rightarrow> string \<Rightarrow> prom_counters \<Rightarrow> (wf_metric list \<times> go_error option \<times> prom_counters) go_result" where
  "parseMetrics parse fs fmtFloat clock src body c =
     (case parseLoop parse fs fmtFloat (NewPointBuilder src) clock (NewLookaheadReader body)
            \<lparr> bsInterner = [], bsFiltered = 0, bsResult = [] \<rparr> of
        Inl e \<Rightarrow> Inl e
      | Inr st \<Rightarrow> Inr (bsResult st, None, c \<lparr> prFilteredPoints := prFilteredPoints c + bsFiltered st \<rparr>))"

record http_response =
  StatusCode :: nat
  Status :: string
  Body :: string

definition HTTPError_Error :: "string \<Rightarrow> http_response \<Rightarrow> string" where
  "HTTPError_Error url resp = ''error retrieving prometheus metrics from '' @ url @ '' (http status '' @ Status resp @ '')''"

definition countError :: "prom_counters \<Rightarrow> prom_counters" where
  "countError c = c \<lparr> prCollectErrors := prCollectErrors c + 1, prEps := prEps c + 1 \<rparr>"

definition prom_Scrape :: "('c \<Rightarrow> string \<Rightarrow> http_response go_result) \<Rightarrow> (string \<Rightarrow> (string, metric_family) gomap) \<Rightarrow> features \<Rightarrow>
    (f64 \<Rightarrow> string) \<Rightarrow> time \<Rightarrow> (nat \<Rightarrow> int64) \<Rightarrow> 'c prometheus_source \<Rightarrow> prom_counters \<Rightarrow> batch go_result \<times> prom_counters" where
  "prom_Scrape httpGet parse fs fmtFloat now clock src c =
     (case httpGet (psClient src) (psMetricsURL src) of
        Inl err \<Rightarrow> (Inl err, countError c)
      | Inr resp \<Rightarrow>
          if StatusCode resp \<noteq> 200 then (Inl (Errorf (HTTPError_Error (psMetricsURL src) resp)), countError c)
          else (case parseMetrics parse fs fmtFloat clock src (Body resp) c of
                  Inl p \<Rightarrow> (Inl p, c)
                | Inr (ms, Some err, c) \<Rightarrow> (Inl err, countError c)
                | Inr (ms, None, c) \<Rightarrow>
                    (let result = \<lparr> Timestamp = now, Sets = [], Metrics = map Some ms \<rparr>;
                         n = (\<Sum>m \<leftarrow> ms. m_Points m)
                     in (Inr result, c \<lparr> prCollectedPoints := prCollectedPoints c + n, prPps := prPps c + n \<rparr>))))"

definition extractTags :: "strmap \<Rightarrow> string \<Rightarrow> string \<Rightarrow> strmap" where
  "extractTags tags discovered metricsURL =
     (let result = fold (\<lambda>(k, v) r. if k \<in> {''pod'', ''service'', ''apiserver'', ''namespace'', ''node''} then gput k v r else r) tags [];
          result = (if discovered \<noteq> [] then gput ''discovered'' discovered result
                    else gput ''url'' metricsURL (gput ''discovered'' ''static'' result))
      in gput ''type'' ''prometheus'' result)"

definition httpClient :: "(client_config \<Rightarrow> 'c go_result) \<Rightarrow> string \<Rightarrow> client_config \<Rightarrow> 'c go_result" where
  "httpClient newClient metricsURL cfg =
     (let cfg = (if Contains metricsURL ''kubernetes.default.svc.cluster.local'' \<and> CAFile (TLSConfig cfg) = []
                 then cfg \<lparr> TLSConfig := (TLSConfig cfg) \<lparr> CAFile := ''/var/run/secrets/kubernetes.io/serviceaccount/ca.crt'',
                                                          InsecureSkipVerify := True \<rparr> \<rparr>
                 else cfg)
      in newClient cfg)"

definition NewPrometheusMetricsSource :: "(client_config \<Rightarrow> 'c go_result) \<Rightarrow> (string \<Rightarrow> strmap \<Rightarrow> string) \<Rightarrow> env \<Rightarrow>
    string \<Rightarrow> string \<Rightarrow> string \<Rightarrow> string \<Rightarrow> strmap \<Rightarrow> glob_filter option \<Rightarrow> client_config \<Rightarrow> 'c prometheus_source go_result" where
  "NewPrometheusMetricsSource newClient encodeKey e metricsURL prefix source discovered tags flt httpCfg =
     (case httpClient newClient metricsURL httpCfg of
        Inl err \<Rightarrow> Inl err
      | Inr client \<Rightarrow>
          (let pt = extractTags tags discovered metricsURL;
               ppsKey = encodeKey ''target.points.collected'' pt;
               epsKey = encodeKey ''target.collect.errors'' pt
           in Inr \<lparr> psMetricsURL = metricsURL, psPrefix = prefix, psSource = source, psTags = tags, psFilters = flt, psClient = client,
                psInternalMetricsNames = [ppsKey, epsKey], psAutoDiscovered = length discovered > 0,
                psOmitBucketSuffix = (case ParseBool (get_str e ''omitBucketSuffix'') of Some b \<Rightarrow> b | None \<Rightarrow> False) \<rparr>))"

definition prom_AutoDiscovered :: "'c prometheus_source \<Rightarrow> bool" where
  "prom_AutoDiscovered src = psAutoDiscovered src"

definition prom_Name :: "'c prometheus_source \<Rightarrow> string" where
  "prom_Name src = ''prometheus_source: '' @ psMetricsURL src"

text \<open>\<^verbatim>\<open>Cleanup\<close>: the names of the registry without those of the source.\<close>

definition prom_Cleanup :: "'c prometheus_source \<Rightarrow> string set \<Rightarrow> string set" where
  "prom_Cleanup src registry = fold (\<lambda>name r. r - {name}) (psInternalMetricsNames src) registry"

section \<open>Instances behind a service\<close>

record prom_instance =
  inHost :: string
  inTags :: strmap

definition InstanceFromHost :: "string \<Rightarrow> prom_instance list go_result" where
  "InstanceFromHost host = Inr [\<lparr> inHost = host, inTags = [] \<rparr>]"

record endpoint_port =
  epPortName :: string
  epPort :: int

record endpoint_subset =
  ssAddresses :: "string list"
  ssPorts :: "endpoint_port list"

fun choosePortFrom :: "int \<Rightarrow> endpoint_port list \<Rightarrow> int" where
  "choosePortFrom httpPort [] = httpPort"
| "choosePortFrom httpPort (port # ports) =
     (let httpPort = (if epPortName port = ''http'' then epPort port else httpPort) in
      if epPortName port = ''https'' then epPort port else choosePortFrom httpPort ports)"

definition choosePort :: "endpoint_port list \<Rightarrow> int" where
  "choosePort ports = choosePortFrom (- 1) ports"

definition instancesFromSubset :: "endpoint_subset \<Rightarrow> prom_instance list go_result" where
  "instancesFromSubset sub =
     (let port = choosePort (ssPorts sub) in
      if port = - 1 then Inl (Errorf ''could not find either HTTP or HTTPS port'')
      else Inr (map (\<lambda>ip. let host = ip @ '':'' @ show_int port in \<lparr> inHost = host, inTags = [(''instance'', host)] \<rparr>) (ssAddresses sub)))"

fun uniqueInstances :: "prom_instance list \<Rightarrow> prom_instance list \<Rightarrow> prom_instance list" where
  "uniqueInstances unique [] = unique"
| "uniqueInstances unique (i # ins) =
     uniqueInstances (if length unique = 0 \<or> inHost (last unique) \<noteq> inHost i then unique @ [i] else unique) ins"

definition removeDuplicateInstances :: "prom_instance list \<Rightarrow> prom_instance list" where
  "removeDuplicateInstances ins = uniqueInstances [] (sort_key inHost ins)"

fun collectInstances :: "endpoint_subset list \<Rightarrow> prom_instance list \<Rightarrow> prom_instance list go_result" where
  "collectInstances [] ins = Inr ins"
| "collectInstances (ss # rest) ins =
     (case instancesFromSubset ss of Inl e \<Rightarrow> Inl e | Inr toAdd \<Rightarrow> collectInstances rest (ins @ toAdd))"

definition instancesFromEndpoints :: "endpoint_subset list \<Rightarrow> prom_instance list go_result" where
  "instancesFromEndpoints subsets =
     (case collectInstances subsets [] of Inl e \<Rightarrow> Inl e | Inr ins \<Rightarrow> Inr (removeDuplicateInstances ins))"

text \<open>
  The expression \<^verbatim>\<open>^([^\.]+).([^\.]+)\.svc\<close>: the middle dot is not escaped, so it may match a character
  of the first label; the match that keeps the longest first group wins. Hosts have no newline.
\<close>

definition matchNSName :: "string \<Rightarrow> (string \<times> string) option" where
  "matchNSName host =
     (case split_on CHR ''.'' host of
        s0 # s1 # rest \<Rightarrow>
          if s0 \<noteq> [] \<and> s1 \<noteq> [] \<and> rest \<noteq> [] \<and> HasPrefix (hd rest) ''svc'' then Some (s0, s1)
          else if length s0 \<ge> 3 \<and> HasPrefix s1 ''svc'' then Some (take (length s0 - 2) s0, [last s0])
          else None
      | _ \<Rightarrow> None)"

definition InstancesFromEndpoints :: "(string \<Rightarrow> string \<Rightarrow> endpoint_subset list go_result) \<Rightarrow> string \<Rightarrow> prom_instance list go_result" where
  "InstancesFromEndpoints getEndpoints host =
     (case matchNSName host of
        None \<Rightarrow> Inl (Errorf ''host is not a kubernetes service'')
      | Some (name, ns) \<Rightarrow> (case getEndpoints ns name of Inl e \<Rightarrow> Inl e | Inr subsets \<Rightarrow> instancesFromEndpoints subsets))"

section \<open>The provider\<close>

text \<open>The operations of \<^verbatim>\<open>net/url\<close> and the constructors the provider needs.\<close>

record ('u, 'c) prom_env =
  ParseRequestURI :: "string \<Rightarrow> 'u option"
  URL_Host :: "'u \<Rightarrow> string"
  URL_SetHost :: "string \<Rightarrow> 'u \<Rightarrow> 'u"
  URL_String :: "'u \<Rightarrow> string"
  NewClient :: "client_config \<Rightarrow> 'c go_result"
  EncodeKey :: "string \<Rightarrow> strmap \<Rightarrow> string"
  globCompiler :: glob_compiler
  processEnv :: env

record ('u, 'c) prometheus_provider =
  ppName :: string
  ppUseLeaderElection :: bool
  ppURL :: 'u
  ppLookupInstances :: "string \<Rightarrow> prom_instance list go_result"
  ppBuildSource :: "'u \<Rightarrow> strmap \<Rightarrow> 'c prometheus_source go_result"

abbreviation promProviderName :: string where "promProviderName \<equiv> ''prometheus_metrics_provider''"

definition NewPrometheusProvider :: "('u, 'c) prom_env \<Rightarrow> prometheus_source_config \<Rightarrow> (string \<Rightarrow> prom_instance list go_result) \<Rightarrow>
    ('u, 'c) prometheus_provider go_result" where
  "NewPrometheusProvider pe cfg lookupInstances =
     (let source = GetStringValue (Source (prTransforms cfg)) (GetNodeName (processEnv pe));
          source = GetStringValue source ''prom_source'';
          name = (if length (prName cfg) > 0 then promProviderName @ '': '' @ prName cfg else []);
          name = (if name = [] then promProviderName @ '': '' @ prURL cfg else name);
          discovered = GetStringValue (prDiscovered cfg) [];
          flt = FromConfig (globCompiler pe) (Filters (prTransforms cfg))
      in case ParseRequestURI pe (prURL cfg) of
           None \<Rightarrow> Inl (Errorf ''parse'')
         | Some metricsURL \<Rightarrow> Inr
             \<lparr> ppName = name, ppUseLeaderElection = (prUseLeaderElection cfg \<or> discovered = []), ppURL = metricsURL,
               ppLookupInstances = lookupInstances,
               ppBuildSource = (\<lambda>url tags. NewPrometheusMetricsSource (NewClient pe) (EncodeKey pe) (processEnv pe) (URL_String pe url)
                  (Prefix (prTransforms cfg)) source discovered (put_all tags (put_all (Tags (prTransforms cfg)) [])) flt (HTTPClientConfig cfg)) \<rparr>)"

definition prom_GetMetricsSources :: "('u, 'c) prom_env \<Rightarrow> bool \<Rightarrow> ('u, 'c) prometheus_provider \<Rightarrow> 'c prometheus_source list" where
  "prom_GetMetricsSources pe leading p =
     (if ppUseLeaderElection p \<and> \<not> leading then []
      else (case ppLookupInstances p (URL_Host pe (ppURL p)) of
              Inl err \<Rightarrow> []
            | Inr ins \<Rightarrow> concat (map (\<lambda>i. case ppBuildSource p (URL_SetHost pe (inHost i) (ppURL p)) (inTags i) of
                                          Inl err \<Rightarrow> [] | Inr src \<Rightarrow> [src]) ins)))"

text \<open>\<^verbatim>\<open>factory.Build\<close>: the provider with its interval and timeout.\<close>

definition prom_factory_Build :: "('u, 'c) prom_env \<Rightarrow> prometheus_source_config \<Rightarrow>
    (('u, 'c) prometheus_provider \<times> duration \<times> duration) go_result" where
  "prom_factory_Build pe c =
     (case NewPrometheusProvider pe c InstanceFromHost of
        Inl e \<Rightarrow> Inl e
      | Inr p \<Rightarrow> Inr (p, Interval (prCollection c), if Timeout (prCollection c) = 0 then 30 * Second else Timeout (prCollection c)))"

section \<open>Every line is read once\<close>

definition unlines :: "string list \<Rightarrow> string" where
  "unlines ls = concat (map (\<lambda>l. l @ [CHR 0x0A]) ls)"

definition commentLine :: "string \<Rightarrow> bool" where
  "commentLine l = (TrimSpace l = [] \<or> HasPrefix l ''#'')"

text \<open>A chunk: comment and blank lines, then lines that do not start with the comment sign.\<close>

definition chunk_of :: "string \<Rightarrow> bool" where
  "chunk_of c = (\<exists>cs ms. c = unlines (cs @ ms) \<and> cs @ ms \<noteq> [] \<and> list_all commentLine cs \<and> list_all (\<lambda>l. \<not> HasPrefix l ''#'') ms)"

function readChunks :: "lookahead_reader \<Rightarrow> (nat \<times> string) list" where
  "readChunks r = (if larDone r then [] else (lineCount r, fst (MetricReader_Read r)) # readChunks (snd (MetricReader_Read r)))"
  by pat_completeness auto
termination
  by (relation "measure (\<lambda>r. length (larLines r))") (auto intro: MetricReader_Read_shorter)

declare readChunks.simps [simp del]

fun buildChunks :: "(string \<Rightarrow> (string, metric_family) gomap) \<Rightarrow> features \<Rightarrow> (f64 \<Rightarrow> string) \<Rightarrow> point_builder \<Rightarrow> (nat \<Rightarrow> int64) \<Rightarrow>
    (nat \<times> string) list \<Rightarrow> builder_state \<Rightarrow> builder_state go_result" where
  "buildChunks parse fs fmtFloat b clock [] st = Inr st"
| "buildChunks parse fs fmtFloat b clock ((n, chunk) # rest) st =
     (case builder_build fs fmtFloat b (clock n) (parse chunk) st of
        Inl e \<Rightarrow> Inl e
      | Inr st \<Rightarrow> buildChunks parse fs fmtFloat b clock rest st)"

lemma parseLoop_chunks:
  "parseLoop parse fs fmtFloat b clock r st = buildChunks parse fs fmtFloat b clock (readChunks r) st"
proof (induction "length (larLines r)" arbitrary: r st rule: less_induct)
  case less
  show ?case
  proof (cases "larDone r")
    case False
    from less [OF MetricReader_Read_shorter [OF False]] False show ?thesis
      by (subst parseLoop.simps, subst readChunks.simps) (auto split: sum.splits)
  qed (subst parseLoop.simps, subst readChunks.simps, simp)
qed

lemma readComments_text:
  "readComments buf r = (buf @ unlines (takeWhile commentLine (larLines r)),
     r \<lparr> larLines := dropWhile commentLine (larLines r), lineCount := lineCount r + length (takeWhile commentLine (larLines r)) \<rparr>)"
proof (induction "larLines r" arbitrary: buf r)
  case Nil
  then show ?case by (subst readComments.simps) (cases r, simp add: larDone_def unlines_def)
next
  case (Cons l ls)
  show ?case
  proof (cases "commentLine l")
    case True
    have "readComments buf r = readComments (buf @ l @ [CHR 0x0A]) (larAdvanceLine r)"
      using True Cons(2) by (subst readComments.simps) (simp add: larDone_def larPeek_def commentNext_def commentLine_def flip: Cons(2))
    also have "\<dots> = (buf @ unlines (takeWhile commentLine (larLines r)),
        r \<lparr> larLines := dropWhile commentLine (larLines r), lineCount := lineCount r + length (takeWhile commentLine (larLines r)) \<rparr>)"
      using True Cons(1) [of "larAdvanceLine r"] by (simp add: larAdvanceLine_def unlines_def flip: Cons(2))
    finally show ?thesis .
  next
    case False
    then show ?thesis using Cons(2) [symmetric]
      by (subst readComments.simps) (simp add: larDone_def larPeek_def commentNext_def commentLine_def unlines_def)
  qed
qed

lemma readMetrics_text:
  "readMetrics buf r = (buf @ unlines (takeWhile (\<lambda>l. \<not> HasPrefix l ''#'') (larLines r)),
     r \<lparr> larLines := dropWhile (\<lambda>l. \<not> HasPrefix l ''#'') (larLines r),
         lineCount := lineCount r + length (takeWhile (\<lambda>l. \<not> HasPrefix l ''#'') (larLines r)) \<rparr>)"
proof (induction "larLines r" arbitrary: buf r)
  case Nil
  then show ?case by (subst readMetrics.simps) (cases r, simp add: larDone_def unlines_def)
next
  case (Cons l ls)
  show ?case
  proof (cases "HasPrefix l ''#''")
    case False
    have "readMetrics buf r = readMetrics (buf @ l @ [CHR 0x0A]) (larAdvanceLine r)"
      using False Cons(2) by (subst readMetrics.simps) (simp add: larDone_def larPeek_def flip: Cons(2))
    also have "\<dots> = (buf @ unlines (takeWhile (\<lambda>l. \<not> HasPrefix l ''#'') (larLines r)),
        r \<lparr> larLines := dropWhile (\<lambda>l. \<not> HasPrefix l ''#'') (larLines r),
            lineCount := lineCount r + length (takeWhile (\<lambda>l. \<not> HasPrefix l ''#'') (larLines r)) \<rparr>)"
      using False Cons(1) [of "larAdvanceLine r"] by (simp add: larAdvanceLine_def unlines_def flip: Cons(2))
    finally show ?thesis .
  next
    case True
    then show ?thesis using Cons(2) [symmetric]
      by (subst readMetrics.simps) (simp add: larDone_def larPeek_def unlines_def)
  qed
qed

lemma unlines_append: "unlines (xs @ ys) = unlines xs @ unlines ys"
  by (simp add: unlines_def)

lemma readChunks_text:
  "concat (map snd (readChunks r)) = unlines (larLines r) \<and> list_all (\<lambda>(_, c). chunk_of c) (readChunks r)"
proof (induction "length (larLines r)" arbitrary: r rule: less_induct)
  case less
  let ?ls = "larLines r"
  let ?cs = "takeWhile commentLine ?ls" and ?r = "dropWhile commentLine ?ls"
  let ?ms = "takeWhile (\<lambda>l. \<not> HasPrefix l ''#'') ?r" and ?r' = "dropWhile (\<lambda>l. \<not> HasPrefix l ''#'') ?r"
  show ?case
  proof (cases "larDone r")
    case False
    have read: "fst (MetricReader_Read r) = unlines (?cs @ ?ms)" "larLines (snd (MetricReader_Read r)) = ?r'"
      by (simp_all add: MetricReader_Read_def readComments_text readMetrics_text unlines_append)
    have split: "?cs @ ?ms @ ?r' = ?ls" by simp
    have "length ?r' < length ?ls" using MetricReader_Read_shorter [OF False] read(2) by simp
    then have ne: "?cs @ ?ms \<noteq> []" using split by (metis append_assoc append_Nil less_irrefl)
    have chunk: "chunk_of (unlines (?cs @ ?ms))"
      unfolding chunk_of_def
      by (rule exI [of _ ?cs], rule exI [of _ ?ms]) (use ne in \<open>auto simp: list_all_iff dest: set_takeWhileD\<close>)
    have "unlines ?ls = unlines (?cs @ ?ms) @ unlines ?r'" by (simp flip: unlines_append)
    with less [OF MetricReader_Read_shorter [OF False]] chunk read show ?thesis
      by (subst (1 2) readChunks.simps) (simp add: False)
  qed (simp add: readChunks.simps larDone_def unlines_def)
qed


section \<open>What the builder builds\<close>

text \<open>The points of a metric before filtering, without interning.\<close>

definition rawPoint :: "point_builder \<Rightarrow> int64 \<Rightarrow> string \<Rightarrow> f64 \<Rightarrow> strmap \<Rightarrow> wf_metric" where
  "rawPoint b now name v tags = MPoint \<lparr> pMetric = pbPrefix b @ ReplaceAll name ''_'' ''.'', pValue = v, pTimestamp = now,
     pSource = pbSource b, ptags = [], labelPairs = tags \<rparr>"

definition countAndSum :: "point_builder \<Rightarrow> int64 \<Rightarrow> string \<Rightarrow> int64 \<Rightarrow> f64 \<Rightarrow> strmap \<Rightarrow> wf_metric list" where
  "countAndSum b now name n smpl tags =
     [rawPoint b now (name @ ''.count'') (f_of_uint64 n) tags, rawPoint b now (name @ ''.sum'') smpl tags]"

definition rawMetric :: "features \<Rightarrow> (f64 \<Rightarrow> string) \<Rightarrow> point_builder \<Rightarrow> int64 \<Rightarrow> string \<times> metric_type \<times> prom_metric \<Rightarrow> wf_metric list" where
  "rawMetric fs fmtFloat b now x =
     (let (name, t, m) = x; tags = buildTags b m in
      case t of
        MetricType_SUMMARY \<Rightarrow> (let s = the (pmSummary m) in
          map (\<lambda>(q, v). rawPoint b now name v (gput ''quantile'' (fmtFloat q) (put_all tags []))) (filter (\<lambda>(q, v). v \<noteq> NaN) (psQuantile s))
          @ countAndSum b now name (psSampleCount s) (psSampleSum s) tags)
      | MetricType_HISTOGRAM \<Rightarrow> (let h = the (pmHistogram m) in
          (if IsEnabled fs HistogramConversion then [MDist (projr (buildWFHistogram b name m now tags))] else [])
          @ map (\<lambda>bk. rawPoint b now (histogramName b name) (f_of_uint64 (CumulativeCount bk))
                  (gput ''le'' (fmtFloat (UpperBound bk)) (put_all tags []))) (phBucket h)
          @ countAndSum b now name (phSampleCount h) (phSampleSum h) tags)
      | _ \<Rightarrow>
          (case (pmGauge m, pmCounter m, pmUntyped m) of
             (Some v, _, _) \<Rightarrow> if v = NaN then [] else [rawPoint b now (name @ ''.gauge'') v tags]
           | (None, Some v, _) \<Rightarrow> if v = NaN then [] else [rawPoint b now (name @ ''.counter'') v tags]
           | (None, None, Some v) \<Rightarrow> if v = NaN then [] else [rawPoint b now (name @ ''.value'') v tags]
           | (None, None, None) \<Rightarrow> []))"

text \<open>What the text parser gives: a summary family has summaries, a histogram family histograms.\<close>

definition has_data :: "string \<times> metric_type \<times> prom_metric \<Rightarrow> bool" where
  "has_data x = (let (_, t, m) = x in (t = MetricType_SUMMARY \<longrightarrow> pmSummary m \<noteq> None) \<and> (t = MetricType_HISTOGRAM \<longrightarrow> pmHistogram m \<noteq> None))"

definition interner_ok :: "strmap \<Rightarrow> bool" where
  "interner_ok i = (\<forall>k v. map_of i k = Some v \<longrightarrow> v = k)"

lemma Intern_same: "interner_ok i \<Longrightarrow> fst (Intern i s) = s \<and> interner_ok (snd (Intern i s))"
  by (auto simp: Intern_def interner_ok_def split: option.splits)

lemma deduplicate_same: "interner_ok i \<Longrightarrow> fst (deduplicate tags i) = tags \<and> interner_ok (snd (deduplicate tags i))"
proof (induction tags i rule: deduplicate.induct)
  case (2 k v tags i)
  note I = Intern_same [OF 2(2), of k]
  note J = Intern_same [of "snd (Intern i k)" v, OF conjunct2 [OF I]]
  have "fst (deduplicate tags (snd (Intern (snd (Intern i k)) v))) = tags \<and>
      interner_ok (snd (deduplicate tags (snd (Intern (snd (Intern i k)) v))))"
    using 2(1) [OF prod.collapse refl prod.collapse refl] J by simp
  with I J show ?case by (simp add: case_prod_unfold Let_def)
qed simp

definition kept :: "glob_filter option \<Rightarrow> wf_metric list \<Rightarrow> wf_metric list" where
  "kept flt ms = List.map_filter (\<lambda>m. fst (wf_Filter flt (Some m))) ms"

definition dropped_count :: "glob_filter option \<Rightarrow> wf_metric list \<Rightarrow> nat" where
  "dropped_count flt ms = (\<Sum>m \<leftarrow> ms. snd (wf_Filter flt (Some m)))"

text \<open>A step of the builder that writes the given metrics.\<close>

definition writes :: "glob_filter option \<Rightarrow> wf_metric list \<Rightarrow> builder_state \<Rightarrow> builder_state \<Rightarrow> bool" where
  "writes flt ms st st' \<longleftrightarrow> interner_ok (bsInterner st') \<and> bsResult st' = bsResult st @ kept flt ms \<and>
     bsFiltered st' = bsFiltered st + dropped_count flt ms"

lemma kept_append: "kept flt (xs @ ys) = kept flt xs @ kept flt ys" "dropped_count flt (xs @ ys) = dropped_count flt xs + dropped_count flt ys"
  by (simp_all add: kept_def dropped_count_def List.map_filter_def)

lemma writes_trans: "writes flt xs st st' \<Longrightarrow> writes flt ys st' st'' \<Longrightarrow> writes flt (xs @ ys) st st''"
  by (simp add: writes_def kept_append)

lemma writes_Nil: "interner_ok (bsInterner st) \<Longrightarrow> writes flt [] st st"
  by (simp add: writes_def kept_def dropped_count_def List.map_filter_def)

lemma writes_ok: "writes flt xs st st' \<Longrightarrow> interner_ok (bsInterner st')"
  by (simp add: writes_def)

lemma FilterAppend_kept: "FilterAppend flt ms (Some m) = (ms @ kept flt [m], dropped_count flt [m])"
  by (auto simp: FilterAppend_def kept_def dropped_count_def List.map_filter_def split: option.splits prod.splits)

lemma appendPoint_writes:
  assumes "interner_ok (bsInterner st)"
  shows "writes (pbFilters b) [rawPoint b now name v tags] st (appendPoint b name v now tags st)"
  using deduplicate_same [OF assms, of tags]
  by (simp add: writes_def appendPoint_def builderPoint_def builderName_def rawPoint_def NewPoint_def Point_SetLabelPairs_def
      FilterAppend_kept case_prod_unfold Let_def)

lemma fold_writes:
  assumes "\<And>x st. interner_ok (bsInterner st) \<Longrightarrow> writes flt (g x) st (f x st)" "interner_ok (bsInterner st)"
  shows "writes flt (concat (map g xs)) st (fold f xs st)"
  using assms(2)
proof (induction xs arbitrary: st)
  case (Cons x xs)
  from writes_trans [OF assms(1) [OF Cons.prems] Cons.IH [OF writes_ok [OF assms(1) [OF Cons.prems]]]] show ?case by simp
qed (simp add: writes_Nil)

lemma countAndSum_writes:
  assumes "interner_ok (bsInterner st)"
  shows "writes (pbFilters b) (countAndSum b now name n smpl tags) st
    (appendPoint b (name @ ''.sum'') smpl now tags (appendPoint b (name @ ''.count'') (f_of_uint64 n) now tags st))"
  using writes_trans [OF appendPoint_writes [OF assms] appendPoint_writes [OF writes_ok [OF appendPoint_writes [OF assms]]]]
  by (simp add: countAndSum_def)

lemma buildSummary_writes:
  assumes "interner_ok (bsInterner st)" "pmSummary m = Some s"
  shows "\<exists>st'. buildSummaryPoints fmtFloat b name m now (buildTags b m) st = Inr st' \<and>
    writes (pbFilters b) (rawMetric fs fmtFloat b now (name, MetricType_SUMMARY, m)) st st'"
proof -
  let ?tags = "buildTags b m"
  let ?f = "\<lambda>(q, v) st. if v \<noteq> NaN then appendPoint b name v now (gput ''quantile'' (fmtFloat q) (put_all ?tags [])) st else st"
  let ?g = "\<lambda>(q, v). if v \<noteq> NaN then [rawPoint b now name v (gput ''quantile'' (fmtFloat q) (put_all ?tags []))] else []"
  have f: "writes (pbFilters b) (concat (map ?g (psQuantile s))) st (fold ?f (psQuantile s) st)"
    by (rule fold_writes [OF _ assms(1)]) (auto simp: appendPoint_writes writes_Nil)
  have g: "concat (map ?g qs) = map (\<lambda>(q, v). rawPoint b now name v (gput ''quantile'' (fmtFloat q) (put_all ?tags [])))
      (filter (\<lambda>(q, v). v \<noteq> NaN) qs)" for qs by (induction qs) auto
  from writes_trans [OF f countAndSum_writes [OF writes_ok [OF f]]] assms(2)
  show ?thesis by (simp add: buildSummaryPoints_def rawMetric_def Let_def g)
qed

lemma buildHistogram_writes:
  assumes "interner_ok (bsInterner st)" "pmHistogram m = Some h"
  shows "\<exists>st'. buildMetric fs fmtFloat b now name MetricType_HISTOGRAM m st = Inr st' \<and>
    writes (pbFilters b) (rawMetric fs fmtFloat b now (name, MetricType_HISTOGRAM, m)) st st'"
proof -
  let ?tags = "buildTags b m"
  let ?d = "projr (buildWFHistogram b name m now ?tags)"
  let ?ds = "if IsEnabled fs HistogramConversion then [MDist ?d] else []"
  define st1 where "st1 = (if IsEnabled fs HistogramConversion
      then st \<lparr> bsResult := bsResult st @ kept (pbFilters b) [MDist ?d], bsFiltered := bsFiltered st + dropped_count (pbFilters b) [MDist ?d] \<rparr> else st)"
  have w1: "writes (pbFilters b) ?ds st st1" using assms(1) writes_Nil [OF assms(1)] by (simp add: st1_def writes_def)
  have eq1: "buildMetric fs fmtFloat b now name MetricType_HISTOGRAM m st = buildHistogramPoints fmtFloat b name m now ?tags st1"
    using assms(2) by (simp add: buildMetric_def buildWFHistogram_def FilterAppend_kept st1_def)
  have w2: "writes (pbFilters b) (concat (map (\<lambda>bk. [rawPoint b now (histogramName b name) (f_of_uint64 (CumulativeCount bk))
      (gput ''le'' (fmtFloat (UpperBound bk)) (put_all ?tags []))]) (phBucket h))) st1
    (fold (\<lambda>bk st. appendPoint b (histogramName b name) (f_of_uint64 (CumulativeCount bk)) now
      (gput ''le'' (fmtFloat (UpperBound bk)) (put_all ?tags [])) st) (phBucket h) st1)"
    by (rule fold_writes [OF appendPoint_writes writes_ok [OF w1]])
  from writes_trans [OF w1 writes_trans [OF w2 countAndSum_writes [OF writes_ok [OF w2]]]] assms(2)
  show ?thesis unfolding eq1 by (simp add: buildHistogramPoints_def rawMetric_def Let_def concat_map_singleton)
qed

lemma buildMetric_writes:
  assumes "interner_ok (bsInterner st)" "has_data (name, t, m)"
  shows "\<exists>st'. buildMetric fs fmtFloat b now name t m st = Inr st' \<and>
    writes (pbFilters b) (rawMetric fs fmtFloat b now (name, t, m)) st st'"
proof -
  have plain: "writes (pbFilters b) (rawMetric fs fmtFloat b now (name, t, m)) st (buildPoints b name m now st)"
    if "t \<noteq> MetricType_SUMMARY" "t \<noteq> MetricType_HISTOGRAM"
    using that assms(1) by (cases t)
      (auto simp: rawMetric_def buildPoints_def Let_def appendPoint_writes writes_Nil split: option.splits)
  show ?thesis
  proof (cases "t = MetricType_SUMMARY \<or> t = MetricType_HISTOGRAM")
    case True
    with assms buildSummary_writes [OF assms(1), of m _ fmtFloat b name now fs] buildHistogram_writes [OF assms(1), of m _ fs fmtFloat b now name]
    show ?thesis by (auto simp: has_data_def buildMetric_def)
  qed (use plain in \<open>simp add: buildMetric_def\<close>)
qed

lemma buildAllOf_writes:
  "interner_ok (bsInterner st) \<Longrightarrow> list_all has_data xs \<Longrightarrow>
     \<exists>st'. buildAllOf fs fmtFloat b now xs st = Inr st' \<and> writes (pbFilters b) (concat (map (rawMetric fs fmtFloat b now) xs)) st st'"
proof (induction xs arbitrary: st)
  case Nil
  then show ?case by (simp add: writes_Nil)
next
  case (Cons x xs)
  obtain name t m where x: "x = (name, t, m)" by (cases x)
  with Cons.prems have hd: "has_data (name, t, m)" by simp
  obtain st1 where st1: "buildMetric fs fmtFloat b now name t m st = Inr st1"
      "writes (pbFilters b) (rawMetric fs fmtFloat b now (name, t, m)) st st1"
    using buildMetric_writes [OF Cons.prems(1) hd] by blast
  obtain st2 where "buildAllOf fs fmtFloat b now xs st1 = Inr st2"
      "writes (pbFilters b) (concat (map (rawMetric fs fmtFloat b now) xs)) st1 st2"
    using Cons.IH [OF writes_ok [OF st1(2)]] Cons.prems(2) by auto
  with st1 writes_trans [OF st1(2)] show ?case by (simp add: x)
qed


definition sample_builder :: point_builder where
  "sample_builder = \<lparr> pbFilters = None, pbSource = ''n1'', pbPrefix = ''kube.'', pbOmitBucketSuffix = False, pbTags = [(''pod'', ''p'')] \<rparr>"

definition sample_gauge :: prom_metric where
  "sample_gauge = \<lparr> pmLabel = [(''le'', [])], pmGauge = Some (Fin 1), pmCounter = None, pmUntyped = None, pmSummary = None, pmHistogram = None \<rparr>"


section \<open>Instances\<close>

lemma choosePort_https:
  "choosePort ports = (case find (\<lambda>p. epPortName p = ''https'') ports of
     Some p \<Rightarrow> epPort p
   | None \<Rightarrow> (case find (\<lambda>p. epPortName p = ''http'') (rev ports) of Some p \<Rightarrow> epPort p | None \<Rightarrow> - 1))"
proof -
  have "choosePortFrom d ports = (case find (\<lambda>p. epPortName p = ''https'') ports of
     Some p \<Rightarrow> epPort p
   | None \<Rightarrow> (case find (\<lambda>p. epPortName p = ''http'') (rev ports) of Some p \<Rightarrow> epPort p | None \<Rightarrow> d))" for d
  proof (induction ports arbitrary: d)
    case (Cons p ports)
    have app: "find P (xs @ [x]) = (case find P xs of Some y \<Rightarrow> Some y | None \<Rightarrow> if P x then Some x else None)" for P and xs :: "endpoint_port list" and x
      by (induction xs) auto
    show ?case by (auto simp: Cons app split: option.splits)
  qed simp
  then show ?thesis by (simp add: choosePort_def)
qed

text \<open>The unescaped dot: a host of two labels is taken for a service in a one-letter namespace.\<close>

lemma matchNSName_one_label: "matchNSName ''myhost.svc'' = Some (''myho'', ''t'')"
  by (simp add: matchNSName_def HasPrefix_def)

end
