(* ===== verification/Telegraf_Source.thy ===== *)
theory Telegraf_Source
  imports Batch Configuration Kube_Util Source_Manager
begin

text \<open>
  The Telegraf source (\<^verbatim>\<open>plugins/sources/telegraf\<close>): the provider that turns plugin names into sources,
  the accumulator a plugin writes to, and the system plugin of the repository.

  A Telegraf input is a parameter: gathering gives the calls it makes on the accumulator and the error
  it returns. The registry of inputs and the parser of their configuration are parameters too.
\<close>

section \<open>The accumulator\<close>

text \<open>
  A field: a string, a boolean, a value that converts to a float (with the result), or nil and the
  values that do not.
\<close>

datatype field_value = FieldString string | FieldBool bool | FieldNumber f64 | FieldOther

fun getFloat :: "field_value \<Rightarrow> f64 go_result" where
  "getFloat (FieldNumber f) = Inr f"
| "getFloat _ = Inl (Errorf ''cannot convert to float64'')"

record telegraf_source =
  tsName :: string
  tsSource :: string
  tsPrefix :: string
  tsTags :: strmap
  tsFilters :: "glob_filter option"
  tsAutoDiscovered :: bool
  tsTargetTags :: "strmap option"

record telegraf_counters =
  tsPointsCollected :: nat
  tsPointsFiltered :: nat
  tsErrors :: nat
  tsTargetPPS :: nat
  tsTargetEPS :: nat

definition telegraf_buildTags :: "telegraf_source \<Rightarrow> strmap \<Rightarrow> strmap" where
  "telegraf_buildTags src pointTags =
     (let result = fold (\<lambda>(k, v) r. if length v > 0 then gput k v r else r) (tsTags src) []
      in fold (\<lambda>(k, v) r. if length v > 0 then gput k v r else r) pointTags result)"

definition fieldValue :: "field_value \<Rightarrow> f64 option" where
  "fieldValue v =
     (case v of
        FieldString _ \<Rightarrow> None
      | FieldBool p \<Rightarrow> Some (if p then Fin 1 else Fin 0)
      | _ \<Rightarrow> (case getFloat v of Inl err \<Rightarrow> None | Inr f \<Rightarrow> Some f))"

definition prepareField :: "telegraf_source \<Rightarrow> string \<Rightarrow> strmap \<Rightarrow> time \<Rightarrow> string \<times> field_value \<Rightarrow>
    wf_metric list \<times> nat \<Rightarrow> wf_metric list \<times> nat" where
  "prepareField src measurement tags ts field st =
     (let (metric, v) = field in
      case fieldValue v of
        None \<Rightarrow> st
      | Some value \<Rightarrow>
          (let metricName = measurement @ ''.'' @ metric;
               metricName = ReplaceAll metricName ''_'' ''.'';
               metricName = (if length (tsPrefix src) > 0 then tsPrefix src @ ''.'' @ metricName else metricName);
               (ms, n) = FilterAppend (tsFilters src) (fst st)
                 (Some (MPoint (NewPoint metricName value (word_of_int (sint (UnixNano ts) sdiv 1000)) (tsSource src) (telegraf_buildTags src tags))))
           in (ms, snd st + n)))"

definition preparePoints :: "telegraf_source \<Rightarrow> time \<Rightarrow> string \<Rightarrow> (string, field_value) gomap \<Rightarrow> strmap \<Rightarrow> time option \<Rightarrow>
    wf_metric list \<times> nat \<Rightarrow> wf_metric list \<times> nat" where
  "preparePoints src now measurement flds tags timestamp st =
     (let ts = (case timestamp of Some t \<Rightarrow> t | None \<Rightarrow> now)
      in fold (prepareField src measurement tags ts) flds st)"

text \<open>
  The calls of a plugin. \<^verbatim>\<open>AddFields\<close>, \<^verbatim>\<open>AddGauge\<close> and \<^verbatim>\<open>AddCounter\<close> do the same; the calls that are
  not supported end the process.
\<close>

datatype accumulator_call =
    AddFields string "(string, field_value) gomap" strmap "time option"
  | AddError "go_error option"
  | AddUnsupported

record accumulator =
  acMetrics :: "wf_metric list"
  acCounters :: telegraf_counters

definition addErrorCount :: "telegraf_source \<Rightarrow> telegraf_counters \<Rightarrow> telegraf_counters" where
  "addErrorCount src c =
     c \<lparr> tsErrors := tsErrors c + 1, tsTargetEPS := tsTargetEPS c + (if tsTargetTags src = None then 0 else 1) \<rparr>"

fun accumulate :: "telegraf_source \<Rightarrow> time \<Rightarrow> accumulator_call list \<Rightarrow> accumulator \<Rightarrow> accumulator go_result" where
  "accumulate src now [] a = Inr a"
| "accumulate src now (AddFields measurement flds tags ts # calls) a =
     (let (ms, n) = preparePoints src now measurement flds tags ts (acMetrics a, 0);
          c = acCounters a
      in accumulate src now calls \<lparr> acMetrics = ms, acCounters = c \<lparr> tsPointsFiltered := tsPointsFiltered c + n \<rparr> \<rparr>)"
| "accumulate src now (AddError err # calls) a =
     accumulate src now calls (if err = None then a else a \<lparr> acCounters := addErrorCount src (acCounters a) \<rparr>)"
| "accumulate src now (AddUnsupported # calls) a = Inl (GoPanic ''not supported'')"

definition telegraf_Scrape :: "accumulator_call list \<times> go_error option \<Rightarrow> time \<Rightarrow> telegraf_source \<Rightarrow> telegraf_counters \<Rightarrow>
    (batch \<times> telegraf_counters) go_result" where
  "telegraf_Scrape gathered now src c =
     (case accumulate src now (fst gathered) \<lparr> acMetrics = [], acCounters = c \<rparr> of
        Inl e \<Rightarrow> Inl e
      | Inr a \<Rightarrow>
          (let c = (if snd gathered = None then acCounters a else addErrorCount src (acCounters a));
               n = length (acMetrics a)
           in Inr (\<lparr> Timestamp = now, Sets = [], Metrics = map Some (acMetrics a) \<rparr>,
                   c \<lparr> tsPointsCollected := tsPointsCollected c + n,
                       tsTargetPPS := tsTargetPPS c + (if tsTargetTags src = None then 0 else n) \<rparr>)))"

section \<open>The source and the provider\<close>

definition hostPlugins :: "string list" where
  "hostPlugins = [''mem'', ''net'', ''netstat'', ''linux_sysctl_fs'', ''swap'', ''cpu'', ''disk'', ''diskio'', ''system'', ''kernel'', ''processes'']"

definition telegraf_pluginType :: "string \<Rightarrow> string" where
  "telegraf_pluginType plugin = (if plugin \<in> set hostPlugins then ''telegraf_host'' else ''telegraf'')"

definition telegraf_extractTags :: "strmap \<Rightarrow> string \<Rightarrow> string \<Rightarrow> strmap" where
  "telegraf_extractTags tags name discovered =
     (let result = fold (\<lambda>(k, v) r. if k \<in> {''pod'', ''service'', ''namespace'', ''node''} then gput k v r else r) tags [];
          result = gput ''discovered'' (if discovered \<noteq> [] then discovered else ''static'') result
      in gput ''type'' name result)"

definition newTelegrafPluginSource :: "env \<Rightarrow> string \<Rightarrow> string \<Rightarrow> strmap \<Rightarrow> glob_filter option \<Rightarrow> string \<Rightarrow> telegraf_source" where
  "newTelegrafPluginSource e name prefix tags flt discovered =
     \<lparr> tsName = name @ ''_plugin'', tsSource = GetNodeName e, tsPrefix = prefix, tsTags = tags, tsFilters = flt,
       tsAutoDiscovered = length discovered > 0,
       tsTargetTags = (if discovered \<noteq> [] then Some (telegraf_extractTags tags (telegraf_pluginType name @ ''.'' @ name) discovered) else None) \<rparr>"

definition telegraf_Name :: "telegraf_source \<Rightarrow> string" where
  "telegraf_Name t = ''telegraf_'' @ tsName t @ ''_source''"

definition telegraf_AutoDiscovered :: "telegraf_source \<Rightarrow> bool" where
  "telegraf_AutoDiscovered t = tsAutoDiscovered t"

text \<open>\<^verbatim>\<open>Cleanup\<close> unregisters the error counter twice and leaves the point counter.\<close>

definition telegraf_Cleanup :: "(string \<Rightarrow> strmap \<Rightarrow> string) \<Rightarrow> telegraf_source \<Rightarrow> string set \<Rightarrow> string set" where
  "telegraf_Cleanup encodeKey t registry =
     (let tags = (case tsTargetTags t of Some tags \<Rightarrow> tags | None \<Rightarrow> []);
          registry = registry - {encodeKey ''target.collect.errors'' tags}
      in registry - {encodeKey ''target.collect.errors'' tags})"

record telegraf_provider =
  tpName :: string
  tpUseLeaderElection :: bool
  tpSources :: "telegraf_source list"

abbreviation telegrafProviderName :: string where "telegrafProviderName \<equiv> ''telegraf_provider''"

text \<open>
  The registry of inputs: \<open>inputs name\<close> tells whether there is a creator, \<open>initPlugin name conf\<close> whether
  the configuration of a new instance fails.
\<close>

fun newSources :: "(string \<Rightarrow> bool) \<Rightarrow> (string \<Rightarrow> string \<Rightarrow> go_error option) \<Rightarrow> glob_compiler \<Rightarrow> env \<Rightarrow> agent_type \<Rightarrow>
    telegraf_source_config \<Rightarrow> string \<Rightarrow> string list \<Rightarrow> telegraf_source list \<times> bool \<Rightarrow> (telegraf_source list \<times> bool) go_result" where
  "newSources inputs initPlugin gc e ag cfg prefix [] st = Inr st"
| "newSources inputs initPlugin gc e ag cfg prefix (name # plugins) (sources, hostPlugin) =
     (if \<not> ScrapeAnyNodes ag \<and> telegraf_pluginType name = ''telegraf_host''
      then newSources inputs initPlugin gc e ag cfg prefix plugins (sources, hostPlugin)
      else if inputs (TrimBlanks name)
      then (if tgConf cfg \<noteq> [] \<and> initPlugin (TrimBlanks name) (tgConf cfg) \<noteq> None
            then Inl (Errorf (''error creating plugin: '' @ name))
            else newSources inputs initPlugin gc e ag cfg prefix plugins
                   (sources @ [newTelegrafPluginSource e name prefix (Tags (tgTransforms cfg)) (FromConfig gc (Filters (tgTransforms cfg))) (tgDiscovered cfg)],
                    hostPlugin \<and> telegraf_pluginType name = ''telegraf_host''))
      else Inl (Errorf (''telegraf plugin not found: '' @ name)))"

text \<open>\<^verbatim>\<open>%v\<close> of a list of strings.\<close>

definition showStrings :: "string list \<Rightarrow> string" where
  "showStrings xs = ''['' @ Join xs '' '' @ '']''"

definition NewTelegrafProvider :: "(string \<Rightarrow> bool) \<Rightarrow> (string \<Rightarrow> string \<Rightarrow> go_error option) \<Rightarrow> glob_compiler \<Rightarrow> env \<Rightarrow> agent_type \<Rightarrow>
    telegraf_source_config \<Rightarrow> telegraf_provider go_result" where
  "NewTelegrafProvider inputs initPlugin gc e ag cfg =
     (let prefix = GetStringValue (Prefix (tgTransforms cfg)) [];
          prefix = (if length prefix > 0 then TrimDots prefix else prefix);
          plugins = (if length (Plugins cfg) = 0 then hostPlugins else Plugins cfg)
      in case newSources inputs initPlugin gc e ag cfg prefix plugins ([], True) of
           Inl err \<Rightarrow> Inl err
         | Inr (sources, hostPlugin) \<Rightarrow> Inr
             \<lparr> tpName = (if length (tgName cfg) > 0 then telegrafProviderName @ '': '' @ tgName cfg
                         else telegrafProviderName @ '': '' @ showStrings plugins),
               tpUseLeaderElection = (tgUseLeaderElection cfg \<or> (tgDiscovered cfg = [] \<and> \<not> hostPlugin)),
               tpSources = sources \<rparr>)"

definition telegraf_GetMetricsSources :: "bool \<Rightarrow> telegraf_provider \<Rightarrow> telegraf_source list" where
  "telegraf_GetMetricsSources leading p = (if tpUseLeaderElection p \<and> \<not> leading then [] else tpSources p)"

definition telegraf_factory_Build :: "(string \<Rightarrow> bool) \<Rightarrow> (string \<Rightarrow> string \<Rightarrow> go_error option) \<Rightarrow> glob_compiler \<Rightarrow> env \<Rightarrow> agent_type \<Rightarrow>
    telegraf_source_config \<Rightarrow> (telegraf_provider \<times> duration \<times> duration) go_result" where
  "telegraf_factory_Build inputs initPlugin gc e ag c =
     (case NewTelegrafProvider inputs initPlugin gc e ag c of
        Inl err \<Rightarrow> Inl err
      | Inr p \<Rightarrow> Inr (p, Interval (tgCollection c), if Timeout (tgCollection c) = 0 then 30 * Second else Timeout (tgCollection c)))"

section \<open>The system plugin\<close>

definition pad2 :: "char \<Rightarrow> nat \<Rightarrow> string" where
  "pad2 c n = (if n < 10 then c # show_nat n else show_nat n)"

definition formatUptime :: "nat \<Rightarrow> string" where
  "formatUptime uptime =
     (let days = uptime div (60 * 60 * 24);
          minutes = uptime div 60;
          hours = minutes div 60;
          hours = hours mod 24;
          minutes = minutes mod 60
      in (if days \<noteq> 0 then show_nat days @ '' day'' @ (if days > 1 then ''s'' else []) @ '', '' else [])
         @ pad2 CHR '' '' hours @ '':'' @ pad2 CHR ''0'' minutes)"

definition gatherFrom :: "time \<Rightarrow> (f64 \<times> f64 \<times> f64) option \<Rightarrow> nat \<Rightarrow> nat go_result \<Rightarrow> (accumulator_call list \<times> go_error option) go_result" where
  "gatherFrom now avg ncpu up =
     (case avg of
        None \<Rightarrow> Inl (GoPanic ''nil pointer dereference'')
      | Some (load1, load5, load15) \<Rightarrow>
          (let gauge = AddFields ''system'' [(''load1'', FieldNumber load1), (''load5'', FieldNumber load5), (''load15'', FieldNumber load15),
                         (''n_cpus'', FieldNumber (rnd (of_nat ncpu)))] [] (Some now)
           in case up of
                Inl e \<Rightarrow> Inr ([gauge], Some e)
              | Inr uptime \<Rightarrow> Inr
                  ([gauge, AddFields ''system'' [(''uptime'', FieldNumber (rnd (of_nat uptime)))] [] (Some now),
                    AddFields ''system'' [(''uptime_format'', FieldString (formatUptime uptime))] [] (Some now)], None)))"

text \<open>
  Load averages and uptime come from the host. A load average that is not implemented is tolerated,
  as long as the library returns one.
\<close>

definition system_Gather :: "time \<Rightarrow> (f64 \<times> f64 \<times> f64) option \<times> string option \<Rightarrow> nat \<Rightarrow> nat go_result \<Rightarrow>
    (accumulator_call list \<times> go_error option) go_result" where
  "system_Gather now loadavg ncpu up =
     (case loadavg of
        (_, Some msg) \<Rightarrow> if \<not> Contains msg ''not implemented'' then Inr ([], Some (Errorf msg)) else gatherFrom now (fst loadavg) ncpu up
      | (avg, None) \<Rightarrow> gatherFrom now avg ncpu up)"

section \<open>Accounting\<close>

definition numericFields :: "accumulator_call list \<Rightarrow> nat" where
  "numericFields calls = (\<Sum>c \<leftarrow> calls. case c of AddFields _ fs _ _ \<Rightarrow> length (filter (\<lambda>(_, v). fieldValue v \<noteq> None) fs) | _ \<Rightarrow> 0)"

lemma FilterAppend_length: "FilterAppend flt ms (Some m) = (ms', n) \<Longrightarrow> length ms' + n = length ms + 1"
  by (auto simp: FilterAppend_def wf_Filter_def split: option.splits prod.splits if_splits)

lemma preparePoints_count:
  assumes "preparePoints src now measurement flds tags ts st = st'"
  shows "length (fst st') + snd st' = length (fst st) + snd st + length (filter (\<lambda>(_, v). fieldValue v \<noteq> None) flds)"
proof -
  have "length (fst (fold (prepareField src measurement tags t) flds st)) + snd (fold (prepareField src measurement tags t) flds st) =
      length (fst st) + snd st + length (filter (\<lambda>(_, v). fieldValue v \<noteq> None) flds)" for t
  proof (induction flds arbitrary: st)
    case (Cons f flds)
    obtain m v where f: "f = (m, v)" by (cases f)
    have "length (fst (prepareField src measurement tags t f st)) + snd (prepareField src measurement tags t f st) =
        length (fst st) + snd st + (if fieldValue v \<noteq> None then 1 else 0)"
      by (auto simp: prepareField_def f Let_def split: option.splits prod.splits dest!: FilterAppend_length)
    with Cons show ?case by (simp add: f)
  qed simp
  with assms show ?thesis by (auto simp: preparePoints_def Let_def)
qed

text \<open>
  A scrape of a Telegraf plugin fails only when the plugin makes a call the accumulator does not
  support. Every field with a numeric or boolean value becomes a point of the batch, counted as
  collected, or is counted as filtered; errors are counted but do not withhold the batch.
\<close>

theorem telegraf_Scrape_accounting:
  assumes "AddUnsupported \<notin> set calls"
  shows "\<exists>b c'. telegraf_Scrape (calls, err) now src c = Inr (b, c') \<and>
    length (Metrics b) + tsPointsFiltered c' = tsPointsFiltered c + numericFields calls \<and>
    tsPointsCollected c' = tsPointsCollected c + length (Metrics b) \<and>
    tsErrors c' = tsErrors c + length (filter (\<lambda>x. \<exists>e. x = AddError (Some e)) calls) + (if err = None then 0 else 1)"
proof -
  have "\<exists>a'. accumulate src now calls a = Inr a' \<and>
      length (acMetrics a') + tsPointsFiltered (acCounters a') = length (acMetrics a) + tsPointsFiltered (acCounters a) + numericFields calls \<and>
      tsPointsCollected (acCounters a') = tsPointsCollected (acCounters a) \<and>
      tsErrors (acCounters a') = tsErrors (acCounters a) + length (filter (\<lambda>x. \<exists>e. x = AddError (Some e)) calls)" for a
    using assms
  proof (induction calls arbitrary: a)
    case (Cons call calls)
    then have rest: "AddUnsupported \<notin> set calls" by simp
    show ?case
    proof (cases call)
      case (AddFields m flds tags ts)
      obtain ms n where p: "preparePoints src now m flds tags ts (acMetrics a, 0) = (ms, n)" by (cases "preparePoints src now m flds tags ts (acMetrics a, 0)")
      from preparePoints_count [OF p] Cons.IH [OF rest, of "\<lparr> acMetrics = ms, acCounters = (acCounters a) \<lparr> tsPointsFiltered := tsPointsFiltered (acCounters a) + n \<rparr> \<rparr>"]
      show ?thesis by (auto simp: AddFields p numericFields_def)
    next
      case (AddError e)
      with Cons.IH [OF rest, of "if e = None then a else a \<lparr> acCounters := addErrorCount src (acCounters a) \<rparr>"]
      show ?thesis by (cases e) (auto simp: numericFields_def addErrorCount_def)
    qed (use Cons.prems in simp)
  qed (simp add: numericFields_def)
  from this [of "\<lparr> acMetrics = [], acCounters = c \<rparr>"] obtain a' where a': "accumulate src now calls \<lparr> acMetrics = [], acCounters = c \<rparr> = Inr a'"
    "length (acMetrics a') + tsPointsFiltered (acCounters a') = tsPointsFiltered c + numericFields calls"
    "tsPointsCollected (acCounters a') = tsPointsCollected c"
    "tsErrors (acCounters a') = tsErrors c + length (filter (\<lambda>x. \<exists>e. x = AddError (Some e)) calls)" by auto
  then show ?thesis by (auto simp: telegraf_Scrape_def Let_def addErrorCount_def)
qed

definition sample_telegraf :: telegraf_source where
  "sample_telegraf = newTelegrafPluginSource [] ''mem'' [] [] None []"

theorem telegraf_Scrape_accounting_witness:
  "\<exists>b c'. telegraf_Scrape ([AddFields ''mem'' [(''free'', FieldNumber (Fin 5)), (''kind'', FieldString [])] [] None, AddError None], None) 7 sample_telegraf
      \<lparr> tsPointsCollected = 0, tsPointsFiltered = 0, tsErrors = 0, tsTargetPPS = 0, tsTargetEPS = 0 \<rparr> = Inr (b, c') \<and>
    length (Metrics b) + tsPointsFiltered c' = 1"
proof -
  let ?calls = "[AddFields ''mem'' [(''free'', FieldNumber (Fin 5)), (''kind'', FieldString [])] [] None, AddError None]"
  have "AddUnsupported \<notin> set ?calls" by simp
  from telegraf_Scrape_accounting [OF this, of None 7 sample_telegraf
      "\<lparr> tsPointsCollected = 0, tsPointsFiltered = 0, tsErrors = 0, tsTargetPPS = 0, tsTargetEPS = 0 \<rparr>"]
  show ?thesis by (auto simp: numericFields_def fieldValue_def)
qed

text \<open>The point counter of a discovered target survives the cleanup of its source.\<close>

lemma telegraf_Cleanup_leaks:
  assumes "tsTargetTags t = Some tags" "encodeKey ''target.points.collected'' tags \<noteq> encodeKey ''target.collect.errors'' tags"
    "encodeKey ''target.points.collected'' tags \<in> registry"
  shows "encodeKey ''target.points.collected'' tags \<in> telegraf_Cleanup encodeKey t registry"
  using assms by (simp add: telegraf_Cleanup_def Let_def)

end
