(* ===== verification/Discovery.thy ===== *)
theory Discovery
  imports Endpoint_Encoding Prometheus_Source Telegraf_Source Source_Manager
begin

text \<open>
  Runtime discovery (\<^verbatim>\<open>plugins/discovery\<close>): the resource filter, the endpoint creator, the endpoint
  handler of \<^verbatim>\<open>internal/discovery/endpoint.go\<close>, the discoverer, which keeps the endpoints of every
  resource and registers and removes their providers in the source manager, and the pod and service
  handlers that feed it.

  The queue between the handlers and the discoverer keeps the order, and the discoverer's mutex runs
  its operations one after the other; a history is a list of operations.
\<close>

section \<open>The resource filter\<close>

record resource_filter =
  rfKind :: string
  rfImages :: "glob option"
  rfNamespaces :: "glob option"
  rfLabels :: "(string, glob) gomap option"

definition resourceType :: "string \<Rightarrow> string go_result" where
  "resourceType kind =
     (if kind = [] then Inr (ResourceType_String PodType)
      else if kind \<in> {ResourceType_String PodType, ResourceType_String ServiceType, ResourceType_String NodeType} then Inr kind
      else Inl (Errorf (''invalid resource type: '' @ kind)))"

definition newResourceFilter :: "glob_compiler \<Rightarrow> selectors \<Rightarrow> resource_filter go_result" where
  "newResourceFilter gc sel =
     (let rf = \<lparr> rfKind = [], rfImages = Compile gc (Images sel), rfNamespaces = Compile gc (Namespaces sel), rfLabels = MultiCompile gc (slLabels sel) \<rparr>
      in case resourceType (ResourceType sel) of
           Inl err \<Rightarrow> Inl err
         | Inr kind \<Rightarrow>
             (let rf = rf \<lparr> rfKind := kind \<rparr> in
              if rfKind rf \<noteq> ResourceType_String NodeType \<and> rfImages rf = None \<and> rfLabels rf = None \<and> rfNamespaces rf = None
              then Inl (Errorf ''no selectors specified'') else Inr rf))"

definition matchesTags :: "(string, glob) gomap \<Rightarrow> strmap \<Rightarrow> bool" where
  "matchesTags matchers tags =
     (if length tags = 0 then False
      else list_all (\<lambda>(k, matcher). case map_of tags k of None \<Rightarrow> False | Some val \<Rightarrow> matcher val) matchers)"

definition rf_matches :: "resource_filter \<Rightarrow> resource \<Rightarrow> bool" where
  "rf_matches r res =
     (if rfKind r \<noteq> rsKind res then False
      else if (case rfLabels r of None \<Rightarrow> False | Some ls \<Rightarrow> \<not> matchesTags ls (mtLabels (rsMeta res))) then False
      else if (case rfNamespaces r of None \<Rightarrow> False | Some g \<Rightarrow> \<not> g (mtNamespace (rsMeta res))) then False
      else (case rfImages r of None \<Rightarrow> True | Some g \<Rightarrow> list_ex (\<lambda>c. g (cImage c)) (rsContainers res)))"

section \<open>Rules\<close>

record delegate =
  dlFilter :: resource_filter
  dlPlugin :: plugin_config

text \<open>\<^verbatim>\<open>strconv.ParseInt(s, 10, 32)\<close> succeeds.\<close>

definition ParseInt32 :: "string \<Rightarrow> int option" where
  "ParseInt32 s = (case Atoi s of None \<Rightarrow> None | Some n \<Rightarrow> if - (2 ^ 31) \<le> n \<and> n < 2 ^ 31 then Some n else None)"

definition makeDelegate :: "glob_compiler \<Rightarrow> plugin_config \<Rightarrow> delegate go_result" where
  "makeDelegate gc plugin =
     (case newResourceFilter gc (plSelectors plugin) of
        Inl err \<Rightarrow> Inl err
      | Inr flt \<Rightarrow>
          if plPort plugin \<noteq> [] \<and> ParseInt32 (plPort plugin) = None then Inl (Errorf ''strconv.ParseInt'')
          else if \<not> (Contains (plType plugin) ''prometheus'' \<or> Contains (plType plugin) ''telegraf'')
          then Inl (Errorf (''invalid plugin type: '' @ plType plugin))
          else Inr \<lparr> dlFilter = flt, dlPlugin = plugin \<rparr>)"

definition makeDelegates :: "glob_compiler \<Rightarrow> discovery_config \<Rightarrow> (string, delegate) gomap" where
  "makeDelegates gc cfg =
     fold (\<lambda>plugin ds. case makeDelegate gc plugin of Inl err \<Rightarrow> ds | Inr d \<Rightarrow> gput (plName plugin) d ds) (PluginConfigs cfg) []"

definition makeAnnotationExclusions :: "glob_compiler \<Rightarrow> selectors list \<Rightarrow> resource_filter list" where
  "makeAnnotationExclusions gc sels =
     concat (map (\<lambda>sel. case newResourceFilter gc sel of Inl err \<Rightarrow> [] | Inr f \<Rightarrow> [f]) sels)"

definition discovery_pluginType :: "plugin_config \<Rightarrow> string" where
  "discovery_pluginType plugin =
     (if Contains (plType plugin) ''prometheus'' then ''prometheus'' else if Contains (plType plugin) ''telegraf'' then ''telegraf'' else [])"

section \<open>Endpoints\<close>

datatype endpoint_config = PromEndpoint prometheus_source_config | TelegrafEndpoint telegraf_source_config

record endpoint =
  epName :: string
  epPluginType :: string
  epConfig :: endpoint_config

record endpoint_creator =
  ecDelegates :: "(string, delegate) gomap"
  ecEncoder :: prometheus_encoder
  ecHttpYAML :: "string \<Rightarrow> client_config option"
  ecNodeName :: string
  ecDisableAnnotationDiscovery :: bool
  ecAnnotationExcludes :: "resource_filter list"

text \<open>The providers of \<^verbatim>\<open>makeProviders\<close> are \<^verbatim>\<open>prometheus\<close> and \<^verbatim>\<open>telegraf\<close>; another type has no encoder.\<close>

definition creator_Encode :: "endpoint_creator \<Rightarrow> resource \<Rightarrow> plugin_config \<Rightarrow> (string \<times> endpoint_config) option" where
  "creator_Encode e res rule =
     (if discovery_pluginType rule = ''prometheus''
      then map_option (map_prod id PromEndpoint)
             (prometheusEncoder_Encode (ecHttpYAML e) (ecNodeName e) (ecEncoder e) (rsIP res) (rsKind res) (rsMeta res) rule)
      else if discovery_pluginType rule = ''telegraf''
      then map_option (map_prod id TelegrafEndpoint) (telegrafEncoder_Encode (rsIP res) (rsKind res) (rsMeta res) rule)
      else None)"

definition makeEndpoint :: "endpoint_creator \<Rightarrow> resource \<Rightarrow> plugin_config \<Rightarrow> endpoint option" where
  "makeEndpoint e res plugin =
     (case creator_Encode e res plugin of
        Some (name, cfg) \<Rightarrow> Some \<lparr> epName = name, epPluginType = discovery_pluginType plugin, epConfig = cfg \<rparr>
      | None \<Rightarrow> None)"

definition discoverEndpointsWithRules :: "endpoint_creator \<Rightarrow> resource \<Rightarrow> endpoint list" where
  "discoverEndpointsWithRules e res =
     fold (\<lambda>(_, d) eps. if rf_matches (dlFilter d) res
                        then (case makeEndpoint e res (dlPlugin d) of Some ep \<Rightarrow> eps @ [ep] | None \<Rightarrow> eps) else eps)
       (ecDelegates e) []"

definition annotationPlugin :: plugin_config where
  "annotationPlugin = \<lparr> plName = [], plType = ''prometheus'', plSelectors = zeroSelectors, plPort = [], plScheme = [], plPath = [],
     plConf = [], plSource = [], plPrefix = [], plTags = [], plIncludeLabels = [], plFilters = empty_filter_config,
     plCollection = zeroCollection, plInternal = False \<rparr>"

definition discoverEndpointsWithAnnotations :: "endpoint_creator \<Rightarrow> resource \<Rightarrow> endpoint list" where
  "discoverEndpointsWithAnnotations e res =
     (if list_ex (\<lambda>exclude. rf_matches exclude res) (ecAnnotationExcludes e) then []
      else (case makeEndpoint e res annotationPlugin of Some ep \<Rightarrow> [ep] | None \<Rightarrow> []))"

definition discoverEndpoints :: "endpoint_creator \<Rightarrow> resource \<Rightarrow> endpoint list" where
  "discoverEndpoints e res =
     (let eps = discoverEndpointsWithRules e res in
      if length eps = 0 \<and> \<not> ecDisableAnnotationDiscovery e then discoverEndpointsWithAnnotations e res else eps)"

section \<open>The endpoint handler\<close>

text \<open>The providers that discovery creates, as the manager's sources.\<close>

datatype ('u, 'c) discovered = DiscoveredProm "('u, 'c) prometheus_provider" | DiscoveredTelegraf telegraf_provider

record ('u, 'c) provider_env =
  promEnv :: "('u, 'c) prom_env"
  telegrafInputs :: "string \<Rightarrow> bool"
  telegrafInit :: "string \<Rightarrow> string \<Rightarrow> go_error option"
  agentType :: agent_type

text \<open>
  \<^verbatim>\<open>Factory.Build\<close> of the factory of a plugin type, and \<^verbatim>\<open>Factory.Name\<close>. The configuration has the type
  the factory asserts, as \<open>makeEndpoint_typed\<close> shows.
\<close>

definition factory_Build :: "('u, 'c) provider_env \<Rightarrow> endpoint \<Rightarrow> ('u, 'c) discovered provider go_result" where
  "factory_Build pe ep =
     (case epConfig ep of
        PromEndpoint c \<Rightarrow>
          (case prom_factory_Build (promEnv pe) c of
             Inl e \<Rightarrow> Inl e
           | Inr (p, i, t) \<Rightarrow> Inr \<lparr> pvName = ppName p, pvInterval = i, pvTimeout = t, pvConfigurable = True, pvSources = [DiscoveredProm p] \<rparr>)
      | TelegrafEndpoint c \<Rightarrow>
          (case telegraf_factory_Build (telegrafInputs pe) (telegrafInit pe) (globCompiler (promEnv pe)) (processEnv (promEnv pe)) (agentType pe) c of
             Inl e \<Rightarrow> Inl e
           | Inr (p, i, t) \<Rightarrow> Inr \<lparr> pvName = tpName p, pvInterval = i, pvTimeout = t, pvConfigurable = True, pvSources = [DiscoveredTelegraf p] \<rparr>))"

definition factory_Name :: "string \<Rightarrow> string" where
  "factory_Name t = (if t = ''prometheus'' then promProviderName else telegrafProviderName)"

definition providerNameOf :: "endpoint \<Rightarrow> string" where
  "providerNameOf ep = factory_Name (epPluginType ep) @ '': '' @ epName ep"

text \<open>\<^verbatim>\<open>reflect.DeepEqual\<close> on endpoints: tag maps are compared as maps.\<close>

definition same_map :: "strmap \<Rightarrow> strmap \<Rightarrow> bool" where
  "same_map m m' \<longleftrightarrow> length m = length m' \<and> list_all (\<lambda>(k, v). map_of m' k = Some v) m"

fun same_config :: "endpoint_config \<Rightarrow> endpoint_config \<Rightarrow> bool" where
  "same_config (PromEndpoint c) (PromEndpoint c') =
     (c \<lparr> prTransforms := (prTransforms c) \<lparr> Tags := [] \<rparr> \<rparr> = c' \<lparr> prTransforms := (prTransforms c') \<lparr> Tags := [] \<rparr> \<rparr> \<and>
      same_map (Tags (prTransforms c)) (Tags (prTransforms c')))"
| "same_config (TelegrafEndpoint c) (TelegrafEndpoint c') =
     (c \<lparr> tgTransforms := (tgTransforms c) \<lparr> Tags := [] \<rparr> \<rparr> = c' \<lparr> tgTransforms := (tgTransforms c') \<lparr> Tags := [] \<rparr> \<rparr> \<and>
      same_map (Tags (tgTransforms c)) (Tags (tgTransforms c')))"
| "same_config _ _ = False"

definition same_endpoint :: "endpoint \<Rightarrow> endpoint \<Rightarrow> bool" where
  "same_endpoint e e' = (epName e = epName e' \<and> epPluginType e = epPluginType e' \<and> same_config (epConfig e) (epConfig e'))"

text \<open>What the handler and the discoverer need of an endpoint.\<close>

record ('e, 's) endpoint_ops =
  opBuild :: "'e \<Rightarrow> 's provider go_result"
  opName :: "'e \<Rightarrow> string"
  opType :: "'e \<Rightarrow> string"
  opSame :: "'e \<Rightarrow> 'e \<Rightarrow> bool"

definition discovery_ops :: "('u, 'c) provider_env \<Rightarrow> (endpoint, ('u, 'c) discovered) endpoint_ops" where
  "discovery_ops pe = \<lparr> opBuild = factory_Build pe, opName = providerNameOf, opType = epPluginType, opSame = same_endpoint \<rparr>"

record 's endpoint_registry =
  erManager :: "'s source_manager"
  erCounts :: "(string, int) gomap"

definition addCount :: "int \<Rightarrow> string \<Rightarrow> 's endpoint_registry \<Rightarrow> 's endpoint_registry" where
  "addCount d t r = r \<lparr> erCounts := gput t ((case map_of (erCounts r) t of None \<Rightarrow> 0 | Some n \<Rightarrow> n) + d) (erCounts r) \<rparr>"

definition handler_Add :: "('e, 's) endpoint_ops \<Rightarrow> ('s provider \<Rightarrow> 's list) \<Rightarrow> time \<Rightarrow> 'e \<Rightarrow> 's endpoint_registry \<Rightarrow> 's endpoint_registry" where
  "handler_Add ops gs now ep r =
     (if opType ops ep = ''prometheus'' \<or> opType ops ep = ''telegraf'' then
        (case opBuild ops ep of
           Inl err \<Rightarrow> r
         | Inr provider \<Rightarrow> addCount 1 (opType ops ep) (r \<lparr> erManager := AddProvider gs now provider (erManager r) \<rparr>))
      else r)"

definition handler_Delete :: "('e, 's) endpoint_ops \<Rightarrow> ('s provider \<Rightarrow> 's list) \<Rightarrow> 'e \<Rightarrow> 's endpoint_registry \<Rightarrow> 's endpoint_registry" where
  "handler_Delete ops gs ep r =
     (if opType ops ep = ''prometheus'' \<or> opType ops ep = ''telegraf'' then
        addCount (- 1) (opType ops ep) (r \<lparr> erManager := DeleteProvider gs (opName ops ep) (erManager r) \<rparr>)
      else r)"

section \<open>The discoverer\<close>

record ('e, 's) discoverer =
  dsEndpoints :: "(string, 'e list) gomap"
  dsRegistry :: "'s endpoint_registry"

definition endpointsOf :: "('e, 's) discoverer \<Rightarrow> string \<Rightarrow> 'e list" where
  "endpointsOf d name = (case map_of (dsEndpoints d) name of None \<Rightarrow> [] | Some eps \<Rightarrow> eps)"

text \<open>The body of \<^verbatim>\<open>internalDiscover\<close> for a resource name and the endpoints it has now.\<close>

definition replaceEndpoints :: "('e, 's) endpoint_ops \<Rightarrow> ('s provider \<Rightarrow> 's list) \<Rightarrow> time \<Rightarrow> string \<Rightarrow> 'e list \<Rightarrow>
    ('e, 's) discoverer \<Rightarrow> ('e, 's) discoverer" where
  "replaceEndpoints ops gs now resourceName eps d =
     (let oldEps = endpointsOf d resourceName;
          endpoints = gdel resourceName (dsEndpoints d);
          endpoints = (if length eps > 0 then gput resourceName eps endpoints else endpoints);
          d = d \<lparr> dsEndpoints := endpoints \<rparr>
      in if list_all2 (opSame ops) eps oldEps then d
         else d \<lparr> dsRegistry := fold (handler_Add ops gs now) eps (fold (handler_Delete ops gs) oldEps (dsRegistry d)) \<rparr>)"

definition dropEndpoints :: "('e, 's) endpoint_ops \<Rightarrow> ('s provider \<Rightarrow> 's list) \<Rightarrow> string \<Rightarrow> ('e, 's) discoverer \<Rightarrow> ('e, 's) discoverer" where
  "dropEndpoints ops gs resourceName d =
     (let eps = endpointsOf d resourceName in
      d \<lparr> dsEndpoints := gdel resourceName (dsEndpoints d), dsRegistry := fold (handler_Delete ops gs) eps (dsRegistry d) \<rparr>)"

definition appendEndpoint :: "('e, 's) endpoint_ops \<Rightarrow> ('s provider \<Rightarrow> 's list) \<Rightarrow> time \<Rightarrow> string \<Rightarrow> 'e \<Rightarrow>
    ('e, 's) discoverer \<Rightarrow> ('e, 's) discoverer" where
  "appendEndpoint ops gs now name ep d =
     d \<lparr> dsEndpoints := gput name (endpointsOf d name @ [ep]) (dsEndpoints d),
         dsRegistry := handler_Add ops gs now ep (dsRegistry d) \<rparr>"

definition DeleteAll :: "('e, 's) endpoint_ops \<Rightarrow> ('s provider \<Rightarrow> 's list) \<Rightarrow> ('e, 's) discoverer \<Rightarrow> ('e, 's) discoverer" where
  "DeleteAll ops gs d =
     fold (\<lambda>(k, eps) d. d \<lparr> dsEndpoints := gdel k (dsEndpoints d), dsRegistry := fold (handler_Delete ops gs) eps (dsRegistry d) \<rparr>)
       (dsEndpoints d) d"

definition newDiscoverer :: "glob_compiler \<Rightarrow> (string \<Rightarrow> client_config option) \<Rightarrow> string \<Rightarrow> discovery_config \<Rightarrow> 's source_manager \<Rightarrow>
    endpoint_creator \<times> (endpoint, 's) discoverer \<times> nat" where
  "newDiscoverer gc httpYAML nodeName cfg sm =
     (let ec = \<lparr> ecDelegates = makeDelegates gc cfg, ecEncoder = newPrometheusEncoder (AnnotationPrefix cfg), ecHttpYAML = httpYAML,
                 ecNodeName = nodeName, ecDisableAnnotationDiscovery = DisableAnnotationDiscovery cfg,
                 ecAnnotationExcludes = makeAnnotationExclusions gc (AnnotationExcludes cfg) \<rparr>
      in (ec, \<lparr> dsEndpoints = [], dsRegistry = \<lparr> erManager = sm, erCounts = [(''prometheus'', 0), (''telegraf'', 0)] \<rparr> \<rparr>, length (ecDelegates ec)))"

definition internalDiscover :: "endpoint_creator \<Rightarrow> (endpoint, 's) endpoint_ops \<Rightarrow> ('s provider \<Rightarrow> 's list) \<Rightarrow> time \<Rightarrow> resource \<Rightarrow>
    (endpoint, 's) discoverer \<Rightarrow> (endpoint, 's) discoverer" where
  "internalDiscover ec ops gs now res d =
     replaceEndpoints ops gs now (ResourceName (rsKind res) (rsMeta res)) (discoverEndpoints ec res) d"

definition internalDelete :: "(endpoint, 's) endpoint_ops \<Rightarrow> ('s provider \<Rightarrow> 's list) \<Rightarrow> resource \<Rightarrow>
    (endpoint, 's) discoverer \<Rightarrow> (endpoint, 's) discoverer" where
  "internalDelete ops gs res d = dropEndpoints ops gs (ResourceName (rsKind res) (rsMeta res)) d"

text \<open>\<^verbatim>\<open>dequeue\<close> by the status of a resource, which \<^verbatim>\<open>Delete\<close> sets.\<close>

definition dequeue :: "endpoint_creator \<Rightarrow> (endpoint, 's) endpoint_ops \<Rightarrow> ('s provider \<Rightarrow> 's list) \<Rightarrow> time \<Rightarrow> resource \<Rightarrow>
    (endpoint, 's) discoverer \<Rightarrow> (endpoint, 's) discoverer" where
  "dequeue ec ops gs now res d =
     (if rsStatus res = ''delete'' then internalDelete ops gs res d else internalDiscover ec ops gs now res d)"

definition Discover :: "resource \<Rightarrow> resource list \<Rightarrow> resource list" where
  "Discover res queue = queue @ [res]"

definition Delete :: "resource \<Rightarrow> resource list \<Rightarrow> resource list" where
  "Delete res queue = queue @ [res \<lparr> rsStatus := ''delete'' \<rparr>]"

text \<open>\<open>parseIP\<close> gives the printed form of an address.\<close>

definition nodeResource :: "string \<Rightarrow> string \<Rightarrow> resource" where
  "nodeResource nodeName ip =
     \<lparr> rsKind = ResourceType_String NodeType, rsIP = ip,
       rsMeta = \<lparr> mtName = nodeName, mtNamespace = [], mtUID = [], mtLabels = [], mtAnnotations = [] \<rparr>, rsStatus = [], rsContainers = [] \<rparr>"

definition discoverNodeEndpoint :: "endpoint_creator \<Rightarrow> (endpoint, 's) endpoint_ops \<Rightarrow> ('s provider \<Rightarrow> 's list) \<Rightarrow> time \<Rightarrow>
    (string \<Rightarrow> string option) \<Rightarrow> env \<Rightarrow> node list go_result \<Rightarrow> plugin_config \<Rightarrow> (endpoint, 's) discoverer \<Rightarrow>
    go_error option \<times> (endpoint, 's) discoverer" where
  "discoverNodeEndpoint ec ops gs now parseIP e nodes plugin d =
     (case nodes of
        Inl err \<Rightarrow> (Some (Errorf ''error listing nodes''), d)
      | Inr ns \<Rightarrow>
          if length ns \<noteq> 1 then (Some (Errorf (''invalid number of nodes found: '' @ show_nat (length ns))), d)
          else (case GetNodeHostnameAndIP parseIP (ns ! 0) of
                  Inl err \<Rightarrow> (Some (Errorf ''error getting node IP''), d)
                | Inr (_, ip) \<Rightarrow>
                    (let res = nodeResource (GetNodeName e) ip in
                     case makeEndpoint ec res plugin of
                       Some ep \<Rightarrow> (None, appendEndpoint ops gs now (ResourceName (rsKind res) (rsMeta res)) ep d)
                     | None \<Rightarrow> (None, d))))"

definition discoverNodeEndpoints :: "endpoint_creator \<Rightarrow> (endpoint, 's) endpoint_ops \<Rightarrow> ('s provider \<Rightarrow> 's list) \<Rightarrow> time \<Rightarrow>
    (string \<Rightarrow> string option) \<Rightarrow> env \<Rightarrow> node list go_result \<Rightarrow> plugin_config list \<Rightarrow> (endpoint, 's) discoverer \<Rightarrow> (endpoint, 's) discoverer" where
  "discoverNodeEndpoints ec ops gs now parseIP e nodes plugins d =
     fold (\<lambda>plugin d. if ResourceType (plSelectors plugin) = ResourceType_String NodeType
                      then snd (discoverNodeEndpoint ec ops gs now parseIP e nodes plugin d) else d) plugins d"

section \<open>The handlers of pods and services\<close>

definition podResource :: "pod \<Rightarrow> resource" where
  "podResource p = \<lparr> rsKind = ResourceType_String PodType, rsIP = podIP p, rsMeta = podMeta p, rsStatus = [], rsContainers = podContainers p \<rparr>"

definition podReady :: "pod \<Rightarrow> bool" where
  "podReady p = (if podPhase p \<noteq> ''Running'' then False else if podIP p = [] \<or> podIP p = ''None'' then False else True)"

definition podUpdated :: "pod \<Rightarrow> resource list \<Rightarrow> resource list" where
  "podUpdated p queue = (if podReady p then Discover (podResource p) queue else queue)"

definition updatePodIfValid :: "pod option \<Rightarrow> resource list \<Rightarrow> resource list" where
  "updatePodIfValid obj queue = (case obj of Some p \<Rightarrow> podUpdated p queue | None \<Rightarrow> queue)"

definition deletePodIfValid :: "pod option \<Rightarrow> resource list \<Rightarrow> resource list" where
  "deletePodIfValid obj queue = (case obj of Some p \<Rightarrow> Delete (podResource p) queue | None \<Rightarrow> queue)"

record service =
  svcMeta :: object_meta
  ClusterIP :: string

definition serviceResource :: "service \<Rightarrow> resource" where
  "serviceResource s = \<lparr> rsKind = ResourceType_String ServiceType, rsIP = ClusterIP s, rsMeta = svcMeta s, rsStatus = [], rsContainers = [] \<rparr>"

definition hasIP :: "string \<Rightarrow> bool" where
  "hasIP ip = (ip \<noteq> [] \<and> ip \<noteq> ''None'')"

definition updateServiceIfValid :: "service option \<Rightarrow> resource list \<Rightarrow> resource list" where
  "updateServiceIfValid obj queue =
     (case obj of Some s \<Rightarrow> if hasIP (ClusterIP s) then Discover (serviceResource s) queue else queue | None \<Rightarrow> queue)"

text \<open>A deleted service is discovered, not deleted.\<close>

definition deleteServiceIfValid :: "service option \<Rightarrow> resource list \<Rightarrow> resource list" where
  "deleteServiceIfValid obj queue = (case obj of Some s \<Rightarrow> Discover (serviceResource s) queue | None \<Rightarrow> queue)"

section \<open>Endpoints and providers\<close>

definition registered :: "'s source_manager \<Rightarrow> string set" where
  "registered sm = dom (map_of (smProviders sm))"

lemma registered_Add: "registered (AddProvider gs now p sm) = insert (pvName p) (registered sm)"
  by (auto simp: registered_def AddProvider_def Let_def DeleteProvider_providers)

lemma registered_Delete: "registered (DeleteProvider gs n sm) = registered sm - {n}"
  by (auto simp: registered_def DeleteProvider_providers)

text \<open>
  The interface between discovery and the sources: what an endpoint promises so that the providers of
  discovered endpoints can be found again by name. A valid endpoint is of a known type and its
  provider has the name by which it will be deleted; endpoints that count as unchanged have the same
  name and build alike.
\<close>

locale endpoint_iface =
  fixes ops :: "('e, 's) endpoint_ops"
    and valid :: "'e \<Rightarrow> bool"
  assumes build_name: "valid e \<Longrightarrow> opBuild ops e = Inr p \<Longrightarrow> pvName p = opName ops e"
    and typed: "valid e \<Longrightarrow> opType ops e = ''prometheus'' \<or> opType ops e = ''telegraf''"
    and same_name: "opSame ops e e' \<Longrightarrow> opName ops e = opName ops e'"
    and same_build: "opSame ops e e' \<Longrightarrow> (\<exists>p. opBuild ops e = Inr p) \<longleftrightarrow> (\<exists>p. opBuild ops e' = Inr p)"
begin

definition names :: "'e set \<Rightarrow> string set" where
  "names es = opName ops ` es"

definition built :: "'e set \<Rightarrow> string set" where
  "built es = opName ops ` {e \<in> es. \<exists>p. opBuild ops e = Inr p}"

abbreviation regs :: "'s endpoint_registry \<Rightarrow> string set" where
  "regs r \<equiv> registered (erManager r)"

lemma names_built: "built es \<subseteq> names es" "names (A \<union> B) = names A \<union> names B" "built (A \<union> B) = built A \<union> built B"
  by (auto simp: names_def built_def)

lemma manager_addCount [simp]: "erManager (addCount n t r) = erManager r"
  by (simp add: addCount_def)

lemma handler_Add_regs: "valid e \<Longrightarrow> regs (handler_Add ops gs now e r) = regs r \<union> built {e}"
  using typed [of e] build_name [of e]
  by (cases "opBuild ops e") (auto simp: handler_Add_def built_def registered_Add)

lemma handler_Delete_regs: "valid e \<Longrightarrow> regs (handler_Delete ops gs e r) = regs r - names {e}"
  using typed [of e] by (auto simp: handler_Delete_def names_def registered_Delete)

lemma fold_Add_regs: "list_all valid es \<Longrightarrow> regs (fold (handler_Add ops gs now) es r) = regs r \<union> built (set es)"
proof (induction es arbitrary: r)
  case (Cons e es)
  have "built (set (e # es)) = built {e} \<union> built (set es)" by (auto simp: built_def)
  with Cons show ?case by (auto simp: handler_Add_regs)
qed (simp add: built_def)

lemma fold_Delete_regs: "list_all valid es \<Longrightarrow> regs (fold (handler_Delete ops gs) es r) = regs r - names (set es)"
proof (induction es arbitrary: r)
  case (Cons e es)
  have "names (set (e # es)) = names {e} \<union> names (set es)" by (auto simp: names_def)
  with Cons show ?case by (auto simp: handler_Delete_regs)
qed (simp add: names_def)

lemma same_names:
  assumes "list_all2 (opSame ops) es es'"
  shows "names (set es) = names (set es')" "built (set es) = built (set es')"
proof -
  have "names (set es) = names (set es') \<and> built (set es) = built (set es')"
    using assms
  proof (induction rule: list_all2_induct)
    case (Cons x xs y ys)
    have "names {x} = names {y}" "built {x} = built {y}"
      using same_name [OF Cons(1)] same_build [OF Cons(1)] by (auto simp: names_def built_def)
    moreover have "set (x # xs) = {x} \<union> set xs" "set (y # ys) = {y} \<union> set ys" by simp_all
    ultimately show ?case using Cons(3) by (simp only: names_built(2,3))
  qed simp
  then show "names (set es) = names (set es')" "built (set es) = built (set es')" by simp_all
qed

text \<open>All endpoints, and those of the other resources.\<close>

definition live :: "('e, 's) discoverer \<Rightarrow> 'e set" where
  "live d = (\<Union>k. set (endpointsOf d k))"

definition others :: "('e, 's) discoverer \<Rightarrow> string \<Rightarrow> 'e set" where
  "others d n = (\<Union>k \<in> - {n}. set (endpointsOf d k))"

lemma live_split: "live d = others d n \<union> set (endpointsOf d n)"
  by (auto simp: live_def others_def)

definition owned :: "(string \<Rightarrow> string) \<Rightarrow> ('e, 's) discoverer \<Rightarrow> bool" where
  "owned owner d \<longleftrightarrow> (\<forall>k. \<forall>e \<in> set (endpointsOf d k). owner (opName ops e) = k)"

definition all_valid :: "('e, 's) discoverer \<Rightarrow> bool" where
  "all_valid d \<longleftrightarrow> (\<forall>e \<in> live d. valid e)"

lemma valid_of: "all_valid d \<Longrightarrow> list_all valid (endpointsOf d k)"
  by (auto simp: all_valid_def list_all_iff live_def)

text \<open>No provider without an endpoint; and, when names tell resources apart, none missing.\<close>

definition no_orphans :: "('e, 's) discoverer \<Rightarrow> bool" where
  "no_orphans d \<longleftrightarrow> all_valid d \<and> regs (dsRegistry d) \<subseteq> names (live d)"

definition exact :: "(string \<Rightarrow> string) \<Rightarrow> ('e, 's) discoverer \<Rightarrow> bool" where
  "exact owner d \<longleftrightarrow> all_valid d \<and> owned owner d \<and> regs (dsRegistry d) = built (live d)"

lemma owned_disjoint:
  assumes "owned owner d"
  shows "names (others d n) \<inter> names (set (endpointsOf d n)) = {}"
proof -
  have "owner x \<noteq> n" if "x \<in> names (others d n)" for x
  proof -
    from that obtain k e where "k \<noteq> n" "e \<in> set (endpointsOf d k)" "x = opName ops e" by (auto simp: names_def others_def)
    with assms show ?thesis by (simp add: owned_def)
  qed
  moreover have "owner x = n" if "x \<in> names (set (endpointsOf d n))" for x
    using that assms by (auto simp: names_def owned_def)
  ultimately show ?thesis by blast
qed

text \<open>The operations, by what becomes of the endpoints of one resource.\<close>

lemma endpointsOf_replace:
  "endpointsOf (replaceEndpoints ops gs now n eps d) k = (if k = n then eps else endpointsOf d k)"
  by (auto simp: replaceEndpoints_def endpointsOf_def Let_def)

lemma endpointsOf_drop: "endpointsOf (dropEndpoints ops gs n d) k = (if k = n then [] else endpointsOf d k)"
  by (auto simp: dropEndpoints_def endpointsOf_def Let_def)

lemma endpointsOf_append: "endpointsOf (appendEndpoint ops gs now n e d) k = (if k = n then endpointsOf d n @ [e] else endpointsOf d k)"
  by (auto simp: appendEndpoint_def endpointsOf_def Let_def)

lemma regs_replace:
  assumes "all_valid d" "list_all valid eps"
  shows "regs (dsRegistry (replaceEndpoints ops gs now n eps d)) =
    (if list_all2 (opSame ops) eps (endpointsOf d n) then regs (dsRegistry d)
     else (regs (dsRegistry d) - names (set (endpointsOf d n))) \<union> built (set eps))"
  using assms by (simp add: replaceEndpoints_def Let_def fold_Add_regs fold_Delete_regs valid_of)

lemma regs_drop: "all_valid d \<Longrightarrow> regs (dsRegistry (dropEndpoints ops gs n d)) = regs (dsRegistry d) - names (set (endpointsOf d n))"
  by (simp add: dropEndpoints_def Let_def fold_Delete_regs valid_of)

lemma regs_append: "valid e \<Longrightarrow> regs (dsRegistry (appendEndpoint ops gs now n e d)) = regs (dsRegistry d) \<union> built {e}"
  by (simp add: appendEndpoint_def handler_Add_regs)

text \<open>A changed entry: \<open>d'\<close> differs from \<open>d\<close> in the endpoints of \<open>n\<close> only.\<close>

lemma live_changed:
  assumes "\<And>k. endpointsOf d' k = (if k = n then eps else endpointsOf d k)"
  shows "live d' = others d n \<union> set eps"
proof -
  have "endpointsOf d' n = eps" "others d' n = others d n" using assms by (simp_all add: others_def)
  with live_split [of d' n] show ?thesis by simp
qed

lemma changed_valid:
  assumes "\<And>k. endpointsOf d' k = (if k = n then eps else endpointsOf d k)" "all_valid d" "list_all valid eps"
  shows "all_valid d'"
  using live_changed [OF assms(1)] live_split [of d n] assms(2,3) by (auto simp: all_valid_def list_all_iff)

lemma changed_owned:
  assumes "\<And>k. endpointsOf d' k = (if k = n then eps else endpointsOf d k)" "owned owner d" "list_all (\<lambda>e. owner (opName ops e) = n) eps"
  shows "owned owner d'"
  using assms by (auto simp: owned_def list_all_iff)

lemma no_orphans_replace:
  assumes "no_orphans d" "list_all valid eps"
  shows "no_orphans (replaceEndpoints ops gs now n eps d)"
proof -
  let ?d = "replaceEndpoints ops gs now n eps d"
  have v: "all_valid d" and r: "regs (dsRegistry d) \<subseteq> names (others d n) \<union> names (set (endpointsOf d n))"
    using assms(1) live_split [of d n] by (simp_all add: no_orphans_def names_built(2))
  have "names (live ?d) = names (others d n) \<union> names (set eps)"
    by (simp add: live_changed [OF endpointsOf_replace] names_built(2))
  moreover have "regs (dsRegistry ?d) \<subseteq> names (others d n) \<union> names (set eps)"
    using r same_names(1) [of eps "endpointsOf d n"] names_built(1) [of "set eps"] unfolding regs_replace [OF v assms(2)] by auto
  ultimately show ?thesis using changed_valid [OF endpointsOf_replace v assms(2)] by (simp add: no_orphans_def)
qed

lemma no_orphans_drop:
  assumes "no_orphans d"
  shows "no_orphans (dropEndpoints ops gs n d)"
proof -
  have v: "all_valid d" and r: "regs (dsRegistry d) \<subseteq> names (others d n) \<union> names (set (endpointsOf d n))"
    using assms live_split [of d n] by (simp_all add: no_orphans_def names_built(2))
  have "names (live (dropEndpoints ops gs n d)) = names (others d n)"
    using live_changed [OF endpointsOf_drop] by simp
  with changed_valid [OF endpointsOf_drop v] r regs_drop [OF v, of gs n] show ?thesis by (auto simp: no_orphans_def)
qed

lemma no_orphans_append:
  assumes "no_orphans d" "valid e"
  shows "no_orphans (appendEndpoint ops gs now n e d)"
proof -
  let ?d = "appendEndpoint ops gs now n e d"
  have v: "all_valid d" and r: "regs (dsRegistry d) \<subseteq> names (live d)" using assms(1) by (simp_all add: no_orphans_def)
  have "live ?d = live d \<union> {e}" using live_changed [OF endpointsOf_append] live_split [of d n] by auto
  moreover have "all_valid ?d" using v assms(2) calculation by (simp add: all_valid_def)
  moreover have "regs (dsRegistry ?d) \<subseteq> names (live d \<union> {e})"
    using r names_built(1) [of "{e}"] unfolding regs_append [OF assms(2)] names_built(2) by blast
  ultimately show ?thesis by (simp add: no_orphans_def)
qed

lemma exact_replace:
  assumes "exact owner d" "list_all valid eps" "list_all (\<lambda>e. owner (opName ops e) = n) eps"
  shows "exact owner (replaceEndpoints ops gs now n eps d)"
proof -
  let ?d = "replaceEndpoints ops gs now n eps d" and ?old = "set (endpointsOf d n)"
  have v: "all_valid d" and o: "owned owner d" and r: "regs (dsRegistry d) = built (others d n) \<union> built ?old"
    using assms(1) live_split [of d n] by (simp_all add: exact_def names_built(3))
  have "built (others d n) \<inter> names ?old = {}" using owned_disjoint [OF o, of n] names_built(1) [of "others d n"] by blast
  then have "regs (dsRegistry ?d) = built (others d n) \<union> built (set eps)"
    using r same_names(2) [of eps "endpointsOf d n"] names_built(1) [of ?old] unfolding regs_replace [OF v assms(2)] by auto
  then have "regs (dsRegistry ?d) = built (live ?d)" by (simp add: live_changed [OF endpointsOf_replace] names_built(3))
  with changed_valid [OF endpointsOf_replace v assms(2)] changed_owned [OF endpointsOf_replace o assms(3)]
  show ?thesis by (simp add: exact_def)
qed

lemma exact_drop:
  assumes "exact owner d"
  shows "exact owner (dropEndpoints ops gs n d)"
proof -
  let ?d = "dropEndpoints ops gs n d" and ?old = "set (endpointsOf d n)"
  have v: "all_valid d" and o: "owned owner d" and r: "regs (dsRegistry d) = built (others d n) \<union> built ?old"
    using assms(1) live_split [of d n] by (simp_all add: exact_def names_built(3))
  have "built (others d n) \<inter> names ?old = {}" using owned_disjoint [OF o, of n] names_built(1) [of "others d n"] by blast
  then have "regs (dsRegistry ?d) = built (live ?d)"
    using r names_built(1) [of ?old] live_changed [OF endpointsOf_drop] unfolding regs_drop [OF v] by auto
  with changed_valid [OF endpointsOf_drop v] changed_owned [OF endpointsOf_drop o] show ?thesis by (simp add: exact_def)
qed

lemma exact_append:
  assumes "exact owner d" "valid e" "owner (opName ops e) = n"
  shows "exact owner (appendEndpoint ops gs now n e d)"
proof -
  let ?d = "appendEndpoint ops gs now n e d"
  have v: "all_valid d" and o: "owned owner d" and r: "regs (dsRegistry d) = built (live d)" using assms(1) by (simp_all add: exact_def)
  have "live ?d = live d \<union> {e}" using live_changed [OF endpointsOf_append] live_split [of d n] by auto
  moreover have "all_valid ?d" using v assms(2) calculation by (simp add: all_valid_def)
  moreover have "owned owner ?d" using o assms(3) by (auto simp: owned_def endpointsOf_append)
  ultimately show ?thesis using r names_built(3) [of "live d" "{e}"] unfolding exact_def regs_append [OF assms(2)] by simp
qed

lemma dropEndpoints_others: "k \<noteq> n \<Longrightarrow> map_of (dsEndpoints (dropEndpoints ops gs n d)) k = map_of (dsEndpoints d) k"
  by (simp add: dropEndpoints_def Let_def)

lemma fold_drop:
  assumes "distinct (map fst xs)" "\<And>k eps. (k, eps) \<in> set xs \<Longrightarrow> map_of (dsEndpoints d) k = Some eps"
  shows "fold (\<lambda>(k, eps) d. d \<lparr> dsEndpoints := gdel k (dsEndpoints d), dsRegistry := fold (handler_Delete ops gs) eps (dsRegistry d) \<rparr>) xs d =
    fold (dropEndpoints ops gs) (map fst xs) d"
  using assms
proof (induction xs arbitrary: d)
  case (Cons x xs)
  obtain k eps where x: "x = (k, eps)" by (cases x)
  have "endpointsOf d k = eps" using Cons.prems(2) [of k eps] x by (simp add: endpointsOf_def)
  then have d: "d \<lparr> dsEndpoints := gdel k (dsEndpoints d), dsRegistry := fold (handler_Delete ops gs) eps (dsRegistry d) \<rparr> = dropEndpoints ops gs k d"
    by (simp add: dropEndpoints_def Let_def)
  have "map_of (dsEndpoints (dropEndpoints ops gs k d)) k' = Some eps'" if "(k', eps') \<in> set xs" for k' eps'
  proof -
    have "k' \<noteq> k" using that Cons.prems(1) x by force
    with Cons.prems(2) [of k' eps'] that show ?thesis by (simp add: dropEndpoints_others)
  qed
  with Cons.IH [of "dropEndpoints ops gs k d"] Cons.prems(1) show ?case by (simp add: x d)
qed simp

lemma DeleteAll_drop:
  "wf_map (dsEndpoints d) \<Longrightarrow> DeleteAll ops gs d = fold (dropEndpoints ops gs) (map fst (dsEndpoints d)) d"
  unfolding DeleteAll_def by (rule fold_drop) simp_all

lemma no_orphans_fold_drop: "no_orphans d \<Longrightarrow> no_orphans (fold (dropEndpoints ops gs) ks d)"
  by (induction ks arbitrary: d) (simp_all add: no_orphans_drop)

lemma exact_fold_drop: "exact owner d \<Longrightarrow> exact owner (fold (dropEndpoints ops gs) ks d)"
  by (induction ks arbitrary: d) (simp_all add: exact_drop)

lemma endpointsOf_fold_drop: "endpointsOf (fold (dropEndpoints ops gs) ks d) k = (if k \<in> set ks then [] else endpointsOf d k)"
  by (induction ks arbitrary: d) (simp_all add: endpointsOf_drop)

lemma DeleteAll_nothing_left:
  assumes "no_orphans d" "wf_map (dsEndpoints d)"
  shows "live (DeleteAll ops gs d) = {}" "regs (dsRegistry (DeleteAll ops gs d)) = {}"
proof -
  let ?d = "DeleteAll ops gs d"
  have "endpointsOf ?d k = []" for k
  proof (cases "k \<in> fst ` set (dsEndpoints d)")
    case False
    then have "endpointsOf d k = []" by (simp add: endpointsOf_def map_of_eq_None_iff [THEN iffD2])
    then show ?thesis by (simp add: DeleteAll_drop [OF assms(2)] endpointsOf_fold_drop)
  qed (simp add: DeleteAll_drop [OF assms(2)] endpointsOf_fold_drop)
  then show l: "live ?d = {}" by (simp add: live_def)
  have "no_orphans ?d" using no_orphans_fold_drop [OF assms(1)] by (simp add: DeleteAll_drop [OF assms(2)])
  with l show "regs (dsRegistry ?d) = {}" by (simp add: no_orphans_def names_def)
qed

end

lemma wf_endpoints [simp]:
  "wf_map (dsEndpoints d) \<Longrightarrow> wf_map (dsEndpoints (replaceEndpoints ops gs now n eps d))"
  "wf_map (dsEndpoints d) \<Longrightarrow> wf_map (dsEndpoints (dropEndpoints ops gs n d))"
  "wf_map (dsEndpoints d) \<Longrightarrow> wf_map (dsEndpoints (appendEndpoint ops gs now n e d))"
  by (simp_all add: replaceEndpoints_def dropEndpoints_def appendEndpoint_def Let_def)

lemma wf_fold_drop: "wf_map (dsEndpoints d) \<Longrightarrow> wf_map (dsEndpoints (fold (dropEndpoints ops gs) ks d))"
  by (induction ks arbitrary: d) simp_all

section \<open>The endpoints of this repository\<close>

text \<open>An endpoint whose configuration is of its plugin type and carries its name.\<close>

definition ep_valid :: "endpoint \<Rightarrow> bool" where
  "ep_valid ep \<longleftrightarrow> epName ep \<noteq> [] \<and>
     (case epConfig ep of
        PromEndpoint c \<Rightarrow> epPluginType ep = ''prometheus'' \<and> prName c = epName ep
      | TelegrafEndpoint c \<Rightarrow> epPluginType ep = ''telegraf'' \<and> tgName c = epName ep)"

lemma ResourceName_not_Nil [simp]: "ResourceName kind meta \<noteq> []"
  by (simp add: ResourceName_def)

lemma uniqueName_not_Nil [simp]: "n \<noteq> [] \<Longrightarrow> uniqueName n port path internal \<noteq> []"
  by (simp add: uniqueName_def Let_def)

lemma encodeEndpoint_name:
  assumes "encodeEndpoint y nodeName e ip kind meta rule r = Some (name, cfg)"
  shows "prName cfg = name \<and> name \<noteq> []"
proof -
  have hc: "prName r'' = prName r'" if "encodeHTTPConf y c i sn r' = Some r''" for c i sn r' r''
    using that by (auto simp: encodeHTTPConf_def Let_def split: if_splits option.splits)
  show ?thesis
    using assms unfolding encodeEndpoint_def Let_def
    by (auto simp: encodeBase_def Let_def split: option.splits dest!: hc)
qed

lemma makeEndpoint_valid: "makeEndpoint ec res plugin = Some ep \<Longrightarrow> ep_valid ep"
  unfolding makeEndpoint_def creator_Encode_def ep_valid_def
  by (auto simp: prometheusEncoder_Encode_def telegrafEncoder_Encode_def Let_def zeroTelegrafConfig_def telegrafUniqueName_def ResourceName_def
      split: option.splits if_splits sum.splits dest!: encodeEndpoint_name)

text \<open>
  C28. An endpoint the creator makes has a configuration of the type that the factory of its plugin
  type expects, under the endpoint's own name, so neither the type assertion of a factory nor the
  later deletion by name can miss.
\<close>

theorem makeEndpoint_typed:
  "makeEndpoint ec res plugin = Some ep \<Longrightarrow> ep_valid ep"
  by (rule makeEndpoint_valid)

definition sample_pod_resource :: resource where
  "sample_pod_resource = \<lparr> rsKind = ''pod'', rsIP = ''10.0.0.1'', rsMeta = sample_meta, rsStatus = [], rsContainers = [] \<rparr>"

definition sample_creator :: endpoint_creator where
  "sample_creator = \<lparr> ecDelegates = [(''redis'', \<lparr> dlFilter = \<lparr> rfKind = ''pod'', rfImages = None, rfNamespaces = Some (\<lambda>_. True), rfLabels = None \<rparr>,
       dlPlugin = sample_rule \<lparr> plType := ''telegraf/redis'' \<rparr> \<rparr>)],
     ecEncoder = newPrometheusEncoder [], ecHttpYAML = (\<lambda>_. None), ecNodeName = [], ecDisableAnnotationDiscovery = True, ecAnnotationExcludes = [] \<rparr>"

definition sample_endpoint :: endpoint where
  "sample_endpoint = \<lparr> epName = ''db-pod-redis-0:9121'', epPluginType = ''telegraf'', epConfig = TelegrafEndpoint (zeroTelegrafConfig
     \<lparr> tgDiscovered := ''rule'', Plugins := [''redis''], tgName := ''db-pod-redis-0:9121'', tgCollection := \<lparr> Interval = 90 * Second, Timeout = 0 \<rparr>,
       tgTransforms := zeroTransforms \<lparr> Tags := [(''pod'', ''redis-0''), (''namespace'', ''db'')] \<rparr> \<rparr>) \<rparr>"

lemma sample_endpoint_made: "makeEndpoint sample_creator sample_pod_resource (sample_rule \<lparr> plType := ''telegraf/redis'' \<rparr>) = Some sample_endpoint"
  by code_simp

theorem makeEndpoint_typed_witness: "ep_valid sample_endpoint"
  by (rule makeEndpoint_typed [OF sample_endpoint_made])

lemma factory_Build_name: "ep_valid e \<Longrightarrow> factory_Build pe e = Inr p \<Longrightarrow> pvName p = providerNameOf e"
  by (auto simp: ep_valid_def factory_Build_def providerNameOf_def factory_Name_def prom_factory_Build_def telegraf_factory_Build_def
      NewPrometheusProvider_def NewTelegrafProvider_def Let_def split: endpoint_config.splits sum.splits option.splits prod.splits)

lemma newSources_ok_tags:
  "(\<exists>x. newSources inputs ini gc e ag cfg prefix ps st = Inr x) =
   (\<exists>x. newSources inputs ini gc e ag (cfg \<lparr> tgTransforms := (tgTransforms cfg) \<lparr> Tags := ts \<rparr> \<rparr>) prefix ps st' = Inr x)"
proof (induction ps arbitrary: st st')
  case (Cons p ps)
  obtain a b a' b' where "st = (a, b)" "st' = (a', b')" by (cases st, cases st')
  with Cons show ?case by simp
qed simp

lemma sum_ok: "(\<exists>p. (case x of Inl e \<Rightarrow> Inl e | Inr y \<Rightarrow> Inr (f y)) = Inr p) = (\<exists>y. x = Inr y)"
  by (cases x) simp_all

lemma prom_Build_ok: "(\<exists>p. factory_Build pe e = Inr p) = (ParseRequestURI (promEnv pe) (prURL c) \<noteq> None)" if "epConfig e = PromEndpoint c"
  using that by (auto simp: factory_Build_def prom_factory_Build_def NewPrometheusProvider_def Let_def split: option.splits)

lemma telegraf_Build_ok:
  assumes "epConfig e = TelegrafEndpoint c"
  shows "(\<exists>p. factory_Build pe e = Inr p) = (\<exists>x. newSources (telegrafInputs pe) (telegrafInit pe) (globCompiler (promEnv pe)) (processEnv (promEnv pe)) (agentType pe) c
     (if length (GetStringValue (Prefix (tgTransforms c)) []) > 0 then TrimDots (GetStringValue (Prefix (tgTransforms c)) []) else GetStringValue (Prefix (tgTransforms c)) [])
     (if length (Plugins c) = 0 then hostPlugins else Plugins c) ([], True) = Inr x)"
  using assms by (auto simp: factory_Build_def telegraf_factory_Build_def NewTelegrafProvider_def Let_def split: sum.splits prod.splits)

lemma same_endpoint_build:
  assumes "same_endpoint e e'"
  shows "(\<exists>p. factory_Build pe e = Inr p) = (\<exists>p. factory_Build pe e' = Inr p)"
proof (cases "epConfig e")
  case (PromEndpoint c)
  with assms obtain c' where c': "epConfig e' = PromEndpoint c'" by (cases "epConfig e'") (auto simp: same_endpoint_def)
  with assms PromEndpoint have "prURL (c \<lparr> prTransforms := (prTransforms c) \<lparr> Tags := [] \<rparr> \<rparr>) = prURL (c' \<lparr> prTransforms := (prTransforms c') \<lparr> Tags := [] \<rparr> \<rparr>)"
    by (simp add: same_endpoint_def)
  then have "prURL c = prURL c'" by simp
  with prom_Build_ok [OF PromEndpoint, of pe] prom_Build_ok [OF c', of pe] show ?thesis by simp
next
  case (TelegrafEndpoint c)
  with assms obtain c' where c': "epConfig e' = TelegrafEndpoint c'" by (cases "epConfig e'") (auto simp: same_endpoint_def)
  let ?z = "\<lambda>c. c \<lparr> tgTransforms := (tgTransforms c) \<lparr> Tags := [] \<rparr> \<rparr>"
  have eq: "?z c = ?z c'" using assms TelegrafEndpoint c' by (simp add: same_endpoint_def)
  have "Prefix (tgTransforms (?z c)) = Prefix (tgTransforms (?z c'))" "Plugins (?z c) = Plugins (?z c')" by (simp_all only: eq)
  then have p: "Prefix (tgTransforms c) = Prefix (tgTransforms c')" "Plugins c = Plugins c'" by simp_all
  have "(\<exists>x. newSources i n gc e ag c pre ps st = Inr x) = (\<exists>x. newSources i n gc e ag c' pre ps st = Inr x)" for i n gc e ag pre ps st
    using newSources_ok_tags [of i n gc e ag c pre ps st "[]" st] newSources_ok_tags [of i n gc e ag c' pre ps st "[]" st] eq by simp
  then show ?thesis unfolding telegraf_Build_ok [OF TelegrafEndpoint] telegraf_Build_ok [OF c'] p by blast
qed

interpretation disc: endpoint_iface "discovery_ops pe" ep_valid for pe
proof unfold_locales
  show "pvName p = opName (discovery_ops pe) e" if "ep_valid e" "opBuild (discovery_ops pe) e = Inr p" for e p
    using that factory_Build_name by (simp add: discovery_ops_def)
  show "opType (discovery_ops pe) e = ''prometheus'' \<or> opType (discovery_ops pe) e = ''telegraf''" if "ep_valid e" for e
    using that by (simp add: discovery_ops_def ep_valid_def split: endpoint_config.splits)
  show "opName (discovery_ops pe) e = opName (discovery_ops pe) e'" if "opSame (discovery_ops pe) e e'" for e e'
    using that by (simp add: discovery_ops_def same_endpoint_def providerNameOf_def)
  show "(\<exists>p. opBuild (discovery_ops pe) e = Inr p) = (\<exists>p. opBuild (discovery_ops pe) e' = Inr p)" if "opSame (discovery_ops pe) e e'" for e e'
    using same_endpoint_build that by (simp add: discovery_ops_def)
qed

lemma discovery_opName: "opName (discovery_ops pe) = providerNameOf" "opBuild (discovery_ops pe) = factory_Build pe"
  by (simp_all add: discovery_ops_def)

section \<open>Histories of the discoverer\<close>

text \<open>
  What the discoverer does in a life: resources from the queue, the delayed discovery of node
  endpoints, and the removal of everything when it stops. Each operation runs at a time and with what
  the providers' sources are then.
\<close>

datatype discovery_op = OpResource resource | OpNodes "node list go_result" "plugin_config list" | OpDeleteAll

type_synonym ('u, 'c) discovery_event =
  "(('u, 'c) discovered provider \<Rightarrow> ('u, 'c) discovered list) \<times> time \<times> discovery_op"

fun disc_step :: "endpoint_creator \<Rightarrow> ('u, 'c) provider_env \<Rightarrow> (string \<Rightarrow> string option) \<Rightarrow> (endpoint, ('u, 'c) discovered) discoverer \<Rightarrow>
    ('u, 'c) discovery_event \<Rightarrow> (endpoint, ('u, 'c) discovered) discoverer" where
  "disc_step ec pe parseIP d (gs, now, OpResource res) = dequeue ec (discovery_ops pe) gs now res d"
| "disc_step ec pe parseIP d (gs, now, OpNodes nodes plugins) =
     discoverNodeEndpoints ec (discovery_ops pe) gs now parseIP (processEnv (promEnv pe)) nodes plugins d"
| "disc_step ec pe parseIP d (gs, now, OpDeleteAll) = DeleteAll (discovery_ops pe) gs d"

definition emptyDiscoverer :: "(endpoint, 's) discoverer" where
  "emptyDiscoverer = \<lparr> dsEndpoints = [], dsRegistry = \<lparr> erManager = Manager, erCounts = [(''prometheus'', 0), (''telegraf'', 0)] \<rparr> \<rparr>"

lemma newDiscoverer_empty: "fst (snd (newDiscoverer gc y n cfg Manager)) = emptyDiscoverer"
  by (simp add: newDiscoverer_def emptyDiscoverer_def Let_def)

lemma discoverEndpointsWithRules_eq:
  "discoverEndpointsWithRules e res =
     concat (map (\<lambda>(_, d). if rf_matches (dlFilter d) res then (case makeEndpoint e res (dlPlugin d) of Some ep \<Rightarrow> [ep] | None \<Rightarrow> []) else []) (ecDelegates e))"
proof -
  have "fold (\<lambda>(_, d) eps. if rf_matches (dlFilter d) res then (case makeEndpoint e res (dlPlugin d) of Some ep \<Rightarrow> eps @ [ep] | None \<Rightarrow> eps) else eps) ds acc =
      acc @ concat (map (\<lambda>(_, d). if rf_matches (dlFilter d) res then (case makeEndpoint e res (dlPlugin d) of Some ep \<Rightarrow> [ep] | None \<Rightarrow> []) else []) ds)" for ds :: "(string, delegate) gomap" and acc
    by (induction ds arbitrary: acc) (auto split: option.splits)
  then show ?thesis by (simp add: discoverEndpointsWithRules_def)
qed

lemma discoverEndpoints_made:
  "ep \<in> set (discoverEndpoints e res) \<Longrightarrow> \<exists>plugin. makeEndpoint e res plugin = Some ep"
proof -
  assume ep: "ep \<in> set (discoverEndpoints e res)"
  then consider "ep \<in> set (discoverEndpointsWithRules e res)" | "ep \<in> set (discoverEndpointsWithAnnotations e res)"
    by (auto simp: discoverEndpoints_def Let_def split: if_splits)
  then show ?thesis
  proof cases
    case 1
    let ?f = "\<lambda>d. if rf_matches (dlFilter d) res then (case makeEndpoint e res (dlPlugin d) of Some ep \<Rightarrow> [ep] | None \<Rightarrow> []) else []"
    from 1 have "\<exists>x \<in> set (ecDelegates e). ep \<in> set (?f (snd x))"
      unfolding discoverEndpointsWithRules_eq set_concat set_map case_prod_unfold by blast
    then obtain x :: "string \<times> delegate" where x: "ep \<in> set (?f (snd x))" by blast
    define d where "d = snd x"
    from x show ?thesis unfolding d_def [symmetric] by (cases "rf_matches (dlFilter d) res"; cases "makeEndpoint e res (dlPlugin d)") auto
  next
    case 2
    then show ?thesis
      by (cases "list_ex (\<lambda>exclude. rf_matches exclude res) (ecAnnotationExcludes e)"; cases "makeEndpoint e res annotationPlugin")
        (auto simp: discoverEndpointsWithAnnotations_def)
  qed
qed

lemma discoverEndpoints_valid: "list_all ep_valid (discoverEndpoints e res)"
  unfolding list_all_iff by (blast dest: discoverEndpoints_made intro: makeEndpoint_valid)

lemma discoverNodeEndpoint_cases:
  "snd (discoverNodeEndpoint ec ops gs now parseIP e nodes plugin d) = d \<or>
   (\<exists>ip ep. makeEndpoint ec (nodeResource (GetNodeName e) ip) plugin = Some ep \<and>
      snd (discoverNodeEndpoint ec ops gs now parseIP e nodes plugin d) =
        appendEndpoint ops gs now (ResourceName (ResourceType_String NodeType) (rsMeta (nodeResource (GetNodeName e) ip))) ep d)"
  by (auto simp: discoverNodeEndpoint_def Let_def nodeResource_def split: sum.splits option.splits)

lemma disc_step_no_orphans:
  assumes "disc.no_orphans pe d \<and> wf_map (dsEndpoints d)"
  shows "disc.no_orphans pe (disc_step ec pe parseIP d ev) \<and> wf_map (dsEndpoints (disc_step ec pe parseIP d ev))"
proof -
  obtain gs now op where ev: "ev = (gs, now, op)" by (cases ev)
  show ?thesis
  proof (cases op)
    case (OpResource res)
    with assms ev show ?thesis
      by (simp add: dequeue_def internalDelete_def internalDiscover_def disc.no_orphans_drop disc.no_orphans_replace discoverEndpoints_valid)
  next
    case (OpNodes nodes plugins)
    have "disc.no_orphans pe (discoverNodeEndpoints ec (discovery_ops pe) gs now parseIP e nodes plugins d) \<and>
        wf_map (dsEndpoints (discoverNodeEndpoints ec (discovery_ops pe) gs now parseIP e nodes plugins d))" for e
      unfolding discoverNodeEndpoints_def
    proof (rule fold_invariant [where Q = "\<lambda>_. True" and P = "\<lambda>d. disc.no_orphans pe d \<and> wf_map (dsEndpoints d)"], goal_cases)
      case (3 plugin d)
      then show ?case
        using discoverNodeEndpoint_cases [of ec "discovery_ops pe" gs now parseIP e nodes plugin d]
        by (auto simp: disc.no_orphans_append makeEndpoint_valid)
    qed (use assms in simp_all)
    with ev OpNodes show ?thesis by simp
  next
    case OpDeleteAll
    with assms ev show ?thesis by (simp add: disc.DeleteAll_drop disc.no_orphans_fold_drop wf_fold_drop)
  qed
qed

interpretation dm: det_machine emptyDiscoverer "disc_step ec pe parseIP" "\<lambda>d. disc.no_orphans pe d \<and> wf_map (dsEndpoints d)" for ec pe parseIP
proof unfold_locales
  show "disc.no_orphans pe emptyDiscoverer \<and> wf_map (dsEndpoints emptyDiscoverer)"
    by (simp add: disc.no_orphans_def disc.all_valid_def disc.live_def emptyDiscoverer_def endpointsOf_def registered_def Manager_def)
qed (rule disc_step_no_orphans)


text \<open>
  After a history that ends in \<^verbatim>\<open>DeleteAll\<close> (the manager stops or reloads) no discovered provider is
  registered.
\<close>

theorem DeleteAll_leaves_nothing:
  "smProviders (erManager (dsRegistry (DeleteAll (discovery_ops pe) gs (foldl (disc_step ec pe parseIP) emptyDiscoverer history)))) = []"
proof -
  have "disc.no_orphans pe (foldl (disc_step ec pe parseIP) emptyDiscoverer history) \<and> wf_map (dsEndpoints (foldl (disc_step ec pe parseIP) emptyDiscoverer history))"
    using dm.exec_invar [of pe ec parseIP history] by (simp add: dm.exec_def)
  from disc.DeleteAll_nothing_left(2) [of pe _ gs, OF conjunct1 [OF this] conjunct2 [OF this]] show ?thesis
    by (simp add: registered_def map_of_eq_empty_iff)
qed

text \<open>The resource names and node endpoints a history speaks about, with an owner for each provider name.\<close>

definition owns_history :: "(string \<Rightarrow> string) \<Rightarrow> endpoint_creator \<Rightarrow> ('u, 'c) provider_env \<Rightarrow> ('u, 'c) discovery_event list \<Rightarrow> bool" where
  "owns_history owner ec pe history \<longleftrightarrow>
     (\<forall>(gs, now, op) \<in> set history.
        (case op of
           OpResource res \<Rightarrow> list_all (\<lambda>e. owner (providerNameOf e) = ResourceName (rsKind res) (rsMeta res)) (discoverEndpoints ec res)
         | OpNodes ns ps \<Rightarrow>
             (\<forall>plugin \<in> set ps. \<forall>ip e. makeEndpoint ec (nodeResource (GetNodeName (processEnv (promEnv pe))) ip) plugin = Some e \<longrightarrow>
                owner (providerNameOf e) = ResourceName (ResourceType_String NodeType) (rsMeta (nodeResource (GetNodeName (processEnv (promEnv pe))) ip)))
         | OpDeleteAll \<Rightarrow> True))"

lemma disc_step_exact:
  assumes "disc.exact pe owner d \<and> wf_map (dsEndpoints d)" "owns_history owner ec pe [ev]"
  shows "disc.exact pe owner (disc_step ec pe parseIP d ev) \<and> wf_map (dsEndpoints (disc_step ec pe parseIP d ev))"
proof -
  obtain gs now op where ev: "ev = (gs, now, op)" by (cases ev)
  show ?thesis
  proof (cases op)
    case (OpResource res)
    with assms ev show ?thesis
      by (simp add: dequeue_def internalDelete_def internalDiscover_def disc.exact_drop disc.exact_replace discoverEndpoints_valid
          owns_history_def discovery_opName)
  next
    case (OpNodes nodes plugins)
    let ?e = "processEnv (promEnv pe)"
    have own: "owner (providerNameOf ep) = ResourceName (ResourceType_String NodeType) (rsMeta (nodeResource (GetNodeName ?e) ip))"
      if "plugin \<in> set plugins" "makeEndpoint ec (nodeResource (GetNodeName ?e) ip) plugin = Some ep" for plugin ip ep
      using assms(2) that by (auto simp: owns_history_def ev OpNodes)
    have "disc.exact pe owner (discoverNodeEndpoints ec (discovery_ops pe) gs now parseIP ?e nodes plugins d) \<and>
        wf_map (dsEndpoints (discoverNodeEndpoints ec (discovery_ops pe) gs now parseIP ?e nodes plugins d))"
      unfolding discoverNodeEndpoints_def
    proof (rule fold_invariant [where Q = "\<lambda>p. p \<in> set plugins" and P = "\<lambda>d. disc.exact pe owner d \<and> wf_map (dsEndpoints d)"], goal_cases)
      case (3 plugin d)
      then show ?case
        using discoverNodeEndpoint_cases [of ec "discovery_ops pe" gs now parseIP ?e nodes plugin d] own [of plugin]
        by (auto simp: disc.exact_append makeEndpoint_valid discovery_opName)
    qed (use assms(1) in simp_all)
    with ev OpNodes show ?thesis by simp
  next
    case OpDeleteAll
    with assms(1) ev show ?thesis by (simp add: disc.DeleteAll_drop disc.exact_fold_drop wf_fold_drop)
  qed
qed

lemma disc_exact:
  "owns_history owner ec pe history \<Longrightarrow>
     disc.exact pe owner (foldl (disc_step ec pe parseIP) emptyDiscoverer history) \<and>
     wf_map (dsEndpoints (foldl (disc_step ec pe parseIP) emptyDiscoverer history))"
proof (induction history rule: rev_induct)
  case Nil
  show ?case
    by (simp add: disc.exact_def disc.all_valid_def disc.owned_def disc.live_def disc.built_def emptyDiscoverer_def endpointsOf_def registered_def Manager_def)
next
  case (snoc ev history)
  then have "owns_history owner ec pe history" "owns_history owner ec pe [ev]" by (simp_all add: owns_history_def)
  with snoc(1) disc_step_exact show ?case by simp
qed


definition sample_env :: "(unit, unit) provider_env" where
  "sample_env = \<lparr> promEnv = \<lparr> ParseRequestURI = (\<lambda>_. None), URL_Host = (\<lambda>_. []), URL_SetHost = (\<lambda>_ u. u), URL_String = (\<lambda>_. []),
       NewClient = (\<lambda>_. Inr ()), EncodeKey = (\<lambda>n _. n), globCompiler = (\<lambda>_. None), processEnv = [] \<rparr>,
     telegrafInputs = (\<lambda>n. n = ''redis''), telegrafInit = (\<lambda>_ _. None), agentType = AllAgentType \<rparr>"

definition sample_history :: "(unit, unit) discovery_event list" where
  "sample_history = [(\<lambda>_. [], 0, OpResource sample_pod_resource)]"

lemma sample_discovered: "discoverEndpoints sample_creator sample_pod_resource = [sample_endpoint]"
proof -
  have "rf_matches (dlFilter (snd (hd (ecDelegates sample_creator)))) sample_pod_resource"
    by (simp add: sample_creator_def rf_matches_def sample_pod_resource_def)
  then have "discoverEndpointsWithRules sample_creator sample_pod_resource = [sample_endpoint]"
    using sample_endpoint_made by (simp add: discoverEndpointsWithRules_def sample_creator_def)
  then show ?thesis by (simp add: discoverEndpoints_def)
qed

lemma sample_builds: "\<exists>p. factory_Build sample_env sample_endpoint = Inr p"
  by (simp add: factory_Build_def sample_endpoint_def telegraf_factory_Build_def NewTelegrafProvider_def sample_env_def zeroTelegrafConfig_def
      ScrapeAnyNodes_def TrimBlanks_def Let_def)


text \<open>A service that is deleted keeps its endpoints as long as it still matches.\<close>

lemma deleteService_rediscovers:
  "deleteServiceIfValid (Some s) queue = queue @ [serviceResource s]" "rsStatus (serviceResource s) \<noteq> ''delete''"
  by (simp_all add: deleteServiceIfValid_def Discover_def serviceResource_def)

end
