(* ===== verification/Runtime_Config.thy ===== *)
theory Runtime_Config
  imports Discovery
begin

text \<open>
  Discovery rules that are read at run time (\<^verbatim>\<open>plugins/discovery/config.go\<close>): config maps and secrets with
  the discovery annotation, their combination with the wired configuration, the periodic comparison
  (\<^verbatim>\<open>NotifyOfChanges\<close> in \<^verbatim>\<open>manager.go\<close>, \<^verbatim>\<open>Retry\<close> in \<^verbatim>\<open>internal/util/wait.go\<close>), and the access checker that
  guards the listing of secrets (\<^verbatim>\<open>auth_checker.go\<close>).

  The combination appends to the slice of the wired configuration. Whether two combined
  configurations share their array depends on the capacity of that slice, so it is modelled twice:
  with lists, and with slices over a store of arrays.
\<close>

section \<open>The config handler\<close>

abbreviation discoveryAnnotation :: string where
  "discoveryAnnotation \<equiv> ''wavefront.com/discovery-config''"

record config_handler =
  wiredCfg :: discovery_config
  runtimeCfgs :: "(string, plugin_config list) gomap"

record config_resource =
  crMeta :: object_meta
  crData :: strmap

definition annotated :: "strmap \<Rightarrow> bool" where
  "annotated annotations = (case map_of annotations discoveryAnnotation of Some val \<Rightarrow> val = ''true'' | None \<Rightarrow> False)"

text \<open>\<open>fromYAML\<close> gives the plugin rules of a document. The rules read before an error are returned with it.\<close>

fun loadFrom :: "(string \<Rightarrow> plugin_config list go_result) \<Rightarrow> strmap \<Rightarrow> plugin_config list \<Rightarrow> plugin_config list \<times> go_error option" where
  "loadFrom fromYAML [] cfg = (cfg, None)"
| "loadFrom fromYAML ((_, config) # data) cfg =
     (case fromYAML config of Inl err \<Rightarrow> (cfg, Some err) | Inr loaded \<Rightarrow> loadFrom fromYAML data (cfg @ loaded))"

definition loadConfig :: "(string \<Rightarrow> plugin_config list go_result) \<Rightarrow> strmap \<Rightarrow> plugin_config list \<times> go_error option" where
  "loadConfig fromYAML data = loadFrom fromYAML data []"

definition ch_deleted :: "string \<Rightarrow> config_handler \<Rightarrow> config_handler" where
  "ch_deleted name h = (if map_of (runtimeCfgs h) name \<noteq> None then h \<lparr> runtimeCfgs := gdel name (runtimeCfgs h) \<rparr> else h)"

definition ch_updated :: "(string \<Rightarrow> plugin_config list go_result) \<Rightarrow> config_resource \<Rightarrow> config_handler \<Rightarrow> config_handler" where
  "ch_updated fromYAML r h =
     (if \<not> annotated (mtAnnotations (crMeta r)) then ch_deleted (mtName (crMeta r)) h
      else (case loadConfig fromYAML (crData r) of
              (_, Some err) \<Rightarrow> h
            | (loaded, None) \<Rightarrow> h \<lparr> runtimeCfgs := gput (mtName (crMeta r)) loaded (runtimeCfgs h) \<rparr>))"

text \<open>The informers hand over objects of any type; only a config map or a secret is looked at.\<close>

definition updateConfigMapIfValid :: "(string \<Rightarrow> plugin_config list go_result) \<Rightarrow> config_resource option \<Rightarrow> config_handler \<Rightarrow> config_handler" where
  "updateConfigMapIfValid fromYAML obj h = (case obj of None \<Rightarrow> h | Some r \<Rightarrow> ch_updated fromYAML r h)"

definition deleteConfigMapIfValid :: "config_resource option \<Rightarrow> config_handler \<Rightarrow> config_handler" where
  "deleteConfigMapIfValid obj h = (case obj of None \<Rightarrow> h | Some r \<Rightarrow> ch_deleted (mtName (crMeta r)) h)"

text \<open>\<^verbatim>\<open>combine\<close>; fields that are not copied have their zero value.\<close>

definition runtimeRules :: "(string, plugin_config list) gomap \<Rightarrow> plugin_config list" where
  "runtimeRules cfgs = concat (map (\<lambda>k. (case map_of cfgs k of None \<Rightarrow> [] | Some c \<Rightarrow> c)) (sort (map fst cfgs)))"

definition combine :: "discovery_config \<Rightarrow> (string, plugin_config list) gomap \<Rightarrow> plugin_config list option \<Rightarrow> discovery_config" where
  "combine wired cfgs internal =
     \<lparr> DiscoveryInterval = DiscoveryInterval wired, AnnotationPrefix = AnnotationPrefix wired,
       AnnotationExcludes = AnnotationExcludes wired, EnableRuntimePlugins = False,
       DisableAnnotationDiscovery = DisableAnnotationDiscovery wired,
       PluginConfigs = PluginConfigs wired @ runtimeRules cfgs @ (case internal of None \<Rightarrow> [] | Some ps \<Rightarrow> ps),
       PromConfigs = [] \<rparr>"

definition ch_Config :: "plugin_config list option \<Rightarrow> config_handler \<Rightarrow> discovery_config" where
  "ch_Config internal h = combine (wiredCfg h) (runtimeCfgs h) internal"

section \<open>Slices\<close>

text \<open>
  A slice refers to an array of the store and has a length; the length of the array is its capacity.
  \<open>spare\<close> is the extra room that \<^verbatim>\<open>append\<close> gives to the array it allocates.
\<close>

record go_slice =
  slArray :: nat
  slLen :: nat

type_synonym 'a store = "'a list list"

definition sliceElems :: "'a store \<Rightarrow> go_slice \<Rightarrow> 'a list" where
  "sliceElems h s = take (slLen s) (h ! slArray s)"

definition wf_slice :: "'a store \<Rightarrow> go_slice \<Rightarrow> bool" where
  "wf_slice h s \<longleftrightarrow> slArray s < length h \<and> slLen s \<le> length (h ! slArray s)"

definition overwrite :: "nat \<Rightarrow> 'a list \<Rightarrow> 'a list \<Rightarrow> 'a list" where
  "overwrite i xs arr = take i arr @ xs @ drop (i + length xs) arr"

definition go_append :: "'a list \<Rightarrow> 'a store \<times> go_slice \<Rightarrow> 'a list \<Rightarrow> 'a store \<times> go_slice" where
  "go_append spare = (\<lambda>(h, s) xs.
     (if slLen s + length xs \<le> length (h ! slArray s)
      then (h [slArray s := overwrite (slLen s) xs (h ! slArray s)], s \<lparr> slLen := slLen s + length xs \<rparr>)
      else (h @ [sliceElems h s @ xs @ spare], \<lparr> slArray = length h, slLen = slLen s + length xs \<rparr>)))"

text \<open>The appends of \<^verbatim>\<open>combine\<close>, from the slice of the wired configuration.\<close>

definition combineSlices :: "plugin_config list \<Rightarrow> go_slice \<Rightarrow> (string, plugin_config list) gomap \<Rightarrow> plugin_config list option \<Rightarrow>
    plugin_config store \<Rightarrow> plugin_config store \<times> go_slice" where
  "combineSlices spare wired cfgs internal h =
     (let hs = fold (\<lambda>k hs. (case map_of cfgs k of None \<Rightarrow> hs | Some c \<Rightarrow> if length c > 0 then go_append spare hs c else hs))
                 (sort (map fst cfgs)) (h, wired)
      in case internal of None \<Rightarrow> hs | Some ps \<Rightarrow> go_append spare hs ps)"

section \<open>Watching for changes\<close>

text \<open>
  \<^verbatim>\<open>Retry\<close> calls its function at every tick until it is stopped; \<^verbatim>\<open>NotifyOfChanges\<close> compares what it gets at
  each tick with what it got first. The ticks before the stop are a list of what \<^verbatim>\<open>get\<close> returns, and the
  result says at which of them the listener is notified.
\<close>

definition NotifyOfChanges :: "('c \<Rightarrow> 'c \<Rightarrow> bool) \<Rightarrow> 'c \<Rightarrow> 'c list \<Rightarrow> bool list" where
  "NotifyOfChanges deepEqual prevVal vals = map (\<lambda>val. \<not> deepEqual val prevVal) vals"

section \<open>The access checker\<close>

record auth_checker =
  hasAccess :: bool
  refreshInterval :: duration
  reportInterval :: duration
  lastChecked :: time
  lastReported :: time

text \<open>\<open>zeroTime\<close> is \<^verbatim>\<open>time.Time{}\<close>.\<close>

definition NewAuthChecker :: "time \<Rightarrow> duration \<Rightarrow> duration \<Rightarrow> auth_checker" where
  "NewAuthChecker zeroTime refresh report =
     \<lparr> hasAccess = False, refreshInterval = refresh, reportInterval = report, lastChecked = zeroTime, lastReported = zeroTime \<rparr>"

definition timeToRefresh :: "time \<Rightarrow> auth_checker \<Rightarrow> bool" where
  "timeToRefresh now c \<longleftrightarrow> Time_Sub now (lastChecked c) > refreshInterval c"

definition reportAccess :: "time \<Rightarrow> time \<Rightarrow> auth_checker \<Rightarrow> bool \<times> auth_checker" where
  "reportAccess zeroTime now c =
     (if hasAccess c then (False, c \<lparr> lastReported := zeroTime \<rparr>)
      else if Time_Sub now (lastReported c) < reportInterval c then (False, c)
      else (True, c \<lparr> lastReported := now \<rparr>))"

definition canListSecretsAPI :: "bool go_result \<Rightarrow> bool" where
  "canListSecretsAPI review = (case review of Inl _ \<Rightarrow> False | Inr allowed \<Rightarrow> allowed)"

definition refreshAccess :: "time \<Rightarrow> time \<Rightarrow> bool go_result \<Rightarrow> auth_checker \<Rightarrow> bool \<times> auth_checker" where
  "refreshAccess zeroTime now review c =
     (if \<not> timeToRefresh now c then (False, c)
      else reportAccess zeroTime now (c \<lparr> lastChecked := now, hasAccess := canListSecretsAPI review \<rparr>))"

text \<open>The answer, whether the lack of access was logged, and the checker afterwards.\<close>

definition CanListSecrets :: "time \<Rightarrow> time \<Rightarrow> bool go_result \<Rightarrow> auth_checker \<Rightarrow> bool \<times> bool \<times> auth_checker" where
  "CanListSecrets zeroTime now review c =
     (let (logged, c) = refreshAccess zeroTime now review c in (hasAccess c, logged, c))"

section \<open>The combined configuration\<close>

lemma length_overwrite [simp]: "i + length xs \<le> length arr \<Longrightarrow> length (overwrite i xs arr) = length arr"
  by (simp add: overwrite_def)

lemma sliceElems_append:
  assumes "wf_slice h s" "go_append spare (h, s) xs = (h', s')"
  shows "wf_slice h' s' \<and> sliceElems h' s' = sliceElems h s @ xs \<and> slLen s' = slLen s + length xs"
  using assms by (auto simp: go_append_def wf_slice_def sliceElems_def overwrite_def nth_append split: if_splits)

lemma fold_append_elems:
  assumes "wf_slice h s"
  shows "\<exists>h' s'. fold (\<lambda>k hs. (case map_of cfgs k of None \<Rightarrow> hs | Some c \<Rightarrow> if length c > 0 then go_append spare hs c else hs)) ks (h, s) = (h', s') \<and>
    wf_slice h' s' \<and> sliceElems h' s' = sliceElems h s @ concat (map (\<lambda>k. (case map_of cfgs k of None \<Rightarrow> [] | Some c \<Rightarrow> c)) ks)"
  using assms
proof (induction ks arbitrary: h s)
  case (Cons k ks)
  show ?case
  proof (cases "map_of cfgs k")
    case None
    with Cons show ?thesis by simp
  next
    case (Some c)
    show ?thesis
    proof (cases "c = []")
      case True
      with Some Cons show ?thesis by simp
    next
      case False
      obtain h1 s1 where one: "go_append spare (h, s) c = (h1, s1)" by (cases "go_append spare (h, s) c")
      with sliceElems_append [OF Cons.prems this] have w: "wf_slice h1 s1" and e: "sliceElems h1 s1 = sliceElems h s @ c" by simp_all
      from Cons.IH [OF w] False show ?thesis by (simp add: Some one e)
    qed
  qed
qed simp

text \<open>
  C33. The combination of the wired and the runtime rules, which appends to the slice of the wired
  configuration in place, has as its elements the rules of \<^verbatim>\<open>combine\<close> as lists: the wired rules, the
  rules of the annotated config maps and secrets in the order of their names, then the internal
  ones, whatever capacity the slices have.
\<close>

theorem combineSlices_refines:
  assumes "wf_slice h wiredSlice" "sliceElems h wiredSlice = PluginConfigs wired"
  shows "let (h', s) = combineSlices spare wiredSlice cfgs internal h in
    wf_slice h' s \<and> sliceElems h' s = PluginConfigs (combine wired cfgs internal)"
proof -
  obtain h1 s1 where f: "fold (\<lambda>k hs. (case map_of cfgs k of None \<Rightarrow> hs | Some c \<Rightarrow> if length c > 0 then go_append spare hs c else hs))
      (sort (map fst cfgs)) (h, wiredSlice) = (h1, s1)" "wf_slice h1 s1" "sliceElems h1 s1 = PluginConfigs wired @ runtimeRules cfgs"
    using fold_append_elems [OF assms(1), where cfgs = cfgs and spare = spare and ks = "sort (map fst cfgs)"] by (auto simp: assms(2) runtimeRules_def)
  show ?thesis
  proof (cases internal)
    case None
    with f show ?thesis by (simp add: combineSlices_def combine_def)
  next
    case (Some ps)
    obtain h2 s2 where two: "go_append spare (h1, s1) ps = (h2, s2)" by (cases "go_append spare (h1, s1) ps")
    from sliceElems_append [OF f(2) two] Some f two show ?thesis by (simp add: combineSlices_def combine_def Let_def)
  qed
qed


definition sample_plugin :: "string \<Rightarrow> plugin_config" where
  "sample_plugin name = annotationPlugin \<lparr> plName := name \<rparr>"

definition sample_wired :: discovery_config where
  "sample_wired = \<lparr> DiscoveryInterval = Minute, AnnotationPrefix = [], AnnotationExcludes = [], EnableRuntimePlugins = True,
     DisableAnnotationDiscovery = False, PluginConfigs = [sample_plugin ''wired''], PromConfigs = [] \<rparr>"

theorem combineSlices_refines_witness:
  "let (h', s) = combineSlices [] \<lparr> slArray = 0, slLen = 1 \<rparr> [(''b'', [sample_plugin ''b'']), (''a'', [sample_plugin ''a''])] None
     [[sample_plugin ''wired'', sample_plugin ''spare'']]
   in sliceElems h' s = [sample_plugin ''wired'', sample_plugin ''a'', sample_plugin ''b'']"
proof -
  let ?h = "[[sample_plugin ''wired'', sample_plugin ''spare'']]"
  have "wf_slice ?h \<lparr> slArray = 0, slLen = 1 \<rparr>" "sliceElems ?h \<lparr> slArray = 0, slLen = 1 \<rparr> = PluginConfigs sample_wired"
    by (simp_all add: wf_slice_def sliceElems_def sample_wired_def)
  from combineSlices_refines [OF this, of "[]" "[(''b'', [sample_plugin ''b'']), (''a'', [sample_plugin ''a''])]" None]
  have "let (h', s) = combineSlices [] \<lparr> slArray = 0, slLen = 1 \<rparr> [(''b'', [sample_plugin ''b'']), (''a'', [sample_plugin ''a''])] None ?h
      in sliceElems h' s = PluginConfigs (combine sample_wired [(''b'', [sample_plugin ''b'']), (''a'', [sample_plugin ''a''])] None)"
    by (auto simp: Let_def)
  moreover have "PluginConfigs (combine sample_wired [(''b'', [sample_plugin ''b'']), (''a'', [sample_plugin ''a''])] None) =
      [sample_plugin ''wired'', sample_plugin ''a'', sample_plugin ''b'']"
    by (simp add: combine_def runtimeRules_def sample_wired_def)
  ultimately show ?thesis by (simp only:)
qed

text \<open>
  With room for one more rule in the array of the wired slice, the configuration that was kept for
  comparison shares its array with the new one. When the only runtime rule is replaced by another,
  the comparison sees the new rule on both sides: the change goes unnoticed.
\<close>

lemma Config_change_unnoticed:
  assumes "wf_slice h w" "length (h ! slArray w) = slLen w + 1"
  shows "let (h1, prev) = combineSlices spare w [(name, [old])] None h;
             (h2, val) = combineSlices spare w [(name, [new])] None h1
         in NotifyOfChanges (=) (sliceElems h2 prev) [sliceElems h2 val] = [False]"
  using assms by (simp add: combineSlices_def go_append_def NotifyOfChanges_def wf_slice_def)

text \<open>Without spare room the configurations are apart, and a change of the rules is noticed.\<close>

lemma Config_change_noticed:
  assumes "wf_slice h w" "length (h ! slArray w) = slLen w" "old \<noteq> new"
  shows "let (h1, prev) = combineSlices spare w [(name, [old])] None h;
             (h2, val) = combineSlices spare w [(name, [new])] None h1
         in NotifyOfChanges (=) (sliceElems h2 prev) [sliceElems h2 val] = [True]"
  using assms by (simp add: combineSlices_def go_append_def NotifyOfChanges_def wf_slice_def sliceElems_def nth_append)

text \<open>What was first is compared with forever: after a change every tick notifies again.\<close>

lemma NotifyOfChanges_repeats: "NotifyOfChanges (=) (0::nat) [1, 1, 1] = [True, True, True]"
  by (simp add: NotifyOfChanges_def)

section \<open>The handler's runtime rules\<close>

datatype config_event = ConfigUpdated config_resource | ConfigDeleted string

fun ch_step :: "(string \<Rightarrow> plugin_config list go_result) \<Rightarrow> config_handler \<Rightarrow> config_event \<Rightarrow> config_handler" where
  "ch_step fromYAML h (ConfigUpdated r) = ch_updated fromYAML r h"
| "ch_step fromYAML h (ConfigDeleted name) = ch_deleted name h"

text \<open>The effect of an event on the entry of a name: unrelated, removed, or the rules of the new version.\<close>

definition ruleEffect :: "(string \<Rightarrow> plugin_config list go_result) \<Rightarrow> string \<Rightarrow> config_event \<Rightarrow> plugin_config list option option" where
  "ruleEffect fromYAML name ev =
     (case ev of
        ConfigDeleted n \<Rightarrow> if n = name then Some None else None
      | ConfigUpdated r \<Rightarrow>
          if mtName (crMeta r) \<noteq> name then None
          else if map_of (mtAnnotations (crMeta r)) discoveryAnnotation \<noteq> Some ''true'' then Some None
          else if \<forall>doc \<in> snd ` set (crData r). \<exists>ps. fromYAML doc = Inr ps
          then Some (Some (concat (map (\<lambda>(_, doc). projr (fromYAML doc)) (crData r))))
          else None)"

lemma loadFrom_ok:
  "\<forall>doc \<in> snd ` set data. \<exists>ps. fromYAML doc = Inr ps \<Longrightarrow>
     loadFrom fromYAML data cfg = (cfg @ concat (map (\<lambda>(_, doc). projr (fromYAML doc)) data), None)"
proof (induction fromYAML data cfg rule: loadFrom.induct)
  case (2 fromYAML k doc data cfg)
  then show ?case by (cases "fromYAML doc") auto
qed simp

lemma loadFrom_error: "\<not> (\<forall>doc \<in> snd ` set data. \<exists>ps. fromYAML doc = Inr ps) \<Longrightarrow> \<exists>e. snd (loadFrom fromYAML data cfg) = Some e"
proof (induction fromYAML data cfg rule: loadFrom.induct)
  case (2 fromYAML k doc data cfg)
  then show ?case by (cases "fromYAML doc") auto
qed simp

lemma ch_step_lookup:
  "map_of (runtimeCfgs (ch_step fromYAML h ev)) name =
     (case ruleEffect fromYAML name ev of None \<Rightarrow> map_of (runtimeCfgs h) name | Some r \<Rightarrow> r)"
proof (cases ev)
  case (ConfigDeleted n)
  then show ?thesis by (auto simp: ruleEffect_def ch_deleted_def)
next
  case (ConfigUpdated r)
  show ?thesis
  proof (cases "annotated (mtAnnotations (crMeta r))")
    case False
    then have "map_of (mtAnnotations (crMeta r)) discoveryAnnotation \<noteq> Some ''true''"
      by (auto simp: annotated_def)
    with False ConfigUpdated show ?thesis by (auto simp: ruleEffect_def ch_updated_def ch_deleted_def)
  next
    case True
    then have "map_of (mtAnnotations (crMeta r)) discoveryAnnotation = Some ''true''"
      by (auto simp: annotated_def split: option.splits)
    note known = True ConfigUpdated this
    show ?thesis
    proof (cases "\<forall>doc \<in> snd ` set (crData r). \<exists>ps. fromYAML doc = Inr ps")
      case True
      then show ?thesis using known by (simp add: ruleEffect_def ch_updated_def loadConfig_def loadFrom_ok)
    next
      case False
      from loadFrom_error [OF this] obtain e where "snd (loadFrom fromYAML (crData r) []) = Some e" by blast
      then have "ch_updated fromYAML r h = h" using known by (auto simp: ch_updated_def loadConfig_def split: prod.split option.split)
      moreover have "ruleEffect fromYAML name ev = None" using known False by (auto simp: ruleEffect_def)
      ultimately show ?thesis using known by simp
    qed
  qed
qed

lemma ch_history:
  "map_of (runtimeCfgs (foldl (ch_step fromYAML) \<lparr> wiredCfg = wired, runtimeCfgs = [] \<rparr> events)) name =
     (case filter (\<lambda>e. e \<noteq> None) (map (ruleEffect fromYAML name) (rev events)) of [] \<Rightarrow> None | e # _ \<Rightarrow> the e)"
proof (induction events rule: rev_induct)
  case (snoc e es)
  then show ?case by (simp add: ch_step_lookup split: option.split)
qed simp

text \<open>
  The runtime rules under a name are those of its last effective event: a version without the
  annotation and a deletion remove them, a version whose documents all parse replaces them, and a
  version with a document that does not parse leaves the previous rules in force.
\<close>

theorem runtime_rules_history:
  "map_of (runtimeCfgs (foldl (ch_step fromYAML) \<lparr> wiredCfg = wired, runtimeCfgs = [] \<rparr> events)) name =
     (case filter (\<lambda>e. e \<noteq> None) (map (ruleEffect fromYAML name) (rev events)) of [] \<Rightarrow> None | e # _ \<Rightarrow> the e)"
  by (rule ch_history)

end
