(* ===== verification/Leadership.thy ===== *)
theory Leadership
  imports Events
begin

text \<open>
  Leader election (\<^verbatim>\<open>internal/leadership\<close>) and the systems it pauses and resumes. The elector of
  client-go is a parameter: it calls \<open>OnNewLeader\<close> with the identity of each new leader. A subscriber's
  channel has room for one message and the sender waits for room, so a channel is the queue of what
  was sent and not yet received.
\<close>

section \<open>Election\<close>

record leadership =
  ldSubscribers :: "(string, bool list) gomap"
  ldStarted :: bool
  ldIsLeader :: bool
  ldLeaderId :: string
  ldLeadingGauge :: nat
  ldElectionError :: nat

definition initialLeadership :: leadership where
  "initialLeadership = \<lparr> ldSubscribers = [], ldStarted = False, ldIsLeader = False, ldLeaderId = [], ldLeadingGauge = 0, ldElectionError = 0 \<rparr>"

text \<open>\<open>newElector\<close> is the creation of the lock and the elector by client-go.\<close>

definition getLeaderElector :: "env \<Rightarrow> go_error option \<Rightarrow> go_error option" where
  "getLeaderElector e newElector =
     (if GetNodeName e = [] then Some (Errorf ''POD_NODE_NAME envvar is not defined'')
      else if GetNamespaceName e = [] then Some (Errorf ''POD_NAMESPACE_NAME envvar is not defined'')
      else newElector)"

definition startLeaderElection :: "env \<Rightarrow> go_error option \<Rightarrow> leadership \<Rightarrow> go_error option \<times> leadership" where
  "startLeaderElection e newElector l =
     (if \<not> ldStarted l then
        (case getLeaderElector e newElector of
           Some err \<Rightarrow> (Some err, l \<lparr> ldElectionError := ldElectionError l + 1 \<rparr>)
         | None \<Rightarrow> (None, l \<lparr> ldStarted := True \<rparr>))
      else (None, l))"

definition Subscribe :: "env \<Rightarrow> go_error option \<Rightarrow> string \<Rightarrow> leadership \<Rightarrow> go_error option \<times> leadership" where
  "Subscribe e newElector name l =
     (case startLeaderElection e newElector l of
        (Some err, l) \<Rightarrow> (Some err, l)
      | (None, l) \<Rightarrow> (None, l \<lparr> ldSubscribers := gput name (if ldIsLeader l then [True] else []) (ldSubscribers l) \<rparr>))"

definition Unsubscribe :: "string \<Rightarrow> leadership \<Rightarrow> leadership" where
  "Unsubscribe name l = l \<lparr> ldSubscribers := gdel name (ldSubscribers l) \<rparr>"

definition notifyAll :: "bool \<Rightarrow> (string, bool list) gomap \<Rightarrow> (string, bool list) gomap" where
  "notifyAll b subs = map (\<lambda>(name, ch). (name, ch @ [b])) subs"

definition OnNewLeader :: "string \<Rightarrow> string \<Rightarrow> leadership \<Rightarrow> leadership" where
  "OnNewLeader nodeName identity l =
     (let l = l \<lparr> ldLeadingGauge := (if identity = nodeName then 1 else 0) \<rparr>;
          l = l \<lparr> ldLeaderId := identity \<rparr>
      in if identity = nodeName \<and> \<not> ldIsLeader l
         then l \<lparr> ldSubscribers := notifyAll True (ldSubscribers l), ldIsLeader := True \<rparr>
         else if identity \<noteq> nodeName \<and> ldIsLeader l
         then l \<lparr> ldSubscribers := notifyAll False (ldSubscribers l) \<rparr>
         else l)"

definition Leader :: "leadership \<Rightarrow> string" where
  "Leader l = ldLeaderId l"

definition SetLeading :: "bool \<Rightarrow> leadership \<Rightarrow> leadership" where
  "SetLeading leading l = l \<lparr> ldIsLeader := leading \<rparr>"

definition Leading :: "agent_type \<Rightarrow> leadership \<Rightarrow> bool" where
  "Leading ag l = (ScrapeCluster ag \<and> ldIsLeader l)"

section \<open>Channels and systems\<close>

datatype go_chan = NilChan | OpenChan | ClosedChan

text \<open>The pattern \<^verbatim>\<open>if ch != nil { close(ch) }\<close>; closing a closed channel panics.\<close>

definition closeIfSet :: "go_chan \<Rightarrow> go_chan go_result" where
  "closeIfSet ch =
     (case ch of NilChan \<Rightarrow> Inr NilChan | OpenChan \<Rightarrow> Inr ClosedChan | ClosedChan \<Rightarrow> Inl (GoPanic ''close of closed channel''))"

text \<open>A system is paused and resumed; the event router and the service handler work on one channel.\<close>

definition router_Resume :: "go_chan \<Rightarrow> go_chan" where
  "router_Resume stop = OpenChan"

definition router_Pause :: "go_chan \<Rightarrow> go_chan go_result" where
  "router_Pause stop = closeIfSet stop"

definition service_start :: "go_chan \<Rightarrow> go_chan" where
  "service_start ch = OpenChan"

definition service_stop :: "go_chan \<Rightarrow> go_chan go_result" where
  "service_stop ch = closeIfSet ch"

text \<open>One turn of \<^verbatim>\<open>Manager.run\<close>: a message of the subscription resumes or pauses the system.\<close>

definition lm_turn :: "('s \<Rightarrow> 's) \<Rightarrow> ('s \<Rightarrow> 's go_result) \<Rightarrow> bool \<Rightarrow> 's \<Rightarrow> 's go_result" where
  "lm_turn resume pause isLeader sys = (if isLeader then Inr (resume sys) else pause sys)"

definition lm_Start :: "env \<Rightarrow> go_error option \<Rightarrow> string \<Rightarrow> leadership \<Rightarrow> leadership" where
  "lm_Start e newElector name l = snd (Subscribe e newElector name l)"

definition lm_Stop :: "string \<Rightarrow> go_chan \<Rightarrow> leadership \<Rightarrow> (go_chan \<times> leadership) go_result" where
  "lm_Stop name stop l = (case closeIfSet stop of Inl e \<Rightarrow> Inl e | Inr ch \<Rightarrow> Inr (ch, Unsubscribe name l))"

text \<open>The event router starts its leadership manager only when it scrapes the cluster.\<close>

definition router_Start :: "bool \<Rightarrow> env \<Rightarrow> go_error option \<Rightarrow> leadership \<Rightarrow> leadership" where
  "router_Start scrapeCluster e newElector l = (if scrapeCluster then lm_Start e newElector ''eventRouter'' l else l)"

definition router_Stop :: "bool \<Rightarrow> go_chan \<Rightarrow> go_chan \<Rightarrow> leadership \<Rightarrow> (go_chan \<times> go_chan \<times> leadership) go_result" where
  "router_Stop scrapeCluster lmStop stop l =
     (case (if scrapeCluster then lm_Stop ''eventRouter'' lmStop l else Inr (lmStop, l)) of
        Inl e \<Rightarrow> Inl e
      | Inr (lmStop, l) \<Rightarrow> (case router_Pause stop of Inl e \<Rightarrow> Inl e | Inr stop \<Rightarrow> Inr (lmStop, stop, l)))"

section \<open>Histories\<close>

datatype leadership_event = LdSubscribe env "go_error option" string | LdUnsubscribe string | LdNewLeader string | LdReceive string

fun ld_step :: "string \<Rightarrow> leadership \<Rightarrow> leadership_event \<Rightarrow> leadership" where
  "ld_step nodeName l (LdSubscribe e ne name) = snd (Subscribe e ne name l)"
| "ld_step nodeName l (LdUnsubscribe name) = Unsubscribe name l"
| "ld_step nodeName l (LdNewLeader identity) = OnNewLeader nodeName identity l"
| "ld_step nodeName l (LdReceive name) =
     (case map_of (ldSubscribers l) name of
        Some (b # ch) \<Rightarrow> l \<lparr> ldSubscribers := gput name ch (ldSubscribers l) \<rparr>
      | _ \<Rightarrow> l)"

definition elected :: "leadership_event list \<Rightarrow> string list" where
  "elected es = concat (map (\<lambda>e. case e of LdNewLeader i \<Rightarrow> [i] | _ \<Rightarrow> []) es)"

lemma Subscribe_leader [simp]:
  "ldIsLeader (snd (Subscribe e ne name l)) = ldIsLeader l" "ldLeaderId (snd (Subscribe e ne name l)) = ldLeaderId l"
  "ldLeadingGauge (snd (Subscribe e ne name l)) = ldLeadingGauge l"
  by (auto simp: Subscribe_def startLeaderElection_def split: option.splits prod.splits if_splits)

lemma ld_step_leader:
  "ldIsLeader (ld_step n l e) = (ldIsLeader l \<or> e = LdNewLeader n)"
  "ldLeaderId (ld_step n l e) = (case e of LdNewLeader i \<Rightarrow> i | _ \<Rightarrow> ldLeaderId l)"
  "ldLeadingGauge (ld_step n l e) = (case e of LdNewLeader i \<Rightarrow> if i = n then 1 else 0 | _ \<Rightarrow> ldLeadingGauge l)"
  by (cases e; auto simp: Unsubscribe_def OnNewLeader_def Let_def split: option.splits list.splits)+


text \<open>
  A node that has led receives a pause for every further leader. The second one closes a closed
  channel: the process panics when the leadership moves on twice after it was lost.
\<close>

definition drain :: "('s \<Rightarrow> 's) \<Rightarrow> ('s \<Rightarrow> 's go_result) \<Rightarrow> bool list \<Rightarrow> 's \<Rightarrow> 's go_result" where
  "drain resume pause msgs sys =
     fold (\<lambda>b acc. case acc of Inl e \<Rightarrow> Inl e | Inr s \<Rightarrow> lm_turn resume pause b s) msgs (Inr sys)"

lemma second_demotion_panics:
  assumes "x \<noteq> n" "y \<noteq> n" "Subscribe e ne ''eventRouter'' initialLeadership = (None, l)"
  shows "\<exists>msgs. map_of (ldSubscribers (foldl (ld_step n) l [LdNewLeader n, LdNewLeader x, LdNewLeader y])) ''eventRouter'' = Some msgs \<and>
    drain router_Resume router_Pause msgs NilChan = Inl (GoPanic ''close of closed channel'')"
proof -
  have l: "ldSubscribers l = [(''eventRouter'', [])]" "\<not> ldIsLeader l"
    using assms(3) by (auto simp: Subscribe_def startLeaderElection_def initialLeadership_def split: if_splits option.splits)
  have "map_of (ldSubscribers (foldl (ld_step n) l [LdNewLeader n, LdNewLeader x, LdNewLeader y])) ''eventRouter'' = Some [True, False, False]"
    using assms(1,2) l by (simp add: OnNewLeader_def Let_def notifyAll_def)
  moreover have "drain router_Resume router_Pause [True, False, False] NilChan = Inl (GoPanic ''close of closed channel'')"
    by (simp add: drain_def lm_turn_def router_Resume_def router_Pause_def closeIfSet_def)
  ultimately show ?thesis by blast
qed

text \<open>Stopping after a pause panics as well.\<close>

lemma pause_then_stop_panics:
  "router_Pause OpenChan = Inr ch \<Longrightarrow> router_Stop False lmStop ch l = Inl (GoPanic ''close of closed channel'')"
  by (auto simp: router_Pause_def router_Stop_def closeIfSet_def)

text \<open>
  The agent subscribes under its own name and never reads its channel, which has room for one message.
  Once the node has been elected and another node takes over, the second message does not fit: the
  callback waits forever, holding the lock that \<^verbatim>\<open>Leading\<close> needs.
\<close>

definition channel_overflow :: "leadership \<Rightarrow> bool" where
  "channel_overflow l \<longleftrightarrow> list_ex (\<lambda>(_, ch). 1 < length ch) (ldSubscribers l)"

lemma agent_subscription_blocks:
  assumes "GetNodeName e = node" "GetNodeName e \<noteq> []" "GetNamespaceName e \<noteq> []" "other \<noteq> node"
  shows "channel_overflow (foldl (ld_step node) initialLeadership
    [LdSubscribe e None ''agent'', LdNewLeader node, LdNewLeader other])"
  using assms by (simp add: channel_overflow_def Subscribe_def startLeaderElection_def getLeaderElector_def initialLeadership_def
      OnNewLeader_def notifyAll_def Let_def)

end
