(* ===== verification/Kube_Config.thy ===== *)
theory Kube_Config
  imports Wf_Sink Kube_Util
begin

text \<open>
  The configuration of the Kubernetes and kubelet clients (\<^verbatim>\<open>internal/kubernetes/configs.go\<close>,
  \<^verbatim>\<open>plugins/sources/summary/kubelet/configs.go\<close> and \<^verbatim>\<open>transport.go\<close>) and what the kubelet client makes of a
  response (\<^verbatim>\<open>kubelet_client.go\<close>). The files and the loaders of client-go are parameters.
\<close>

section \<open>The client of the API server\<close>

record rest_tls_config =
  tlsInsecure :: bool
  rtServerName :: string
  rtCAFile :: string
  rtCAData :: string
  rtCertFile :: string
  rtCertData :: string
  rtKeyFile :: string
  rtKeyData :: string

definition zeroTLS :: rest_tls_config where
  "zeroTLS = \<lparr> tlsInsecure = False, rtServerName = [], rtCAFile = [], rtCAData = [], rtCertFile = [], rtCertData = [], rtKeyFile = [], rtKeyData = [] \<rparr>"

record kube_rest_config =
  kcHost :: string
  kcGroupVersion :: string
  kcTLS :: rest_tls_config
  kcBearerToken :: string
  kcBearerTokenFile :: string
  kcContentType :: string

text \<open>A textual option with a default: the pattern \<^verbatim>\<open>if len(opt) > 0 { v, err = strconv.ParseBool(opt) }\<close>.\<close>

definition boolOption :: "bool \<Rightarrow> string \<Rightarrow> bool go_result" where
  "boolOption dflt opt =
     (if length opt > 0 then (case ParseBool opt of None \<Rightarrow> Inl (Errorf (''invalid syntax: '' @ opt)) | Some b \<Rightarrow> Inr b)
       else Inr dflt)"

text \<open>What the process can read: the URL parser, the loaders of client-go, the token file.\<close>

record kube_files =
  kfParseURL :: "string \<Rightarrow> (string \<times> string) go_result"
  kfInCluster :: "kube_rest_config go_result"
  kfLoadAuth :: "string \<Rightarrow> kube_rest_config go_result"
  kfToken :: "string option"

text \<open>The overrides are the address of the server and whether its certificate is checked.\<close>

definition serverOf :: "string \<times> string \<Rightarrow> string" where
  "serverOf uri = (if length (fst uri) \<noteq> 0 \<and> length (snd uri) \<noteq> 0 then fst uri @ ''://'' @ snd uri else [])"

definition getConfigOverridesFromConfig :: "kube_files \<Rightarrow> summary_source_config \<Rightarrow> (string \<times> bool) go_result" where
  "getConfigOverridesFromConfig kf cfg =
     (case (if smURL cfg \<noteq> [] then (case kfParseURL kf (smURL cfg) of Inl e \<Rightarrow> Inl e | Inr uri \<Rightarrow> Inr (serverOf uri)) else Inr []) of
        Inl e \<Rightarrow> Inl e
      | Inr server \<Rightarrow> (case boolOption False (Insecure cfg) of Inl e \<Rightarrow> Inl e | Inr insecure \<Rightarrow> Inr (server, insecure)))"

definition inClusterKubeConfig :: "string \<times> bool \<Rightarrow> kube_rest_config \<Rightarrow> kube_rest_config" where
  "inClusterKubeConfig = (\<lambda>(server, insecure) c.
     (let c = (if server \<noteq> [] then c \<lparr> kcHost := server \<rparr> else c);
          c = c \<lparr> kcGroupVersion := ''v1'', kcTLS := (kcTLS c) \<lparr> tlsInsecure := insecure \<rparr> \<rparr>
      in if insecure then c \<lparr> kcTLS := (kcTLS c) \<lparr> rtCAFile := [] \<rparr> \<rparr> else c))"

definition outOfClusterKubeConfig :: "kube_files \<Rightarrow> string \<times> bool \<Rightarrow> string \<Rightarrow> kube_rest_config go_result" where
  "outOfClusterKubeConfig kf = (\<lambda>(server, insecure) authFile.
     (if authFile \<noteq> [] then kfLoadAuth kf authFile
      else Inr \<lparr> kcHost = server, kcGroupVersion = ''v1'', kcTLS = zeroTLS \<lparr> tlsInsecure := insecure \<rparr>, kcBearerToken = [], kcBearerTokenFile = [], kcContentType = [] \<rparr>))"

definition GetKubeClientConfig :: "kube_files \<Rightarrow> summary_source_config \<Rightarrow> kube_rest_config go_result" where
  "GetKubeClientConfig kf cfg =
     (case getConfigOverridesFromConfig kf cfg of
        Inl e \<Rightarrow> Inl e
      | Inr overrides \<Rightarrow>
          (case boolOption True (InClusterConfig cfg) of
             Inl e \<Rightarrow> Inl e
           | Inr inCluster \<Rightarrow>
               (case (if inCluster then (case kfInCluster kf of Inl e \<Rightarrow> Inl e | Inr c \<Rightarrow> Inr (inClusterKubeConfig overrides c))
                      else outOfClusterKubeConfig kf overrides (Auth cfg)) of
                  Inl e \<Rightarrow> Inl e
                | Inr c \<Rightarrow>
                    if length (kcHost c) = 0 then Inl (Errorf ''invalid kubernetes master url specified'')
                    else (case boolOption False (UseServiceAccount cfg) of
                            Inl e \<Rightarrow> Inl e
                          | Inr use \<Rightarrow>
                              (let c = (if use then (case kfToken kf of Some t \<Rightarrow> c \<lparr> kcBearerToken := t \<rparr> | None \<Rightarrow> c) else c)
                               in Inr (c \<lparr> kcContentType := ''application/vnd.kubernetes.protobuf'' \<rparr>))))))"

section \<open>The client of the kubelet\<close>

record kubelet_config =
  klPort :: "64 word"
  klEnableHttps :: bool
  klTLS :: rest_tls_config
  klBearerToken :: string

abbreviation defaultKubeletPort :: int where "defaultKubeletPort \<equiv> 10255"

definition GetKubeConfigs :: "kube_files \<Rightarrow> summary_source_config \<Rightarrow> (kube_rest_config \<times> kubelet_config) go_result" where
  "GetKubeConfigs kf cfg =
     (case GetKubeClientConfig kf cfg of
        Inl e \<Rightarrow> Inl e
      | Inr kc \<Rightarrow>
          (case (if length (KubeletPort cfg) \<ge> 1 then Atoi (KubeletPort cfg) else Some defaultKubeletPort) of
             None \<Rightarrow> Inl (Errorf ''strconv.Atoi: invalid syntax'')
           | Some port \<Rightarrow>
               (case boolOption False (KubeletHttps cfg) of
                  Inl e \<Rightarrow> Inl e
                | Inr https \<Rightarrow>
                    Inr (kc, \<lparr> klPort = word_of_int port, klEnableHttps = https, klTLS = kcTLS kc, klBearerToken = kcBearerToken kc \<rparr>))))"

text \<open>A nil configuration counts as one with HTTPS.\<close>

definition HTTPSEnabled :: "kubelet_config option \<Rightarrow> bool" where
  "HTTPSEnabled c = (case c of None \<Rightarrow> True | Some c \<Rightarrow> klEnableHttps c)"

definition kubelet_Scheme :: "kubelet_config \<Rightarrow> string" where
  "kubelet_Scheme c = (if HTTPSEnabled (Some c) then ''https'' else ''http'')"

text \<open>The URL as its printed parts; \<open>ip\<close> is the printed address.\<close>

definition BaseURL :: "kubelet_config \<Rightarrow> string \<Rightarrow> string \<Rightarrow> string" where
  "BaseURL c ip path = kubelet_Scheme c @ ''://'' @ ip @ '':'' @ show_nat (unat (klPort c)) @ path"

record transport_config =
  tcTLS :: rest_tls_config
  tcBearerToken :: string

definition HasCA :: "rest_tls_config \<Rightarrow> bool" where
  "HasCA t \<longleftrightarrow> length (rtCAData t) > 0 \<or> length (rtCAFile t) > 0"

definition transportConfig :: "kubelet_config \<Rightarrow> transport_config" where
  "transportConfig c =
     (let cfg = \<lparr> tcTLS = (klTLS c) \<lparr> tlsInsecure := False, rtServerName := [] \<rparr>, tcBearerToken = [] \<rparr>;
          cfg = (if klEnableHttps c then cfg \<lparr> tcBearerToken := klBearerToken c \<rparr> else cfg)
      in if klEnableHttps c \<and> \<not> HasCA (tcTLS cfg) then cfg \<lparr> tcTLS := (tcTLS cfg) \<lparr> tlsInsecure := True \<rparr> \<rparr> else cfg)"

section \<open>Responses\<close>

record kubelet_response =
  krStatusCode :: nat
  krStatus :: string
  krBody :: "string go_result"

text \<open>
  \<^verbatim>\<open>postRequestAndGetValue\<close>: \<open>unmarshal\<close> is the JSON decoder. A forbidden request ends the program, outside
  of the test mode.
\<close>

definition postRequestAndGetValue :: "(string \<Rightarrow> 'v go_result) \<Rightarrow> string \<Rightarrow> kubelet_response go_result \<Rightarrow> 'v go_result" where
  "postRequestAndGetValue unmarshal url response =
     (case response of
        Inl e \<Rightarrow> Inl e
      | Inr r \<Rightarrow>
          (case krBody r of
             Inl e \<Rightarrow> Inl (Errorf ''failed to read response body'')
           | Inr body \<Rightarrow>
               if krStatusCode r = 404 then Inl (Errorf (url @ '' not found''))
               else if krStatusCode r = 403 then Inl (GoPanic ''Missing ClusterRole resource nodes/stats or nodes/proxy'')
               else if krStatusCode r \<noteq> 200 then Inl (Errorf (''request failed - '' @ krStatus r))
               else (case unmarshal body of Inl e \<Rightarrow> Inl (Errorf ''failed to parse output'') | Inr v \<Rightarrow> Inr v)))"

definition GetSummary :: "(string \<Rightarrow> 'v go_result) \<Rightarrow> (string \<Rightarrow> kubelet_response go_result) \<Rightarrow> kubelet_config \<Rightarrow> string \<Rightarrow> 'v go_result" where
  "GetSummary unmarshal request c ip =
     (let u = BaseURL c ip ''/stats/summary/'' in postRequestAndGetValue unmarshal u (request u))"

section \<open>Properties\<close>

text \<open>The token of the service account is sent to a kubelet only over HTTPS.\<close>

lemma transportConfig_token: "tcBearerToken (transportConfig c) \<noteq> [] \<Longrightarrow> kubelet_Scheme c = ''https'' \<and> tcBearerToken (transportConfig c) = klBearerToken c"
  by (auto simp: transportConfig_def Let_def kubelet_Scheme_def HTTPSEnabled_def split: if_splits)

text \<open>Without an authority the certificate of the kubelet is not checked, though the cluster's configuration asks for it.\<close>

lemma transportConfig_insecure:
  assumes "klEnableHttps c" "rtCAFile (klTLS c) = []" "rtCAData (klTLS c) = []"
  shows "tlsInsecure (tcTLS (transportConfig c))"
  using assms by (simp add: transportConfig_def HasCA_def)

text \<open>
  When the configuration of the clients succeeds, all its textual options are well-formed, the
  address of the API server is known, and the settings are those of the options: HTTPS only when it is
  asked for, the port given or the default one, and the certificate of the API server unchecked in
  the cluster exactly when the option says so. The token goes to the kubelet over HTTPS only.
\<close>

theorem GetKubeConfigs_settings:
  assumes "GetKubeConfigs kf cfg = Inr (kc, kl)" "InClusterConfig cfg = []"
  shows "(\<exists>ins. boolOption False (Insecure cfg) = Inr ins \<and> tlsInsecure (kcTLS kc) = ins) \<and> kcHost kc \<noteq> [] \<and>
    boolOption False (KubeletHttps cfg) = Inr (klEnableHttps kl) \<and>
    (KubeletPort cfg = [] \<and> klPort kl = 10255 \<or> (\<exists>p. Atoi (KubeletPort cfg) = Some p \<and> klPort kl = word_of_int p)) \<and>
    tcBearerToken (transportConfig kl) = (if kubelet_Scheme kl = ''https'' then kcBearerToken kc else [])"
proof -
  have kc: "GetKubeClientConfig kf cfg = Inr kc" and kl: "klBearerToken kl = kcBearerToken kc" "boolOption False (KubeletHttps cfg) = Inr (klEnableHttps kl)"
    "KubeletPort cfg = [] \<and> klPort kl = 10255 \<or> (\<exists>p. Atoi (KubeletPort cfg) = Some p \<and> klPort kl = word_of_int p)"
    using assms(1) by (auto simp: GetKubeConfigs_def Suc_le_eq split: sum.splits option.splits if_splits)
  have "\<exists>ins. boolOption False (Insecure cfg) = Inr ins \<and> tlsInsecure (kcTLS kc) = ins" "kcHost kc \<noteq> []"
    using kc assms(2)
    by (auto simp: GetKubeClientConfig_def getConfigOverridesFromConfig_def inClusterKubeConfig_def boolOption_def [of True] Let_def
        split: sum.splits option.splits if_splits)
  with kl show ?thesis by (auto simp: transportConfig_def Let_def kubelet_Scheme_def HTTPSEnabled_def)
qed

definition sample_kube_files :: kube_files where
  "sample_kube_files = \<lparr> kfParseURL = (\<lambda>_. Inl (Errorf [])),
     kfInCluster = Inr \<lparr> kcHost = ''https://10.0.0.1'', kcGroupVersion = [], kcTLS = zeroTLS \<lparr> rtCAFile := ''ca'' \<rparr>, kcBearerToken = ''secret'', kcBearerTokenFile = [],
       kcContentType = [] \<rparr>, kfLoadAuth = (\<lambda>_. Inl (Errorf [])), kfToken = None \<rparr>"

theorem GetKubeConfigs_settings_witness:
  "\<exists>kc kl. GetKubeConfigs sample_kube_files (sample_summary \<lparr> KubeletHttps := ''true'' \<rparr>) = Inr (kc, kl) \<and>
     tcBearerToken (transportConfig kl) = ''secret'' \<and> klPort kl = 10255"
proof -
  obtain kc kl where run: "GetKubeConfigs sample_kube_files (sample_summary \<lparr> KubeletHttps := ''true'' \<rparr>) = Inr (kc, kl)"
    "klEnableHttps kl" "kcBearerToken kc = ''secret''"
    by (simp add: GetKubeConfigs_def GetKubeClientConfig_def getConfigOverridesFromConfig_def inClusterKubeConfig_def boolOption_def
        ParseBool_def sample_summary_def sample_kube_files_def)
  from GetKubeConfigs_settings [OF run(1)] run show ?thesis
    by (auto simp: sample_summary_def kubelet_Scheme_def HTTPSEnabled_def Atoi_def digits_def)
qed

end
