(* ===== verification/Summary_Source.thy ===== *)
theory Summary_Source
  imports Enrichers Kube_Config
begin

text \<open>
  The kubelet summary source (\<^verbatim>\<open>plugins/sources/summary/summary.go\<close> and \<^verbatim>\<open>kubelet\<close>): the statistics of a node,
  its system containers, its pods and their containers become metric sets under their resource
  keys. The HTTP request and the decoding of its JSON body are a parameter that gives the summary or
  an error; the configuration of the client is modelled. Optional fields of the statistics are
  options, 64-bit unsigned values are words.
\<close>

section \<open>Statistics of the kubelet\<close>

record cpu_summary =
  cpuTime :: time
  UsageNanoCores :: "int64 option"
  UsageCoreNanoSeconds :: "int64 option"

record memory_summary =
  memTime :: time
  AvailableBytes :: "int64 option"
  UsageBytes :: "int64 option"
  WorkingSetBytes :: "int64 option"
  RSSBytes :: "int64 option"
  PageFaults :: "int64 option"
  MajorPageFaults :: "int64 option"

record interface_summary =
  ifName :: string
  ifRxBytes :: "int64 option"
  ifRxErrors :: "int64 option"
  ifTxBytes :: "int64 option"
  ifTxErrors :: "int64 option"

record network_summary =
  netTime :: time
  netDefault :: interface_summary
  netInterfaces :: "interface_summary list"

record fs_summary =
  fsAvailableBytes :: "int64 option"
  fsCapacityBytes :: "int64 option"
  fsUsedBytes :: "int64 option"
  fsInodesTotal :: "int64 option"
  fsInodesUnused :: "int64 option"

record container_summary =
  ctName :: string
  ctStartTime :: time
  ctCPU :: "cpu_summary option"
  ctMemory :: "memory_summary option"
  ctAccelerators :: "accelerator_stats list"
  ctRootfs :: "fs_summary option"
  ctLogs :: "fs_summary option"
  ctUserDefined :: "(string \<times> f64) list"

record pod_summary =
  psName :: string
  psNamespace :: string
  psUID :: string
  psStartTime :: time
  psContainers :: "container_summary list"
  psCPU :: "cpu_summary option"
  psMemory :: "memory_summary option"
  psNetwork :: "network_summary option"
  psVolumes :: "(string \<times> fs_summary) list"
  psEphemeralStorage :: "fs_summary option"

record node_summary =
  nsName :: string
  nsStartTime :: time
  nsSystemContainers :: "container_summary list"
  nsCPU :: "cpu_summary option"
  nsMemory :: "memory_summary option"
  nsNetwork :: "network_summary option"
  nsFs :: "fs_summary option"

record summary =
  sumNode :: node_summary
  sumPods :: "pod_summary list"

record 'ip node_info =
  niNodeName :: string
  niHostName :: string
  niHostID :: string
  niKubeletVersion :: string
  niNodeRole :: string
  niIP :: 'ip

section \<open>Adding values\<close>

definition addIntMetric :: "metric \<Rightarrow> int64 option \<Rightarrow> metric_set \<Rightarrow> metric_set" where
  "addIntMetric m v ms = (case v of None \<Rightarrow> ms | Some i \<Rightarrow> ms \<lparr> Values := gput (Name m) (int64Value i) (Values ms) \<rparr>)"

definition addLabeledMetric :: "metric \<Rightarrow> strmap \<Rightarrow> int64 option \<Rightarrow> metric_set \<Rightarrow> metric_set" where
  "addLabeledMetric m labels v ms =
     (case v of None \<Rightarrow> ms | Some i \<Rightarrow> ms \<lparr> LabeledValues := LabeledValues ms @ [labeledInt (Name m) labels i] \<rparr>)"

definition getScrapeTime :: "cpu_summary option \<Rightarrow> memory_summary option \<Rightarrow> network_summary option \<Rightarrow> time" where
  "getScrapeTime cpu memory network =
     (if cpu \<noteq> None \<and> cpuTime (the cpu) \<noteq> zero_time then cpuTime (the cpu)
      else if memory \<noteq> None \<and> memTime (the memory) \<noteq> zero_time then memTime (the memory)
      else if network \<noteq> None \<and> netTime (the network) \<noteq> zero_time then netTime (the network)
      else zero_time)"

definition decodeUptime :: "time \<Rightarrow> time \<Rightarrow> metric_set \<Rightarrow> metric_set" where
  "decodeUptime now startTime ms =
     (if startTime = zero_time then ms
      else addIntMetric MetricUptime (Some (word_of_int (Time_Sub now startTime sdiv 1000000))) ms)"

definition decodeCPUStats :: "cpu_summary option \<Rightarrow> metric_set \<Rightarrow> metric_set" where
  "decodeCPUStats cpu ms =
     (case cpu of
        None \<Rightarrow> ms
      | Some c \<Rightarrow>
          (let ms = addIntMetric MetricCpuUsage (UsageCoreNanoSeconds c) ms in
           case UsageNanoCores c of
             None \<Rightarrow> ms
           | Some n \<Rightarrow> addIntMetric MetricCpuUsageCores (Some (n div 1000000)) ms))"

definition decodeEphemeralStorageStats :: "fs_summary option \<Rightarrow> metric_set \<Rightarrow> metric_set" where
  "decodeEphemeralStorageStats storage ms =
     (case storage of None \<Rightarrow> ms | Some s \<Rightarrow> addIntMetric MetricEphemeralStorageUsage (fsUsedBytes s) ms)"

definition decodeEphemeralStorageStatsForContainer :: "fs_summary option \<Rightarrow> fs_summary option \<Rightarrow> metric_set \<Rightarrow> metric_set" where
  "decodeEphemeralStorageStatsForContainer rootfs logs ms =
     (case (Option.bind rootfs fsUsedBytes, Option.bind logs fsUsedBytes) of
        (Some r, Some l) \<Rightarrow> addIntMetric MetricEphemeralStorageUsage (Some (r + l)) ms
      | _ \<Rightarrow> ms)"

definition decodeMemoryStats :: "memory_summary option \<Rightarrow> metric_set \<Rightarrow> metric_set" where
  "decodeMemoryStats memory ms =
     (case memory of
        None \<Rightarrow> ms
      | Some m \<Rightarrow>
          (let ms = addIntMetric MetricMemoryUsage (UsageBytes m) ms;
               ms = addIntMetric MetricMemoryWorkingSet (WorkingSetBytes m) ms;
               ms = addIntMetric MetricMemoryRSS (RSSBytes m) ms;
               ms = addIntMetric MetricMemoryPageFaults (PageFaults m) ms
           in addIntMetric MetricMemoryMajorPageFaults (MajorPageFaults m) ms))"

definition decodeAccelerator :: "accelerator_stats \<Rightarrow> metric_set \<Rightarrow> metric_set" where
  "decodeAccelerator ac ms =
     (let labels = [(Key LabelAcceleratorMake, acMake ac), (Key LabelAcceleratorModel, acModel ac), (Key LabelAcceleratorID, acID ac)];
          ms = addLabeledMetric MetricAcceleratorMemoryTotal labels (Some (acMemoryTotal ac)) ms;
          ms = addLabeledMetric MetricAcceleratorMemoryUsed labels (Some (acMemoryUsed ac)) ms
      in addLabeledMetric MetricAcceleratorDutyCycle labels (Some (acDutyCycle ac)) ms)"

definition decodeAcceleratorStats :: "accelerator_stats list \<Rightarrow> metric_set \<Rightarrow> metric_set" where
  "decodeAcceleratorStats acs ms = fold decodeAccelerator acs ms"

abbreviation NetworkInterfaceKey :: string where
  "NetworkInterfaceKey \<equiv> ''interface_name''"

definition decodeInterface :: "interface_summary \<Rightarrow> metric_set \<Rightarrow> metric_set" where
  "decodeInterface i ms =
     (let labels = [(NetworkInterfaceKey, ifName i)];
          ms = addLabeledMetric MetricNetworkRx labels (ifRxBytes i) ms;
          ms = addLabeledMetric MetricNetworkRxErrors labels (ifRxErrors i) ms;
          ms = addLabeledMetric MetricNetworkTx labels (ifTxBytes i) ms
      in addLabeledMetric MetricNetworkTxErrors labels (ifTxErrors i) ms)"

definition decodeNetworkStats :: "network_summary option \<Rightarrow> metric_set \<Rightarrow> metric_set" where
  "decodeNetworkStats network ms =
     (case network of
        None \<Rightarrow> ms
      | Some n \<Rightarrow>
          (let ms = fold decodeInterface (netInterfaces n) ms;
               ms = addIntMetric MetricNetworkRx (ifRxBytes (netDefault n)) ms;
               ms = addIntMetric MetricNetworkRxErrors (ifRxErrors (netDefault n)) ms;
               ms = addIntMetric MetricNetworkTx (ifTxBytes (netDefault n)) ms
           in addIntMetric MetricNetworkTxErrors (ifTxErrors (netDefault n)) ms))"

definition decodeFsStats :: "string \<Rightarrow> fs_summary option \<Rightarrow> metric_set \<Rightarrow> metric_set" where
  "decodeFsStats fsKey fs ms =
     (case fs of
        None \<Rightarrow> ms
      | Some f \<Rightarrow>
          (let labels = [(Key LabelResourceID, fsKey)];
               ms = addLabeledMetric MetricFilesystemUsage labels (fsUsedBytes f) ms;
               ms = addLabeledMetric MetricFilesystemLimit labels (fsCapacityBytes f) ms;
               ms = addLabeledMetric MetricFilesystemAvailable labels (fsAvailableBytes f) ms;
               ms = addLabeledMetric MetricFilesystemInodes labels (fsInodesTotal f) ms
           in addLabeledMetric MetricFilesystemInodesFree labels (fsInodesUnused f) ms))"

abbreviation CustomMetricPrefix :: string where
  "CustomMetricPrefix \<equiv> ''custom/''"

definition decodeUserDefinedMetrics :: "(string \<times> f64) list \<Rightarrow> metric_set \<Rightarrow> metric_set" where
  "decodeUserDefinedMetrics udm ms =
     fold (\<lambda>(name, v) ms. ms \<lparr> Values := gput (CustomMetricPrefix @ name)
             \<lparr> IntValue = 0, FloatValue = v, ValueType = ValueFloat \<rparr> (Values ms) \<rparr>) udm ms"

section \<open>Sets\<close>

definition summarySet :: "strmap \<Rightarrow> time \<Rightarrow> time \<Rightarrow> metric_set" where
  "summarySet labels startTime scrapeTime =
     \<lparr> CollectionStartTime = startTime, EntityCreateTime = zero_time, ScrapeTime = scrapeTime, Values = [],
       Labels = put_all labels [], LabeledValues = [] \<rparr>"

definition setLabel :: "label_descriptor \<Rightarrow> string \<Rightarrow> metric_set \<Rightarrow> metric_set" where
  "setLabel l v ms = ms \<lparr> Labels := gput (Key l) v (Labels ms) \<rparr>"

definition systemNameMap :: strmap where
  "systemNameMap = [(''runtime'', ''docker-daemon''), (''misc'', ''system'')]"

definition getSystemContainerName :: "container_summary \<Rightarrow> string" where
  "getSystemContainerName c = (case map_of systemNameMap (ctName c) of Some legacyName \<Rightarrow> legacyName | None \<Rightarrow> ctName c)"

abbreviation RootFsKey :: string where "RootFsKey \<equiv> ''/''"
abbreviation LogsKey :: string where "LogsKey \<equiv> ''logs''"
abbreviation VolumeResourcePrefix :: string where "VolumeResourcePrefix \<equiv> ''Volume:''"

definition decodeContainerStats :: "time \<Rightarrow> strmap \<Rightarrow> container_summary \<Rightarrow> bool \<Rightarrow> metric_set" where
  "decodeContainerStats now parentLabels c isSystemContainer =
     (let ms = summarySet parentLabels (ctStartTime c) (getScrapeTime (ctCPU c) (ctMemory c) None);
          ms = setLabel LabelMetricSetType MetricSetTypePodContainer ms;
          ms = setLabel LabelContainerName (if isSystemContainer then getSystemContainerName c else ctName c) ms;
          ms = decodeUptime now (ctStartTime c) ms;
          ms = decodeCPUStats (ctCPU c) ms;
          ms = decodeMemoryStats (ctMemory c) ms;
          ms = decodeAcceleratorStats (ctAccelerators c) ms;
          ms = decodeFsStats RootFsKey (ctRootfs c) ms;
          ms = decodeFsStats LogsKey (ctLogs c) ms;
          ms = decodeEphemeralStorageStatsForContainer (ctRootfs c) (ctLogs c) ms
      in decodeUserDefinedMetrics (ctUserDefined c) ms)"

type_synonym metric_sets = "(resource_key, metric_set) gomap"

definition nodeSet :: "'ip node_info \<Rightarrow> time \<Rightarrow> strmap \<Rightarrow> node_summary \<Rightarrow> metric_set" where
  "nodeSet info now labels n =
     (let ms = summarySet labels (nsStartTime n) (getScrapeTime (nsCPU n) (nsMemory n) (nsNetwork n));
          ms = setLabel LabelMetricSetType MetricSetTypeNode ms;
          ms = setLabel LabelNodeRole (niNodeRole info) ms;
          ms = decodeUptime now (nsStartTime n) ms;
          ms = decodeCPUStats (nsCPU n) ms;
          ms = decodeMemoryStats (nsMemory n) ms;
          ms = decodeNetworkStats (nsNetwork n) ms;
          ms = decodeFsStats RootFsKey (nsFs n) ms
      in decodeEphemeralStorageStats (nsFs n) ms)"

definition decodeSystemContainer :: "time \<Rightarrow> strmap \<Rightarrow> string \<Rightarrow> container_summary \<Rightarrow> metric_sets \<Rightarrow> metric_sets" where
  "decodeSystemContainer now labels nodeName c sets =
     gput (NodeContainerKey nodeName (getSystemContainerName c))
       (setLabel LabelMetricSetType MetricSetTypeSystemContainer (decodeContainerStats now labels c True)) sets"

definition decodeNodeStats :: "'ip node_info \<Rightarrow> time \<Rightarrow> strmap \<Rightarrow> node_summary \<Rightarrow> metric_sets \<Rightarrow> metric_sets" where
  "decodeNodeStats info now labels n sets =
     fold (decodeSystemContainer now labels (nsName n)) (nsSystemContainers n)
       (gput (NodeKey (nsName n)) (nodeSet info now labels n) sets)"

definition podSet :: "time \<Rightarrow> strmap \<Rightarrow> pod_summary \<Rightarrow> metric_set" where
  "podSet now nodeLabels p =
     (let ms = summarySet nodeLabels (psStartTime p) (getScrapeTime None None (psNetwork p));
          ms = setLabel LabelMetricSetType MetricSetTypePod ms;
          ms = setLabel LabelPodId (psUID p) ms;
          ms = setLabel LabelPodName (psName p) ms;
          ms = setLabel LabelNamespaceName (psNamespace p) ms;
          ms = decodeUptime now (psStartTime p) ms;
          ms = decodeNetworkStats (psNetwork p) ms;
          ms = decodeCPUStats (psCPU p) ms;
          ms = decodeMemoryStats (psMemory p) ms;
          ms = decodeEphemeralStorageStats (psEphemeralStorage p) ms
      in fold (\<lambda>(name, fs). decodeFsStats (VolumeResourcePrefix @ name) (Some fs)) (psVolumes p) ms)"

definition decodePodContainer :: "time \<Rightarrow> strmap \<Rightarrow> pod_summary \<Rightarrow> container_summary \<Rightarrow> metric_sets \<Rightarrow> metric_sets" where
  "decodePodContainer now parentLabels p c sets =
     (let key = PodContainerKey (psNamespace p) (psName p) (ctName c) in
      case map_of sets key of
        Some old \<Rightarrow>
          if ctStartTime c < CollectionStartTime old then sets
          else gput key (decodeContainerStats now parentLabels c False) sets
      | None \<Rightarrow> gput key (decodeContainerStats now parentLabels c False) sets)"

definition decodePodStats :: "time \<Rightarrow> strmap \<Rightarrow> pod_summary \<Rightarrow> metric_sets \<Rightarrow> metric_sets" where
  "decodePodStats now nodeLabels p sets =
     (let pod = podSet now nodeLabels p in
      fold (decodePodContainer now (Labels pod) p) (psContainers p) (gput (PodKey (psNamespace p) (psName p)) pod sets))"

definition addSummaryMetricSets :: "'ip node_info \<Rightarrow> time \<Rightarrow> summary \<Rightarrow> metric_sets \<Rightarrow> metric_sets" where
  "addSummaryMetricSets info now s sets =
     (let labels = [(Key LabelNodename, niNodeName info), (Key LabelHostname, niHostName info), (Key LabelHostID, niHostID info)]
      in fold (decodePodStats now labels) (sumPods s) (decodeNodeStats info now labels (sumNode s) sets))"

text \<open>\<open>getSummary\<close> is the request to the kubelet; the second component is the error counter.\<close>

definition summary_Scrape :: "('ip \<Rightarrow> summary go_result) \<Rightarrow> 'ip node_info \<Rightarrow> time \<Rightarrow> nat \<Rightarrow> batch go_result \<times> nat" where
  "summary_Scrape getSummary info now errors =
     (case getSummary (niIP info) of
        Inl err \<Rightarrow> (Inl err, errors + 1)
      | Inr s \<Rightarrow> (Inr \<lparr> Timestamp = now, Sets = addSummaryMetricSets info now s [], Metrics = [] \<rparr>, errors))"

section \<open>The provider\<close>

text \<open>The environment variables of the process are changed by the node that was seen last.\<close>

definition getNodeInfo :: "(string \<Rightarrow> 'ip option) \<Rightarrow> string \<Rightarrow> node \<Rightarrow> env \<Rightarrow> 'ip node_info go_result \<times> env" where
  "getNodeInfo ParseIP hostIDAnnotation n e =
     (case GetNodeHostnameAndIP ParseIP n of
        Inl err \<Rightarrow> (Inl err, e)
      | Inr (hostname, ip) \<Rightarrow>
          (let hostID = (if hostIDAnnotation \<noteq> [] then get_str (mtAnnotations (nodeMeta n)) hostIDAnnotation else []);
               e = SetKubernetesProvider (ProviderID n) (SetKubernetesVersion (KubeletVersion n) e)
           in (Inr \<lparr> niNodeName = mtName (nodeMeta n), niHostName = hostname, niHostID = hostID, niKubeletVersion = KubeletVersion n,
                     niNodeRole = GetNodeRole n, niIP = ip \<rparr>, e)))"

definition summary_GetMetricsSources :: "agent_type \<Rightarrow> (string \<Rightarrow> 'ip option) \<Rightarrow> string \<Rightarrow> node list go_result \<Rightarrow> env \<Rightarrow> 'ip node_info list \<times> env" where
  "summary_GetMetricsSources agent ParseIP hostIDAnnotation listed e =
     (if \<not> ScrapeAnyNodes agent then ([], e)
      else (case listed of
              Inl err \<Rightarrow> ([], e)
            | Inr nodes \<Rightarrow>
                fold (\<lambda>n (sources, e). (case getNodeInfo ParseIP hostIDAnnotation n e of
                                          (Inl err, e) \<Rightarrow> (sources, e)
                                        | (Inr info, e) \<Rightarrow> (sources @ [info], e))) nodes ([], e)))"

definition summary_Name :: "string \<Rightarrow> kubelet_config \<Rightarrow> string" where
  "summary_Name ip c = ''kubelet_summary:'' @ ip @ '':'' @ show_nat (unat (klPort c))"

definition NewSummaryProvider_config :: "kube_files \<Rightarrow> summary_source_config \<Rightarrow> (kubelet_config \<times> string) go_result" where
  "NewSummaryProvider_config kf cfg = (case GetKubeConfigs kf cfg of Inl e \<Rightarrow> Inl e | Inr (_, kl) \<Rightarrow> Inr (kl, []))"

section \<open>What decoding leaves alone\<close>

definition decodes :: "(metric_set \<Rightarrow> metric_set) \<Rightarrow> bool" where
  "decodes f \<longleftrightarrow> (\<forall>ms. CollectionStartTime (f ms) = CollectionStartTime ms \<and> Labels (f ms) = Labels ms \<and> (wf_set ms \<longrightarrow> wf_set (f ms)))"

named_theorems decoding

lemma decodes_id [decoding]: "decodes (\<lambda>ms. ms)"
  by (simp add: decodes_def)

lemma decodes_comp: "decodes f \<Longrightarrow> decodes g \<Longrightarrow> decodes (\<lambda>ms. g (f ms))"
  by (simp add: decodes_def)

lemma decodes_fold: "(\<And>x. x \<in> set xs \<Longrightarrow> decodes (f x)) \<Longrightarrow> decodes (fold f xs)"
  by (induction xs) (simp_all add: decodes_def)

lemma decodes_int [decoding]: "decodes (addIntMetric m v)"
  by (auto simp: decodes_def addIntMetric_def wf_set_def split: option.split)

lemma decodes_labeled [decoding]: "wf_map labels \<Longrightarrow> decodes (addLabeledMetric m labels v)"
  by (auto simp: decodes_def addLabeledMetric_def labeledInt_def wf_set_def split: option.split)

lemma decodes_uptime [decoding]: "decodes (decodeUptime now t)"
  unfolding decodeUptime_def by (cases "t = zero_time") (simp_all add: decoding)

lemma decodes_cpu [decoding]: "decodes (decodeCPUStats cpu)"
  unfolding decodeCPUStats_def Let_def
  by (cases cpu; cases "UsageNanoCores (the cpu)") (auto intro: decodes_comp [OF decodes_int] decoding)

lemma decodes_storage [decoding]: "decodes (decodeEphemeralStorageStats fs)"
  unfolding decodeEphemeralStorageStats_def by (cases fs) (auto intro: decoding)

lemma decodes_storage_container [decoding]: "decodes (decodeEphemeralStorageStatsForContainer r l)"
  unfolding decodeEphemeralStorageStatsForContainer_def
  by (cases "Option.bind r fsUsedBytes"; cases "Option.bind l fsUsedBytes") (auto intro: decoding)

lemma decodes_memory [decoding]: "decodes (decodeMemoryStats m)"
  unfolding decodeMemoryStats_def Let_def by (cases m) (auto intro!: decodes_comp [OF _ decodes_int] decoding)

lemma accelerator_labels_wf [simp]: "wf_map [(Key LabelAcceleratorMake, a), (Key LabelAcceleratorModel, b), (Key LabelAcceleratorID, c)]"
  by simp

lemma decodes_accelerators [decoding]: "decodes (decodeAcceleratorStats acs)"
  unfolding decodeAcceleratorStats_def
proof (rule decodes_fold)
  show "decodes (decodeAccelerator ac)" for ac
    unfolding decodeAccelerator_def Let_def by (intro decodes_comp [OF _ decodes_labeled] decodes_id) simp_all
qed

lemma decodes_network [decoding]: "decodes (decodeNetworkStats n)"
proof -
  have "decodes (decodeInterface i)" for i
    unfolding decodeInterface_def Let_def by (intro decodes_comp [OF _ decodes_labeled] decodes_id) simp_all
  then have "decodes (fold decodeInterface is)" for "is" by (rule decodes_fold)
  then show ?thesis
    unfolding decodeNetworkStats_def Let_def by (cases n) (auto intro!: decodes_comp [OF _ decodes_int] decodes_id)
qed

lemma decodes_fs [decoding]: "decodes (decodeFsStats k fs)"
proof (cases fs)
  case (Some f)
  then show ?thesis
    unfolding decodeFsStats_def Let_def option.case by (simp, intro decodes_comp [OF _ decodes_labeled] decodes_id) simp_all
qed (simp add: decodeFsStats_def decodes_def)

lemma decodes_user [decoding]: "decodes (decodeUserDefinedMetrics udm)"
  unfolding decodeUserDefinedMetrics_def
  by (rule decodes_fold) (auto simp: decodes_def wf_set_def)

lemma summarySet_simps [simp]:
  "CollectionStartTime (summarySet labels t u) = t" "wf_set (summarySet labels t u)"
  by (simp_all add: summarySet_def wf_set_def)

lemma setLabel_simps [simp]:
  "CollectionStartTime (setLabel l v ms) = CollectionStartTime ms" "wf_set ms \<Longrightarrow> wf_set (setLabel l v ms)"
  by (simp_all add: setLabel_def wf_set_def)

lemma decodesD: "decodes f \<Longrightarrow> CollectionStartTime (f ms) = CollectionStartTime ms" "decodes f \<Longrightarrow> wf_set ms \<Longrightarrow> wf_set (f ms)"
  by (simp_all add: decodes_def)

lemma container_set [simp]:
  "CollectionStartTime (decodeContainerStats now ls c sys) = ctStartTime c" "wf_set (decodeContainerStats now ls c sys)"
  by (simp_all add: decodeContainerStats_def Let_def decodesD decoding)

lemma nodeSet_wf [simp]: "wf_set (nodeSet info now ls n)"
  by (simp add: nodeSet_def Let_def decodesD decoding)

lemma podSet_wf [simp]: "wf_set (podSet now ls p)"
proof -
  have "decodes (fold (\<lambda>(name, fs). decodeFsStats (VolumeResourcePrefix @ name) (Some fs)) vs)" for vs
    by (rule decodes_fold) (auto simp: decoding)
  then show ?thesis by (simp add: podSet_def Let_def decodesD decoding)
qed

section \<open>The sets of a summary\<close>

lemma NodeContainerKey_neq [simp]: "NodeContainerKey n c \<noteq> PodContainerKey ns p d" "NodeContainerKey n c \<noteq> PodKey ns p"
  by (simp_all add: resource_key_defs)

abbreviation containerKey :: "pod_summary \<Rightarrow> container_summary \<Rightarrow> resource_key" where
  "containerKey p c \<equiv> PodContainerKey (psNamespace p) (psName p) (ctName c)"

definition podKeys :: "pod_summary \<Rightarrow> resource_key set" where
  "podKeys p = insert (PodKey (psNamespace p) (psName p)) (containerKey p ` set (psContainers p))"

definition nodeKeys :: "node_summary \<Rightarrow> resource_key set" where
  "nodeKeys n = insert (NodeKey (nsName n)) ((\<lambda>c. NodeContainerKey (nsName n) (getSystemContainerName c)) ` set (nsSystemContainers n))"

lemma decodePodContainer_keys: "fst ` set (decodePodContainer now ls p c sets) = insert (containerKey p c) (fst ` set sets)"
proof (cases "map_of sets (containerKey p c)")
  case (Some old)
  then have "containerKey p c \<in> fst ` set sets" by (force dest: map_of_SomeD)
  with Some show ?thesis by (auto simp: decodePodContainer_def keys_gput Let_def)
qed (simp add: decodePodContainer_def keys_gput Let_def)

lemma fold_keys: "(\<And>x m. fst ` set (f x m) = K x \<union> fst ` set m) \<Longrightarrow> fst ` set (fold f xs m) = (\<Union>x \<in> set xs. K x) \<union> fst ` set m"
  by (induction xs arbitrary: m) auto

lemma decodePodStats_keys: "fst ` set (decodePodStats now ls p sets) = podKeys p \<union> fst ` set sets"
  unfolding decodePodStats_def Let_def
  by (subst fold_keys [where K = "\<lambda>c. {containerKey p c}"]) (auto simp: decodePodContainer_keys podKeys_def keys_gput)

lemma decodeNodeStats_keys: "fst ` set (decodeNodeStats info now ls n sets) = nodeKeys n \<union> fst ` set sets"
  unfolding decodeNodeStats_def
  by (subst fold_keys [where K = "\<lambda>c. {NodeContainerKey (nsName n) (getSystemContainerName c)}"])
    (auto simp: decodeSystemContainer_def nodeKeys_def keys_gput)

lemma summary_keys:
  "fst ` set (addSummaryMetricSets info now s []) = nodeKeys (sumNode s) \<union> (\<Union>p \<in> set (sumPods s). podKeys p)"
  unfolding addSummaryMetricSets_def Let_def
  by (subst fold_keys [where K = podKeys]) (auto simp: decodePodStats_keys decodeNodeStats_keys)

text \<open>Every set is well-formed, so the batch can be processed.\<close>

definition wf_sets :: "metric_sets \<Rightarrow> bool" where
  "wf_sets sets \<longleftrightarrow> wf_map sets \<and> (\<forall>(k, v) \<in> set sets. wf_set v)"

lemma wf_sets_put: "wf_sets sets \<Longrightarrow> wf_set v \<Longrightarrow> wf_sets (gput k v sets)"
  using set_gput [of k v sets] by (auto simp: wf_sets_def)

lemma fold_wf_sets: "(\<And>x m. wf_sets m \<Longrightarrow> wf_sets (f x m)) \<Longrightarrow> wf_sets m \<Longrightarrow> wf_sets (fold f xs m)"
  by (induction xs arbitrary: m) auto

lemma decodePodStats_wf: "wf_sets sets \<Longrightarrow> wf_sets (decodePodStats now ls p sets)"
  unfolding decodePodStats_def Let_def
proof (rule fold_wf_sets)
  show "wf_sets (decodePodContainer now l p c m)" if "wf_sets m" for l c m
    using that by (auto simp: decodePodContainer_def Let_def wf_sets_put split: option.split)
qed (simp add: wf_sets_put)

lemma decodeNodeStats_wf: "wf_sets sets \<Longrightarrow> wf_sets (decodeNodeStats info now ls n sets)"
  unfolding decodeNodeStats_def by (rule fold_wf_sets) (simp_all add: decodeSystemContainer_def wf_sets_put)

lemma summary_wf: "wf_sets (addSummaryMetricSets info now s [])"
  unfolding addSummaryMetricSets_def Let_def
  by (rule fold_wf_sets [OF decodePodStats_wf decodeNodeStats_wf]) (simp_all add: wf_sets_def)

text \<open>The start time of the set under a key, and how a container moves it.\<close>

definition started :: "resource_key \<Rightarrow> metric_sets \<Rightarrow> time option" where
  "started k sets = map_option CollectionStartTime (map_of sets k)"

definition later :: "time \<Rightarrow> time option \<Rightarrow> time option" where
  "later t u = Some (case u of None \<Rightarrow> t | Some u \<Rightarrow> max u t)"

lemma started_gput: "started k (gput k' v m) = (if k' = k then Some (CollectionStartTime v) else started k m)"
  by (simp add: started_def)

lemma started_container:
  "started k (decodePodContainer now ls p c sets) = (if containerKey p c = k then later (ctStartTime c) (started k sets) else started k sets)"
  by (auto simp: started_def later_def decodePodContainer_def Let_def max_def split: option.split)

definition starts :: "resource_key \<Rightarrow> pod_summary list \<Rightarrow> time list" where
  "starts k ps = concat (map (\<lambda>p. map ctStartTime (filter (\<lambda>c. containerKey p c = k) (psContainers p))) ps)"

lemma started_containers:
  "started k (fold (decodePodContainer now ls p) cs sets) = fold later (map ctStartTime (filter (\<lambda>c. containerKey p c = k) cs)) (started k sets)"
  by (induction cs arbitrary: sets) (simp_all add: started_container)

lemma started_pods:
  assumes "\<And>p. p \<in> set ps \<Longrightarrow> PodKey (psNamespace p) (psName p) \<noteq> k"
  shows "started k (fold (decodePodStats now ls) ps sets) = fold later (starts k ps) (started k sets)"
  using assms
proof (induction ps arbitrary: sets)
  case (Cons p ps)
  have "started k (decodePodStats now ls p sets) = fold later (starts k [p]) (started k sets)"
    using Cons.prems by (simp add: decodePodStats_def Let_def started_containers starts_def started_gput)
  with Cons show ?case by (simp add: starts_def)
qed (simp add: starts_def)

lemma started_node: "started (PodContainerKey ns p c) (decodeNodeStats info now ls n sets) = started (PodContainerKey ns p c) sets"
proof -
  have "started (PodContainerKey ns p c) (fold (decodeSystemContainer now ls name) cs m) = started (PodContainerKey ns p c) m" for name cs m
    by (induction cs arbitrary: m) (simp_all add: decodeSystemContainer_def started_gput)
  then show ?thesis by (simp add: decodeNodeStats_def started_gput)
qed

lemma fold_later: "ts \<noteq> [] \<Longrightarrow> fold later ts None = Some (Max (set ts))"
proof (induction ts rule: rev_induct)
  case (snoc t ts)
  show ?case
  proof (cases "ts = []")
    case False
    with snoc.IH show ?thesis by (simp add: later_def max.commute)
  qed (simp add: later_def)
qed simp

text \<open>
  C36. A scrape of the kubelet summary gives exactly one metric set for the node, each of its system
  containers, each pod and each container, under the resource keys of these; the batch is
  well-formed. When the kubelet reports several containers under one key (a terminated one and its
  replacement), the set that is kept is that of the container that started last, in whatever order
  they are reported.
\<close>

theorem summary_Scrape_sets:
  assumes "summary_Scrape getSummary info now errors = (Inr b, errors')"
    and "getSummary (niIP info) = Inr s"
    and "\<And>p. p \<in> set (sumPods s) \<Longrightarrow> no_slash (psNamespace p) \<and> no_slash (psName p)"
  shows "dom (map_of (Sets b)) = nodeKeys (sumNode s) \<union> (\<Union>p \<in> set (sumPods s). podKeys p) \<and> wf_batch b \<and>
    (\<forall>p c. p \<in> set (sumPods s) \<and> c \<in> set (psContainers p) \<longrightarrow>
       map_option CollectionStartTime (map_of (Sets b) (containerKey p c)) = Some (Max (set (starts (containerKey p c) (sumPods s)))))"
proof -
  have b: "b = \<lparr> Timestamp = now, Sets = addSummaryMetricSets info now s [], Metrics = [] \<rparr>"
    using assms(1,2) by (simp add: summary_Scrape_def)
  have "wf_batch b" using summary_wf [of info now s] by (simp add: b wf_batch_def wf_sets_def)
  moreover have "map_option CollectionStartTime (map_of (Sets b) (containerKey p c)) = Some (Max (set (starts (containerKey p c) (sumPods s))))"
    if "p \<in> set (sumPods s)" "c \<in> set (psContainers p)" for p c
  proof -
    have "PodKey (psNamespace q) (psName q) \<noteq> containerKey p c" if "q \<in> set (sumPods s)" for q
      using assms(3) [OF that] assms(3) [OF \<open>p \<in> set (sumPods s)\<close>] by (simp add: PodKey_neq_PodContainerKey)
    from started_pods [OF this] have "started (containerKey p c) (Sets b) = fold later (starts (containerKey p c) (sumPods s)) None"
      by (simp add: b addSummaryMetricSets_def Let_def started_node) (simp add: started_def)
    moreover have "starts (containerKey p c) (sumPods s) \<noteq> []" using that by (auto simp: starts_def filter_empty_conv)
    ultimately show ?thesis by (simp add: fold_later started_def)
  qed
  ultimately show ?thesis using summary_keys [of info now s] by (simp add: b dom_map_of_conv_image_fst)
qed

definition sample_container :: "time \<Rightarrow> container_summary" where
  "sample_container t = \<lparr> ctName = ''c'', ctStartTime = t, ctCPU = None, ctMemory = None, ctAccelerators = [], ctRootfs = None, ctLogs = None,
     ctUserDefined = [] \<rparr>"

definition sample_stats :: summary where
  "sample_stats = \<lparr> sumNode = \<lparr> nsName = ''n'', nsStartTime = 1, nsSystemContainers = [], nsCPU = None, nsMemory = None, nsNetwork = None, nsFs = None \<rparr>,
     sumPods = [\<lparr> psName = ''p'', psNamespace = ''ns'', psUID = ''u'', psStartTime = 2, psContainers = [sample_container 7, sample_container 5],
       psCPU = None, psMemory = None, psNetwork = None, psVolumes = [], psEphemeralStorage = None \<rparr>] \<rparr>"

theorem summary_Scrape_sets_witness:
  "\<exists>b. summary_Scrape (\<lambda>_. Inr sample_stats) \<lparr> niNodeName = ''n'', niHostName = ''h'', niHostID = [], niKubeletVersion = [], niNodeRole = ''worker'', niIP = () \<rparr> 9 0 = (Inr b, 0) \<and>
     map_option CollectionStartTime (map_of (Sets b) (PodContainerKey ''ns'' ''p'' ''c'')) = Some 7"
proof -
  let ?info = "\<lparr> niNodeName = ''n'', niHostName = ''h'', niHostID = [], niKubeletVersion = [], niNodeRole = ''worker'', niIP = () \<rparr>"
  let ?p = "hd (sumPods sample_stats)"
  obtain b where run: "summary_Scrape (\<lambda>_. Inr sample_stats) ?info 9 0 = (Inr b, 0)" by (simp add: summary_Scrape_def)
  have c: "?p \<in> set (sumPods sample_stats)" "sample_container 7 \<in> set (psContainers ?p)" "containerKey ?p (sample_container 7) = PodContainerKey ''ns'' ''p'' ''c''"
    by (simp_all add: sample_stats_def sample_container_def)
  have "starts (PodContainerKey ''ns'' ''p'' ''c'') (sumPods sample_stats) = [7, 5]"
    by (simp add: starts_def sample_stats_def sample_container_def)
  moreover have "no_slash (psNamespace q) \<and> no_slash (psName q)" if "q \<in> set (sumPods sample_stats)" for q
    using that by (simp add: sample_stats_def)
  ultimately have "map_option CollectionStartTime (map_of (Sets b) (PodContainerKey ''ns'' ''p'' ''c'')) = Some (Max (set [7, 5]))"
    using summary_Scrape_sets [OF run, of sample_stats] c by metis
  with run show ?thesis by simp
qed

end
