(* ===== verification/State_Source.thy ===== *)
theory State_Source
  imports Wf_Sink Kube_Util Leadership
begin

text \<open>
  The Kubernetes state source (\<^verbatim>\<open>plugins/sources/kstate\<close>): points about the desired and actual state of
  workloads, nodes and pods that are not running. The informers of client-go are a store that lists
  the objects of a resource type.

  The points of one workload share one tag map, from which the filter of the first point removes
  tags. A handler therefore returns groups of points with their common map, and the scrape threads
  the map through the group.
\<close>

section \<open>Objects\<close>

record workload =
  wlMeta :: object_meta
  wlReplicas :: "32 word option"
  wlAvailable :: "32 word"
  wlReady :: "32 word"
  wlCurrent :: "32 word"
  wlUpdated :: "32 word"

record daemon_set =
  dsMeta :: object_meta
  dsCurrentScheduled :: "32 word"
  dsDesiredScheduled :: "32 word"
  dsMisscheduled :: "32 word"
  dsReady :: "32 word"

record job =
  jbMeta :: object_meta
  jbActive :: "32 word"
  jbFailed :: "32 word"
  jbSucceeded :: "32 word"
  jbCompletions :: "32 word option"
  jbParallelism :: "32 word option"

record cron_job =
  cjMeta :: object_meta
  cjActive :: nat

record autoscaler =
  hpMeta :: object_meta
  hpMaxReplicas :: "32 word"
  hpMinReplicas :: "32 word option"
  hpCurrentReplicas :: "32 word"
  hpDesiredReplicas :: "32 word"

text \<open>What an \<^verbatim>\<open>interface{}\<close> of a store can hold, by its dynamic type.\<close>

datatype state_object =
    ObjDaemonSet daemon_set
  | ObjDeployment workload
  | ObjReplicaSet workload
  | ObjReplicationController workload
  | ObjStatefulSet workload
  | ObjJob job
  | ObjCronJob cron_job
  | ObjHPAv2beta1 autoscaler
  | ObjHPAv2beta2 autoscaler
  | ObjNode node
  | ObjPod pod
  | ObjOther

section \<open>Helpers\<close>

record point_group =
  pgTags :: strmap
  pgPoints :: "(string \<times> f64) list"

definition state_buildTags :: "string \<Rightarrow> string \<Rightarrow> string \<Rightarrow> strmap \<Rightarrow> strmap" where
  "state_buildTags key name ns srcTags =
     (let tags = [(key, name)];
          tags = (if ns \<noteq> [] then gput ''namespace_name'' ns tags else tags)
      in put_all srcTags tags)"

definition copyUserLabels :: "strmap \<Rightarrow> strmap \<Rightarrow> strmap" where
  "copyUserLabels inn out = fold (\<lambda>(k, v) out. if length k > 0 \<and> length v > 0 then gput (''label.'' @ k) v out else out) inn out"

definition copyTags :: "strmap \<Rightarrow> strmap \<Rightarrow> strmap" where
  "copyTags inn out = fold (\<lambda>(k, v) out. if length k > 0 \<and> length v > 0 then gput k v out else out) inn out"

definition f_of_int32 :: "32 word \<Rightarrow> f64" where
  "f_of_int32 w = rnd (of_int (sint w))"

definition floatVal :: "32 word option \<Rightarrow> f64 \<Rightarrow> f64" where
  "floatVal i f = (case i of Some w \<Rightarrow> f_of_int32 w | None \<Rightarrow> f)"

section \<open>Workloads\<close>

definition workloadGroup :: "string \<Rightarrow> object_meta \<Rightarrow> transforms \<Rightarrow> (string \<times> f64) list \<Rightarrow> point_group list" where
  "workloadGroup key m tr points = [\<lparr> pgTags = state_buildTags key (mtName m) (mtNamespace m) (Tags tr), pgPoints = points \<rparr>]"

fun pointsForCronJob :: "state_object \<Rightarrow> transforms \<Rightarrow> point_group list" where
  "pointsForCronJob (ObjCronJob j) tr = workloadGroup ''cronjob'' (cjMeta j) tr [(''cronjob.active'', rnd (of_nat (cjActive j)))]"
| "pointsForCronJob _ tr = []"

fun pointsForDeployment :: "state_object \<Rightarrow> transforms \<Rightarrow> point_group list" where
  "pointsForDeployment (ObjDeployment d) tr = workloadGroup ''deployment'' (wlMeta d) tr
     [(''deployment.desired_replicas'', floatVal (wlReplicas d) (Fin 1)), (''deployment.available_replicas'', f_of_int32 (wlAvailable d)),
      (''deployment.ready_replicas'', f_of_int32 (wlReady d))]"
| "pointsForDeployment _ tr = []"

fun pointsForReplicaSet :: "state_object \<Rightarrow> transforms \<Rightarrow> point_group list" where
  "pointsForReplicaSet (ObjReplicaSet d) tr = workloadGroup ''replicaset'' (wlMeta d) tr
     [(''replicaset.desired_replicas'', floatVal (wlReplicas d) (Fin 1)), (''replicaset.available_replicas'', f_of_int32 (wlAvailable d)),
      (''replicaset.ready_replicas'', f_of_int32 (wlReady d))]"
| "pointsForReplicaSet _ tr = []"

fun pointsForReplicationController :: "state_object \<Rightarrow> transforms \<Rightarrow> point_group list" where
  "pointsForReplicationController (ObjReplicationController d) tr = workloadGroup ''replicationcontroller'' (wlMeta d) tr
     [(''replicationcontroller.desired_replicas'', floatVal (wlReplicas d) (Fin 1)),
      (''replicationcontroller.available_replicas'', f_of_int32 (wlAvailable d)),
      (''replicationcontroller.ready_replicas'', f_of_int32 (wlReady d))]"
| "pointsForReplicationController _ tr = []"

fun pointsForStatefulSet :: "state_object \<Rightarrow> transforms \<Rightarrow> point_group list" where
  "pointsForStatefulSet (ObjStatefulSet s) tr = workloadGroup ''statefulset'' (wlMeta s) tr
     [(''statefulset.desired_replicas'', floatVal (wlReplicas s) (Fin 1)), (''statefulset.current_replicas'', f_of_int32 (wlCurrent s)),
      (''statefulset.ready_replicas'', f_of_int32 (wlReady s)), (''statefulset.updated_replicas'', f_of_int32 (wlUpdated s))]"
| "pointsForStatefulSet _ tr = []"

fun pointsForDaemonSet :: "state_object \<Rightarrow> transforms \<Rightarrow> point_group list" where
  "pointsForDaemonSet (ObjDaemonSet d) tr = workloadGroup ''daemonset'' (dsMeta d) tr
     [(''daemonset.current_scheduled'', f_of_int32 (dsCurrentScheduled d)), (''daemonset.desired_scheduled'', f_of_int32 (dsDesiredScheduled d)),
      (''daemonset.misscheduled'', f_of_int32 (dsMisscheduled d)), (''daemonset.ready'', f_of_int32 (dsReady d))]"
| "pointsForDaemonSet _ tr = []"

fun pointsForJob :: "state_object \<Rightarrow> transforms \<Rightarrow> point_group list" where
  "pointsForJob (ObjJob j) tr = workloadGroup ''job'' (jbMeta j) tr
     [(''job.active'', f_of_int32 (jbActive j)), (''job.failed'', f_of_int32 (jbFailed j)), (''job.succeeded'', f_of_int32 (jbSucceeded j)),
      (''job.completions'', floatVal (jbCompletions j) (Fin (- 1))), (''job.parallelism'', floatVal (jbParallelism j) (Fin (- 1)))]"
| "pointsForJob _ tr = []"

fun pointsForHPA :: "state_object \<Rightarrow> transforms \<Rightarrow> point_group list" where
  "pointsForHPA (ObjHPAv2beta2 h) tr = workloadGroup ''hpa'' (hpMeta h) tr
     [(''hpa.max_replicas'', f_of_int32 (hpMaxReplicas h)), (''hpa.min_replicas'', floatVal (hpMinReplicas h) (Fin 1)),
      (''hpa.current_replicas'', f_of_int32 (hpCurrentReplicas h)), (''hpa.desired_replicas'', f_of_int32 (hpDesiredReplicas h))]"
| "pointsForHPA _ tr = []"

section \<open>Nodes\<close>

definition nodeTags :: "node \<Rightarrow> transforms \<Rightarrow> strmap" where
  "nodeTags n tr = copyUserLabels (mtLabels (nodeMeta n)) (state_buildTags ''nodename'' (mtName (nodeMeta n)) [] (Tags tr))"

definition nodeConditionFloat64 :: "string \<Rightarrow> f64" where
  "nodeConditionFloat64 status = (if status = ''True'' then Fin 1 else if status = ''False'' then Fin 0 else Fin (- 1))"

definition buildNodeConditions :: "node \<Rightarrow> transforms \<Rightarrow> point_group list" where
  "buildNodeConditions n tr =
     map (\<lambda>(t, status). \<lparr> pgTags = gput (Key LabelNodeRole) (GetNodeRole n) (gput ''condition'' t (gput ''status'' status (nodeTags n tr))),
                           pgPoints = [(''node.status.condition'', nodeConditionFloat64 status)] \<rparr>) (nodeConditions n)"

definition buildNodeTaints :: "node \<Rightarrow> transforms \<Rightarrow> point_group list" where
  "buildNodeTaints n tr =
     map (\<lambda>t. \<lparr> pgTags = gput ''effect'' (taintEffect t) (gput ''value'' (taintValue t) (gput ''key'' (taintKey t) (nodeTags n tr))),
                pgPoints = [(''node.spec.taint'', Fin 1)] \<rparr>) (Taints n)"

definition buildNodeInfo :: "node \<Rightarrow> transforms \<Rightarrow> point_group" where
  "buildNodeInfo n tr =
     (let tags = put_all [(''kernel_version'', KernelVersion n), (''os_image'', OSImage n),
                   (''container_runtime_version'', ContainerRuntimeVersion n), (''kubelet_version'', KubeletVersion n),
                   (''kubeproxy_version'', KubeProxyVersion n), (''provider_id'', ProviderID n), (''pod_cidr'', PodCIDR n),
                   (''node_role'', GetNodeRole n)] (nodeTags n tr);
          tags = fold (\<lambda>a tags. if naType a = ''InternalIP'' then gput ''internal_ip'' (naAddress a) tags else tags) (Addresses n) tags
      in \<lparr> pgTags = tags, pgPoints = [(''node.info'', Fin 1)] \<rparr>)"

fun pointsForNode :: "state_object \<Rightarrow> transforms \<Rightarrow> point_group list" where
  "pointsForNode (ObjNode n) tr = buildNodeConditions n tr @ buildNodeTaints n tr @ [buildNodeInfo n tr]"
| "pointsForNode _ tr = []"

section \<open>Pods that are not running\<close>

definition maxPointTagLength :: nat where
  "maxPointTagLength = 255 - length ''='' - length ''message''"

definition truncateMessage :: "string \<Rightarrow> string" where
  "truncateMessage message = (if length message \<ge> maxPointTagLength then take maxPointTagLength message else message)"

definition addReason :: "pod_condition \<Rightarrow> strmap \<Rightarrow> strmap" where
  "addReason c tags = gput ''message'' (truncateMessage (pcMessage c)) (gput ''reason'' (pcReason c) tags)"

definition pendingReason :: "pod_condition \<Rightarrow> strmap \<Rightarrow> strmap" where
  "pendingReason c tags =
     (if pcType c = ''PodScheduled'' \<and> pcStatus c = ''False'' then addReason c (gput (Key LabelNodename) ''none'' tags)
      else if pcType c = ''ContainersReady'' \<and> pcStatus c = ''False'' then addReason c tags
      else tags)"

definition failedReason :: "pod_condition \<Rightarrow> strmap \<Rightarrow> strmap" where
  "failedReason c tags = (if pcType c = ''Ready'' then addReason c tags else tags)"

text \<open>The shared tags get the name of the node as a side effect.\<close>

definition buildPodPhaseMetrics :: "pod \<Rightarrow> transforms \<Rightarrow> strmap \<Rightarrow> point_group \<times> strmap" where
  "buildPodPhaseMetrics p tr sharedTags =
     (let tags = state_buildTags ''pod_name'' (mtName (podMeta p)) (mtNamespace (podMeta p)) (Tags tr);
          tags = gput (Key LabelMetricSetType) MetricSetTypePod tags;
          tags = gput (Key LabelPodId) (mtUID (podMeta p)) tags;
          tags = gput ''phase'' (podPhase p) tags;
          phase = ConvertPodPhase (podPhase p);
          tags = (if phase = 1 then fold pendingReason (podConditions p) tags else tags);
          tags = (if phase = 4 then fold failedReason (podConditions p) tags else tags);
          sharedTags = (if length (podNodeName p) > 0 then gput (Key LabelNodename) (podNodeName p) sharedTags else sharedTags)
      in (\<lparr> pgTags = copyTags sharedTags tags, pgPoints = [(''pod.status.phase'', f_of_int64 phase)] \<rparr>, sharedTags))"

definition buildContainerStatusMetrics :: "pod \<Rightarrow> strmap \<Rightarrow> transforms \<Rightarrow> point_group list" where
  "buildContainerStatusMetrics p sharedTags tr =
     map (\<lambda>status.
        let csi = NewContainerStateInfo (csState status);
            tags = state_buildTags ''pod_name'' (mtName (podMeta p)) (mtNamespace (podMeta p)) (Tags tr);
            tags = gput (Key LabelMetricSetType) MetricSetTypePodContainer tags;
            tags = gput (Key LabelContainerName) (csName status) tags;
            tags = gput (Key LabelContainerBaseImage) (csImage status) tags
        in \<lparr> pgTags = AddMetricTags csi (copyTags sharedTags tags), pgPoints = [(''pod_container.status'', rnd (of_int (siValue csi)))] \<rparr>)
       (ContainerStatuses p)"

fun pointsForNonRunningPods :: "state_object \<Rightarrow> transforms \<Rightarrow> point_group list" where
  "pointsForNonRunningPods (ObjPod p) tr =
     (let (phase, sharedTags) = buildPodPhaseMetrics p tr (copyUserLabels (mtLabels (podMeta p)) [])
      in phase # buildContainerStatusMetrics p sharedTags tr)"
| "pointsForNonRunningPods _ tr = []"

section \<open>The source\<close>

definition stateFuncs :: "(string \<times> (state_object \<Rightarrow> transforms \<Rightarrow> point_group list)) list" where
  "stateFuncs =
     [(''jobs'', pointsForJob), (''cronjobs'', pointsForCronJob), (''daemonsets'', pointsForDaemonSet),
      (''deployments'', pointsForDeployment), (''replicasets'', pointsForReplicaSet),
      (''replicationcontrollers'', pointsForReplicationController), (''statefulsets'', pointsForStatefulSet),
      (''horizontalpodautoscalers'', pointsForHPA), (''nodes'', pointsForNode), (''pods'', pointsForNonRunningPods)]"

record state_source =
  ssTransforms :: transforms
  ssFilters :: "glob_filter option"

definition NewStateMetricsSource :: "glob_compiler \<Rightarrow> env \<Rightarrow> transforms \<Rightarrow> state_source" where
  "NewStateMetricsSource gc e tr =
     (let tr = tr \<lparr> Source := GetStringValue (GetNodeName e) (Source tr) \<rparr>;
          tr = tr \<lparr> Prefix := GetStringValue (Prefix tr) ''kubernetes.'' \<rparr>
      in \<lparr> ssTransforms = tr, ssFilters = FromConfig gc (Filters tr) \<rparr>)"

text \<open>The store lists the objects of a resource type, or nothing for an unsupported one.\<close>

definition pointsForResource :: "(string \<Rightarrow> state_object list option) \<Rightarrow> state_source \<Rightarrow> string \<Rightarrow> point_group list" where
  "pointsForResource store src resType =
     (case store resType of
        None \<Rightarrow> []
      | Some items \<Rightarrow>
          if length items = 0 then []
          else (case map_of stateFuncs resType of
                  None \<Rightarrow> []
                | Some f \<Rightarrow> concat (map (\<lambda>item. f item (ssTransforms src)) items)))"

text \<open>The points of a group are filtered one after the other, with the tags that are left.\<close>

fun filterGroup :: "state_source \<Rightarrow> int64 \<Rightarrow> strmap \<Rightarrow> (string \<times> f64) list \<Rightarrow> wf_metric list \<times> nat \<Rightarrow> wf_metric list \<times> nat" where
  "filterGroup src ts tags [] st = st"
| "filterGroup src ts tags ((name, v) # rest) (points, filtered) =
     (case wf_Filter (ssFilters src) (Some (MPoint (NewPoint (Prefix (ssTransforms src) @ name) v ts (Source (ssTransforms src)) tags))) of
        (None, n) \<Rightarrow> filterGroup src ts tags rest (points, filtered + n)
      | (Some m, n) \<Rightarrow> filterGroup src ts (case m of MPoint p \<Rightarrow> ptags p | MDist _ \<Rightarrow> tags) rest (points @ [m], filtered + n))"

record state_counters =
  scCollected :: nat
  scFiltered :: nat

text \<open>\<open>order\<close> is the order in which the map of handlers is gone through.\<close>

definition state_Scrape :: "(string \<Rightarrow> state_object list option) \<Rightarrow> string list \<Rightarrow> time \<Rightarrow> state_source \<Rightarrow> state_counters \<Rightarrow> batch \<times> state_counters" where
  "state_Scrape store order now src c =
     (let groups = concat (map (pointsForResource store src) order);
          (points, filtered) = fold (\<lambda>g. filterGroup src (Time_Unix now) (pgTags g) (pgPoints g)) groups ([], scFiltered c)
      in (\<lparr> Timestamp = now, Sets = [], Metrics = map Some points \<rparr>,
          \<lparr> scCollected = scCollected c + length points, scFiltered = filtered \<rparr>))"

definition state_GetMetricsSources :: "agent_type \<Rightarrow> leadership \<Rightarrow> state_source list \<Rightarrow> state_source list" where
  "state_GetMetricsSources ag l sources = (if \<not> Leading ag l then [] else sources)"

definition NewStateProvider :: "agent_type \<Rightarrow> glob_compiler \<Rightarrow> env \<Rightarrow> bool \<Rightarrow> transforms \<Rightarrow> state_source list go_result" where
  "NewStateProvider ag gc e hasClient tr =
     (if \<not> ScrapeCluster ag then Inr []
      else if \<not> hasClient then Inl (Errorf ''kubeclient not initialized'')
      else Inr [NewStateMetricsSource gc e tr])"

section \<open>The informers\<close>

text \<open>The resource types that have an informer.\<close>

definition informerTypes :: "string list" where
  "informerTypes = [''daemonsets'', ''deployments'', ''statefulsets'', ''replicasets'', ''jobs'', ''cronjobs'', ''horizontalpodautoscalers'',
     ''nodes'', ''replicationcontrollers'', ''pods'']"

text \<open>The type of the objects that the informer of a resource type holds.\<close>

fun informerHolds :: "string \<Rightarrow> state_object \<Rightarrow> bool" where
  "informerHolds r (ObjDaemonSet _) = (r = ''daemonsets'')"
| "informerHolds r (ObjDeployment _) = (r = ''deployments'')"
| "informerHolds r (ObjReplicaSet _) = (r = ''replicasets'')"
| "informerHolds r (ObjReplicationController _) = (r = ''replicationcontrollers'')"
| "informerHolds r (ObjStatefulSet _) = (r = ''statefulsets'')"
| "informerHolds r (ObjJob _) = (r = ''jobs'')"
| "informerHolds r (ObjCronJob _) = (r = ''cronjobs'')"
| "informerHolds r (ObjHPAv2beta1 _) = (r = ''horizontalpodautoscalers'')"
| "informerHolds r (ObjHPAv2beta2 _) = False"
| "informerHolds r (ObjNode _) = (r = ''nodes'')"
| "informerHolds r (ObjPod p) = (r = ''pods'' \<and> podPhase p \<noteq> ''Running'')"
| "informerHolds r ObjOther = False"

definition typed_store :: "(string \<Rightarrow> state_object list option) \<Rightarrow> bool" where
  "typed_store store \<longleftrightarrow> (\<forall>r items. store r = Some items \<longrightarrow> list_all (informerHolds r) items)"

text \<open>The points an object stands for.\<close>

fun pointCount :: "state_object \<Rightarrow> nat" where
  "pointCount (ObjDaemonSet _) = 4"
| "pointCount (ObjDeployment _) = 3"
| "pointCount (ObjReplicaSet _) = 3"
| "pointCount (ObjReplicationController _) = 3"
| "pointCount (ObjStatefulSet _) = 4"
| "pointCount (ObjJob _) = 5"
| "pointCount (ObjCronJob _) = 1"
| "pointCount (ObjHPAv2beta1 _) = 0"
| "pointCount (ObjHPAv2beta2 _) = 0"
| "pointCount (ObjNode n) = length (nodeConditions n) + length (Taints n) + 1"
| "pointCount (ObjPod p) = 1 + length (ContainerStatuses p)"
| "pointCount ObjOther = 0"

section \<open>Accounting\<close>

lemma filterGroup_count:
  "length (fst (filterGroup src ts tags pts st)) + snd (filterGroup src ts tags pts st) = length (fst st) + snd st + length pts"
proof (induction pts arbitrary: tags st)
  case (Cons p pts)
  obtain name v points filtered where p: "p = (name, v)" "st = (points, filtered)" by (cases p; cases st)
  let ?m = "MPoint (NewPoint (Prefix (ssTransforms src) @ name) v ts (Source (ssTransforms src)) tags)"
  from wf_Filter_cases [of "ssFilters src" ?m] show ?case
  proof
    assume "\<exists>m. wf_Filter (ssFilters src) (Some ?m) = (Some m, 0)"
    then obtain m where "wf_Filter (ssFilters src) (Some ?m) = (Some m, 0)" by blast
    with Cons.IH show ?thesis by (simp add: p)
  next
    assume "wf_Filter (ssFilters src) (Some ?m) = (None, 1)"
    with Cons.IH show ?thesis by (simp add: p)
  qed
qed (cases st, simp)

lemma fold_filterGroup_count:
  "length (fst (fold (\<lambda>g. filterGroup src ts (pgTags g) (pgPoints g)) gs st)) + snd (fold (\<lambda>g. filterGroup src ts (pgTags g) (pgPoints g)) gs st) =
     length (fst st) + snd st + (\<Sum>g \<leftarrow> gs. length (pgPoints g))"
  by (induction gs arbitrary: st) (simp_all add: filterGroup_count)

lemma group_sums: "(\<Sum>g \<leftarrow> concat (map f xs). length (pgPoints g)) = (\<Sum>x \<leftarrow> xs. \<Sum>g \<leftarrow> f x. length (pgPoints g))"
  by (induction xs) simp_all

lemma pods_points: "(\<Sum>g \<leftarrow> pointsForNonRunningPods (ObjPod p) tr. length (pgPoints g)) = 1 + length (ContainerStatuses p)"
proof -
  have "(\<Sum>g \<leftarrow> buildContainerStatusMetrics p sh tr. length (pgPoints g)) = length (ContainerStatuses p)" for sh
    by (simp add: buildContainerStatusMetrics_def Let_def comp_def sum_list_triv)
  then show ?thesis by (simp add: buildPodPhaseMetrics_def Let_def)
qed

lemma node_points: "(\<Sum>g \<leftarrow> pointsForNode (ObjNode n) tr. length (pgPoints g)) = length (nodeConditions n) + length (Taints n) + 1"
  by (simp add: buildNodeConditions_def buildNodeTaints_def buildNodeInfo_def comp_def case_prod_unfold sum_list_triv Let_def)

lemma handler_points:
  assumes "informerHolds r item" "map_of stateFuncs r = Some f"
  shows "(\<Sum>g \<leftarrow> f item tr. length (pgPoints g)) = pointCount item"
proof (cases item)
  case (ObjNode n)
  with assms show ?thesis using node_points [of n tr] by (simp add: stateFuncs_def del: pointsForNode.simps)
next
  case (ObjPod p)
  with assms show ?thesis using pods_points [of p tr] by (simp add: stateFuncs_def del: pointsForNonRunningPods.simps)
qed (use assms in \<open>auto simp: stateFuncs_def workloadGroup_def\<close>)

lemma resource_points:
  assumes "typed_store store" "r \<in> set (map fst stateFuncs)"
  shows "(\<Sum>g \<leftarrow> pointsForResource store src r. length (pgPoints g)) =
    (\<Sum>item \<leftarrow> (case store r of None \<Rightarrow> [] | Some items \<Rightarrow> items). pointCount item)"
proof (cases "store r")
  case (Some items)
  obtain f where f: "map_of stateFuncs r = Some f" using assms(2) by (metis map_of_eq_None_iff not_None_eq set_map)
  have "list_all (informerHolds r) items" using assms(1) Some by (auto simp: typed_store_def)
  then have "(\<Sum>item \<leftarrow> items. \<Sum>g \<leftarrow> f item (ssTransforms src). length (pgPoints g)) = (\<Sum>item \<leftarrow> items. pointCount item)"
    by (intro arg_cong [where f = sum_list] map_cong refl handler_points [OF _ f]) (simp add: list_all_iff)
  then show ?thesis by (simp add: pointsForResource_def Some f group_sums)
qed (simp add: pointsForResource_def)

lemma handlers_for_informers: "mset (map fst stateFuncs) = mset informerTypes"
  by (simp add: stateFuncs_def informerTypes_def)

text \<open>
  C37. A scrape of the state source accounts for every object of the informers: each workload, node and
  pod contributes its fixed number of points (a node one per condition and taint and one more, a pod
  that is not running one and one per container), and each of these points is in the batch or counted
  as filtered, in whatever order the handlers run. Horizontal pod autoscalers contribute nothing.
\<close>

theorem state_Scrape_accounting:
  assumes "typed_store store" "mset order = mset (map fst stateFuncs)"
    and "state_Scrape store order now src c = (b, c')"
  shows "length (Metrics b) + scFiltered c' =
      scFiltered c + (\<Sum>r \<leftarrow> informerTypes. \<Sum>item \<leftarrow> (case store r of None \<Rightarrow> [] | Some items \<Rightarrow> items). pointCount item) \<and>
    scCollected c' = scCollected c + length (Metrics b)"
proof -
  let ?gs = "concat (map (pointsForResource store src) order)"
  let ?count = "\<lambda>r. \<Sum>item \<leftarrow> (case store r of None \<Rightarrow> [] | Some items \<Rightarrow> items). pointCount item"
  have "set order = set (map fst stateFuncs)" using assms(2) by (metis set_mset_mset)
  then have "(\<Sum>g \<leftarrow> ?gs. length (pgPoints g)) = (\<Sum>r \<leftarrow> order. ?count r)"
    unfolding group_sums by (intro arg_cong [where f = sum_list] map_cong refl resource_points [OF assms(1)]) simp
  also have "\<dots> = (\<Sum>r \<leftarrow> informerTypes. ?count r)"
  proof -
    have "mset order = mset informerTypes" using assms(2) handlers_for_informers by (rule trans)
    then have "mset (map ?count order) = mset (map ?count informerTypes)" by (simp only: mset_map)
    then show ?thesis by (metis sum_mset_sum_list)
  qed
  finally show ?thesis
    using assms(3) fold_filterGroup_count [of src "Time_Unix now" ?gs "([], scFiltered c)"]
    by (auto simp: state_Scrape_def case_prod_unfold Let_def)
qed

definition sample_store :: "string \<Rightarrow> state_object list option" where
  "sample_store r =
     (if r = ''jobs'' then Some [ObjJob \<lparr> jbMeta = \<lparr> mtName = ''j'', mtNamespace = ''ns'', mtUID = [], mtLabels = [], mtAnnotations = [] \<rparr>,
        jbActive = 1, jbFailed = 0, jbSucceeded = 0, jbCompletions = None, jbParallelism = Some 2 \<rparr>] else Some [])"

theorem state_Scrape_accounting_witness:
  "length (Metrics (fst (state_Scrape sample_store (map fst stateFuncs) 0 \<lparr> ssTransforms = zeroTransforms, ssFilters = None \<rparr>
      \<lparr> scCollected = 0, scFiltered = 0 \<rparr>))) = 5"
proof -
  let ?src = "\<lparr> ssTransforms = zeroTransforms, ssFilters = None \<rparr>" and ?c = "\<lparr> scCollected = 0, scFiltered = 0 \<rparr>"
  obtain b c' where run: "state_Scrape sample_store (map fst stateFuncs) 0 ?src ?c = (b, c')" by fastforce
  have "typed_store sample_store" by (auto simp: typed_store_def sample_store_def)
  from state_Scrape_accounting [OF this refl run] have "length (Metrics b) + scFiltered c' = 5"
    by (simp add: informerTypes_def sample_store_def)
  moreover have "scFiltered (snd (state_Scrape sample_store (map fst stateFuncs) 0 ?src ?c)) = 0"
    by (simp add: state_Scrape_def stateFuncs_def pointsForResource_def sample_store_def workloadGroup_def wf_Filter_def case_prod_unfold Let_def)
  ultimately show ?thesis by (simp add: run)
qed

section \<open>Autoscalers and messages\<close>

text \<open>The informer holds autoscalers of another version than the handler asks for.\<close>

lemma hpa_never_reported: "typed_store store \<Longrightarrow> pointsForResource store src ''horizontalpodautoscalers'' = []"
proof -
  assume t: "typed_store store"
  have "pointsForHPA item tr = []" if "informerHolds ''horizontalpodautoscalers'' item" for item tr
    using that by (cases item) auto
  with t show ?thesis
    by (auto simp: pointsForResource_def stateFuncs_def typed_store_def list_all_iff split: option.split)
qed

text \<open>A message fits into a point tag together with its name.\<close>

lemma truncateMessage_fits: "length (''message'' @ ''='' @ truncateMessage m) \<le> 255"
  by (simp add: truncateMessage_def maxPointTagLength_def)

end
