(* ===== verification/Systemd_Source.thy ===== *)
theory Systemd_Source
  imports Wf_Sink Kube_Util
begin

text \<open>
  The systemd source (\<^verbatim>\<open>plugins/sources/systemd\<close>). The connection to the bus is a parameter: it lists the
  units and gives their properties, whose types are those systemd documents.

  The collectors run in parallel and send their points to one channel, whose reader filters and
  collects them. Which collector sends next is decided by a schedule; when the schedule is used up,
  the collectors finish one after the other. A point refers to its tag map, and the three points of
  a socket refer to the same one, which the filter changes: the maps are kept in a store.
\<close>

section \<open>Units\<close>

record unit_status =
  usName :: string
  usLoadState :: string
  usActiveState :: string

record dbus_conn =
  dbListUnits :: "unit_status list go_result"
  dbString :: "string \<Rightarrow> string \<Rightarrow> string \<Rightarrow> string option"
  dbUint32 :: "string \<Rightarrow> string \<Rightarrow> string \<Rightarrow> 32 word option"
  dbUint64 :: "string \<Rightarrow> string \<Rightarrow> string \<Rightarrow> 64 word option"
  dbSystemState :: "string go_result"

record unit_filter =
  unitAllowList :: "glob option"
  unitDenyList :: "glob option"

definition uf_match :: "unit_filter \<Rightarrow> string \<Rightarrow> bool" where
  "uf_match uf name =
     (if (case unitAllowList uf of Some g \<Rightarrow> \<not> g name | None \<Rightarrow> False) then False
      else if (case unitDenyList uf of Some g \<Rightarrow> g name | None \<Rightarrow> False) then False
      else True)"

definition uf_fromConfig :: "glob_compiler \<Rightarrow> string list \<Rightarrow> string list \<Rightarrow> unit_filter option" where
  "uf_fromConfig gc allow deny =
     (if length allow = 0 \<and> length deny = 0 then None
      else Some \<lparr> unitAllowList = Compile gc allow, unitDenyList = Compile gc deny \<rparr>)"

record systemd_source =
  sdPrefix :: string
  sdSource :: string
  sdTaskMetrics :: bool
  sdStartTimeMetrics :: bool
  sdRestartMetrics :: bool
  sdUnitsFilter :: "unit_filter option"
  sdFilters :: "glob_filter option"

definition unitStatesName :: "string list" where
  "unitStatesName = [''active'', ''activating'', ''deactivating'', ''inactive'', ''failed'']"

definition filterUnits :: "systemd_source \<Rightarrow> unit_status list \<Rightarrow> unit_status list" where
  "filterUnits src units =
     filter (\<lambda>u. (case sdUnitsFilter src of None \<Rightarrow> True | Some uf \<Rightarrow> uf_match uf (usName u)) \<and> usLoadState u = ''loaded'') units"

definition summarizeUnits :: "unit_status list \<Rightarrow> (string, f64) gomap" where
  "summarizeUnits units =
     fold (\<lambda>u m. gput (usActiveState u) (f_add (case map_of m (usActiveState u) of None \<Rightarrow> Fin 0 | Some n \<Rightarrow> n) (Fin 1)) m) units
       (map (\<lambda>s. (s, Fin 0)) unitStatesName)"

section \<open>Points and their tag maps\<close>

text \<open>A point on its way: the map it refers to with the tags the collector put there, name and value.\<close>

record gather_item =
  giRef :: "string \<times> nat \<times> nat"
  giTags :: strmap
  giName :: string
  giValue :: f64

definition setTag :: "string \<Rightarrow> string \<Rightarrow> strmap \<Rightarrow> strmap" where
  "setTag key val tags = (if val \<noteq> [] then gput key val tags else tags)"

definition setTags :: "string \<Rightarrow> string \<Rightarrow> string \<Rightarrow> strmap \<Rightarrow> strmap" where
  "setTags name state service tags = setTag ''type'' service (setTag ''state_name'' state (setTag ''name'' name tags))"

definition nameTag :: "unit_status \<Rightarrow> strmap" where
  "nameTag u = setTag ''name'' (usName u) []"

definition f_of_uint32 :: "32 word \<Rightarrow> f64" where "f_of_uint32 w = rnd (of_nat (unat w))"
definition f_of_uint64 :: "64 word \<Rightarrow> f64" where "f_of_uint64 w = rnd (of_nat (unat w))"

section \<open>Collectors\<close>

definition serviceType :: "dbus_conn \<Rightarrow> unit_status \<Rightarrow> string" where
  "serviceType conn u =
     (if HasSuffix (usName u) ''.service''
      then (case dbString conn (usName u) ''Service'' ''Type'' of None \<Rightarrow> [] | Some t \<Rightarrow> t)
      else if HasSuffix (usName u) ''.mount''
      then (case dbString conn (usName u) ''Mount'' ''Type'' of None \<Rightarrow> [] | Some t \<Rightarrow> t)
      else [])"

definition unitStatus :: "systemd_source \<Rightarrow> dbus_conn \<Rightarrow> nat \<Rightarrow> unit_status \<Rightarrow> gather_item list" where
  "unitStatus src conn i u =
     map (\<lambda>(j, stateName). \<lparr> giRef = (''status'', i, j), giTags = setTags (usName u) stateName (serviceType conn u) [], giName = ''unit_state'',
            giValue = (if stateName = usActiveState u then Fin 1 else Fin 0) \<rparr>) (enumerate 0 unitStatesName) @
     (if sdRestartMetrics src \<and> HasSuffix (usName u) ''.service''
      then (case dbUint32 conn (usName u) ''Service'' ''NRestarts'' of
              None \<Rightarrow> []
            | Some n \<Rightarrow> [\<lparr> giRef = (''restart'', i, 0), giTags = nameTag u, giName = ''service_restart_total'', giValue = f_of_uint32 n \<rparr>])
      else [])"

definition collectUnitStatusMetrics :: "systemd_source \<Rightarrow> dbus_conn \<Rightarrow> unit_status list \<Rightarrow> gather_item list" where
  "collectUnitStatusMetrics src conn units = concat (map (\<lambda>(i, u). unitStatus src conn i u) (enumerate 0 units))"

text \<open>The three points of a socket refer to one map.\<close>

definition socketItems :: "dbus_conn \<Rightarrow> nat \<Rightarrow> unit_status \<Rightarrow> gather_item list" where
  "socketItems conn i u =
     (let item = (\<lambda>name n. \<lparr> giRef = (''socket'', i, 0), giTags = nameTag u, giName = name, giValue = f_of_uint32 n \<rparr>) in
      if \<not> HasSuffix (usName u) ''.socket'' then []
      else (case dbUint32 conn (usName u) ''Socket'' ''NAccepted'' of
              None \<Rightarrow> []
            | Some accepted \<Rightarrow> item ''socket_accepted_connections_total'' accepted #
                (case dbUint32 conn (usName u) ''Socket'' ''NConnections'' of
                   None \<Rightarrow> []
                 | Some current \<Rightarrow> item ''socket_current_connections'' current #
                     (case dbUint32 conn (usName u) ''Socket'' ''NRefused'' of
                        None \<Rightarrow> []
                      | Some refused \<Rightarrow> [item ''socket_refused_connections_total'' refused]))))"

definition collectSockets :: "dbus_conn \<Rightarrow> unit_status list \<Rightarrow> gather_item list" where
  "collectSockets conn units = concat (map (\<lambda>(i, u). socketItems conn i u) (enumerate 0 units))"

definition startTimeItems :: "dbus_conn \<Rightarrow> nat \<Rightarrow> unit_status \<Rightarrow> gather_item list" where
  "startTimeItems conn i u =
     (let item = (\<lambda>usec. \<lparr> giRef = (''start'', i, 0), giTags = nameTag u, giName = ''unit_start_time_seconds'',
                           giValue = f_div (f_of_uint64 usec) (Fin 1000000) \<rparr>) in
      if usActiveState u \<noteq> ''active'' then [item 0]
      else (case dbUint64 conn (usName u) [] ''ActiveEnterTimestamp'' of None \<Rightarrow> [] | Some usec \<Rightarrow> [item usec]))"

definition collectUnitStartTimeMetrics :: "dbus_conn \<Rightarrow> unit_status list \<Rightarrow> gather_item list" where
  "collectUnitStartTimeMetrics conn units = concat (map (\<lambda>(i, u). startTimeItems conn i u) (enumerate 0 units))"

text \<open>The greatest value stands for no limit and is not reported.\<close>

definition taskItem :: "dbus_conn \<Rightarrow> nat \<Rightarrow> nat \<Rightarrow> unit_status \<Rightarrow> string \<Rightarrow> string \<Rightarrow> gather_item list" where
  "taskItem conn i j u property name =
     (case dbUint64 conn (usName u) ''Service'' property of
        None \<Rightarrow> []
      | Some val \<Rightarrow> if val \<noteq> - 1 then [\<lparr> giRef = (''tasks'', i, j), giTags = nameTag u, giName = name, giValue = f_of_uint64 val \<rparr>] else [])"

definition collectUnitTasksMetrics :: "dbus_conn \<Rightarrow> unit_status list \<Rightarrow> gather_item list" where
  "collectUnitTasksMetrics conn units =
     concat (map (\<lambda>(i, u). if HasSuffix (usName u) ''.service''
                           then taskItem conn i 0 u ''TasksCurrent'' ''unit_tasks_current'' @ taskItem conn i 1 u ''TasksMax'' ''unit_tasks_max''
                           else []) (enumerate 0 units))"

definition timerItems :: "dbus_conn \<Rightarrow> nat \<Rightarrow> unit_status \<Rightarrow> gather_item list" where
  "timerItems conn i u =
     (if \<not> HasSuffix (usName u) ''.timer'' then []
      else (case dbUint64 conn (usName u) ''Timer'' ''LastTriggerUSec'' of
              None \<Rightarrow> []
            | Some usec \<Rightarrow> [\<lparr> giRef = (''timer'', i, 0), giTags = nameTag u, giName = ''timer_last_trigger_seconds'',
                              giValue = f_div (f_of_uint64 usec) (Fin 1000000) \<rparr>]))"

definition collectTimers :: "dbus_conn \<Rightarrow> unit_status list \<Rightarrow> gather_item list" where
  "collectTimers conn units = concat (map (\<lambda>(i, u). timerItems conn i u) (enumerate 0 units))"

definition collectSummaryMetrics :: "(string, f64) gomap \<Rightarrow> gather_item list" where
  "collectSummaryMetrics summary =
     map (\<lambda>(i, stateName, n). \<lparr> giRef = (''summary'', i, 0), giTags = setTag ''state_name'' stateName [], giName = ''units'', giValue = n \<rparr>)
       (enumerate 0 summary)"

definition collectSystemState :: "dbus_conn \<Rightarrow> gather_item list \<times> go_error option" where
  "collectSystemState conn =
     (case dbSystemState conn of
        Inl err \<Rightarrow> ([], Some (Errorf ''couldn't get system state''))
      | Inr st \<Rightarrow> ([\<lparr> giRef = (''system'', 0, 0), giTags = [], giName = ''system_running'',
                     giValue = (if st = [CHR 0x22] @ ''running'' @ [CHR 0x22] then Fin 1 else Fin 0) \<rparr>], None))"

section \<open>Gathering\<close>

text \<open>The order in which the items of several producers arrive under a schedule.\<close>

fun arrivals :: "nat list \<Rightarrow> 'a list list \<Rightarrow> 'a list" where
  "arrivals [] producers = concat producers"
| "arrivals (i # schedule) producers =
     (if i < length producers then
        (case producers ! i of
           [] \<Rightarrow> arrivals schedule producers
         | x # xs \<Rightarrow> x # arrivals schedule (producers [i := xs]))
      else arrivals schedule producers)"

definition systemd_metricPoint :: "systemd_source \<Rightarrow> int64 \<Rightarrow> gather_item \<Rightarrow> strmap \<Rightarrow> wf_metric" where
  "systemd_metricPoint src ts item tags =
     MPoint (NewPoint (sdPrefix src @ ReplaceAll (giName item) ''_'' ''.'') (giValue item) ts (sdSource src) tags)"

type_synonym tag_store = "string \<times> nat \<times> nat \<Rightarrow> strmap option"

text \<open>One point is taken from the channel, filtered with the present contents of its map, and kept or counted.\<close>

definition gatherItem :: "systemd_source \<Rightarrow> int64 \<Rightarrow> gather_item \<Rightarrow> tag_store \<Rightarrow> wf_metric option \<times> tag_store" where
  "gatherItem src ts item store =
     (let tags = (case store (giRef item) of None \<Rightarrow> giTags item | Some t \<Rightarrow> t) in
      case wf_Filter (sdFilters src) (Some (systemd_metricPoint src ts item tags)) of
        (None, n) \<Rightarrow> (None, store)
      | (Some m, n) \<Rightarrow> (Some m, store (giRef item \<mapsto> (case m of MPoint p \<Rightarrow> ptags p | MDist _ \<Rightarrow> tags))))"

fun gatherAll :: "systemd_source \<Rightarrow> int64 \<Rightarrow> gather_item list \<Rightarrow> tag_store \<Rightarrow> wf_metric option list \<times> tag_store" where
  "gatherAll src ts [] store = ([], store)"
| "gatherAll src ts (item # items) store =
     (let (r, store) = gatherItem src ts item store; (rs, store) = gatherAll src ts items store in (r # rs, store))"

section \<open>The source\<close>

record systemd_counters =
  sdCollected :: nat
  sdFiltered :: nat
  sdErrors :: nat

text \<open>The producers of a scrape; the summary is sent before the others start.\<close>

definition producers :: "systemd_source \<Rightarrow> dbus_conn \<Rightarrow> unit_status list \<Rightarrow> gather_item list list" where
  "producers src conn units =
     [collectUnitStatusMetrics src conn units,
      (if sdStartTimeMetrics src then collectUnitStartTimeMetrics conn units else []),
      (if sdTaskMetrics src then collectUnitTasksMetrics conn units else []),
      collectTimers conn units, collectSockets conn units, fst (collectSystemState conn)]"

definition systemd_Scrape :: "dbus_conn go_result \<Rightarrow> nat list \<Rightarrow> time \<Rightarrow> systemd_source \<Rightarrow> systemd_counters \<Rightarrow>
    batch option \<times> go_error option \<times> systemd_counters" where
  "systemd_Scrape dbus schedule now src c =
     (case dbus of
        Inl err \<Rightarrow> (None, Some (Errorf ''couldn't get dbus connection''), c \<lparr> sdErrors := sdErrors c + 1 \<rparr>)
      | Inr conn \<Rightarrow>
          (case dbListUnits conn of
             Inl err \<Rightarrow> (None, Some (Errorf ''couldn't get units''), c \<lparr> sdErrors := sdErrors c + 1 \<rparr>)
           | Inr allUnits \<Rightarrow>
               (let sent = collectSummaryMetrics (summarizeUnits allUnits) @ arrivals schedule (producers src conn (filterUnits src allUnits));
                    results = fst (gatherAll src (Time_Unix now) sent Map.empty);
                    points = map the (filter (\<lambda>r. r \<noteq> None) results);
                    err = snd (collectSystemState conn)
                in (Some \<lparr> Timestamp = now, Sets = [], Metrics = map Some points \<rparr>, err,
                    \<lparr> sdCollected = sdCollected c + length points, sdFiltered = sdFiltered c + length (filter (\<lambda>r. r = None) results),
                      sdErrors = sdErrors c + (if err = None then 0 else 1) \<rparr>))))"

definition NewSystemdProvider_source :: "glob_compiler \<Rightarrow> env \<Rightarrow> string go_result \<Rightarrow> systemd_source_config \<Rightarrow> systemd_source" where
  "NewSystemdProvider_source gc e hostname cfg =
     (let source = GetStringValue (Source (sdTransforms cfg)) (GetNodeName e);
          source = (if source = [] then (case hostname of Inl _ \<Rightarrow> ''wavefront-collector-for-kubernetes'' | Inr h \<Rightarrow> h) else source)
      in \<lparr> sdPrefix = GetStringValue (Prefix (sdTransforms cfg)) ''kubernetes.systemd.'', sdSource = source,
           sdTaskMetrics = IncludeTaskMetrics cfg, sdStartTimeMetrics = IncludeStartTimeMetrics cfg,
           sdRestartMetrics = IncludeRestartMetrics cfg, sdUnitsFilter = uf_fromConfig gc (UnitAllowList cfg) (UnitDenyList cfg),
           sdFilters = FromConfig gc (Filters (sdTransforms cfg)) \<rparr>)"

section \<open>The order of arrival does not matter\<close>

text \<open>The maps a list of points refers to, and the collectors that share no map.\<close>

definition refs :: "gather_item list \<Rightarrow> (string \<times> nat \<times> nat) set" where
  "refs items = giRef ` set items"

definition separate :: "gather_item list list \<Rightarrow> bool" where
  "separate ps \<longleftrightarrow> (\<forall>i < length ps. \<forall>j < length ps. i \<noteq> j \<longrightarrow> refs (ps ! i) \<inter> refs (ps ! j) = {})"

lemma refs_simps [simp]: "refs [] = {}" "refs (x # xs) = insert (giRef x) (refs xs)" "refs (xs @ ys) = refs xs \<union> refs ys"
  by (auto simp: refs_def)

lemma gatherItem_frame: "r \<noteq> giRef item \<Longrightarrow> snd (gatherItem src ts item store) r = store r"
  by (simp add: gatherItem_def Let_def split: prod.split option.split)

lemma gatherItem_local: "store (giRef item) = store' (giRef item) \<Longrightarrow>
    fst (gatherItem src ts item store) = fst (gatherItem src ts item store') \<and>
    snd (gatherItem src ts item store) (giRef item) = snd (gatherItem src ts item store') (giRef item)"
  by (simp add: gatherItem_def Let_def split: prod.split option.split)

lemma gatherAll_step: "fst (gatherAll src ts (item # items) store) =
    fst (gatherItem src ts item store) # fst (gatherAll src ts items (snd (gatherItem src ts item store)))"
  by (simp add: Let_def case_prod_unfold)

lemma gatherAll_local:
  "(\<And>r. r \<in> refs items \<Longrightarrow> store r = store' r) \<Longrightarrow> fst (gatherAll src ts items store) = fst (gatherAll src ts items store')"
proof (induction items arbitrary: store store')
  case (Cons item items)
  let ?s = "snd (gatherItem src ts item store)" and ?s' = "snd (gatherItem src ts item store')"
  have here: "store (giRef item) = store' (giRef item)" using Cons.prems by simp
  have "?s r = ?s' r" if "r \<in> refs items" for r
    using gatherItem_local [of store item store', OF here] gatherItem_frame Cons.prems that by (cases "r = giRef item") simp_all
  then have "fst (gatherAll src ts items ?s) = fst (gatherAll src ts items ?s')" by (rule Cons.IH)
  then show ?case using gatherItem_local [of store item store', OF here] by (simp only: gatherAll_step)
qed simp

lemma gatherAll_after: "giRef item \<notin> refs items \<Longrightarrow>
    fst (gatherAll src ts items (snd (gatherItem src ts item store))) = fst (gatherAll src ts items store)"
  by (rule gatherAll_local) (metis gatherItem_frame)

lemma gatherAll_append:
  "refs xs \<inter> refs ys = {} \<Longrightarrow>
   fst (gatherAll src ts (xs @ ys) store) = fst (gatherAll src ts xs store) @ fst (gatherAll src ts ys store)"
proof (induction xs arbitrary: store)
  case (Cons x xs)
  then show ?case by (simp only: append_Cons gatherAll_step) (simp add: gatherAll_after)
qed simp

lemma separate_Cons: "separate (p # ps) \<Longrightarrow> refs p \<inter> refs (concat ps) = {} \<and> separate ps"
proof
  assume sep: "separate (p # ps)"
  show "refs p \<inter> refs (concat ps) = {}"
  proof (rule ccontr)
    assume "refs p \<inter> refs (concat ps) \<noteq> {}"
    then have "\<exists>r \<in> refs p. \<exists>q \<in> set ps. r \<in> refs q" unfolding refs_def by fastforce
    then obtain r q where r: "r \<in> refs p" "q \<in> set ps" "r \<in> refs q" by blast
    then obtain j where "j < length ps" "q = ps ! j" by (auto simp: in_set_conv_nth)
    with sep r show False unfolding separate_def by (metis Suc_less_eq disjoint_iff length_Cons nat.distinct(1) nth_Cons_0 nth_Cons_Suc zero_less_Suc)
  qed
  show "separate ps" using sep unfolding separate_def by (metis Suc_inject Suc_less_eq length_Cons nth_Cons_Suc)
qed

lemma separate_update: "separate ps \<Longrightarrow> i < length ps \<Longrightarrow> refs xs \<subseteq> refs (ps ! i) \<Longrightarrow> separate (ps[i := xs])"
  unfolding separate_def by (simp add: nth_list_update) blast

lemma gatherAll_concat: "separate ps \<Longrightarrow>
    mset (fst (gatherAll src ts (concat ps) store)) = (\<Sum>p \<leftarrow> ps. mset (fst (gatherAll src ts p store)))"
  by (induction ps) (simp_all add: gatherAll_append separate_Cons)

lemma sum_list_update_add:
  fixes f :: "'a \<Rightarrow> 'b::comm_monoid_add"
  shows "i < length ps \<Longrightarrow> (\<And>j. j < length ps \<Longrightarrow> j \<noteq> i \<Longrightarrow> g (ps ! j) = f (ps ! j)) \<Longrightarrow> f (ps ! i) = a + g y \<Longrightarrow>
    a + (\<Sum>p \<leftarrow> ps[i := y]. g p) = (\<Sum>p \<leftarrow> ps. f p)"
proof (induction ps arbitrary: i)
  case (Cons p ps)
  show ?case
  proof (cases i)
    case 0
    have "g q = f q" if "q \<in> set ps" for q
      using that Cons.prems(2) [of "Suc _"] 0 by (force simp: in_set_conv_nth)
    then have "(\<Sum>p \<leftarrow> ps. g p) = (\<Sum>p \<leftarrow> ps. f p)" by (simp cong: map_cong)
    with 0 Cons.prems(3) show ?thesis by (simp add: add.assoc)
  next
    case (Suc k)
    have "g p = f p" using Cons.prems(2) [of 0] Suc by simp
    moreover have "a + (\<Sum>p \<leftarrow> ps[k := y]. g p) = (\<Sum>p \<leftarrow> ps. f p)"
    proof (rule Cons.IH)
      show "g (ps ! j) = f (ps ! j)" if "j < length ps" "j \<noteq> k" for j using Cons.prems(2) [of "Suc j"] that Suc by simp
    qed (use Cons.prems Suc in simp_all)
    ultimately show ?thesis using Suc by (simp add: add.left_commute [of a])
  qed
qed simp

lemma arrivals_gathered:
  "separate ps \<Longrightarrow> mset (fst (gatherAll src ts (arrivals schedule ps) store)) = (\<Sum>p \<leftarrow> ps. mset (fst (gatherAll src ts p store)))"
proof (induction schedule arbitrary: ps store)
  case Nil
  then show ?case by (simp add: gatherAll_concat)
next
  case (Cons i schedule)
  show ?case
  proof (cases "i < length ps \<and> ps ! i \<noteq> []")
    case True
    then obtain x xs where x: "i < length ps" "ps ! i = x # xs" by (cases "ps ! i") auto
    let ?s = "snd (gatherItem src ts x store)"
    have sep: "separate (ps[i := xs])" using separate_update [OF Cons.prems x(1)] x(2) by auto
    have other: "mset (fst (gatherAll src ts (ps ! j) ?s)) = mset (fst (gatherAll src ts (ps ! j) store))"
      if "j < length ps" "j \<noteq> i" for j
    proof -
      have "refs (ps ! i) \<inter> refs (ps ! j) = {}" using Cons.prems x(1) that unfolding separate_def by blast
      then show ?thesis using x(2) by (simp add: gatherAll_after)
    qed
    have "mset (fst (gatherAll src ts (arrivals (i # schedule) ps) store)) =
        {#fst (gatherItem src ts x store)#} + (\<Sum>p \<leftarrow> ps[i := xs]. mset (fst (gatherAll src ts p ?s)))"
      using Cons.IH [OF sep, of ?s] x by (simp del: gatherAll.simps add: gatherAll_step)
    also have "\<dots> = (\<Sum>p \<leftarrow> ps. mset (fst (gatherAll src ts p store)))"
      using x other by (intro sum_list_update_add) (simp_all del: gatherAll.simps add: gatherAll_step)
    finally show ?thesis .
  next
    case False
    then show ?thesis using Cons by auto
  qed
qed

text \<open>Each collector has maps of its own: the first component of a reference names the collector.\<close>

definition of_kind :: "string set \<Rightarrow> gather_item list \<Rightarrow> bool" where
  "of_kind S items \<longleftrightarrow> (\<forall>item \<in> set items. fst (giRef item) \<in> S)"

lemma of_kind_simps [simp]:
  "of_kind S []" "of_kind S (x # xs) \<longleftrightarrow> fst (giRef x) \<in> S \<and> of_kind S xs" "of_kind S (xs @ ys) \<longleftrightarrow> of_kind S xs \<and> of_kind S ys"
  by (auto simp: of_kind_def)

lemma of_kind_map: "of_kind S (map f xs) \<longleftrightarrow> (\<forall>x \<in> set xs. fst (giRef (f x)) \<in> S)"
  by (simp add: of_kind_def)

lemma of_kind_concat: "(\<And>i u. of_kind S (f (i, u))) \<Longrightarrow> of_kind S (concat (map f (enumerate 0 units)))"
  by (auto simp: of_kind_def)

lemma of_kind_apart: "of_kind S xs \<Longrightarrow> of_kind T ys \<Longrightarrow> S \<inter> T = {} \<Longrightarrow> refs xs \<inter> refs ys = {}"
  unfolding of_kind_def refs_def by fastforce

lemma status_kind: "of_kind {''status'', ''restart''} (collectUnitStatusMetrics src conn units)"
  unfolding collectUnitStatusMetrics_def by (rule of_kind_concat) (simp add: unitStatus_def of_kind_map case_prod_unfold split: option.split)

lemma start_kind: "of_kind {''start''} (collectUnitStartTimeMetrics conn units)"
  unfolding collectUnitStartTimeMetrics_def by (rule of_kind_concat) (simp add: startTimeItems_def Let_def split: option.split)

lemma tasks_kind: "of_kind {''tasks''} (collectUnitTasksMetrics conn units)"
  unfolding collectUnitTasksMetrics_def by (rule of_kind_concat) (simp add: taskItem_def split: option.split)

lemma timer_kind: "of_kind {''timer''} (collectTimers conn units)"
  unfolding collectTimers_def by (rule of_kind_concat) (simp add: timerItems_def split: option.split)

lemma socket_kind: "of_kind {''socket''} (collectSockets conn units)"
  unfolding collectSockets_def by (rule of_kind_concat) (simp add: socketItems_def Let_def split: option.split)

lemma system_kind: "of_kind {''system''} (fst (collectSystemState conn))"
  by (simp add: collectSystemState_def split: sum.split)

lemma summary_kind: "of_kind {''summary''} (collectSummaryMetrics summary)"
  by (auto simp: collectSummaryMetrics_def of_kind_def)

lemmas collector_kinds = status_kind start_kind tasks_kind timer_kind socket_kind system_kind

definition kinds :: "string set list" where
  "kinds = [{''status'', ''restart''}, {''start''}, {''tasks''}, {''timer''}, {''socket''}, {''system''}]"

lemma below_six: "i < 6 \<longleftrightarrow> i = 0 \<or> i = 1 \<or> i = 2 \<or> i = 3 \<or> i = 4 \<or> i = (5::nat)"
  by auto

lemma producers_length: "length (producers src conn units) = 6"
  by (simp add: producers_def)

lemma producers_kinds: "i < 6 \<Longrightarrow> of_kind (kinds ! i) (producers src conn units ! i)"
  using collector_kinds by (auto simp: below_six producers_def kinds_def)

lemma producers_separate: "separate (producers src conn units)"
proof -
  have "kinds ! i \<inter> kinds ! j = {}" if "i < 6" "j < 6" "i \<noteq> j" for i j
    using that by (auto simp: kinds_def below_six)
  then show ?thesis unfolding separate_def producers_length by (metis producers_kinds of_kind_apart)
qed

lemma of_kind_update: "(\<And>p. p \<in> set ps \<Longrightarrow> of_kind S p) \<Longrightarrow> of_kind S q \<Longrightarrow> p \<in> set (ps[i := q]) \<Longrightarrow> of_kind S p"
  using set_update_subset_insert [of ps i q] by auto

lemma arrivals_kind: "(\<And>p. p \<in> set ps \<Longrightarrow> of_kind S p) \<Longrightarrow> of_kind S (arrivals schedule ps)"
proof (induction schedule arbitrary: ps)
  case Nil
  then show ?case by (auto simp: of_kind_def)
next
  case (Cons i schedule)
  show ?case
  proof (cases "i < length ps \<and> ps ! i \<noteq> []")
    case True
    then obtain x xs where x: "i < length ps" "ps ! i = x # xs" by (cases "ps ! i") auto
    then have k: "of_kind S (x # xs)" by (metis Cons.prems nth_mem)
    have "of_kind S (arrivals schedule (ps[i := xs]))"
    proof (rule Cons.IH)
      show "of_kind S p" if "p \<in> set (ps[i := xs])" for p
        using of_kind_update [OF Cons.prems _ that] k by simp
    qed
    with x k show ?thesis by simp
  next
    case False
    then show ?thesis using Cons by auto
  qed
qed

lemma summary_apart: "refs (collectSummaryMetrics summary) \<inter> refs (arrivals schedule (producers src conn units)) = {}"
proof (rule of_kind_apart [OF summary_kind])
  show "of_kind {''status'', ''restart'', ''start'', ''tasks'', ''timer'', ''socket'', ''system''} (arrivals schedule (producers src conn units))"
  proof (rule arrivals_kind)
    show "of_kind {''status'', ''restart'', ''start'', ''tasks'', ''timer'', ''socket'', ''system''} p"
      if "p \<in> set (producers src conn units)" for p
    proof -
      from that obtain i where "i < 6" "p = producers src conn units ! i" by (metis in_set_conv_nth producers_length)
      moreover from \<open>i < 6\<close> have "kinds ! i \<subseteq> {''status'', ''restart'', ''start'', ''tasks'', ''timer'', ''socket'', ''system''}"
        by (auto simp: kinds_def below_six)
      ultimately show ?thesis using producers_kinds [of i src conn units] unfolding of_kind_def by blast
    qed
  qed
qed simp

text \<open>What the reader of the channel keeps and drops when nothing is shared: each collector on its own.\<close>

definition gathered :: "systemd_source \<Rightarrow> dbus_conn \<Rightarrow> int64 \<Rightarrow> unit_status list \<Rightarrow> wf_metric option multiset" where
  "gathered src conn ts allUnits =
     (\<Sum>p \<leftarrow> collectSummaryMetrics (summarizeUnits allUnits) # producers src conn (filterUnits src allUnits).
        mset (fst (gatherAll src ts p Map.empty)))"

lemma gathered_any_schedule:
  "mset (fst (gatherAll src ts (collectSummaryMetrics (summarizeUnits allUnits) @
     arrivals schedule (producers src conn (filterUnits src allUnits))) Map.empty)) = gathered src conn ts allUnits"
  by (simp add: gatherAll_append summary_apart arrivals_gathered producers_separate gathered_def)

lemma filter_mset_length: "length (filter P xs) = size (filter_mset P (mset xs))"
  by (simp flip: mset_filter)

lemma points_mset: "mset (map Some (map the (filter (\<lambda>r. r \<noteq> None) rs))) = filter_mset (\<lambda>r. r \<noteq> None) (mset rs)"
  by (induction rs) auto

text \<open>
  C35. Whatever order the collectors of a systemd scrape run in, the scrape gives the same points, up
  to their order, the same error and the same counters: what each collector gives on its own. Every
  point sent is either reported and counted as collected or counted as filtered.
\<close>
theorem systemd_Scrape_any_order:
  assumes "dbListUnits conn = Inr allUnits"
  shows "case systemd_Scrape (Inr conn) schedule now src c of (b, err, c') \<Rightarrow>
    (\<exists>batch. b = Some batch \<and> Timestamp batch = now \<and> Sets batch = [] \<and>
       mset (Metrics batch) = filter_mset (\<lambda>r. r \<noteq> None) (gathered src conn (Time_Unix now) allUnits) \<and>
       sdCollected c' = sdCollected c + length (Metrics batch)) \<and>
    (err = None \<longleftrightarrow> (\<exists>st. dbSystemState conn = Inr st)) \<and>
    (sdCollected c' - sdCollected c) + (sdFiltered c' - sdFiltered c) = size (gathered src conn (Time_Unix now) allUnits) \<and>
    sdErrors c' = sdErrors c + (if err = None then 0 else 1)"
proof -
  let ?rs = "fst (gatherAll src (Time_Unix now) (collectSummaryMetrics (summarizeUnits allUnits) @
     arrivals schedule (producers src conn (filterUnits src allUnits))) Map.empty)"
  have g: "mset ?rs = gathered src conn (Time_Unix now) allUnits" by (rule gathered_any_schedule)
  have "length (filter (\<lambda>r. r \<noteq> None) ?rs) + length (filter (\<lambda>r. r = None) ?rs) = size (mset ?rs)"
    using sum_length_filter_compl [of "\<lambda>r. r = None" ?rs] by simp
  moreover have "snd (collectSystemState conn) = None \<longleftrightarrow> (\<exists>st. dbSystemState conn = Inr st)"
    by (simp add: collectSystemState_def split: sum.split)
  ultimately show ?thesis
    unfolding systemd_Scrape_def Let_def sum.case assms
    using points_mset [of ?rs] by (simp only: g [symmetric]) simp
qed

definition sample_conn :: dbus_conn where
  "sample_conn =
     \<lparr> dbListUnits = Inr [\<lparr> usName = ''ssh.socket'', usLoadState = ''loaded'', usActiveState = ''active'' \<rparr>],
       dbString = (\<lambda>_ _ _. None),
       dbUint32 = (\<lambda>_ _ property. if property = ''NRefused'' then None else Some 3),
       dbUint64 = (\<lambda>_ _ _. None), dbSystemState = Inr ''running'' \<rparr>"

definition sample_systemd :: systemd_source where
  "sample_systemd = \<lparr> sdPrefix = ''kubernetes.systemd.'', sdSource = ''node'', sdTaskMetrics = True, sdStartTimeMetrics = False,
     sdRestartMetrics = True, sdUnitsFilter = None, sdFilters = None \<rparr>"

lemma gatherAll_size: "size (mset (fst (gatherAll src ts items store))) = length items"
  by (induction items arbitrary: store) (simp_all add: Let_def case_prod_unfold)

lemma gatherAll_sizes: "size (\<Sum>p \<leftarrow> ps. mset (fst (gatherAll src ts p store))) = (\<Sum>p \<leftarrow> ps. length p)"
  by (induction ps) (simp_all add: gatherAll_size del: size_mset)

lemma gathered_size: "size (gathered src conn ts allUnits) =
    (\<Sum>p \<leftarrow> collectSummaryMetrics (summarizeUnits allUnits) # producers src conn (filterUnits src allUnits). length p)"
  unfolding gathered_def by (rule gatherAll_sizes)

theorem systemd_Scrape_any_order_witness:
  "case systemd_Scrape (Inr sample_conn) [4, 0, 0, 4, 5] 7 sample_systemd \<lparr> sdCollected = 0, sdFiltered = 0, sdErrors = 0 \<rparr> of
     (b, err, c') \<Rightarrow> err = None \<and> sdCollected c' + sdFiltered c' = 13 \<and> sdErrors c' = 0"
  using systemd_Scrape_any_order [where conn = sample_conn and schedule = "[4, 0, 0, 4, 5]" and now = 7 and src = sample_systemd and
      c = "\<lparr> sdCollected = 0, sdFiltered = 0, sdErrors = 0 \<rparr>" and
      allUnits = "[\<lparr> usName = ''ssh.socket'', usLoadState = ''loaded'', usActiveState = ''active'' \<rparr>]"]
  by (simp add: sample_conn_def sample_systemd_def case_prod_unfold gathered_size collectSummaryMetrics_def summarizeUnits_def unitStatesName_def
      producers_def filterUnits_def collectUnitStatusMetrics_def unitStatus_def collectUnitTasksMetrics_def collectTimers_def timerItems_def
      collectSockets_def socketItems_def collectSystemState_def HasSuffix_def)

end
