(* ===== verification/Cluster_Sources.thy ===== *)
theory Cluster_Sources
  imports Prometheus_Source Kube_Config
begin

text \<open>
  Two sources that are Prometheus sources with a prepared configuration: the cAdvisor source
  (\<^verbatim>\<open>plugins/sources/cadvisor\<close>), which scrapes the kubelets, and the control plane source
  (\<^verbatim>\<open>plugins/sources/controlplane\<close>), which scrapes the API server.
\<close>

section \<open>cAdvisor\<close>

abbreviation cAdvisorEndpoint :: string where "cAdvisorEndpoint \<equiv> ''/metrics/cadvisor''"

text \<open>The loop over the nodes: an error of any node ends it, and so does the own node.\<close>

fun nodeURLs :: "(string \<Rightarrow> 'ip option) \<Rightarrow> string \<Rightarrow> bool \<Rightarrow> ('ip \<Rightarrow> string \<Rightarrow> 'u) \<Rightarrow> node list \<Rightarrow> 'u list go_result" where
  "nodeURLs parseIP myNode scrapeOwnNode kubeletURL [] = Inr []"
| "nodeURLs parseIP myNode scrapeOwnNode kubeletURL (node # nodes) =
     (case GetNodeHostnameAndIP parseIP node of
        Inl err \<Rightarrow> Inl err
      | Inr (_, ip) \<Rightarrow>
          (let url = kubeletURL ip cAdvisorEndpoint in
           if scrapeOwnNode then
             (if mtName (nodeMeta node) = myNode then Inr [url] else nodeURLs parseIP myNode scrapeOwnNode kubeletURL nodes)
           else (case nodeURLs parseIP myNode scrapeOwnNode kubeletURL nodes of Inl err \<Rightarrow> Inl err | Inr urls \<Rightarrow> Inr (url # urls))))"

definition GenerateURLs :: "(string \<Rightarrow> 'ip option) \<Rightarrow> node list go_result \<Rightarrow> string \<Rightarrow> bool \<Rightarrow> ('ip \<Rightarrow> string \<Rightarrow> 'u) \<Rightarrow> 'u list go_result" where
  "GenerateURLs parseIP lister myNode scrapeOwnNode kubeletURL =
     (case lister of Inl err \<Rightarrow> Inl err | Inr nodes \<Rightarrow> nodeURLs parseIP myNode scrapeOwnNode kubeletURL nodes)"

definition generateHTTPCfg :: "kube_rest_config \<Rightarrow> client_config" where
  "generateHTTPCfg c =
     \<lparr> BearerToken = kcBearerToken c, BearerTokenFile = kcBearerTokenFile c, ProxyURL = [],
       TLSConfig = \<lparr> CAFile = rtCAFile (kcTLS c), CertFile = rtCertFile (kcTLS c), KeyFile = rtKeyFile (kcTLS c),
                     ServerName = rtServerName (kcTLS c), InsecureSkipVerify = tlsInsecure (kcTLS c) \<rparr> \<rparr>"

text \<open>\<open>code\<close> is the status of an HTTP error, and nothing for an error of another kind.\<close>

definition TransformPermissionError :: "nat option \<Rightarrow> go_error \<Rightarrow> go_error" where
  "TransformPermissionError code err =
     (if code = Some 401 \<or> code = Some 403
      then Errorf (''missing nodes/metrics permission in the collector's cluster role: '' @ (case err of Errorf m \<Rightarrow> m | GoPanic m \<Rightarrow> m))
      else err)"

text \<open>\<^verbatim>\<open>errorSourceDecorator.Scrape\<close> around the scrape of a Prometheus source.\<close>

definition httpErrorCode :: "http_response go_result \<Rightarrow> nat option" where
  "httpErrorCode r = (case r of Inl _ \<Rightarrow> None | Inr resp \<Rightarrow> if StatusCode resp \<noteq> 200 then Some (StatusCode resp) else None)"

definition cadvisor_Scrape :: "('c \<Rightarrow> string \<Rightarrow> http_response go_result) \<Rightarrow> (string \<Rightarrow> (string, metric_family) gomap) \<Rightarrow> features \<Rightarrow>
    (f64 \<Rightarrow> string) \<Rightarrow> time \<Rightarrow> (nat \<Rightarrow> int64) \<Rightarrow> 'c prometheus_source \<Rightarrow> prom_counters \<Rightarrow> batch go_result \<times> prom_counters" where
  "cadvisor_Scrape httpGet parse fs fmtFloat now clock src c =
     (let (r, c) = prom_Scrape httpGet parse fs fmtFloat now clock src c in
      case r of
        Inl (GoPanic p) \<Rightarrow> (Inl (GoPanic p), c)
      | Inl err \<Rightarrow> (Inl (TransformPermissionError (httpErrorCode (httpGet (psClient src) (psMetricsURL src))) err), c)
      | Inr b \<Rightarrow> (Inr b, c))"

definition generatePrometheusSource :: "('u, 'c) prom_env \<Rightarrow> cadvisor_source_config \<Rightarrow> string \<Rightarrow> kube_rest_config \<Rightarrow> 'c prometheus_source go_result" where
  "generatePrometheusSource pe cfg promURL restConfig =
     NewPrometheusMetricsSource (NewClient pe) (EncodeKey pe) (processEnv pe) promURL (Prefix (caTransforms cfg)) (Source (caTransforms cfg)) []
       (Tags (caTransforms cfg)) (FromConfig (globCompiler pe) (Filters (caTransforms cfg))) (generateHTTPCfg restConfig)"

record cadvisor_provider =
  cdConfig :: cadvisor_source_config
  cdKubeConfig :: kube_rest_config
  cdKubeletConfig :: kubelet_config

definition cadvisor_NewProvider :: "kube_files \<Rightarrow> cadvisor_source_config \<Rightarrow> summary_source_config \<Rightarrow> cadvisor_provider go_result" where
  "cadvisor_NewProvider kf cfg summaryCfg =
     (case GetKubeConfigs kf summaryCfg of
        Inl err \<Rightarrow> Inl err
      | Inr (kc, kl) \<Rightarrow> Inr \<lparr> cdConfig = cfg, cdKubeConfig = kc, cdKubeletConfig = kl \<rparr>)"

fun cadvisorSources :: "('u, 'c) prom_env \<Rightarrow> cadvisor_provider \<Rightarrow> string list \<Rightarrow> 'c prometheus_source list option" where
  "cadvisorSources pe p [] = Some []"
| "cadvisorSources pe p (url # urls) =
     (case generatePrometheusSource pe (cdConfig p) url (cdKubeConfig p) of
        Inl err \<Rightarrow> None
      | Inr src \<Rightarrow> map_option (\<lambda>srcs. src # srcs) (cadvisorSources pe p urls))"

definition cadvisor_GetMetricsSources :: "('u, 'c) prom_env \<Rightarrow> agent_type \<Rightarrow> node list go_result \<Rightarrow> (string \<Rightarrow> string option) \<Rightarrow>
    cadvisor_provider \<Rightarrow> 'c prometheus_source list" where
  "cadvisor_GetMetricsSources pe ag nodes parseIP p =
     (if \<not> ScrapeAnyNodes ag then []
      else (case GenerateURLs parseIP nodes (GetNodeName (processEnv pe)) (ScrapeOnlyOwnNode ag) (BaseURL (cdKubeletConfig p)) of
              Inl err \<Rightarrow> []
            | Inr urls \<Rightarrow> (case cadvisorSources pe p urls of None \<Rightarrow> [] | Some srcs \<Rightarrow> srcs)))"

section \<open>Control plane\<close>

abbreviation metricsURL :: string where "metricsURL \<equiv> ''https://kubernetes.default.svc/metrics''"
abbreviation metricsSource :: string where "metricsSource \<equiv> ''control_plane_source''"
abbreviation metricsPrefix :: string where "metricsPrefix \<equiv> ''kubernetes.controlplane.''"

definition jitterTime :: duration where
  "jitterTime = Second * 40"

definition createPrometheusSourceConfig :: "string \<Rightarrow> client_config \<Rightarrow> string list \<Rightarrow> (string, string list) gomap \<Rightarrow> duration \<Rightarrow> prometheus_source_config" where
  "createPrometheusSourceConfig name httpCfg metrics tags interval =
     \<lparr> prTransforms = \<lparr> Source = metricsSource, Prefix = metricsPrefix, Tags = [],
          Filters = empty_filter_config \<lparr> MetricAllowList := metrics, MetricTagAllowList := tags \<rparr> \<rparr>,
       prCollection = \<lparr> Interval = interval, Timeout = 0 \<rparr>, prURL = metricsURL, HTTPClientConfig = httpCfg, prDiscovered = [], prName = name,
       prUseLeaderElection = True \<rparr>"

definition buildPromConfigs :: "kube_files \<Rightarrow> control_plane_source_config \<Rightarrow> summary_source_config \<Rightarrow> prometheus_source_config list" where
  "buildPromConfigs kf cfg summaryCfg =
     (case GetKubeConfigs kf summaryCfg of
        Inl err \<Rightarrow> []
      | Inr (kc, _) \<Rightarrow>
          (let httpCfg = generateHTTPCfg kc;
               etcdMetrics = map (\<lambda>m. metricsPrefix @ m)
                 [''etcd.request.duration.seconds.bucket'', ''etcd.request.duration.seconds'', ''etcd.db.total.size.in.bytes.gauge'',
                  ''workqueue.adds.total.counter'', ''workqueue.queue.duration.seconds.bucket'', ''workqueue.queue.duration.seconds''];
               apiServerMetrics = map (\<lambda>m. metricsPrefix @ m)
                 [''apiserver.request.duration.seconds.bucket'', ''apiserver.request.duration.seconds'', ''apiserver.request.total.counter'',
                  ''apiserver.storage.objects.gauge''];
               apiServerTags = [(''resource'', [''customresourcedefinitions'', ''namespaces'', ''lease'', ''nodes'', ''pods'',
                  ''tokenreviews'', ''subjectaccessreviews''])]
           in [createPrometheusSourceConfig ''etcd-workqueue'' httpCfg etcdMetrics [] (Interval (cpCollection cfg) + jitterTime),
               createPrometheusSourceConfig ''apiserver'' httpCfg apiServerMetrics apiServerTags (Interval (cpCollection cfg))]))"

fun buildPromProviders :: "('u, 'c) prom_env \<Rightarrow> (string \<Rightarrow> string \<Rightarrow> endpoint_subset list go_result) \<Rightarrow> prometheus_source_config list \<Rightarrow>
    ('u, 'c) prometheus_provider list go_result" where
  "buildPromProviders pe client [] = Inr []"
| "buildPromProviders pe client (cfg # cfgs) =
     (case NewPrometheusProvider pe cfg (InstancesFromEndpoints client) of
        Inl err \<Rightarrow> Inl (Errorf ''error building prometheus sources for control plane'')
      | Inr p \<Rightarrow> (case buildPromProviders pe client cfgs of Inl err \<Rightarrow> Inl err | Inr ps \<Rightarrow> Inr (p # ps)))"

definition controlplane_NewProvider :: "('u, 'c) prom_env \<Rightarrow> kube_files \<Rightarrow> control_plane_source_config \<Rightarrow> summary_source_config \<Rightarrow>
    (string \<Rightarrow> string \<Rightarrow> endpoint_subset list go_result) \<Rightarrow> ('u, 'c) prometheus_provider list go_result" where
  "controlplane_NewProvider pe kf cfg summaryCfg client = buildPromProviders pe client (buildPromConfigs kf cfg summaryCfg)"

definition controlplane_GetMetricsSources :: "('u, 'c) prom_env \<Rightarrow> bool \<Rightarrow> ('u, 'c) prometheus_provider list \<Rightarrow> 'c prometheus_source list" where
  "controlplane_GetMetricsSources pe leading providers = concat (map (prom_GetMetricsSources pe leading) providers)"

text \<open>The rule for CoreDNS, with the interval and timeout the provider was configured with.\<close>

definition DiscoveryPluginConfigs :: "agent_type \<Rightarrow> collection_config \<Rightarrow> plugin_config list" where
  "DiscoveryPluginConfigs ag collection =
     (if \<not> ScrapeAnyNodes ag then []
      else [\<lparr> plName = ''coredns-discovery-controlplane'', plType = ''prometheus'',
              plSelectors = zeroSelectors \<lparr> Images := [''*coredns:*''], slLabels := [(''k8s-app'', [''kube-dns''])] \<rparr>,
              plPort = ''9153'', plScheme = ''http'', plPath = ''/metrics'', plConf = [], plSource = [], plPrefix = metricsPrefix, plTags = [],
              plIncludeLabels = [], plFilters = empty_filter_config \<lparr> MetricAllowList :=
                [metricsPrefix @ ''coredns.dns.request.duration.seconds.bucket'', metricsPrefix @ ''coredns.dns.responses.total.counter''] \<rparr>,
              plCollection = collection, plInternal = True \<rparr>])"

section \<open>Properties\<close>

text \<open>An agent of one node scrapes at most its own kubelet.\<close>

lemma nodeURLs_own:
  "nodeURLs parseIP myNode True url nodes = Inr us \<Longrightarrow>
   us = [] \<or> (\<exists>node \<in> set nodes. \<exists>h ip. mtName (nodeMeta node) = myNode \<and> GetNodeHostnameAndIP parseIP node = Inr (h, ip) \<and> us = [url ip cAdvisorEndpoint])"
  by (induction nodes) (auto simp: Let_def split: sum.splits prod.splits if_splits)

lemma nodeURLs_all:
  "nodeURLs parseIP myNode False url nodes = Inr us \<Longrightarrow>
   list_all2 (\<lambda>node u. \<exists>h ip. GetNodeHostnameAndIP parseIP node = Inr (h, ip) \<and> u = url ip cAdvisorEndpoint) nodes us"
  by (induction nodes arbitrary: us) (auto simp: Let_def list_all2_Cons1 split: sum.splits prod.splits)

text \<open>A node that is not ready hides every node after it, also from an agent that only wants its own.\<close>

lemma nodeURLs_other_node_fails:
  assumes "GetNodeHostnameAndIP parseIP other = Inl err" "\<And>n. n \<in> set before \<Longrightarrow> mtName (nodeMeta n) \<noteq> myNode"
    "\<And>n. n \<in> set before \<Longrightarrow> \<exists>h ip. GetNodeHostnameAndIP parseIP n = Inr (h, ip)"
  shows "nodeURLs parseIP myNode own url (before @ other # rest) = Inl err"
  using assms(2,3)
proof (induction before)
  case (Cons n before)
  then obtain h ip where "GetNodeHostnameAndIP parseIP n = Inr (h, ip)" by (meson list.set_intros(1))
  with Cons show ?case by (cases own) (simp_all add: Let_def)
qed (simp add: assms(1))

text \<open>What a cAdvisor source scrapes for a node, and with which client.\<close>

definition scrapes_node :: "('u, 'c) prom_env \<Rightarrow> (string \<Rightarrow> string option) \<Rightarrow> cadvisor_provider \<Rightarrow> node \<Rightarrow> 'c prometheus_source \<Rightarrow> bool" where
  "scrapes_node pe parseIP p node src \<longleftrightarrow>
     (\<exists>h ip. GetNodeHostnameAndIP parseIP node = Inr (h, ip) \<and> psMetricsURL src = BaseURL (cdKubeletConfig p) ip cAdvisorEndpoint) \<and>
     httpClient (NewClient pe) (psMetricsURL src) (generateHTTPCfg (cdKubeConfig p)) = Inr (psClient src)"

lemma cadvisorSources_each: "cadvisorSources pe p urls = Some srcs \<Longrightarrow>
    list_all2 (\<lambda>u src. psMetricsURL src = u \<and> httpClient (NewClient pe) u (generateHTTPCfg (cdKubeConfig p)) = Inr (psClient src)) urls srcs"
  by (induction urls arbitrary: srcs)
     (auto simp: generatePrometheusSource_def NewPrometheusMetricsSource_def Let_def split: sum.splits)

text \<open>
  The cAdvisor sources: an agent that scrapes only its own node has at most one, at the address of
  a node with its name; an agent that scrapes all nodes has none, or exactly one for each node in
  their order. All of them authenticate as the collector does towards the API server.
\<close>

theorem cadvisor_sources:
  "let srcs = cadvisor_GetMetricsSources pe ag (Inr nodes) parseIP p in
   if ScrapeOnlyOwnNode ag
   then srcs = [] \<or> (\<exists>node src. node \<in> set nodes \<and> mtName (nodeMeta node) = GetNodeName (processEnv pe) \<and> srcs = [src] \<and> scrapes_node pe parseIP p node src)
   else srcs = [] \<or> list_all2 (scrapes_node pe parseIP p) nodes srcs"
proof -
  let ?srcs = "cadvisor_GetMetricsSources pe ag (Inr nodes) parseIP p"
  have "?srcs = [] \<or> (\<exists>urls. nodeURLs parseIP (GetNodeName (processEnv pe)) (ScrapeOnlyOwnNode ag) (BaseURL (cdKubeletConfig p)) nodes = Inr urls \<and>
      cadvisorSources pe p urls = Some ?srcs)"
    by (auto simp: cadvisor_GetMetricsSources_def GenerateURLs_def split: sum.splits option.splits)
  then consider "?srcs = []" | urls where "nodeURLs parseIP (GetNodeName (processEnv pe)) (ScrapeOnlyOwnNode ag) (BaseURL (cdKubeletConfig p)) nodes = Inr urls"
    "list_all2 (\<lambda>u src. psMetricsURL src = u \<and> httpClient (NewClient pe) u (generateHTTPCfg (cdKubeConfig p)) = Inr (psClient src)) urls ?srcs"
    using cadvisorSources_each by blast
  then show ?thesis
  proof cases
    case (2 urls)
    show ?thesis
    proof (cases "ScrapeOnlyOwnNode ag")
      case True
      with nodeURLs_own [of parseIP _ _ nodes urls] 2 show ?thesis
        by (fastforce simp: list_all2_Cons1 scrapes_node_def)
    next
      case False
      with 2(1) have "list_all2 (\<lambda>node u. \<exists>h ip. GetNodeHostnameAndIP parseIP node = Inr (h, ip) \<and> u = BaseURL (cdKubeletConfig p) ip cAdvisorEndpoint) nodes urls"
        by (simp add: nodeURLs_all)
      from list_all2_trans [OF _ this 2(2), of "scrapes_node pe parseIP p"] False show ?thesis by (auto simp: scrapes_node_def)
    qed
  qed simp
qed

text \<open>The sources of the control plane exist only on the leader, and a broken client configuration leaves none without an error.\<close>

lemma controlplane_leader_only:
  assumes "controlplane_NewProvider pe kf cfg summaryCfg client = Inr ps"
  shows "controlplane_GetMetricsSources pe False ps = []"
proof -
  have "ppUseLeaderElection p" if "buildPromProviders pe client cfgs = Inr ps" "list_all prUseLeaderElection cfgs" "p \<in> set ps" for cfgs ps p
    using that by (induction cfgs arbitrary: ps) (auto simp: NewPrometheusProvider_def Let_def split: sum.splits option.splits)
  moreover have "list_all prUseLeaderElection (buildPromConfigs kf cfg summaryCfg)"
    by (simp add: buildPromConfigs_def createPrometheusSourceConfig_def Let_def split: sum.split prod.split)
  ultimately have "ppUseLeaderElection p" if "p \<in> set ps" for p using assms that by (auto simp: controlplane_NewProvider_def)
  then show ?thesis by (simp add: controlplane_GetMetricsSources_def prom_GetMetricsSources_def)
qed

lemma controlplane_silent: "GetKubeConfigs kf summaryCfg = Inl err \<Longrightarrow> controlplane_NewProvider pe kf cfg summaryCfg client = Inr []"
  by (simp add: controlplane_NewProvider_def buildPromConfigs_def)

end
