(* ===== verification/Stats_Source.thy ===== *)
theory Stats_Source
  imports Wf_Sink Kube_Util Leadership
begin

text \<open>
  The source of the collector's own metrics (\<^verbatim>\<open>plugins/sources/stats\<close>). The registry of go-metrics is the
  list of its entries in the order of iteration; \<open>decodeKey\<close> takes a registered name apart into a
  name and a new map of tags.
\<close>

section \<open>The registry\<close>

record stats_histo =
  shMin :: int64
  shMax :: int64
  shMean :: f64
  shPercentiles :: "f64 \<times> f64 \<times> f64 \<times> f64 \<times> f64"

record stats_rate =
  srCount :: int64
  srRate1 :: f64
  srRateMean :: f64

datatype stats_entry =
    StatsCounter int64
  | StatsGauge int64
  | StatsGaugeFloat64 f64
  | StatsTimer stats_histo stats_rate
  | StatsHistogram stats_histo
  | StatsMeter stats_rate
  | StatsOther

section \<open>The source\<close>

record internal_source =
  isPrefix :: string
  isTags :: strmap
  isFilters :: "glob_filter option"
  isSource :: string
  isZeroFilters :: "string list"

definition newInternalMetricsSource :: "env \<Rightarrow> string \<Rightarrow> strmap \<Rightarrow> glob_filter option \<Rightarrow> internal_source" where
  "newInternalMetricsSource e prefix tags flt =
     \<lparr> isPrefix = prefix, isTags = tags, isFilters = flt,
       isSource = GetStringValue (GetNodeName e) ''wavefront-collector-for-kubernetes'',
       isZeroFilters = [''filtered.count'', ''errors.count'', ''targets.registered'', ''collect.errors'', ''points.filtered'', ''points.collected''] \<rparr>"

definition NewInternalStatsProvider :: "glob_compiler \<Rightarrow> env \<Rightarrow> stats_source_config \<Rightarrow> internal_source list" where
  "NewInternalStatsProvider gc e cfg =
     [newInternalMetricsSource e (GetStringValue (Prefix (stTransforms cfg)) ''kubernetes.'') (Tags (stTransforms cfg))
        (FromConfig gc (Filters (stTransforms cfg)))]"

definition stats_combine :: "string \<Rightarrow> string \<Rightarrow> string" where
  "stats_combine prefix name = prefix @ ''.'' @ name"

definition filterName :: "internal_source \<Rightarrow> string \<Rightarrow> bool" where
  "filterName src name = list_ex (\<lambda>suffix. HasSuffix name suffix) (isZeroFilters src)"

definition stats_buildTags :: "internal_source \<Rightarrow> strmap \<Rightarrow> strmap" where
  "stats_buildTags src tags = fold (\<lambda>(k, v) tags. if length v > 0 \<and> map_of tags k = None then gput k v tags else tags) (isTags src) tags"

text \<open>A count of zero under one of the listed names is not reported.\<close>

definition stats_point :: "(string \<Rightarrow> string \<times> strmap) \<Rightarrow> int64 \<Rightarrow> internal_source \<Rightarrow> string \<Rightarrow> f64 \<Rightarrow> wf_metric option" where
  "stats_point decodeKey ts src key v =
     (let (name, tags) = decodeKey key in
      if f_eq v (Fin 0) \<and> filterName src name then None
      else Some (MPoint (NewPoint (isPrefix src @ ''collector.'' @ ReplaceAll name ''_'' ''.'') v ts (isSource src) (stats_buildTags src tags))))"

text \<open>The names and values of an entry.\<close>

definition addHisto :: "string \<Rightarrow> stats_histo \<Rightarrow> (string \<times> f64) list" where
  "addHisto name h =
     (let (p50, p75, p95, p99, p999) = shPercentiles h; ms = (\<lambda>x. f_div x (Fin 1000000)) in
      [(stats_combine name ''duration.min'', ms (f_of_int64 (shMin h))), (stats_combine name ''duration.max'', ms (f_of_int64 (shMax h))),
       (stats_combine name ''duration.mean'', ms (shMean h)), (stats_combine name ''duration.median'', ms p50),
       (stats_combine name ''duration.p75'', ms p75), (stats_combine name ''duration.p95'', ms p95), (stats_combine name ''duration.p99'', ms p99),
       (stats_combine name ''duration.p999'', ms p999)])"

definition addRate :: "string \<Rightarrow> stats_rate \<Rightarrow> (string \<times> f64) list" where
  "addRate name r =
     [(stats_combine name ''rate.count'', f_of_int64 (srCount r)), (stats_combine name ''rate.m1'', srRate1 r), (stats_combine name ''rate.mean'', srRateMean r)]"

fun entryValues :: "string \<Rightarrow> stats_entry \<Rightarrow> (string \<times> f64) list" where
  "entryValues name (StatsCounter n) = [(name, f_of_int64 n)]"
| "entryValues name (StatsGauge n) = [(name, f_of_int64 n)]"
| "entryValues name (StatsGaugeFloat64 v) = [(name, v)]"
| "entryValues name (StatsTimer h r) = addHisto name h @ addRate name r"
| "entryValues name (StatsHistogram h) = addHisto name h"
| "entryValues name (StatsMeter r) = addRate name r"
| "entryValues name StatsOther = []"

record stats_counters =
  isCollected :: nat
  isFiltered :: nat

fun appendValues :: "(string \<Rightarrow> string \<times> strmap) \<Rightarrow> int64 \<Rightarrow> internal_source \<Rightarrow> (string \<times> f64) list \<Rightarrow> wf_metric list \<times> nat \<Rightarrow> wf_metric list \<times> nat" where
  "appendValues decodeKey ts src [] st = st"
| "appendValues decodeKey ts src ((key, v) # rest) (points, filtered) =
     (let (points, n) = FilterAppend (isFilters src) points (stats_point decodeKey ts src key v)
      in appendValues decodeKey ts src rest (points, filtered + n))"

definition FormatBool :: "bool \<Rightarrow> string" where
  "FormatBool b = (if b then ''true'' else ''false'')"

text \<open>\<^verbatim>\<open>internalStats\<close>: the tags of the source are changed and kept for the next scrape.\<close>

definition internalStats :: "(string \<Rightarrow> string \<times> strmap) \<Rightarrow> env \<Rightarrow> bool \<Rightarrow> (string \<times> stats_entry) list \<Rightarrow> time \<Rightarrow> internal_source \<Rightarrow> stats_counters \<Rightarrow>
    batch \<times> internal_source \<times> stats_counters" where
  "internalStats decodeKey e leading registry now src c =
     (let tags = gput ''leading'' (FormatBool leading) (isTags src);
          tags = gput ''installation_method'' (GetInstallationMethod e) tags;
          src = src \<lparr> isTags := AddK8sTags e tags \<rparr>;
          (points, filtered) = appendValues decodeKey (Time_Unix now) src (concat (map (\<lambda>(name, entry). entryValues name entry) registry)) ([], isFiltered c)
      in (\<lparr> Timestamp = now, Sets = [], Metrics = map Some points \<rparr>, src, \<lparr> isCollected = isCollected c + length points, isFiltered = filtered \<rparr>))"

section \<open>Properties\<close>

text \<open>The values that are reported when no filter drops them.\<close>

definition reportable :: "(string \<Rightarrow> string \<times> strmap) \<Rightarrow> internal_source \<Rightarrow> string \<times> f64 \<Rightarrow> bool" where
  "reportable decodeKey src kv \<longleftrightarrow> \<not> (f_eq (snd kv) (Fin 0) \<and> filterName src (fst (decodeKey (fst kv))))"

lemma stats_point_None: "stats_point decodeKey ts src key v = None \<longleftrightarrow> \<not> reportable decodeKey src (key, v)"
  by (simp add: stats_point_def reportable_def Let_def split: prod.split)

lemma FilterAppend_count:
  "FilterAppend flt points pt = (points', n) \<Longrightarrow> length points' + n = length points + (if pt = None then 0 else 1)"
  using wf_Filter_cases [of flt] by (cases pt) (auto simp: FilterAppend_def wf_Filter_def split: option.splits prod.splits if_splits)

lemma appendValues_count:
  "length (fst (appendValues decodeKey ts src vs st)) + snd (appendValues decodeKey ts src vs st) =
   length (fst st) + snd st + length (filter (reportable decodeKey src) vs)"
proof (induction vs arbitrary: st)
  case (Cons kv vs)
  obtain key v points filtered where kv: "kv = (key, v)" "st = (points, filtered)" by (cases kv; cases st)
  obtain points' n where f: "FilterAppend (isFilters src) points (stats_point decodeKey ts src key v) = (points', n)" by fastforce
  from FilterAppend_count [OF f] Cons.IH [of "(points', filtered + n)"] show ?case
    by (simp add: kv f stats_point_None split: if_splits)
qed simp

lemma AddK8sTags_keeps: "k \<noteq> ''k8s_version'' \<Longrightarrow> k \<noteq> ''k8s_provider'' \<Longrightarrow> map_of (AddK8sTags e tags) k = map_of tags k"
  by (simp add: AddK8sTags_def Let_def)

text \<open>
  Every value of the registry is reported, or counted as filtered, or is a zero that is not reported; the
  tags say whether the agent leads and how it was installed.
\<close>

theorem internalStats_accounting:
  "case internalStats decodeKey e leading registry now src c of (b, src', c') \<Rightarrow>
     isCollected c' = isCollected c + length (Metrics b) \<and>
     length (Metrics b) + isFiltered c' = isFiltered c +
       length (filter (reportable decodeKey src') (concat (map (\<lambda>(name, entry). entryValues name entry) registry))) \<and>
     map_of (isTags src') ''leading'' = Some (FormatBool leading) \<and>
     map_of (isTags src') ''installation_method'' = Some (GetInstallationMethod e)"
  using appendValues_count [of decodeKey "Time_Unix now" "src \<lparr> isTags := AddK8sTags e (gput ''installation_method'' (GetInstallationMethod e)
       (gput ''leading'' (FormatBool leading) (isTags src))) \<rparr>" "concat (map (\<lambda>(name, entry). entryValues name entry) registry)" "([], isFiltered c)"]
  by (simp add: internalStats_def Let_def case_prod_unfold AddK8sTags_keeps)

end
