(* ===== verification/Agent.thy ===== *)
theory Agent
  imports Discovery Runtime_Config Leadership Pipeline Sink_Manager Kube_Config
begin

text \<open>
  The life of an agent: the discovery manager (\<^verbatim>\<open>plugins/discovery/manager.go\<close>), the ticker of the flush
  manager (\<^verbatim>\<open>plugins/manager/manager.go\<close>), the agent that starts and stops them (\<^verbatim>\<open>internal/agent\<close>), and
  its creation and replacement in \<^verbatim>\<open>main.go\<close>.

  The channels that end goroutines are kept as nil, open or closed; what the goroutines do in
  between are steps: messages of the leader election, resources taken from the queue of the
  discoverer, and the discovery of node endpoints.
\<close>

section \<open>The discovery manager\<close>

text \<open>A listener is \<open>None\<close> before it is created.\<close>

record 's discovery_manager =
  dmConfig :: discovery_config
  dmScrapeCluster :: bool
  dmConfigListener :: "go_chan option"
  dmPodListener :: "go_chan option"
  dmServiceListener :: "go_chan option"
  dmStopCh :: go_chan
  dmCreator :: "endpoint_creator option"
  dmDiscoverer :: "(endpoint, 's) discoverer option"
  dmQueue :: "resource list"
  dmQueueCh :: go_chan
  dmEnabled :: int

abbreviation subscriberName :: string where "subscriberName \<equiv> ''discovery.manager''"

definition NewDiscoveryManager :: "discovery_config \<Rightarrow> bool \<Rightarrow> int \<Rightarrow> 's discovery_manager" where
  "NewDiscoveryManager cfg scrapeCluster enabled =
     \<lparr> dmConfig = cfg, dmScrapeCluster = scrapeCluster, dmConfigListener = None, dmPodListener = None, dmServiceListener = None,
       dmStopCh = OpenChan, dmCreator = None, dmDiscoverer = None, dmQueue = [], dmQueueCh = NilChan, dmEnabled = enabled \<rparr>"

text \<open>\<^verbatim>\<open>close(ch)\<close>.\<close>

definition closeChan :: "go_chan \<Rightarrow> go_chan go_result" where
  "closeChan ch =
     (case ch of NilChan \<Rightarrow> Inl (GoPanic ''close of nil channel'') | OpenChan \<Rightarrow> Inr ClosedChan
      | ClosedChan \<Rightarrow> Inl (GoPanic ''close of closed channel''))"

text \<open>The method \<^verbatim>\<open>stop\<close> of a listener.\<close>

definition listener_stop :: "go_chan option \<Rightarrow> go_chan option go_result" where
  "listener_stop listener =
     (case listener of
        None \<Rightarrow> Inl (GoPanic ''nil pointer dereference'')
      | Some ch \<Rightarrow> (case closeIfSet ch of Inl e \<Rightarrow> Inl e | Inr ch \<Rightarrow> Inr (Some ch)))"

text \<open>
  Without a namespace, from the environment or the file of the service account, the config handler
  has no informers, and starting it dereferences nil. \<open>handler\<close> is what the informers have delivered
  when their caches have synced.
\<close>

definition config_start :: "env \<Rightarrow> string \<Rightarrow> go_chan go_result" where
  "config_start e nsFile =
     (if GetNamespaceName e = [] \<and> nsFile = [] then Inl (GoPanic ''nil pointer dereference'') else Inr OpenChan)"

text \<open>What surrounds the manager: the parameters of the functions it calls.\<close>

record 's agent_world =
  awEnv :: env
  awElector :: "go_error option"
  awNamespaceFile :: string
  awAgentType :: agent_type
  awGlob :: glob_compiler
  awHttpYAML :: "string \<Rightarrow> client_config option"
  awHandler :: config_handler
  awInternalPlugins :: "plugin_config list option"
  awOps :: "(endpoint, 's) endpoint_ops"
  awSourcesOf :: "'s provider \<Rightarrow> 's list"
  awParseIP :: "string \<Rightarrow> string option"

definition startConfig :: "'w agent_world \<Rightarrow> 's discovery_manager \<Rightarrow> (go_chan option \<times> discovery_config) go_result" where
  "startConfig w dm =
     (if EnableRuntimePlugins (dmConfig dm) then
        (case config_start (awEnv w) (awNamespaceFile w) of
           Inl e \<Rightarrow> Inl e
         | Inr ch \<Rightarrow> Inr (Some ch, ch_Config (awInternalPlugins w) ((awHandler w) \<lparr> wiredCfg := dmConfig dm \<rparr>)))
      else Inr (dmConfigListener dm, dmConfig dm))"

definition dm_Start :: "'s agent_world \<Rightarrow> 's source_manager \<Rightarrow> leadership \<Rightarrow> 's discovery_manager \<Rightarrow>
    ('s discovery_manager \<times> leadership) go_result" where
  "dm_Start w sm l dm =
     (case startConfig w dm of
        Inl e \<Rightarrow> Inl e
      | Inr (listener, cfg) \<Rightarrow>
          (let (ec, d, ruleCount) = newDiscoverer (awGlob w) (awHttpYAML w) (GetNodeName (awEnv w)) cfg sm;
               dm = dm \<lparr> dmEnabled := dmEnabled dm + 1, dmStopCh := OpenChan, dmConfigListener := listener,
                         dmCreator := Some ec, dmDiscoverer := Some d, dmQueue := [], dmQueueCh := OpenChan,
                         dmPodListener := Some (if ScrapeAnyNodes (awAgentType w) then OpenChan else NilChan),
                         dmServiceListener := Some NilChan \<rparr>
           in Inr (dm, (if dmScrapeCluster dm then lm_Start (awEnv w) (awElector w) subscriberName l else l))))"

text \<open>\<^verbatim>\<open>DeleteAll\<close> runs as soon as the queue is closed; the goroutine that empties the queue may be behind.\<close>

definition dm_Stop :: "(endpoint, 's) endpoint_ops \<Rightarrow> ('s provider \<Rightarrow> 's list) \<Rightarrow> leadership \<Rightarrow> 's discovery_manager \<Rightarrow>
    ('s discovery_manager \<times> leadership) go_result" where
  "dm_Stop ops gs l dm =
     (let l = Unsubscribe subscriberName l in
      case (case dmConfigListener dm of None \<Rightarrow> Inr None | Some ch \<Rightarrow> listener_stop (Some ch)) of
        Inl e \<Rightarrow> Inl e
      | Inr configListener \<Rightarrow>
      (case listener_stop (dmPodListener dm) of
        Inl e \<Rightarrow> Inl e
      | Inr podListener \<Rightarrow>
      (case listener_stop (dmServiceListener dm) of
        Inl e \<Rightarrow> Inl e
      | Inr serviceListener \<Rightarrow>
      (case closeChan (dmStopCh dm) of
        Inl e \<Rightarrow> Inl e
      | Inr stopCh \<Rightarrow>
      (case closeChan (dmQueueCh dm) of
        Inl e \<Rightarrow> Inl e
      | Inr queueCh \<Rightarrow>
          Inr (dm \<lparr> dmEnabled := dmEnabled dm - 1, dmConfigListener := configListener, dmPodListener := podListener,
                    dmServiceListener := serviceListener, dmStopCh := stopCh, dmQueueCh := queueCh,
                    dmDiscoverer := map_option (DeleteAll ops gs) (dmDiscoverer dm) \<rparr>, l))))))"

definition dm_Resume :: "'s discovery_manager \<Rightarrow> 's discovery_manager" where
  "dm_Resume dm = dm \<lparr> dmServiceListener := map_option service_start (dmServiceListener dm) \<rparr>"

definition dm_Pause :: "'s discovery_manager \<Rightarrow> 's discovery_manager go_result" where
  "dm_Pause dm =
     (case listener_stop (dmServiceListener dm) of Inl e \<Rightarrow> Inl e | Inr listener \<Rightarrow> Inr (dm \<lparr> dmServiceListener := listener \<rparr>))"

text \<open>A resource arrives in the queue, and one is taken from it.\<close>

definition dm_enqueue :: "resource \<Rightarrow> 's discovery_manager \<Rightarrow> 's discovery_manager" where
  "dm_enqueue res dm = dm \<lparr> dmQueue := dmQueue dm @ [res] \<rparr>"

definition dm_dequeue :: "(endpoint, 's) endpoint_ops \<Rightarrow> ('s provider \<Rightarrow> 's list) \<Rightarrow> time \<Rightarrow> 's discovery_manager \<Rightarrow> 's discovery_manager" where
  "dm_dequeue ops gs now dm =
     (case (dmQueue dm, dmCreator dm, dmDiscoverer dm) of
        (res # queue, Some ec, Some d) \<Rightarrow> dm \<lparr> dmQueue := queue, dmDiscoverer := Some (dequeue ec ops gs now res d) \<rparr>
      | _ \<Rightarrow> dm)"

text \<open>\<^verbatim>\<open>startResyncConfig\<close>: when the runtime rules have changed, the manager is stopped and started again.\<close>

definition dm_sources :: "'s source_manager \<Rightarrow> 's discovery_manager option \<Rightarrow> 's source_manager" where
  "dm_sources sm dm = (case Option.bind dm dmDiscoverer of None \<Rightarrow> sm | Some d \<Rightarrow> erManager (dsRegistry d))"

definition dm_resync :: "'s agent_world \<Rightarrow> 's source_manager \<Rightarrow> leadership \<Rightarrow> 's discovery_manager \<Rightarrow>
    ('s discovery_manager \<times> leadership) go_result" where
  "dm_resync w sm l dm =
     (case dm_Stop (awOps w) (awSourcesOf w) l dm of
        Inl e \<Rightarrow> Inl e
      | Inr (dm, l) \<Rightarrow> dm_Start w (dm_sources sm (Some dm)) l dm)"

section \<open>The flush manager\<close>

text \<open>
  \<open>fmRunning\<close> counts the goroutines of \<^verbatim>\<open>run\<close>, each of which waits for a tick or a stop. The message of
  \<^verbatim>\<open>Stop\<close> needs such a goroutine: without one the call waits forever (\<open>None\<close>).
\<close>

record flush_manager =
  fmRunning :: nat
  fmInterval :: duration
  fmSink :: sink_manager

definition NewFlushManager :: "sink_manager \<Rightarrow> duration \<Rightarrow> flush_manager" where
  "NewFlushManager sink interval = \<lparr> fmRunning = 0, fmInterval = interval, fmSink = sink \<rparr>"

text \<open>A ticker with an interval that is not positive panics.\<close>

definition fm_Start :: "flush_manager \<Rightarrow> flush_manager go_result" where
  "fm_Start fm =
     (if fmInterval fm \<le> 0 then Inl (GoPanic ''non-positive interval for NewTicker'') else Inr (fm \<lparr> fmRunning := fmRunning fm + 1 \<rparr>))"

definition fm_Stop :: "flush_manager \<Rightarrow> flush_manager option" where
  "fm_Stop fm = (if fmRunning fm = 0 then None else Some (fm \<lparr> fmRunning := fmRunning fm - 1, fmSink := sinks_Stop (fmSink fm) \<rparr>))"

section \<open>The agent\<close>

record event_router =
  erScrapeCluster :: bool
  erManagerStop :: go_chan
  erStopCh :: go_chan

definition NewEventRouter :: "bool \<Rightarrow> event_router" where
  "NewEventRouter scrapeCluster = \<lparr> erScrapeCluster = scrapeCluster, erManagerStop = OpenChan, erStopCh = NilChan \<rparr>"

record 's agent =
  agFlush :: flush_manager
  agDiscovery :: "'s discovery_manager option"
  agRouter :: "event_router option"
  agLeadership :: leadership
  agManager :: "'s source_manager"

definition NewAgent :: "flush_manager \<Rightarrow> 's discovery_manager option \<Rightarrow> event_router option \<Rightarrow> leadership \<Rightarrow> 's source_manager \<Rightarrow> 's agent" where
  "NewAgent pm dm er l sm = \<lparr> agFlush = pm, agDiscovery = dm, agRouter = er, agLeadership = l, agManager = sm \<rparr>"

text \<open>The source manager: the discoverer works on it while there is one.\<close>

definition agent_sources :: "'s agent \<Rightarrow> 's source_manager" where
  "agent_sources a = dm_sources (agManager a) (agDiscovery a)"

definition startDiscovery :: "'s agent_world \<Rightarrow> 's agent \<Rightarrow> 's agent go_result" where
  "startDiscovery w a =
     (case agDiscovery a of
        None \<Rightarrow> Inr a
      | Some dm \<Rightarrow>
          (case dm_Start w (agent_sources a) (agLeadership a) dm of
             Inl e \<Rightarrow> Inl e
           | Inr (dm, l) \<Rightarrow> Inr (a \<lparr> agDiscovery := Some dm, agLeadership := l \<rparr>)))"

definition startRouter :: "'s agent_world \<Rightarrow> 's agent \<Rightarrow> 's agent" where
  "startRouter w a =
     (case agRouter a of
        None \<Rightarrow> a
      | Some r \<Rightarrow> a \<lparr> agLeadership := router_Start (erScrapeCluster r) (awEnv w) (awElector w) (agLeadership a) \<rparr>)"

definition agent_Start :: "'s agent_world \<Rightarrow> 's agent \<Rightarrow> 's agent go_result" where
  "agent_Start w a =
     (case fm_Start (agFlush a) of
        Inl e \<Rightarrow> Inl e
      | Inr fm \<Rightarrow> (case startDiscovery w (a \<lparr> agFlush := fm \<rparr>) of Inl e \<Rightarrow> Inl e | Inr a \<Rightarrow> Inr (startRouter w a)))"

definition stopDiscovery :: "'s agent_world \<Rightarrow> 's agent \<Rightarrow> 's agent go_result" where
  "stopDiscovery w a =
     (case agDiscovery a of
        None \<Rightarrow> Inr a
      | Some dm \<Rightarrow>
          (case dm_Stop (awOps w) (awSourcesOf w) (agLeadership a) dm of
             Inl e \<Rightarrow> Inl e
           | Inr (dm, l) \<Rightarrow> Inr (a \<lparr> agDiscovery := Some dm, agLeadership := l \<rparr>)))"

definition stopRouter :: "'s agent \<Rightarrow> 's agent go_result" where
  "stopRouter a =
     (case agRouter a of
        None \<Rightarrow> Inr a
      | Some r \<Rightarrow>
          (case router_Stop (erScrapeCluster r) (erManagerStop r) (erStopCh r) (agLeadership a) of
             Inl e \<Rightarrow> Inl e
           | Inr (lmStop, stop, l) \<Rightarrow> Inr (a \<lparr> agRouter := Some (r \<lparr> erManagerStop := lmStop, erStopCh := stop \<rparr>), agLeadership := l \<rparr>)))"

text \<open>
  \<^verbatim>\<open>sources.Manager()\<close> is one object; when the agent stops, its discoverer has let go of it. The result
  is \<open>None\<close> when the call never returns.
\<close>

definition agent_Stop :: "'s agent_world \<Rightarrow> 's agent \<Rightarrow> ('s agent \<times> 's source_manager) go_result option" where
  "agent_Stop w a =
     (case fm_Stop (agFlush a) of
        None \<Rightarrow> None
      | Some fm \<Rightarrow> Some
          (case stopDiscovery w (a \<lparr> agFlush := fm \<rparr>) of
             Inl e \<Rightarrow> Inl e
           | Inr a \<Rightarrow>
               (case stopRouter a of
                  Inl e \<Rightarrow> Inl e
                | Inr a \<Rightarrow> Inr (a, StopProviders (awSourcesOf w) (agent_sources a)))))"

section \<open>The program\<close>

definition getVersion :: "(string \<Rightarrow> f64 option) \<Rightarrow> string \<Rightarrow> f64 go_result" where
  "getVersion parseFloat version =
     (let parts = split_on (CHR ''.'') version in
      if length parts < 3 then Inl (GoPanic ''index out of range'')
      else Inr (case parseFloat (parts ! 0 @ ''.'' @ parts ! 1 @ parts ! 2) of None \<Rightarrow> Fin 0 | Some f \<Rightarrow> f))"

definition setMaxProcs :: "int \<Rightarrow> int \<Rightarrow> int" where
  "setMaxProcs maxProcs numCPU = (if maxProcs < 1 then (if numCPU = 1 then 2 else numCPU) else maxProcs)"

text \<open>\<^verbatim>\<open>preRegister\<close>: the agent type is set, and an agent of a node needs the name of the node.\<close>

definition preRegister :: "(string \<Rightarrow> f64 option) \<Rightarrow> string \<Rightarrow> env \<Rightarrow> agent_type \<Rightarrow> f64 go_result" where
  "preRegister parseFloat version e ag =
     (if GetNodeName e = [] \<and> ScrapeOnlyOwnNode ag then Inl (GoPanic ''missing environment variable POD_NODE_NAME'')
      else getVersion parseFloat version)"

record ('s, 'k) boot =
  btWorld :: "'s agent_world"
  btKube :: kube_files
  btFactories :: "'s provider_factories"
  btBuildSink :: "wavefront_sink_config \<Rightarrow> 'k go_result"
  btPods :: "string \<Rightarrow> string \<Rightarrow> pod option go_result"
  btVersion :: f64
  btNow :: time

definition createKubeClientOrDie :: "kube_files \<Rightarrow> summary_source_config \<Rightarrow> kube_rest_config go_result" where
  "createKubeClientOrDie kf cfg =
     (case GetKubeClientConfig kf cfg of Inl _ \<Rightarrow> Inl (GoPanic ''Failed to get client config'') | Inr c \<Rightarrow> Inr c)"

definition createSinkManagerOrDie :: "(wavefront_sink_config \<Rightarrow> 'k go_result) \<Rightarrow> time \<Rightarrow> wavefront_sink_config list \<Rightarrow> duration \<Rightarrow> sink_manager go_result" where
  "createSinkManagerOrDie build now cfgs timeout =
     (case BuildAll build cfgs of
        Inl e \<Rightarrow> Inl e
      | Inr sinkList \<Rightarrow> Inr (NewSinkManager (length sinkList) timeout DefaultSinkStopTimeout now))"

definition createDiscoveryManagerOrDie :: "config \<Rightarrow> int \<Rightarrow> 's discovery_manager option" where
  "createDiscoveryManagerOrDie cfg enabled =
     (if EnableDiscovery cfg then Some (NewDiscoveryManager (DiscoveryConfig cfg) (cfgScrapeCluster cfg) enabled) else None)"

text \<open>The subscription of the agent itself.\<close>

definition subscribeAgent :: "'s agent_world \<Rightarrow> config \<Rightarrow> leadership \<Rightarrow> leadership go_result" where
  "subscribeAgent w cfg l =
     (if cfgScrapeCluster cfg then
        (case Subscribe (awEnv w) (awElector w) ''agent'' l of
           (Some _, _) \<Rightarrow> Inl (GoPanic ''Failed to start leader election'')
         | (None, l) \<Rightarrow> Inr l)
      else Inr l)"

definition buildSources :: "('s, 'k) boot \<Rightarrow> config \<Rightarrow> source_config \<Rightarrow> 's source_manager \<Rightarrow> 's source_manager go_result" where
  "buildSources b cfg src sm =
     (case BuildProviders (awSourcesOf (btWorld b)) (btNow b) (btFactories b) src (SetDefaultCollectionInterval (DefaultCollectionInterval cfg) sm) of
        Inl (GoPanic p) \<Rightarrow> Inl (GoPanic p)
      | Inl (Errorf _) \<Rightarrow> Inl (GoPanic ''Failed to create source manager'')
      | Inr sm \<Rightarrow> Inr sm)"

text \<open>
  \<^verbatim>\<open>createAgentOrDie\<close>. The election, the source manager and the count of running discovery managers belong
  to the process and are handed from one agent to the next.
\<close>

definition createAgentOrDie :: "('s, 'k) boot \<Rightarrow> config \<Rightarrow> leadership \<Rightarrow> 's source_manager \<Rightarrow> int \<Rightarrow>
    (features \<times> 'h processor list \<times> 's agent) go_result" where
  "createAgentOrDie b cfg l sm enabled =
     (let features = fold EnableFeature (Experimental cfg) (DisableAll []) in
      case Sources cfg of
        None \<Rightarrow> Inl (GoPanic ''nil pointer dereference'')
      | Some src \<Rightarrow>
      (case SummaryConfig src of
        None \<Rightarrow> Inl (GoPanic ''nil pointer dereference'')
      | Some summaryCfg \<Rightarrow>
      (case createKubeClientOrDie (btKube b) summaryCfg of
        Inl e \<Rightarrow> Inl e
      | Inr _ \<Rightarrow>
      (case buildSources b cfg src sm of
        Inl e \<Rightarrow> Inl e
      | Inr sm \<Rightarrow>
      (case setInternalSinkProperties (btVersion b) cfg of
        Inl e \<Rightarrow> Inl e
      | Inr cfg \<Rightarrow>
      (case createSinkManagerOrDie (btBuildSink b) (btNow b) (Sinks cfg) (SinkExportDataTimeout cfg) of
        Inl e \<Rightarrow> Inl e
      | Inr sinkManager \<Rightarrow>
      (let eventRouter = (if EnableEvents cfg then Some (NewEventRouter (cfgScrapeCluster cfg)) else None);
           dm = createDiscoveryManagerOrDie cfg enabled in
       case createDataProcessorsOrDie (awGlob (btWorld b)) (btNow b) (cfgClusterName cfg) (btPods b) cfg of
        Inl e \<Rightarrow> Inl e
      | Inr dataProcessors \<Rightarrow>
      (case subscribeAgent (btWorld b) cfg l of
        Inl e \<Rightarrow> Inl e
      | Inr l \<Rightarrow>
      (case agent_Start (btWorld b) (NewAgent (NewFlushManager sinkManager (FlushInterval cfg)) dm eventRouter l sm) of
        Inl e \<Rightarrow> Inl e
      | Inr ag \<Rightarrow> Inr (features, dataProcessors, ag))))))))))"

definition enabledCount :: "'s agent \<Rightarrow> int" where
  "enabledCount a = (case agDiscovery a of None \<Rightarrow> 0 | Some dm \<Rightarrow> dmEnabled dm)"

definition handleCollectorCfg :: "('s, 'k) boot \<Rightarrow> config \<Rightarrow> 's agent \<Rightarrow> (features \<times> 'h processor list \<times> 's agent) go_result option" where
  "handleCollectorCfg b cfg a =
     (let cfg = fillDefaults (awAgentType (btWorld b)) cfg in
      case agent_Stop (btWorld b) a of
        None \<Rightarrow> None
      | Some (Inl e) \<Rightarrow> Some (Inl e)
      | Some (Inr (a, sm)) \<Rightarrow> Some (createAgentOrDie b cfg (agLeadership a) sm (enabledCount a)))"

section \<open>While it runs\<close>

datatype agent_event = DiscoveryMessage bool | RouterMessage bool | Enqueued resource | Dequeued time
  | NodesListed time "node list go_result" "plugin_config list"

definition on_discovery :: "('s discovery_manager \<Rightarrow> 's discovery_manager) \<Rightarrow> 's agent \<Rightarrow> 's agent" where
  "on_discovery f a = a \<lparr> agDiscovery := map_option f (agDiscovery a) \<rparr>"

fun agent_step :: "'s agent_world \<Rightarrow> 's agent \<Rightarrow> agent_event \<Rightarrow> 's agent go_result" where
  "agent_step w a (DiscoveryMessage b) =
     (case agDiscovery a of
        None \<Rightarrow> Inr a
      | Some dm \<Rightarrow> (case lm_turn dm_Resume dm_Pause b dm of Inl e \<Rightarrow> Inl e | Inr dm \<Rightarrow> Inr (a \<lparr> agDiscovery := Some dm \<rparr>)))"
| "agent_step w a (RouterMessage b) =
     (case agRouter a of
        None \<Rightarrow> Inr a
      | Some r \<Rightarrow> (case lm_turn router_Resume router_Pause b (erStopCh r) of
                     Inl e \<Rightarrow> Inl e
                   | Inr ch \<Rightarrow> Inr (a \<lparr> agRouter := Some (r \<lparr> erStopCh := ch \<rparr>) \<rparr>)))"
| "agent_step w a (Enqueued res) = Inr (on_discovery (dm_enqueue res) a)"
| "agent_step w a (Dequeued now) = Inr (on_discovery (dm_dequeue (awOps w) (awSourcesOf w) now) a)"
| "agent_step w a (NodesListed now nodes plugins) =
     Inr (on_discovery (\<lambda>dm. case (dmCreator dm, dmDiscoverer dm) of
            (Some ec, Some d) \<Rightarrow> dm \<lparr> dmDiscoverer := Some (discoverNodeEndpoints ec (awOps w) (awSourcesOf w) now (awParseIP w) (awEnv w) nodes plugins d) \<rparr>
          | _ \<Rightarrow> dm) a)"

fun agent_run :: "'s agent_world \<Rightarrow> 's agent \<Rightarrow> agent_event list \<Rightarrow> 's agent go_result" where
  "agent_run w a [] = Inr a"
| "agent_run w a (ev # evs) = (case agent_step w a ev of Inl e \<Rightarrow> Inl e | Inr a \<Rightarrow> agent_run w a evs)"

section \<open>The source manager stays consistent\<close>

definition disc_inv :: "('e, 's) discoverer \<Rightarrow> bool" where
  "disc_inv d \<longleftrightarrow> sm_inv (erManager (dsRegistry d))"

lemma handler_inv:
  "sm_inv (erManager r) \<Longrightarrow> sm_inv (erManager (handler_Add ops gs now ep r))"
  "sm_inv (erManager r) \<Longrightarrow> sm_inv (erManager (handler_Delete ops gs ep r))"
  by (simp_all add: handler_Add_def handler_Delete_def sm_inv_Add sm_inv_Delete split: sum.split)

lemma handlers_inv:
  "sm_inv (erManager r) \<Longrightarrow> sm_inv (erManager (fold (handler_Add ops gs now) eps r))"
  "sm_inv (erManager r) \<Longrightarrow> sm_inv (erManager (fold (handler_Delete ops gs) eps r))"
  by (induction eps arbitrary: r) (simp_all add: handler_inv)

lemma disc_inv_ops:
  assumes "disc_inv d"
  shows "disc_inv (replaceEndpoints ops gs now name eps d)" "disc_inv (dropEndpoints ops gs name d)" "disc_inv (appendEndpoint ops gs now name ep d)"
  using assms by (simp_all add: disc_inv_def replaceEndpoints_def dropEndpoints_def appendEndpoint_def Let_def handlers_inv handler_inv)

lemma disc_inv_DeleteAll:
  assumes "disc_inv d"
  shows "disc_inv (DeleteAll ops gs d)"
proof -
  have "disc_inv (fold (\<lambda>(k, eps) d. d \<lparr> dsEndpoints := gdel k (dsEndpoints d), dsRegistry := fold (handler_Delete ops gs) eps (dsRegistry d) \<rparr>) m d)"
    if "disc_inv d" for m and d :: "('a, 'b) discoverer"
    using that by (induction m arbitrary: d) (auto simp: disc_inv_def handlers_inv)
  with assms show ?thesis by (simp add: DeleteAll_def)
qed

lemma disc_inv_dequeue: "disc_inv d \<Longrightarrow> disc_inv (dequeue ec ops gs now res d)"
  by (simp add: dequeue_def internalDelete_def internalDiscover_def disc_inv_ops)

lemma disc_inv_node:
  assumes "disc_inv d"
  shows "disc_inv (snd (discoverNodeEndpoint ec ops gs now parseIP e nodes plugin d))"
  using discoverNodeEndpoint_cases [of ec ops gs now parseIP e nodes plugin d] disc_inv_ops(3) [OF assms] assms by auto

lemma disc_inv_nodes: "disc_inv d \<Longrightarrow> disc_inv (discoverNodeEndpoints ec ops gs now parseIP e nodes plugins d)"
  unfolding discoverNodeEndpoints_def by (induction plugins arbitrary: d) (simp_all add: disc_inv_node)

section \<open>What a run changes\<close>

text \<open>The channel of a listener after messages of the election.\<close>

definition chan_after :: "bool list \<Rightarrow> go_chan \<Rightarrow> go_chan" where
  "chan_after msgs ch = foldl (\<lambda>ch b. if b then OpenChan else if ch = NilChan then NilChan else ClosedChan) ch msgs"

lemma chan_after_append: "chan_after (xs @ ys) = (\<lambda>ch. chan_after ys (chan_after xs ch))"
  by (simp add: chan_after_def fun_eq_iff)

lemma chan_after_single [simp]:
  "chan_after [] = (\<lambda>ch. ch)" "chan_after [True] ch = OpenChan" "chan_after [False] ch = (if ch = NilChan then NilChan else ClosedChan)"
  by (simp_all add: chan_after_def fun_eq_iff)

text \<open>A listener has been demoted when it has been resumed and its last message is a pause.\<close>

definition demoted :: "bool list \<Rightarrow> bool" where
  "demoted msgs \<longleftrightarrow> True \<in> set msgs \<and> \<not> last msgs"

lemma chan_after_Nil: "chan_after msgs NilChan = (if True \<notin> set msgs then NilChan else if last msgs then OpenChan else ClosedChan)"
  by (induction msgs rule: rev_induct) (auto simp: chan_after_append)

definition discovery_msgs :: "agent_event list \<Rightarrow> bool list" where
  "discovery_msgs evs = concat (map (\<lambda>ev. case ev of DiscoveryMessage b \<Rightarrow> [b] | _ \<Rightarrow> []) evs)"

definition router_msgs :: "agent_event list \<Rightarrow> bool list" where
  "router_msgs evs = concat (map (\<lambda>ev. case ev of RouterMessage b \<Rightarrow> [b] | _ \<Rightarrow> []) evs)"

lemma msgs_append:
  "discovery_msgs (xs @ ys) = discovery_msgs xs @ discovery_msgs ys" "router_msgs (xs @ ys) = router_msgs xs @ router_msgs ys"
  by (simp_all add: discovery_msgs_def router_msgs_def)

definition dm_evolved :: "bool list \<Rightarrow> 's discovery_manager \<Rightarrow> 's discovery_manager \<Rightarrow> bool" where
  "dm_evolved msgs dm dm' \<longleftrightarrow>
     dmConfigListener dm' = dmConfigListener dm \<and> dmPodListener dm' = dmPodListener dm \<and> dmStopCh dm' = dmStopCh dm \<and>
     dmQueueCh dm' = dmQueueCh dm \<and> dmServiceListener dm' = map_option (chan_after msgs) (dmServiceListener dm) \<and>
     (dmDiscoverer dm' = None \<longleftrightarrow> dmDiscoverer dm = None) \<and>
     (pred_option disc_inv (dmDiscoverer dm) \<longrightarrow> pred_option disc_inv (dmDiscoverer dm'))"

definition er_evolved :: "bool list \<Rightarrow> event_router \<Rightarrow> event_router \<Rightarrow> bool" where
  "er_evolved msgs r r' \<longleftrightarrow> r' = r \<lparr> erStopCh := chan_after msgs (erStopCh r) \<rparr>"

definition evolved :: "agent_event list \<Rightarrow> 's agent \<Rightarrow> 's agent \<Rightarrow> bool" where
  "evolved evs a a' \<longleftrightarrow>
     agFlush a' = agFlush a \<and> agLeadership a' = agLeadership a \<and> agManager a' = agManager a \<and>
     rel_option (dm_evolved (discovery_msgs evs)) (agDiscovery a) (agDiscovery a') \<and>
     rel_option (er_evolved (router_msgs evs)) (agRouter a) (agRouter a')"

lemma dm_evolved_trans: "dm_evolved xs a b \<Longrightarrow> dm_evolved ys b c \<Longrightarrow> dm_evolved (xs @ ys) a c"
  by (auto simp: dm_evolved_def chan_after_append option.map_comp comp_def)

lemma dm_evolved_refl [simp]: "dm_evolved [] dm dm"
  by (simp add: dm_evolved_def option.map_ident)

lemma er_evolved_refl [simp]: "er_evolved [] r r"
  by (simp add: er_evolved_def)

lemma er_evolved_trans: "er_evolved xs a b \<Longrightarrow> er_evolved ys b c \<Longrightarrow> er_evolved (xs @ ys) a c"
  by (simp add: er_evolved_def chan_after_append)

lemma evolved_trans:
  assumes "evolved xs a b" "evolved ys b c"
  shows "evolved (xs @ ys) a c"
proof -
  have "rel_option (dm_evolved (discovery_msgs (xs @ ys))) (agDiscovery a) (agDiscovery c)"
    using assms by (auto simp: evolved_def msgs_append option_rel_Some1 elim!: option.rel_cases intro: dm_evolved_trans)
  moreover have "rel_option (er_evolved (router_msgs (xs @ ys))) (agRouter a) (agRouter c)"
    using assms by (auto simp: evolved_def msgs_append option_rel_Some1 elim!: option.rel_cases intro: er_evolved_trans)
  ultimately show ?thesis using assms by (simp add: evolved_def)
qed

lemma dm_turn_evolved: "lm_turn dm_Resume dm_Pause b dm = Inr dm' \<Longrightarrow> dm_evolved [b] dm dm'"
  by (cases "dmServiceListener dm")
     (auto simp: lm_turn_def dm_Resume_def dm_Pause_def listener_stop_def closeIfSet_def dm_evolved_def service_start_def
      split: if_splits option.splits go_chan.splits)

lemma router_turn_evolved: "lm_turn router_Resume router_Pause b (erStopCh r) = Inr ch \<Longrightarrow> er_evolved [b] r (r \<lparr> erStopCh := ch \<rparr>)"
  by (auto simp: lm_turn_def router_Resume_def router_Pause_def closeIfSet_def er_evolved_def split: if_splits go_chan.splits)

lemma dm_enqueue_evolved: "dm_evolved [] dm (dm_enqueue res dm)"
  by (simp add: dm_enqueue_def dm_evolved_def option.map_ident)

lemma dm_dequeue_evolved: "dm_evolved [] dm (dm_dequeue ops gs now dm)"
  by (simp add: dm_dequeue_def dm_evolved_def option.map_ident disc_inv_dequeue split: list.split option.split)

lemma agent_step_evolved: "agent_step w a ev = Inr a' \<Longrightarrow> evolved [ev] a a'"
proof (cases ev)
  case (DiscoveryMessage b)
  moreover assume "agent_step w a ev = Inr a'"
  ultimately show ?thesis
    by (auto simp: evolved_def discovery_msgs_def router_msgs_def option.rel_refl dest!: dm_turn_evolved split: option.splits sum.splits)
next
  case (RouterMessage b)
  moreover assume "agent_step w a ev = Inr a'"
  ultimately show ?thesis
    by (auto simp: evolved_def discovery_msgs_def router_msgs_def option.rel_refl dest!: router_turn_evolved split: option.splits sum.splits)
next
  case (Enqueued res)
  moreover assume "agent_step w a ev = Inr a'"
  ultimately show ?thesis
    by (cases "agDiscovery a") (auto simp: evolved_def on_discovery_def discovery_msgs_def router_msgs_def option.rel_refl dm_enqueue_evolved)
next
  case (Dequeued now)
  moreover assume "agent_step w a ev = Inr a'"
  ultimately show ?thesis
    by (cases "agDiscovery a") (auto simp: evolved_def on_discovery_def discovery_msgs_def router_msgs_def option.rel_refl dm_dequeue_evolved)
next
  case (NodesListed now nodes plugins)
  moreover assume "agent_step w a ev = Inr a'"
  ultimately show ?thesis
    by (cases "agDiscovery a")
       (auto simp: evolved_def on_discovery_def discovery_msgs_def router_msgs_def option.rel_refl dm_evolved_def option.map_ident disc_inv_nodes
          split: option.split)
qed

lemma agent_run_evolved: "agent_run w a evs = Inr a' \<Longrightarrow> evolved evs a a'"
proof (induction evs arbitrary: a)
  case Nil
  then show ?case by (simp add: evolved_def discovery_msgs_def router_msgs_def option.rel_refl)
next
  case (Cons ev evs)
  then obtain b where "agent_step w a ev = Inr b" "agent_run w b evs = Inr a'" by (auto split: sum.splits)
  with Cons.IH have "evolved [ev] a b" "evolved evs b a'" by (simp_all add: agent_step_evolved)
  then show ?case using evolved_trans by fastforce
qed

section \<open>Stopping\<close>

text \<open>What \<^verbatim>\<open>Start\<close> leaves behind.\<close>

definition dm_started :: "'s discovery_manager \<Rightarrow> bool" where
  "dm_started dm \<longleftrightarrow> (dmConfigListener dm = None \<or> dmConfigListener dm = Some OpenChan) \<and>
     (dmPodListener dm = Some OpenChan \<or> dmPodListener dm = Some NilChan) \<and> dmServiceListener dm = Some NilChan \<and>
     dmStopCh dm = OpenChan \<and> dmQueueCh dm = OpenChan \<and> (\<exists>d. dmDiscoverer dm = Some d \<and> disc_inv d)"

lemma dm_Start_started:
  assumes "dm_Start w sm l dm = Inr (dm', l')" "sm_inv sm" "dmConfigListener dm = None"
  shows "dm_started dm'"
  using assms by (auto simp: dm_Start_def startConfig_def config_start_def newDiscoverer_def Let_def dm_started_def disc_inv_def
      split: sum.splits prod.splits if_splits)

lemma dm_Stop_evolved:
  assumes "dm_started dm" "dm_evolved msgs dm dm'"
  shows "if demoted msgs then dm_Stop ops gs l dm' = Inl (GoPanic ''close of closed channel'')
    else \<exists>dm'' d. dm_Stop ops gs l dm' = Inr (dm'', Unsubscribe subscriberName l) \<and> dmDiscoverer dm'' = Some d \<and> disc_inv d"
proof -
  from assms have c: "dmConfigListener dm' = None \<or> dmConfigListener dm' = Some OpenChan" "dmPodListener dm' = Some OpenChan \<or> dmPodListener dm' = Some NilChan"
    "dmStopCh dm' = OpenChan" "dmQueueCh dm' = OpenChan" "dmServiceListener dm' = Some (chan_after msgs NilChan)"
    unfolding dm_started_def dm_evolved_def by auto
  obtain d where d: "dmDiscoverer dm' = Some d" "disc_inv d" using assms unfolding dm_started_def dm_evolved_def by fastforce
  show ?thesis
    using c d disc_inv_DeleteAll [OF d(2), of ops gs]
    by (auto simp: dm_Stop_def Let_def listener_stop_def closeIfSet_def closeChan_def chan_after_Nil demoted_def)
qed

definition new_manager :: "'s discovery_manager option \<Rightarrow> bool" where
  "new_manager dm \<longleftrightarrow> (case dm of None \<Rightarrow> True | Some dm \<Rightarrow> \<exists>cfg sc n. dm = NewDiscoveryManager cfg sc n)"

lemma agent_Start_started:
  assumes "agent_Start w (NewAgent (NewFlushManager sinks interval) dm er l sm) = Inr a" "new_manager dm" "sm_inv sm"
  shows "fmRunning (agFlush a) = 1 \<and> agRouter a = er \<and> agManager a = sm \<and>
    (case dm of None \<Rightarrow> agDiscovery a = None | Some _ \<Rightarrow> \<exists>dm'. agDiscovery a = Some dm' \<and> dm_started dm')"
proof (cases dm)
  case None
  with assms show ?thesis
    by (auto simp: agent_Start_def fm_Start_def NewAgent_def NewFlushManager_def startDiscovery_def startRouter_def split: if_splits option.splits)
next
  case (Some dm0)
  with assms(2) have fresh: "dmConfigListener dm0 = None" "dmDiscoverer dm0 = None" by (auto simp: new_manager_def NewDiscoveryManager_def)
  with Some assms(1) obtain dm' l' where st: "dm_Start w sm l dm0 = Inr (dm', l')" "agDiscovery a = Some dm'" "fmRunning (agFlush a) = 1"
    "agRouter a = er" "agManager a = sm"
    by (auto simp: agent_Start_def fm_Start_def NewAgent_def NewFlushManager_def startDiscovery_def startRouter_def agent_sources_def dm_sources_def
        split: if_splits option.splits sum.splits prod.splits)
  from dm_Start_started [OF st(1) assms(3) fresh(1)] st Some show ?thesis by simp
qed

definition new_router :: "event_router option \<Rightarrow> bool" where
  "new_router er \<longleftrightarrow> (case er of None \<Rightarrow> True | Some r \<Rightarrow> \<exists>sc. r = NewEventRouter sc)"

lemma stopRouter_evolved:
  assumes "agRouter a = Some r'" "er_evolved msgs (NewEventRouter sc) r'"
  shows "if demoted msgs then stopRouter a = Inl (GoPanic ''close of closed channel'')
    else \<exists>r''. stopRouter a = Inr (a \<lparr> agRouter := Some r'', agLeadership := (if sc then Unsubscribe ''eventRouter'' (agLeadership a) else agLeadership a) \<rparr>)"
  using assms
  by (auto simp: er_evolved_def NewEventRouter_def stopRouter_def router_Stop_def router_Pause_def lm_Stop_def closeIfSet_def chan_after_Nil demoted_def)

lemma StopProviders_scrapers: "sm_inv sm \<Longrightarrow> smScrapers (StopProviders gs sm) = []"
proof -
  assume "sm_inv sm"
  then have "sm_inv (StopProviders gs sm)" by (rule sm_inv_Stop)
  from sm_invD(9) [OF this] have "(q, p) \<notin> set (smScrapers (StopProviders gs sm))" for q p by (simp add: StopProviders_empty)
  then have "set (smScrapers (StopProviders gs sm)) = {}" by (metis ex_in_conv surj_pair)
  then show ?thesis by simp
qed

lemma stop_agent:
  assumes "fmRunning (agFlush a) = 1"
  shows "agent_Stop w a = Some
     (case stopDiscovery w (a \<lparr> agFlush := (agFlush a) \<lparr> fmRunning := 0, fmSink := sinks_Stop (fmSink (agFlush a)) \<rparr> \<rparr>) of
        Inl e \<Rightarrow> Inl e
      | Inr a \<Rightarrow> (case stopRouter a of Inl e \<Rightarrow> Inl e | Inr a \<Rightarrow> Inr (a, StopProviders (awSourcesOf w) (agent_sources a))))"
  using assms by (simp add: agent_Stop_def fm_Stop_def)

lemma agent_Stop_cases:
  assumes "agent_Start w (NewAgent (NewFlushManager sinks interval) dm er l sm) = Inr a" "new_manager dm" "new_router er" "sm_inv sm"
    and "agent_run w a evs = Inr a'"
  shows "if dm \<noteq> None \<and> demoted (discovery_msgs evs) \<or> er \<noteq> None \<and> demoted (router_msgs evs)
    then agent_Stop w a' = Some (Inl (GoPanic ''close of closed channel''))
    else \<exists>a'' sm'. agent_Stop w a' = Some (Inr (a'', sm')) \<and> smProviders sm' = [] \<and> smScrapers sm' = [] \<and>
      (dm \<noteq> None \<longrightarrow> map_of (ldSubscribers (agLeadership a'')) subscriberName = None) \<and>
      (er = Some (NewEventRouter True) \<longrightarrow> map_of (ldSubscribers (agLeadership a'')) ''eventRouter'' = None)"
proof -
  note st = agent_Start_started [OF assms(1,2,4)]
  have ev: "evolved evs a a'" by (rule agent_run_evolved [OF assms(5)])
  define b where "b = a' \<lparr> agFlush := (agFlush a') \<lparr> fmRunning := 0, fmSink := sinks_Stop (fmSink (agFlush a')) \<rparr> \<rparr>"
  have stop: "agent_Stop w a' = Some (case stopDiscovery w b of Inl e \<Rightarrow> Inl e
      | Inr a \<Rightarrow> (case stopRouter a of Inl e \<Rightarrow> Inl e | Inr a \<Rightarrow> Inr (a, StopProviders (awSourcesOf w) (agent_sources a))))"
    unfolding b_def using ev st by (intro stop_agent) (simp add: evolved_def)
  have router: "agRouter b = agRouter a'" "rel_option (er_evolved (router_msgs evs)) er (agRouter b)" and man: "agManager b = sm"
    using ev st by (auto simp: b_def evolved_def)
  have disc: "if dm \<noteq> None \<and> demoted (discovery_msgs evs) then stopDiscovery w b = Inl (GoPanic ''close of closed channel'')
    else \<exists>c. stopDiscovery w b = Inr c \<and> agRouter c = agRouter b \<and> sm_inv (agent_sources c) \<and>
      (dm \<noteq> None \<longrightarrow> map_of (ldSubscribers (agLeadership c)) subscriberName = None)"
  proof (cases dm)
    case None
    with st ev have "agDiscovery b = None" by (auto simp: evolved_def b_def)
    with None man assms(4) show ?thesis by (simp add: stopDiscovery_def agent_sources_def dm_sources_def)
  next
    case (Some dm0)
    with st ev obtain dm1 dm2 where d: "dm_started dm1" "dm_evolved (discovery_msgs evs) dm1 dm2" "agDiscovery b = Some dm2"
      by (auto simp: evolved_def b_def option_rel_Some1)
    from dm_Stop_evolved [OF d(1,2), of "awOps w" "awSourcesOf w" "agLeadership b"] d(3) Some show ?thesis
      by (auto simp: stopDiscovery_def agent_sources_def dm_sources_def disc_inv_def Unsubscribe_def split: if_splits)
  qed
  have rout: "if er \<noteq> None \<and> demoted (router_msgs evs) then stopRouter c = Inl (GoPanic ''close of closed channel'')
    else \<exists>c'. stopRouter c = Inr c' \<and> agent_sources c' = agent_sources c \<and>
      (map_of (ldSubscribers (agLeadership c)) subscriberName = None \<longrightarrow> map_of (ldSubscribers (agLeadership c')) subscriberName = None) \<and>
      (er = Some (NewEventRouter True) \<longrightarrow> map_of (ldSubscribers (agLeadership c')) ''eventRouter'' = None)"
    if same: "agRouter c = agRouter b" for c
  proof (cases er)
    case None
    with router same have "agRouter c = None" by simp
    with None show ?thesis by (simp add: stopRouter_def)
  next
    case (Some r)
    with assms(3) obtain sc where sc: "r = NewEventRouter sc" by (auto simp: new_router_def)
    from Some router obtain r' where r': "agRouter c = Some r'" "er_evolved (router_msgs evs) (NewEventRouter sc) r'"
      using same sc by (auto simp: option_rel_Some1)
    have "NewEventRouter sc = NewEventRouter True \<longleftrightarrow> sc" by (simp add: NewEventRouter_def)
    with stopRouter_evolved [OF r'] Some sc show ?thesis
      by (auto simp: agent_sources_def Unsubscribe_def split: if_splits)
  qed
  show ?thesis
  proof (cases "dm \<noteq> None \<and> demoted (discovery_msgs evs)")
    case True
    with disc show ?thesis by (simp add: stop)
  next
    case False
    with disc obtain c where c: "stopDiscovery w b = Inr c" "agRouter c = agRouter b" "sm_inv (agent_sources c)"
      "dm \<noteq> None \<longrightarrow> map_of (ldSubscribers (agLeadership c)) subscriberName = None" by auto
    from rout [OF c(2)] c False show ?thesis
      by (auto simp: stop StopProviders_empty StopProviders_scrapers split: if_splits)
  qed
qed


lemma dm_Start_ok: "startConfig w dm = Inr x \<Longrightarrow> \<exists>dm' l'. dm_Start w sm l dm = Inr (dm', l')"
  by (simp add: dm_Start_def newDiscoverer_def Let_def split: prod.split)

lemma agent_Start_ok:
  assumes "0 < interval" "\<And>d. dm = Some d \<Longrightarrow> \<exists>x. startConfig w d = Inr x"
  shows "\<exists>a. agent_Start w (NewAgent (NewFlushManager sinks interval) dm er l sm) = Inr a"
proof (cases dm)
  case (Some d)
  with assms(2) dm_Start_ok obtain dm' l' where "dm_Start w (agent_sources (NewAgent (NewFlushManager sinks interval) dm er l sm)) l d = Inr (dm', l')"
    by metis
  with assms(1) Some show ?thesis
    by (simp add: agent_Start_def NewAgent_def NewFlushManager_def fm_Start_def startDiscovery_def agent_sources_def)
qed (use assms(1) in \<open>simp add: agent_Start_def NewAgent_def NewFlushManager_def fm_Start_def startDiscovery_def\<close>)

definition sample_world :: "(unit, unit) discovered agent_world" where
  "sample_world = \<lparr> awEnv = [(''POD_NODE_NAME'', ''node''), (''POD_NAMESPACE_NAME'', ''ns'')], awElector = None, awNamespaceFile = [],
     awAgentType = AllAgentType, awGlob = prefix_glob, awHttpYAML = (\<lambda>_. None), awHandler = \<lparr> wiredCfg = sample_wired, runtimeCfgs = [] \<rparr>,
     awInternalPlugins = None, awOps = discovery_ops sample_env, awSourcesOf = (\<lambda>_. []), awParseIP = (\<lambda>_. None) \<rparr>"

definition sample_new_agent :: "(unit, unit) discovered agent" where
  "sample_new_agent = NewAgent (NewFlushManager (NewSinkManager 1 Second Second 0) Minute) (Some (NewDiscoveryManager sample_wired True 0))
     (Some (NewEventRouter True)) initialLeadership Manager"


section \<open>Reloading\<close>

lemma stopDiscovery_inv:
  assumes "stopDiscovery w a = Inr a'" "sm_inv (agent_sources a)"
  shows "sm_inv (agent_sources a')"
proof (cases "agDiscovery a")
  case (Some dm)
  with assms(1) obtain dm' l where dm': "dm_Stop (awOps w) (awSourcesOf w) (agLeadership a) dm = Inr (dm', l)"
    "a' = a \<lparr> agDiscovery := Some dm', agLeadership := l \<rparr>"
    by (auto simp: stopDiscovery_def split: sum.splits)
  from dm'(1) have "dmDiscoverer dm' = map_option (DeleteAll (awOps w) (awSourcesOf w)) (dmDiscoverer dm)"
    by (auto simp: dm_Stop_def Let_def split: sum.splits)
  with dm'(2) Some assms(2) disc_inv_DeleteAll show ?thesis
    by (cases "dmDiscoverer dm") (auto simp: agent_sources_def dm_sources_def disc_inv_def)
qed (use assms in \<open>simp add: stopDiscovery_def\<close>)

lemma stopRouter_sources: "stopRouter a = Inr a' \<Longrightarrow> agent_sources a' = agent_sources a"
  by (auto simp: stopRouter_def agent_sources_def split: option.splits sum.splits)

lemma agent_Stop_inv:
  assumes "agent_Stop w a = Some (Inr (a', sm))" "sm_inv (agent_sources a)"
  shows "sm_inv sm \<and> smProviders sm = []"
proof -
  from assms(1) obtain fm b where b: "stopDiscovery w (a \<lparr> agFlush := fm \<rparr>) = Inr b" "stopRouter b = Inr a'"
    "sm = StopProviders (awSourcesOf w) (agent_sources a')"
    by (auto simp: agent_Stop_def split: option.splits sum.splits)
  have "agent_sources (a \<lparr> agFlush := fm \<rparr>) = agent_sources a" by (simp add: agent_sources_def)
  with stopDiscovery_inv [OF b(1)] stopRouter_sources [OF b(2)] assms(2) show ?thesis
    by (simp add: b(3) sm_inv_Stop StopProviders_empty)
qed

lemma fold_Add:
  "sm_inv sm \<Longrightarrow> sm_inv (fold (AddProvider gs now) ps sm) \<and> registered (fold (AddProvider gs now) ps sm) = registered sm \<union> pvName ` set ps"
  by (induction ps arbitrary: sm) (auto simp: sm_inv_Add registered_Add)

lemma agent_Start_sources:
  assumes "agent_Start w (NewAgent fm dm er l sm) = Inr a" "new_manager dm"
  shows "agent_sources a = sm"
  using assms
  by (auto simp: agent_Start_def NewAgent_def startDiscovery_def startRouter_def dm_Start_def newDiscoverer_def agent_sources_def dm_sources_def
      new_manager_def NewDiscoveryManager_def Let_def split: sum.splits option.splits prod.splits)

lemma new_manager_create: "new_manager (createDiscoveryManagerOrDie cfg n)"
  by (auto simp: new_manager_def createDiscoveryManagerOrDie_def)

lemma fillDefaults_sources: "Sources (fillDefaults ag cfg) = Sources cfg"
  by (simp add: fillDefaults_def Let_def)

lemma createAgentOrDie_sources:
  assumes "createAgentOrDie b cfg l sm n = Inr (fs, ps, a)" "sm_inv sm"
  shows "\<exists>src providers. Sources cfg = Some src \<and> SummaryConfig src \<noteq> None \<and> buildProviders (btFactories b) src = Inr providers \<and>
    sm_inv (agent_sources a) \<and> registered (agent_sources a) = registered sm \<union> pvName ` set providers"
proof -
  from assms(1) obtain src sm1 cfg' fm er l' where c: "Sources cfg = Some src" "SummaryConfig src \<noteq> None" "buildSources b cfg src sm = Inr sm1"
    "agent_Start (btWorld b) (NewAgent fm (createDiscoveryManagerOrDie cfg' n) er l' sm1) = Inr a"
    by (auto simp: createAgentOrDie_def Let_def split: option.splits sum.splits)
  from c(3) obtain providers where p: "buildProviders (btFactories b) src = Inr providers"
    "sm1 = fold (AddProvider (awSourcesOf (btWorld b)) (btNow b)) providers (SetDefaultCollectionInterval (DefaultCollectionInterval cfg) sm)"
    by (auto simp: buildSources_def BuildProviders_def Let_def split: sum.splits go_error.splits if_splits)
  have "sm_inv (SetDefaultCollectionInterval (DefaultCollectionInterval cfg) sm)" "registered (SetDefaultCollectionInterval (DefaultCollectionInterval cfg) sm) = registered sm"
    using assms(2) by (simp_all add: SetDefaultCollectionInterval_def sm_inv_def registered_def)
  with fold_Add c agent_Start_sources [OF c(4) new_manager_create] p show ?thesis by metis
qed

text \<open>
  A reload. When the configuration changes, the old agent is stopped and a new one created. If that
  succeeds, the configuration has a kubernetes source, and the registered providers are exactly
  those of the new configuration, each with one scraping goroutine: nothing of the old agent is left.
\<close>

theorem reload_providers:
  assumes "handleCollectorCfg b cfg a = Some (Inr (fs, ps, a'))" "sm_inv (agent_sources a)"
  shows "\<exists>src providers. Sources cfg = Some src \<and> SummaryConfig src \<noteq> None \<and> buildProviders (btFactories b) src = Inr providers \<and>
    dom (map_of (smProviders (agent_sources a'))) = pvName ` set providers \<and> sm_inv (agent_sources a')"
proof -
  from assms(1) obtain a1 sm where "agent_Stop (btWorld b) a = Some (Inr (a1, sm))"
    "createAgentOrDie b (fillDefaults (awAgentType (btWorld b)) cfg) (agLeadership a1) sm (enabledCount a1) = Inr (fs, ps, a')"
    by (auto simp: handleCollectorCfg_def Let_def split: option.splits sum.splits prod.splits)
  with agent_Stop_inv assms(2) createAgentOrDie_sources show ?thesis
    by (fastforce simp: fillDefaults_sources registered_def)
qed

definition sample_factories :: "(unit, unit) discovered provider_factories" where
  "sample_factories =
     \<lparr> NewSummaryProvider = (\<lambda>_. Inr \<lparr> pvName = ''kubernetes_summary_provider'', pvInterval = 0, pvTimeout = 0, pvConfigurable = False, pvSources = [] \<rparr>),
       NewCadvisorProvider = (\<lambda>_ _. Inl (Errorf [])), NewControlPlaneProvider = (\<lambda>_ _. Inl (Errorf [])), NewSystemdProvider = (\<lambda>_. Inl (Errorf [])),
       NewStatsProvider = (\<lambda>_. Inl (Errorf [])), NewStateProvider = (\<lambda>_. Inl (Errorf [])), NewTelegrafProvider = (\<lambda>_. Inl (Errorf [])),
       NewPromProvider = (\<lambda>_. Inl (Errorf [])) \<rparr>"

definition sample_boot :: "((unit, unit) discovered, unit) boot" where
  "sample_boot = \<lparr> btWorld = sample_world, btKube = sample_kube_files, btFactories = sample_factories, btBuildSink = (\<lambda>_. Inr ()),
     btPods = (\<lambda>_ _. Inr None), btVersion = Fin 0, btNow = 0 \<rparr>"

definition sample_running :: "(unit, unit) discovered agent" where
  "sample_running = NewAgent ((NewFlushManager (NewSinkManager 1 Second Second 0) Minute) \<lparr> fmRunning := 1 \<rparr>) None None initialLeadership Manager"

lemma sample_world_parts: "awAgentType sample_world = AllAgentType" "awGlob sample_world = prefix_glob"
  by (simp_all add: sample_world_def)

lemma sample_build: "buildProviders sample_factories (emptySources \<lparr> SummaryConfig := Some sample_summary \<rparr>) =
    Inr [\<lparr> pvName = ''kubernetes_summary_provider'', pvInterval = 0, pvTimeout = 0, pvConfigurable = False, pvSources = [] \<rparr>]"
  by (simp add: buildProviders_def emptySources_def sample_factories_def appendProvider_def Configure_def sample_summary_def zeroCollection_def)

lemma BuildAll_ok:
  assumes "cfgs \<noteq> []"
  shows "\<exists>ss. BuildAll (\<lambda>_. Inr ()) cfgs = Inr ss"
proof -
  have "fold (\<lambda>cfg acc. case acc of Inl e \<Rightarrow> Inl e | Inr ss \<Rightarrow> (case Inr () of Inl (GoPanic p) \<Rightarrow> Inl (GoPanic p) | Inl (Errorf _) \<Rightarrow> Inr ss
      | Inr s \<Rightarrow> Inr (ss @ [s]))) cfgs (Inr ss) = (Inr (ss @ replicate (length cfgs) ()) :: unit list go_result)" for ss
    by (induction cfgs arbitrary: ss) simp_all
  from this [of "[]"] assms show ?thesis by (cases cfgs) (simp_all add: BuildAll_def)
qed

lemma sample_create:
  "\<exists>fs (ps :: unit processor list) a. createAgentOrDie (sample_boot \<lparr> btVersion := v \<rparr>) (fillDefaults AllAgentType sample_config) initialLeadership sm n = Inr (fs, ps, a)"
proof -
  let ?cfg = "fillDefaults AllAgentType sample_config" and ?src = "emptySources \<lparr> SummaryConfig := Some sample_summary \<rparr>"
  have cfg: "Sources ?cfg = Some ?src" "EnableDiscovery ?cfg = False" "EnableEvents ?cfg = False" "FlushInterval ?cfg = 60 * Second" "Sinks ?cfg = Sinks sample_config"
    by (simp_all add: fillDefaults_def sample_config_def zeroConfig_def)
  have kube: "\<exists>c. createKubeClientOrDie sample_kube_files sample_summary = Inr c"
    by (simp add: createKubeClientOrDie_def GetKubeClientConfig_def getConfigOverridesFromConfig_def inClusterKubeConfig_def boolOption_def
        sample_summary_def sample_kube_files_def)
  have src: "\<exists>sm'. buildSources (sample_boot \<lparr> btVersion := v \<rparr>) ?cfg ?src sm = Inr sm'"
    by (auto simp: buildSources_def BuildProviders_def sample_boot_def sample_build AddProvider_def Let_def)
  have props: "\<exists>cfg'. setInternalSinkProperties v ?cfg = Inr cfg' \<and> Sources cfg' = Some ?src \<and> \<not> EnableDiscovery cfg' \<and> \<not> EnableEvents cfg' \<and>
      FlushInterval cfg' = 60 * Second \<and> Sinks cfg' \<noteq> []"
    using cfg by (simp add: setInternalSinkProperties_def) (simp add: sample_config_def)
  then obtain cfg' where cfg': "setInternalSinkProperties v ?cfg = Inr cfg'" "Sources cfg' = Some ?src" "\<not> EnableDiscovery cfg'" "\<not> EnableEvents cfg'"
    "FlushInterval cfg' = 60 * Second" "Sinks cfg' \<noteq> []" by blast
  obtain sk where sk: "createSinkManagerOrDie (\<lambda>_. Inr ()) 0 (Sinks cfg') (SinkExportDataTimeout cfg') = Inr sk"
    using BuildAll_ok [OF cfg'(6)] by (auto simp: createSinkManagerOrDie_def)
  obtain ps :: "unit processor list" where ps: "createDataProcessorsOrDie prefix_glob 0 (cfgClusterName cfg') (\<lambda>_ _. Inr None) cfg' = Inr ps"
    using cfg'(2) by (auto simp: createDataProcessorsOrDie_def calculateCollectionInterval_def Let_def)
  have "\<exists>l. subscribeAgent sample_world cfg' initialLeadership = Inr l"
    by (cases "cfgScrapeCluster cfg'") (simp_all add: subscribeAgent_def Subscribe_def startLeaderElection_def getLeaderElector_def sample_world_def
        initialLeadership_def GetNodeName_def GetNamespaceName_def get_str_def)
  then obtain l where l: "subscribeAgent sample_world cfg' initialLeadership = Inr l" by blast
  obtain sm' where sm': "buildSources (sample_boot \<lparr> btVersion := v \<rparr>) ?cfg ?src sm = Inr sm'" using src by blast
  obtain ag where "agent_Start sample_world (NewAgent (NewFlushManager sk (60 * Second)) None None l sm') = Inr ag"
    using agent_Start_ok [of "60 * Second" None] by fastforce
  then show ?thesis
    using kube cfg(1) cfg' sk ps l sm' sample_world_parts
    by (auto simp: createAgentOrDie_def createDiscoveryManagerOrDie_def sample_boot_def)
qed

lemma sample_reload: "\<exists>fs (ps :: unit processor list) a'. handleCollectorCfg sample_boot sample_config sample_running = Some (Inr (fs, ps, a'))"
proof -
  have stop: "\<exists>a sm. agent_Stop sample_world sample_running = Some (Inr (a, sm)) \<and> agLeadership a = initialLeadership"
    by (auto simp: agent_Stop_def fm_Stop_def sample_running_def NewAgent_def stopDiscovery_def stopRouter_def)
  then obtain a sm where st: "agent_Stop sample_world sample_running = Some (Inr (a, sm))" "agLeadership a = initialLeadership" by blast
  have b: "sample_boot \<lparr> btVersion := Fin 0 \<rparr> = sample_boot" "btWorld sample_boot = sample_world" by (simp_all add: sample_boot_def)
  from sample_create [of "Fin 0" sm "enabledCount a"] st b sample_world_parts(1) show ?thesis
    by (simp add: handleCollectorCfg_def)
qed

theorem reload_providers_witness:
  "\<exists>fs (ps :: unit processor list) a'. handleCollectorCfg sample_boot sample_config sample_running = Some (Inr (fs, ps, a')) \<and>
     dom (map_of (smProviders (agent_sources a'))) = {''kubernetes_summary_provider''}"
proof -
  obtain fs and ps :: "unit processor list" and a' where run: "handleCollectorCfg sample_boot sample_config sample_running = Some (Inr (fs, ps, a'))"
    using sample_reload by blast
  have "sm_inv (agent_sources sample_running)"
    by (simp add: agent_sources_def dm_sources_def sample_running_def NewAgent_def sm_inv_Manager)
  from reload_providers [OF run this] run show ?thesis
    by (auto simp: sample_config_def sample_boot_def sample_build)
qed

text \<open>The new configuration is not validated: without sources the program ends, after the old agent has been stopped.\<close>

lemma reload_without_sources:
  assumes "agent_Stop (btWorld b) a = Some (Inr (a1, sm))" "Sources cfg = None"
  shows "handleCollectorCfg b cfg a = Some (Inl (GoPanic ''nil pointer dereference''))"
  using assms by (simp add: handleCollectorCfg_def createAgentOrDie_def fillDefaults_sources)

text \<open>
  The discovery manager does not wait for the goroutine that empties the queue: a resource that is still
  queued when the manager stops is discovered afterwards, and its provider stays registered.
\<close>

lemma late_dequeue_registers:
  assumes "dm_Stop (discovery_ops sample_env) gs l dm = Inr (dm', l')" "dmQueue dm = [sample_pod_resource]" "dmCreator dm = Some sample_creator"
    "dmDiscoverer dm = Some emptyDiscoverer"
  shows "\<exists>d. dmDiscoverer (dm_dequeue (discovery_ops sample_env) gs now dm') = Some d \<and> smProviders (erManager (dsRegistry d)) \<noteq> []"
proof -
  have dm': "dmQueue dm' = [sample_pod_resource]" "dmCreator dm' = Some sample_creator"
    "dmDiscoverer dm' = Some (DeleteAll (discovery_ops sample_env) gs emptyDiscoverer)"
    using assms by (auto simp: dm_Stop_def Let_def split: sum.splits)
  have e: "DeleteAll (discovery_ops sample_env) gs emptyDiscoverer = emptyDiscoverer"
    by (simp add: DeleteAll_def emptyDiscoverer_def)
  obtain p where p: "factory_Build sample_env sample_endpoint = Inr p" using sample_builds by blast
  let ?d = "replaceEndpoints (discovery_ops sample_env) gs now (ResourceName ''pod'' sample_meta) [sample_endpoint] emptyDiscoverer"
  have "dequeue sample_creator (discovery_ops sample_env) gs now sample_pod_resource emptyDiscoverer = ?d"
    by (simp add: dequeue_def internalDiscover_def sample_discovered) (simp add: sample_pod_resource_def)
  then have "dmDiscoverer (dm_dequeue (discovery_ops sample_env) gs now dm') = Some ?d" using dm' by (simp add: dm_dequeue_def e)
  moreover have "pvName p \<in> registered (erManager (dsRegistry ?d))"
    using p by (simp add: replaceEndpoints_def endpointsOf_def emptyDiscoverer_def handler_Add_def discovery_ops_def sample_endpoint_def
        addCount_def registered_Add)
  then have "smProviders (erManager (dsRegistry ?d)) \<noteq> []" by (auto simp: registered_def)
  ultimately show ?thesis by blast
qed

end
