(* ===== verification/Process_Env.thy ===== *)
theory Process_Env
  imports Wf_Sink Kube_Util
begin

text \<open>
  What connects the collector with its host: the choice of the agent type on the command line
  (\<^verbatim>\<open>internal/options\<close>), the watcher of the configuration file (\<^verbatim>\<open>internal/util/watcher.go\<close>) and its listener
  (\<^verbatim>\<open>internal/configuration/listener.go\<close>), the HTTP client of the sources (\<^verbatim>\<open>internal/httputil/client.go\<close>), and the
  heartbeat of the Wavefront sink. Files, certificates and the transport of \<^verbatim>\<open>net/http\<close> are parameters.
\<close>

section \<open>Flags\<close>

text \<open>
  What the flag set knows after parsing: which of the two flags were given, and their values. The agent type
  starts as \<open>AllAgentType\<close>.
\<close>

record agent_flags =
  daemonChanged :: bool
  agentChanged :: bool
  daemonFlag :: bool
  agentFlag :: agent_type

definition AgentType_Set :: "string \<Rightarrow> agent_type \<times> go_error option" where
  "AgentType_Set v = (case NewAgentType v of Inr a \<Rightarrow> (a, None) | Inl e \<Rightarrow> (AgentOther [], Some e))"

definition handleDaemonFlag :: "agent_flags \<Rightarrow> agent_type go_result" where
  "handleDaemonFlag fs =
     (if daemonChanged fs \<and> agentChanged fs then Inl (Errorf ''cannot set --daemon with --agent'')
      else if daemonChanged fs then Inr (if daemonFlag fs then LegacyAgentType else AllAgentType)
      else Inr (agentFlag fs))"

text \<open>The arguments \<^verbatim>\<open>--agent v\<close> and \<^verbatim>\<open>--daemon=b\<close>, each given or not.\<close>

definition parseAgentFlags :: "string option \<Rightarrow> bool option \<Rightarrow> agent_type go_result" where
  "parseAgentFlags agent daemon =
     (case (case agent of None \<Rightarrow> (AllAgentType, None) | Some v \<Rightarrow> AgentType_Set v) of
        (_, Some e) \<Rightarrow> Inl e
      | (a, None) \<Rightarrow> handleDaemonFlag \<lparr> daemonChanged = (daemon \<noteq> None), agentChanged = (agent \<noteq> None),
                        daemonFlag = (daemon = Some True), agentFlag = a \<rparr>)"

text \<open>Flags that parse give one of the four types of agent, and an agent that scrapes something.\<close>

lemma parseAgentFlags_known:
  assumes "parseAgentFlags agent daemon = Inr a"
  shows "a \<in> {AllAgentType, ClusterAgentType, NodeAgentType, LegacyAgentType} \<and> (ScrapeCluster a \<or> ScrapeAnyNodes a)"
proof -
  from assms have "a \<in> {AllAgentType, ClusterAgentType, NodeAgentType, LegacyAgentType}"
    by (auto simp: parseAgentFlags_def handleDaemonFlag_def AgentType_Set_def NewAgentType_def split: option.splits if_splits)
  then show ?thesis by (auto simp: ScrapeCluster_def ScrapeAnyNodes_def)
qed

section \<open>The file watcher\<close>

record file_watcher =
  fwModTime :: time
  fwInitial :: bool

definition NewFileWatcher :: "time \<Rightarrow> file_watcher" where
  "NewFileWatcher zeroTime = \<lparr> fwModTime = zeroTime, fwInitial = True \<rparr>"

text \<open>One round of \<^verbatim>\<open>Watch\<close>: the modification time of the file, or an error; the result says whether the listener is called.\<close>

definition watch_round :: "time option \<Rightarrow> file_watcher \<Rightarrow> bool \<times> file_watcher" where
  "watch_round stat fw =
     (case stat of
        None \<Rightarrow> (False, fw)
      | Some t \<Rightarrow>
          if t > fwModTime fw then
            if \<not> fwInitial fw then (True, fw \<lparr> fwModTime := t \<rparr>) else (False, fw \<lparr> fwModTime := t, fwInitial := False \<rparr>)
          else (False, fw))"

text \<open>\<^verbatim>\<open>listener.Changed\<close>: a file that does not load is only logged. \<open>handle\<close> is the handler's \<^verbatim>\<open>Handle\<close>.\<close>

definition listener_Changed :: "'c go_result \<Rightarrow> ('c \<Rightarrow> 's \<Rightarrow> 's) \<Rightarrow> 's \<Rightarrow> 's" where
  "listener_Changed loaded handle s = (case loaded of Inl _ \<Rightarrow> s | Inr cfg \<Rightarrow> handle cfg s)"

text \<open>The rounds of a watcher: what each finds, and what the file would load as then.\<close>

fun watch_rounds :: "('c \<Rightarrow> 's \<Rightarrow> 's) \<Rightarrow> (time option \<times> 'c go_result) list \<Rightarrow> file_watcher \<times> 's \<Rightarrow> file_watcher \<times> 's" where
  "watch_rounds handle [] fs = fs"
| "watch_rounds handle ((stat, loaded) # rounds) (fw, s) =
     (let (changed, fw') = watch_round stat fw in
      watch_rounds handle rounds (fw', if changed then listener_Changed loaded handle s else s))"

text \<open>The rounds whose modification time is later than that of all rounds before.\<close>

fun newer_rounds :: "time \<Rightarrow> (time option \<times> 'c go_result) list \<Rightarrow> 'c go_result list" where
  "newer_rounds m [] = []"
| "newer_rounds m ((None, loaded) # rounds) = newer_rounds m rounds"
| "newer_rounds m ((Some t, loaded) # rounds) = (if t > m then loaded # newer_rounds t rounds else newer_rounds m rounds)"

definition handle_all :: "('c \<Rightarrow> 's \<Rightarrow> 's) \<Rightarrow> 'c go_result list \<Rightarrow> 's \<Rightarrow> 's" where
  "handle_all handle loadeds s = fold (\<lambda>l. listener_Changed l handle) loadeds s"

lemma watch_rounds_started:
  "snd (watch_rounds handle rounds (\<lparr> fwModTime = m, fwInitial = False \<rparr>, s)) = handle_all handle (newer_rounds m rounds) s"
  by (induction m rounds arbitrary: s rule: newer_rounds.induct) (simp_all add: watch_round_def handle_all_def)

lemma watch_rounds_fresh:
  "snd (watch_rounds handle rounds (\<lparr> fwModTime = m, fwInitial = True \<rparr>, s)) = handle_all handle (tl (newer_rounds m rounds)) s"
  by (induction m rounds arbitrary: s rule: newer_rounds.induct) (simp_all add: watch_round_def watch_rounds_started, simp add: handle_all_def)

text \<open>
  A watcher hands over exactly the configurations that load, in the rounds where the file is newer than in all rounds
  before, except for the first such round.
\<close>

theorem watcher_history:
  "snd (watch_rounds handle rounds (NewFileWatcher zeroTime, s)) = handle_all handle (tl (newer_rounds zeroTime rounds)) s"
  by (simp add: NewFileWatcher_def watch_rounds_fresh)

text \<open>
  The first round is a whole interval after the start. A file that is changed after it was loaded and before that round
  is taken for the initial one: however long the watcher runs, the change is not handled.
\<close>

lemma early_change_lost:
  assumes "zeroTime < t"
  shows "snd (watch_rounds handle (replicate n (Some t, Inr cfg)) (NewFileWatcher zeroTime, s)) = s"
proof -
  have "newer_rounds t (replicate k (Some t, Inr cfg)) = []" for k by (induction k) simp_all
  with assms have "tl (newer_rounds zeroTime (replicate n (Some t, Inr cfg))) = []" by (cases n) simp_all
  then show ?thesis by (simp add: watcher_history handle_all_def)
qed

section \<open>The HTTP client\<close>

text \<open>Headers are a map from canonical names to lists of values.\<close>

type_synonym http_header = "(string, string list) gomap"

definition header_Get :: "http_header \<Rightarrow> string \<Rightarrow> string" where
  "header_Get h k = (case map_of h k of Some (v # _) \<Rightarrow> v | _ \<Rightarrow> [])"

definition header_Set :: "string \<Rightarrow> string \<Rightarrow> http_header \<Rightarrow> http_header" where
  "header_Set k v h = gput k [v] h"

record http_request =
  rqURL :: string
  rqHeader :: http_header

definition cloneRequest :: "http_request \<Rightarrow> http_request" where
  "cloneRequest r = r \<lparr> rqHeader := fold (\<lambda>(k, vs). gput k vs) (rqHeader r) [] \<rparr>"

text \<open>The files of the host and the loader of key pairs.\<close>

record 'k host_files =
  ReadFile :: "string \<Rightarrow> string option"
  LoadX509KeyPair :: "string \<Rightarrow> string \<Rightarrow> 'k option"

record 'k tls_client =
  tcInsecureSkipVerify :: bool
  tcRootCAs :: "string option"
  tcServerName :: string
  tcCertificates :: "'k list"

definition NewTLSConfig :: "'k host_files \<Rightarrow> tls_config \<Rightarrow> 'k tls_client go_result" where
  "NewTLSConfig hf cfg =
     (let tc = \<lparr> tcInsecureSkipVerify = InsecureSkipVerify cfg, tcRootCAs = None, tcServerName = [], tcCertificates = [] \<rparr> in
      case (if length (CAFile cfg) > 0
            then (case ReadFile hf (CAFile cfg) of
                    None \<Rightarrow> Inl (Errorf (''unable to use specified CA cert '' @ CAFile cfg))
                  | Some caCert \<Rightarrow> Inr (tc \<lparr> tcRootCAs := Some caCert \<rparr>))
            else Inr tc) of
        Inl e \<Rightarrow> Inl e
      | Inr tc \<Rightarrow>
          (let tc = (if length (ServerName cfg) > 0 then tc \<lparr> tcServerName := ServerName cfg \<rparr> else tc) in
           if length (CertFile cfg) > 0 \<and> length (KeyFile cfg) = 0
           then Inl (Errorf (''client cert file specified without client key file''))
           else if length (KeyFile cfg) > 0 \<and> length (CertFile cfg) = 0
           then Inl (Errorf (''client key file specified without client cert file''))
           else if length (CertFile cfg) > 0 \<and> length (KeyFile cfg) > 0
           then (case LoadX509KeyPair hf (CertFile cfg) (KeyFile cfg) of
                   None \<Rightarrow> Inl (Errorf ''unable to use specified client cert'')
                 | Some cert \<Rightarrow> Inr (tc \<lparr> tcCertificates := [cert] \<rparr>))
           else Inr tc))"

datatype 'k round_tripper =
    Transport string "'k tls_client"
  | bearerTokenRoundTripper string "'k round_tripper"
  | bearerTokenFileRoundTripper string "'k round_tripper"

definition NewRoundTripper :: "'k host_files \<Rightarrow> client_config \<Rightarrow> 'k round_tripper go_result" where
  "NewRoundTripper hf cfg =
     (case NewTLSConfig hf (TLSConfig cfg) of
        Inl e \<Rightarrow> Inl e
      | Inr tc \<Rightarrow>
          (let rt = Transport (ProxyURL cfg) tc in
           Inr (if length (BearerToken cfg) > 0 then bearerTokenRoundTripper (BearerToken cfg) rt
                else if length (BearerTokenFile cfg) > 0 then bearerTokenFileRoundTripper (BearerTokenFile cfg) rt
                else rt)))"

text \<open>\<open>send\<close> is the transport of \<^verbatim>\<open>net/http\<close>.\<close>

fun RoundTrip :: "'k host_files \<Rightarrow> (string \<Rightarrow> 'k tls_client \<Rightarrow> http_request \<Rightarrow> 'r go_result) \<Rightarrow> 'k round_tripper \<Rightarrow> http_request \<Rightarrow> 'r go_result" where
  "RoundTrip hf send (Transport proxy tc) req = send proxy tc req"
| "RoundTrip hf send (bearerTokenRoundTripper tok rt) req =
     (if length (header_Get (rqHeader req) ''Authorization'') = 0
      then (let req = cloneRequest req in
            RoundTrip hf send rt (req \<lparr> rqHeader := header_Set ''Authorization'' (''Bearer '' @ tok) (rqHeader req) \<rparr>))
      else RoundTrip hf send rt req)"
| "RoundTrip hf send (bearerTokenFileRoundTripper file rt) req =
     (if length (header_Get (rqHeader req) ''Authorization'') = 0
      then (case ReadFile hf file of
              None \<Rightarrow> Inl (Errorf (''unable to read bearer token file '' @ file))
            | Some b \<Rightarrow>
                (let req = cloneRequest req in
                 RoundTrip hf send rt (req \<lparr> rqHeader := header_Set ''Authorization'' (''Bearer '' @ TrimSpace b) (rqHeader req) \<rparr>)))
      else RoundTrip hf send rt req)"

lemma cloneRequest_header: "wf_map (rqHeader req) \<Longrightarrow> map_of (rqHeader (cloneRequest req)) = map_of (rqHeader req)"
proof -
  have "wf_map h \<Longrightarrow> map_of (fold (\<lambda>(k, vs). gput k vs) h acc) = map_of acc ++ map_of h" for h acc :: http_header
  proof (induction h arbitrary: acc)
    case (Cons p h)
    then show ?case by (cases p) (auto simp: fun_eq_iff map_add_def dom_def image_iff split: option.split)
  qed simp
  then show "wf_map (rqHeader req) \<Longrightarrow> map_of (rqHeader (cloneRequest req)) = map_of (rqHeader req)"
    by (simp add: cloneRequest_def)
qed

text \<open>When a client can be made.\<close>

lemma NewRoundTripper_ok_iff:
  "(\<exists>rt. NewRoundTripper hf cfg = Inr rt) \<longleftrightarrow>
     (CAFile (TLSConfig cfg) = [] \<or> ReadFile hf (CAFile (TLSConfig cfg)) \<noteq> None) \<and>
     (CertFile (TLSConfig cfg) = [] \<longleftrightarrow> KeyFile (TLSConfig cfg) = []) \<and>
     (CertFile (TLSConfig cfg) = [] \<or> LoadX509KeyPair hf (CertFile (TLSConfig cfg)) (KeyFile (TLSConfig cfg)) \<noteq> None)"
  by (auto simp: NewRoundTripper_def NewTLSConfig_def Let_def split: option.split)

text \<open>The token that a client adds, read at the time of the request when it comes from a file.\<close>

definition authToken :: "'k host_files \<Rightarrow> client_config \<Rightarrow> string option go_result" where
  "authToken hf cfg =
     (if BearerToken cfg \<noteq> [] then Inr (Some (''Bearer '' @ BearerToken cfg))
      else if BearerTokenFile cfg \<noteq> []
      then (case ReadFile hf (BearerTokenFile cfg) of
              None \<Rightarrow> Inl (Errorf (''unable to read bearer token file '' @ BearerTokenFile cfg))
            | Some b \<Rightarrow> Inr (Some (''Bearer '' @ TrimSpace b)))
      else Inr None)"

text \<open>
  A request reaches the transport with all its headers, and with the token of the configuration exactly where it has no
  authorization of its own; it is not sent only if that token has to be read from a file that cannot be read.
\<close>

theorem client_RoundTrip:
  assumes "NewRoundTripper hf0 cfg = Inr rt" "wf_map (rqHeader req)"
  shows "\<exists>tc req'. NewTLSConfig hf0 (TLSConfig cfg) = Inr tc \<and> rqURL req' = rqURL req \<and>
    RoundTrip hf send rt req =
      (if header_Get (rqHeader req) ''Authorization'' \<noteq> [] then send (ProxyURL cfg) tc req
       else case authToken hf cfg of Inl e \<Rightarrow> Inl e | Inr None \<Rightarrow> send (ProxyURL cfg) tc req | Inr (Some v) \<Rightarrow> send (ProxyURL cfg) tc req') \<and>
    (\<forall>v. authToken hf cfg = Inr (Some v) \<longrightarrow> map_of (rqHeader req') = (map_of (rqHeader req))(''Authorization'' \<mapsto> [v]))"
proof -
  from assms(1) obtain tc where tc: "NewTLSConfig hf0 (TLSConfig cfg) = Inr tc" and rt: "rt = (if length (BearerToken cfg) > 0 then bearerTokenRoundTripper (BearerToken cfg) (Transport (ProxyURL cfg) tc)
      else if length (BearerTokenFile cfg) > 0 then bearerTokenFileRoundTripper (BearerTokenFile cfg) (Transport (ProxyURL cfg) tc)
      else Transport (ProxyURL cfg) tc)"
    by (auto simp: NewRoundTripper_def Let_def split: sum.splits)
  define v where "v = (case authToken hf cfg of Inr (Some v) \<Rightarrow> v | _ \<Rightarrow> [])"
  define req' where "req' = (cloneRequest req) \<lparr> rqHeader := header_Set ''Authorization'' v (rqHeader (cloneRequest req)) \<rparr>"
  have "rqURL req' = rqURL req" by (simp add: req'_def cloneRequest_def)
  moreover have "map_of (rqHeader req') = (map_of (rqHeader req))(''Authorization'' \<mapsto> [v])"
    using cloneRequest_header [OF assms(2)] by (simp add: req'_def header_Set_def)
  moreover have "RoundTrip hf send rt req = (if header_Get (rqHeader req) ''Authorization'' \<noteq> [] then send (ProxyURL cfg) tc req
       else case authToken hf cfg of Inl e \<Rightarrow> Inl e | Inr None \<Rightarrow> send (ProxyURL cfg) tc req | Inr (Some v) \<Rightarrow> send (ProxyURL cfg) tc req')"
    by (simp add: rt req'_def v_def authToken_def Let_def split: option.split)
  ultimately show ?thesis
    using tc by (intro exI [of _ tc] exI [of _ req']) (auto simp: v_def)
qed

section \<open>The heartbeat of the sink\<close>

definition heartbeatTags :: "env \<Rightarrow> wavefront_sink_config \<Rightarrow> strmap" where
  "heartbeatTags e cfg =
     [(''cluster'', skClusterName cfg), (''stats_prefix'', GetStringValue (Prefix (skTransforms cfg)) ''kubernetes.''),
      (''installation_method'', GetInstallationMethod e)]"

definition sink_getDefault :: "string \<Rightarrow> string \<Rightarrow> string" where
  "sink_getDefault v d = (if v = [] then d else v)"

definition heartbeatSource :: "env \<Rightarrow> string" where
  "heartbeatSource e = sink_getDefault (GetNodeName e) ''wavefront-collector-for-kubernetes''"

text \<open>
  The state is the map of tags, which lives as long as the goroutine. \<open>e0\<close> is the environment when the sink is made, and each
  round sees the environment of its time. The first round sends the version only.
\<close>

definition heartbeat_first :: "env \<Rightarrow> wavefront_sink_config \<Rightarrow> env \<Rightarrow> strmap \<Rightarrow> send_call list \<times> strmap" where
  "heartbeat_first e0 cfg e tags =
     (let tags = AddK8sTags e tags in
      ([SendMetricCall ''~wavefront.kubernetes.collector.version'' (Version cfg) 0 (heartbeatSource e0) tags], tags))"

definition heartbeat_tick :: "env \<Rightarrow> wavefront_sink_config \<Rightarrow> env \<Rightarrow> strmap \<Rightarrow> send_call list \<times> strmap" where
  "heartbeat_tick e0 cfg e tags =
     (let tags = AddK8sTags e tags; eventsEnabled = (if EventsEnabled cfg then Fin 1 else Fin 0) in
      ([SendMetricCall ''~wavefront.kubernetes.collector.version'' (Version cfg) 0 (heartbeatSource e0) tags,
        SendMetricCall ''~wavefront.kubernetes.collector.config.events.enabled'' eventsEnabled 0 (heartbeatSource e0) tags], tags))"

fun heartbeat_ticks :: "env \<Rightarrow> wavefront_sink_config \<Rightarrow> env list \<Rightarrow> strmap \<Rightarrow> send_call list \<times> strmap" where
  "heartbeat_ticks e0 cfg [] tags = ([], tags)"
| "heartbeat_ticks e0 cfg (e # es) tags =
     (let (calls, tags') = heartbeat_tick e0 cfg e tags; (calls', tags'') = heartbeat_ticks e0 cfg es tags' in (calls @ calls', tags''))"

definition emitHeartbeat :: "env \<Rightarrow> wavefront_sink_config \<Rightarrow> env \<Rightarrow> env list \<Rightarrow> send_call list \<times> strmap" where
  "emitHeartbeat e0 cfg e es =
     (let (calls, tags) = heartbeat_first e0 cfg e (heartbeatTags e0 cfg); (calls', tags') = heartbeat_ticks e0 cfg es tags in (calls @ calls', tags'))"

text \<open>The first value of an environment variable that is not empty.\<close>

definition firstKnown :: "(env \<Rightarrow> string) \<Rightarrow> env list \<Rightarrow> string" where
  "firstKnown f es = (case dropWhile (\<lambda>e. f e = []) es of [] \<Rightarrow> [] | e # _ \<Rightarrow> f e)"

lemma AddK8sTags_get:
  "get_str (AddK8sTags e tags) k =
     (if k = ''k8s_version'' \<and> get_str tags k = [] then GetKubernetesVersion e
      else if k = ''k8s_provider'' \<and> get_str tags k = [] then GetKubernetesProvider e
      else get_str tags k)"
  by (auto simp: AddK8sTags_def Let_def)

lemma fold_AddK8sTags:
  "get_str (fold AddK8sTags es tags) k =
     (if k = ''k8s_version'' \<and> get_str tags k = [] then firstKnown GetKubernetesVersion es
      else if k = ''k8s_provider'' \<and> get_str tags k = [] then firstKnown GetKubernetesProvider es
      else get_str tags k)"
  by (induction es arbitrary: tags) (auto simp: firstKnown_def AddK8sTags_get)

lemma heartbeat_ticks_tags: "snd (heartbeat_ticks e0 cfg es tags) = fold AddK8sTags es tags"
  by (induction es arbitrary: tags) (simp_all add: heartbeat_tick_def Let_def case_prod_beta)

text \<open>
  The version and the provider of Kubernetes become known after the start. Every heartbeat carries the first that was
  known by its time; a cluster that is upgraded while the collector runs keeps reporting the old version.
\<close>

theorem heartbeat_version:
  "get_str (snd (emitHeartbeat e0 cfg e es)) ''k8s_version'' = firstKnown GetKubernetesVersion (e # es) \<and>
   get_str (snd (emitHeartbeat e0 cfg e es)) ''k8s_provider'' = firstKnown GetKubernetesProvider (e # es) \<and>
   get_str (snd (emitHeartbeat e0 cfg e es)) ''cluster'' = skClusterName cfg"
proof -
  have "snd (emitHeartbeat e0 cfg e es) = fold AddK8sTags (e # es) (heartbeatTags e0 cfg)"
    by (simp add: emitHeartbeat_def heartbeat_first_def Let_def case_prod_beta heartbeat_ticks_tags)
  then show ?thesis by (simp only: fold_AddK8sTags) (simp add: heartbeatTags_def get_str_def)
qed

end
