(* ===== verification/Shared_Export.thy ===== *)
theory Shared_Export
  imports Wf_Sink
begin

text \<open>
  The export of a batch as the sinks perform it, on shared memory. The sink manager gives the same batch to every sink,
  the metrics of a batch are pointers, and the points of one metric set share a tag map. \<^verbatim>\<open>Export\<close> changes
  them in place: it sets the cluster tag, adds the global tags of the sink, and drops the tags its filter drops.

  The store holds the metrics and the tag maps by address. The first part shows when an export on the store does what
  \<open>Export\<close> of \<^verbatim>\<open>Wf_Sink\<close> does on values; the second part shows what a sink sends of a batch that another
  sink has exported before.
\<close>

section \<open>The store\<close>

text \<open>
  A metric without a tag map (nil) has an address of its own for it, as the first tag allocates one. The tags inside
  \<open>hMetric\<close> are not read.
\<close>

record tag_store =
  hMetric :: "nat \<Rightarrow> wf_metric"
  hTagMap :: "nat \<Rightarrow> nat"
  hMaps :: "nat \<Rightarrow> strmap"

fun ownTags :: "wf_metric \<Rightarrow> strmap" where
  "ownTags (MPoint p) = ptags p"
| "ownTags (MDist d) = dtags d"

fun withTags :: "strmap \<Rightarrow> wf_metric \<Rightarrow> wf_metric" where
  "withTags ts (MPoint p) = MPoint (p \<lparr> ptags := ts \<rparr>)"
| "withTags ts (MDist d) = MDist (d \<lparr> dtags := ts \<rparr>)"

definition deref :: "tag_store \<Rightarrow> nat \<Rightarrow> wf_metric" where
  "deref h a = withTags (hMaps h (hTagMap h a)) (hMetric h a)"

definition assign :: "nat \<Rightarrow> wf_metric \<Rightarrow> tag_store \<Rightarrow> tag_store" where
  "assign a m h = h \<lparr> hMetric := (hMetric h) (a := m), hMaps := (hMaps h) (hTagMap h a := ownTags m) \<rparr>"

section \<open>Export on the store\<close>

definition prepared :: "'c wavefront_sink \<Rightarrow> wf_metric \<Rightarrow> wf_metric" where
  "prepared sink m = m_AddTags (globalTags sink) (m_OverrideTag (Key LabelCluster) (ClusterName sink) m)"

text \<open>
  Sending a point cleans a copy of its tags (\<^verbatim>\<open>Point.Tags\<close> makes one); sending a distribution cleans the tags of
  the distribution itself (\<^verbatim>\<open>Distribution.Tags\<close> returns the map).
\<close>

fun afterSend :: "wf_metric \<Rightarrow> wf_metric" where
  "afterSend (MPoint p) = MPoint p"
| "afterSend (MDist d) =
     (if fst (Distribution_Send (\<lambda>_. None) d) = [] then MDist d else MDist (d \<lparr> dtags := snd (cleanTags (dtags d) maxWavefrontTags) \<rparr>))"

text \<open>What \<^verbatim>\<open>Export\<close> leaves of a metric.\<close>

definition leftBehind :: "'c wavefront_sink \<Rightarrow> wf_metric \<Rightarrow> wf_metric" where
  "leftBehind sink m =
     (case fst (wf_Filter (filters sink) (Some (prepared sink m))) of
        None \<Rightarrow> prepared sink m
      | Some m' \<Rightarrow> afterSend m')"

fun exportRef :: "('c \<Rightarrow> sender) \<Rightarrow> 'c wavefront_sink \<Rightarrow> nat option \<Rightarrow>
    (send_call list \<times> sink_counters) \<times> tag_store \<Rightarrow> (send_call list \<times> sink_counters) \<times> tag_store" where
  "exportRef client sink None (r, h) = (r, h)"
| "exportRef client sink (Some a) (r, h) =
     (exportMetric client sink (Some (deref h a)) r, assign a (leftBehind sink (deref h a)) h)"

definition ExportRef :: "('c \<Rightarrow> sender) \<Rightarrow> 'c wavefront_sink \<Rightarrow> nat option list \<Rightarrow> sink_counters \<Rightarrow> tag_store \<Rightarrow>
    (send_call list \<times> sink_counters) \<times> tag_store" where
  "ExportRef client sink as cnt h = fold (exportRef client sink) as (([], cnt), h)"

section \<open>Tags\<close>

definition addTagTo :: "string \<times> string \<Rightarrow> strmap \<Rightarrow> strmap" where
  "addTagTo kv ts = (if map_of ts (fst kv) = None then gput (fst kv) (snd kv) ts else ts)"

definition prepTags :: "'c wavefront_sink \<Rightarrow> strmap \<Rightarrow> strmap" where
  "prepTags sink ts = fold addTagTo (globalTags sink) (gput (Key LabelCluster) (ClusterName sink) ts)"

lemma withTags_simps [simp]:
  "withTags (ownTags m) m = m" "ownTags (withTags ts m) = ts" "withTags ts (withTags us m) = withTags ts m"
  by (cases m; simp)+

lemma m_AddTags_own: "m_AddTags gs m = withTags (fold addTagTo gs (ownTags m)) m"
proof -
  have "Point_AddTags gs p = p \<lparr> ptags := fold addTagTo gs (ptags p) \<rparr>" for p
    by (induction gs arbitrary: p) (auto simp: Point_AddTags_def Point_AddTag_def addTagTo_def)
  moreover have "Distribution_AddTags gs d = d \<lparr> dtags := fold addTagTo gs (dtags d) \<rparr>" for d
    by (induction gs arbitrary: d) (auto simp: Distribution_AddTags_def Distribution_addTag_def addTagTo_def)
  ultimately show ?thesis by (cases m) simp_all
qed

lemma m_OverrideTag_own: "m_OverrideTag k v m = withTags (gput k v (ownTags m)) m"
  by (cases m) (simp_all add: Point_OverrideTag_def Distribution_OverrideTag_def)

lemma prepared_own: "prepared sink m = withTags (prepTags sink (ownTags m)) m"
  by (simp only: prepared_def prepTags_def m_AddTags_own m_OverrideTag_own withTags_simps)

lemma gput_same: "map_of ts k = Some v \<Longrightarrow> gput k v ts = ts"
  by (induction ts) auto

lemma gput_gput_other: "k \<noteq> k' \<Longrightarrow> map_of ts k \<noteq> None \<Longrightarrow> gput k v (gput k' v' ts) = gput k' v' (gput k v ts)"
  by (induction ts) (auto simp del: not_None_eq)

lemma gput_gput [simp]: "gput k v' (gput k v ts) = gput k v' ts"
  by (induction ts) auto

lemma fold_addTagTo_keeps: "map_of ts k = Some v \<Longrightarrow> map_of (fold addTagTo gs ts) k = Some v"
proof (induction gs arbitrary: ts)
  case (Cons g gs)
  have "map_of (addTagTo g ts) k = Some v" using Cons.prems by (cases "fst g = k") (simp_all add: addTagTo_def)
  with Cons.IH show ?case by simp
qed simp

lemma fold_addTagTo_dom: "fst ` set gs \<subseteq> dom (map_of (fold addTagTo gs ts))"
proof (induction gs arbitrary: ts)
  case (Cons g gs)
  have "\<exists>v. map_of (addTagTo g ts) (fst g) = Some v" by (auto simp: addTagTo_def)
  with fold_addTagTo_keeps [of "addTagTo g ts" "fst g" _ gs] Cons [of "addTagTo g ts"] show ?case by auto
qed simp

lemma fold_addTagTo_known: "fst ` set gs \<subseteq> dom (map_of ts) \<Longrightarrow> fold addTagTo gs ts = ts"
  by (induction gs) (auto simp: addTagTo_def)

lemma gput_fold_addTagTo: "gput k v' (fold addTagTo gs (gput k v ts)) = fold addTagTo gs (gput k v' ts)"
proof -
  have "gput k v' (fold addTagTo gs us) = fold addTagTo gs (gput k v' us)" if "map_of us k \<noteq> None" for us
    using that
  proof (induction gs arbitrary: us)
    case (Cons g gs)
    have "gput k v' (addTagTo g us) = addTagTo g (gput k v' us)"
      using Cons.prems gput_gput_other [of k "fst g" us] by (auto simp: addTagTo_def simp del: not_None_eq)
    moreover have "map_of (addTagTo g us) k \<noteq> None" using Cons.prems by (auto simp: addTagTo_def)
    ultimately show ?case using Cons.IH [of "addTagTo g us"] by simp
  qed simp
  from this [of "gput k v ts"] show ?thesis by simp
qed

lemma prepTags_twice: "prepTags sink (prepTags sink ts) = prepTags sink ts"
proof -
  have "map_of (prepTags sink ts) (Key LabelCluster) = Some (ClusterName sink)"
    unfolding prepTags_def by (rule fold_addTagTo_keeps) (simp del: label_keys)
  moreover have "fst ` set (globalTags sink) \<subseteq> dom (map_of (prepTags sink ts))"
    unfolding prepTags_def by (rule fold_addTagTo_dom)
  ultimately have "fold addTagTo (globalTags sink) (gput (Key LabelCluster) (ClusterName sink) (prepTags sink ts)) = prepTags sink ts"
    using fold_addTagTo_known [of "globalTags sink" "prepTags sink ts"] by (simp add: gput_same del: label_keys)
  then show ?thesis by (simp only: prepTags_def)
qed

section \<open>The export on the store and the export of values\<close>

text \<open>What an export does with a metric depends on the prepared metric only.\<close>

lemma exportMetric_prepared:
  assumes "prepared sink m = prepared sink m'"
  shows "exportMetric client sink (Some m) r = exportMetric client sink (Some m') r" "leftBehind sink m = leftBehind sink m'"
proof -
  show "exportMetric client sink (Some m) r = exportMetric client sink (Some m') r"
    using assms by (cases r) (simp add: prepared_def Let_def del: label_keys)
  show "leftBehind sink m = leftBehind sink m'" unfolding leftBehind_def assms ..
qed

definition keepsTags :: "'c wavefront_sink \<Rightarrow> bool" where
  "keepsTags sink = (case filters sink of None \<Rightarrow> True | Some f \<Rightarrow> tagInclude f = None \<and> tagExclude f = None)"

fun isPoint :: "wf_metric \<Rightarrow> bool" where
  "isPoint (MPoint p) = True"
| "isPoint (MDist d) = False"

lemma isPoint_withTags [simp]: "isPoint (withTags ts m) = isPoint m"
  by (cases m) simp_all

lemma leftBehind_point:
  assumes "keepsTags sink" "isPoint m"
  shows "leftBehind sink m = prepared sink m"
proof -
  have all: "Point_FilterTags (MatchTag f) p = p" if "filters sink = Some f" for f p
    using assms(1) that by (simp add: keepsTags_def MatchTag_def Point_FilterTags_def delete_where_keys_own)
  obtain p where "prepared sink m = MPoint p" using assms(2) by (cases m) (simp_all add: prepared_def del: label_keys)
  then show ?thesis using all by (simp add: leftBehind_def wf_Filter_def split: option.split)
qed

text \<open>The metrics of a batch, and when the sharing of tag maps between them does no harm.\<close>

definition pointers :: "nat option list \<Rightarrow> nat list" where
  "pointers as = map the (filter (\<lambda>a. a \<noteq> None) as)"

lemma pointers_simps [simp]: "pointers [] = []" "pointers (None # as) = pointers as" "pointers (Some a # as) = a # pointers as"
  by (simp_all add: pointers_def)

definition harmless :: "'c wavefront_sink \<Rightarrow> tag_store \<Rightarrow> nat option list \<Rightarrow> bool" where
  "harmless sink h as \<longleftrightarrow> distinct (pointers as) \<and>
     list_all (\<lambda>a. list_all (\<lambda>b. a = b \<or> hTagMap h a \<noteq> hTagMap h b \<or>
       keepsTags sink \<and> isPoint (hMetric h a) \<and> isPoint (hMetric h b)) (pointers as)) (pointers as)"

text \<open>
  Under way: the metrics in \<open>todo\<close> are as they were, except that points may have got their tags through a map they
  share; those in \<open>done\<close> are as the export leaves them.
\<close>

definition halfway :: "'c wavefront_sink \<Rightarrow> tag_store \<Rightarrow> nat set \<Rightarrow> nat set \<Rightarrow> tag_store \<Rightarrow> bool" where
  "halfway sink h0 finished todo h \<longleftrightarrow> hTagMap h = hTagMap h0 \<and>
     (\<forall>b \<in> todo. hMetric h b = hMetric h0 b \<and> prepared sink (deref h b) = prepared sink (deref h0 b)) \<and>
     (\<forall>b \<in> finished. deref h b = leftBehind sink (deref h0 b)) \<and>
     (\<forall>b. b \<notin> finished \<and> hTagMap h0 b \<notin> hTagMap h0 ` finished \<longrightarrow> deref h b = deref h0 b)"

lemma ownTags_deref [simp]: "ownTags (deref h a) = hMaps h (hTagMap h a)"
  by (simp add: deref_def)

lemma deref_assign: "deref (assign a m h) b =
    (if b = a then m else if hTagMap h b = hTagMap h a then withTags (ownTags m) (hMetric h b) else deref h b)"
  by (simp add: deref_def assign_def)

lemma halfway_step:
  assumes "halfway sink h0 finished (insert a todo) h" "a \<notin> todo" "a \<notin> finished"
    and shared: "\<And>b. b \<in> finished \<union> todo \<Longrightarrow> hTagMap h0 a = hTagMap h0 b \<Longrightarrow>
      keepsTags sink \<and> isPoint (hMetric h0 a) \<and> isPoint (hMetric h0 b)"
  shows "halfway sink h0 (insert a finished) todo (assign a (leftBehind sink (deref h a)) h)"
proof -
  let ?h = "assign a (leftBehind sink (deref h a)) h"
  have t: "hTagMap h = hTagMap h0" "hTagMap ?h = hTagMap h0" using assms(1) by (simp_all add: halfway_def assign_def)
  have left: "leftBehind sink (deref h a) = leftBehind sink (deref h0 a)"
    using assms(1) by (intro exportMetric_prepared(2)) (simp add: halfway_def)
  have own: "ownTags (leftBehind sink (deref h0 a)) = prepTags sink (hMaps h0 (hTagMap h0 b))" "leftBehind sink (deref h0 b) = prepared sink (deref h0 b)"
    if "b \<in> finished \<union> todo" "hTagMap h0 a = hTagMap h0 b" for b
    using leftBehind_point [of sink "deref h0 a"] leftBehind_point [of sink "deref h0 b"] shared [OF that] that(2)
    by (simp_all add: deref_def prepared_own)
  have "hMetric ?h b = hMetric h0 b \<and> prepared sink (deref ?h b) = prepared sink (deref h0 b)" if b: "b \<in> todo" for b
  proof -
    have "hMetric h b = hMetric h0 b" "prepared sink (deref h b) = prepared sink (deref h0 b)" "b \<noteq> a"
      using assms(1,2) b by (auto simp: halfway_def)
    moreover have "prepared sink (withTags (ownTags (leftBehind sink (deref h a))) (hMetric h0 b)) = prepared sink (deref h0 b)"
      if "hTagMap h0 a = hTagMap h0 b" using own(1) [OF _ that] b by (simp add: left prepared_own prepTags_twice) (simp add: deref_def)
    ultimately show ?thesis by (simp add: deref_assign t) (auto simp: assign_def)
  qed
  moreover have "deref ?h b = leftBehind sink (deref h0 b)" if b: "b \<in> insert a finished" for b
  proof (cases "b = a")
    case False
    then have d: "deref h b = leftBehind sink (deref h0 b)" using b assms(1) by (auto simp: halfway_def)
    have reload: "withTags ts (hMetric h b) = withTags ts (deref h b)" for ts by (simp add: deref_def)
    have "withTags (ownTags (leftBehind sink (deref h a))) (hMetric h b) = leftBehind sink (deref h0 b)" if "hTagMap h0 a = hTagMap h0 b"
      unfolding reload d left using own [OF _ that] b False by (simp add: prepared_own)
    with False d show ?thesis by (simp add: deref_assign t)
  qed (simp add: deref_assign left)
  moreover have "deref ?h b = deref h0 b" if "b \<notin> insert a finished" "hTagMap h0 b \<notin> hTagMap h0 ` insert a finished" for b
    using that assms(1) by (auto simp: halfway_def deref_assign t)
  ultimately show ?thesis using t(2) by (simp add: halfway_def)
qed

lemma exportRef_fold:
  assumes "halfway sink h0 finished (set (pointers as)) h" "distinct (pointers as)" "finished \<inter> set (pointers as) = {}"
    and "\<And>a b. a \<in> finished \<union> set (pointers as) \<Longrightarrow> b \<in> finished \<union> set (pointers as) \<Longrightarrow> a \<noteq> b \<Longrightarrow> hTagMap h0 a = hTagMap h0 b \<Longrightarrow>
      keepsTags sink \<and> isPoint (hMetric h0 a) \<and> isPoint (hMetric h0 b)"
  shows "\<exists>h'. fold (exportRef client sink) as (r, h) = (fold (exportMetric client sink) (map (map_option (deref h0)) as) r, h') \<and>
    halfway sink h0 (finished \<union> set (pointers as)) {} h'"
  using assms
proof (induction as arbitrary: finished h r)
  case Nil
  then show ?case by simp
next
  case (Cons x as)
  show ?case
  proof (cases x)
    case None
    obtain calls cnt where "r = (calls, cnt)" by (cases r)
    with Cons None show ?thesis by simp
  next
    case (Some a)
    have step: "halfway sink h0 (insert a finished) (set (pointers as)) (assign a (leftBehind sink (deref h a)) h)"
      using Cons.prems(1-3) Some by (intro halfway_step [OF _ _ _ Cons.prems(4)]) auto
    have "exportMetric client sink (Some (deref h a)) r = exportMetric client sink (Some (deref h0 a)) r"
      using Cons.prems(1) Some by (intro exportMetric_prepared(1)) (simp add: halfway_def)
    moreover have "\<exists>h'. fold (exportRef client sink) as (exportMetric client sink (Some (deref h a)) r, assign a (leftBehind sink (deref h a)) h) =
        (fold (exportMetric client sink) (map (map_option (deref h0)) as) (exportMetric client sink (Some (deref h a)) r), h') \<and>
        halfway sink h0 (insert a finished \<union> set (pointers as)) {} h'"
      using Cons.prems(2-4) Some by (intro Cons.IH [OF step]) auto
    ultimately show ?thesis using Some by simp
  qed
qed

lemma ExportRef_values:
  assumes "harmless sink h as"
  shows "fst (ExportRef client sink as cnt h) = Export client sink \<lparr> Timestamp = ts, Sets = sets, Metrics = map (map_option (deref h)) as \<rparr> cnt \<and>
    (let h' = snd (ExportRef client sink as cnt h) in
      (\<forall>a \<in> set (pointers as). deref h' a = leftBehind sink (deref h a)) \<and>
      (\<forall>a. hTagMap h a \<notin> hTagMap h ` set (pointers as) \<longrightarrow> deref h' a = deref h a))"
proof -
  have "halfway sink h {} (set (pointers as)) h" by (simp add: halfway_def)
  moreover have "keepsTags sink \<and> isPoint (hMetric h a) \<and> isPoint (hMetric h b)"
    if "a \<in> set (pointers as)" "b \<in> set (pointers as)" "a \<noteq> b" "hTagMap h a = hTagMap h b" for a b
    using assms that by (auto simp: harmless_def list_all_iff)
  ultimately obtain h' where "ExportRef client sink as cnt h = (fold (exportMetric client sink) (map (map_option (deref h)) as) ([], cnt), h')"
    "halfway sink h (set (pointers as)) {} h'"
    using exportRef_fold [of sink h "{}" as h client "([], cnt)"] assms by (auto simp: ExportRef_def harmless_def)
  then show ?thesis by (auto simp: Export_def halfway_def Let_def)
qed

text \<open>
  C11. Where sharing does no harm, an export on the store does what the export of values does: the client gets the same
  calls, the counters change in the same way, each metric of the batch is left with the tags of the sink, and no other
  metric changes. Sharing does no harm when each metric has a tag map of its own, or when only points share maps and the
  filter of the sink drops no tags.
\<close>

theorem ExportRef_refines:
  assumes "harmless sink h as"
  shows "fst (ExportRef client sink as cnt h) = Export client sink \<lparr> Timestamp = ts, Sets = sets, Metrics = map (map_option (deref h)) as \<rparr> cnt \<and>
    (let h' = snd (ExportRef client sink as cnt h) in
      (\<forall>a \<in> set (pointers as). deref h' a = leftBehind sink (deref h a)) \<and>
      (\<forall>a. hTagMap h a \<notin> hTagMap h ` set (pointers as) \<longrightarrow> deref h' a = deref h a))"
  using ExportRef_values [OF assms] .

section \<open>Two sinks\<close>

lemma prepTags_after:
  "prepTags sinkB (prepTags sinkA ts) = prepTags (sinkB \<lparr> globalTags := globalTags sinkA @ globalTags sinkB \<rparr>) ts"
  by (simp add: prepTags_def gput_fold_addTagTo del: label_keys)

lemma prepared_after:
  "prepared sinkB (prepared sinkA m) = prepared (sinkB \<lparr> globalTags := globalTags sinkA @ globalTags sinkB \<rparr>) m"
  by (simp add: prepared_own prepTags_after)

lemma sinkCall_globalTags: "sinkCall (sink \<lparr> globalTags := gs \<rparr>) call = sinkCall sink call"
  by (cases call) (simp_all add: sinkName_def Let_def)

lemma exportMetric_after:
  "exportMetric client sinkB (Some (prepared sinkA m)) r =
     exportMetric client (sinkB \<lparr> globalTags := globalTags sinkA @ globalTags sinkB \<rparr>) (Some m) r"
proof -
  let ?b = "sinkB \<lparr> globalTags := globalTags sinkA @ globalTags sinkB \<rparr>"
  have same: "sinkCall ?b = sinkCall sinkB" "sinkSender client ?b = sinkSender client sinkB" "filters ?b = filters sinkB"
    by (simp_all add: fun_eq_iff sinkCall_globalTags sinkSender_def)
  have tagged: "m_AddTags (globalTags sinkB) (m_OverrideTag (Key LabelCluster) (ClusterName sinkB) (prepared sinkA m)) =
      m_AddTags (globalTags ?b) (m_OverrideTag (Key LabelCluster) (ClusterName ?b) m)"
    using prepared_after [of sinkB sinkA m] by (simp only: prepared_def)
  obtain calls cnt where r: "r = (calls, cnt)" by (cases r)
  show ?thesis unfolding r exportMetric.simps same Let_def tagged by (rule refl)
qed

lemma exportRef_hTagMap: "hTagMap (snd (fold (exportRef client sink) as s)) = hTagMap (snd s)"
proof (induction as arbitrary: s)
  case (Cons a as)
  obtain r h where "s = (r, h)" by (cases s)
  with Cons show ?case by (cases a) (simp_all add: assign_def)
qed simp

text \<open>
  C12. A sink that exports a batch after another one sends the tags of both: if the filter of the first sink drops no tags,
  the second one sends the points of the batch exactly as if the global tags of the first were configured for it too and
  came before its own. A tag that is configured for one sink only is sent by the other one as well, and where both have
  a tag of the same name the value of the first one is sent.
\<close>

theorem second_sink_tags:
  assumes "harmless sinkA h as" "harmless sinkB h as" "keepsTags sinkA" "list_all (\<lambda>a. isPoint (hMetric h a)) (pointers as)"
  shows "fst (ExportRef client sinkB as cnt (snd (ExportRef client sinkA as cntA h))) =
    Export client (sinkB \<lparr> globalTags := globalTags sinkA @ globalTags sinkB \<rparr>)
      \<lparr> Timestamp = ts, Sets = sets, Metrics = map (map_option (deref h)) as \<rparr> cnt"
proof -
  let ?h = "snd (ExportRef client sinkA as cntA h)" and ?b = "sinkB \<lparr> globalTags := globalTags sinkA @ globalTags sinkB \<rparr>"
  have left: "deref ?h a = prepared sinkA (deref h a)" if "a \<in> set (pointers as)" for a
  proof -
    have "isPoint (deref h a)" using assms(4) that by (simp add: list_all_iff deref_def)
    then show ?thesis using ExportRef_values [OF assms(1)] leftBehind_point [OF assms(3)] that by (simp add: Let_def)
  qed
  have "isPoint (hMetric ?h a) = isPoint (hMetric h a)" if "a \<in> set (pointers as)" for a
  proof -
    have "isPoint (deref ?h a) = isPoint (deref h a)" using left [OF that] by (simp add: prepared_own)
    then show ?thesis by (simp add: deref_def)
  qed
  moreover have "hTagMap ?h = hTagMap h" by (simp add: ExportRef_def exportRef_hTagMap)
  ultimately have "harmless sinkB ?h as" using assms(2) by (simp add: harmless_def list_all_iff)
  from ExportRef_values [OF this, of client cnt ts sets]
  have "fst (ExportRef client sinkB as cnt ?h) = fold (exportMetric client sinkB) (map (map_option (deref ?h)) as) ([], cnt)"
    by (simp add: Export_def)
  also have "\<dots> = fold (exportMetric client ?b) (map (map_option (deref h)) as) ([], cnt)"
  proof -
    have "fold (exportMetric client sinkB) (map (map_option (deref ?h)) bs) r = fold (exportMetric client ?b) (map (map_option (deref h)) bs) r"
      if "set (pointers bs) \<subseteq> set (pointers as)" for bs r
      using that
    proof (induction bs arbitrary: r)
      case (Cons x bs)
      show ?case
      proof (cases x)
        case None
        with Cons show ?thesis by (cases r) simp
      next
        case (Some a)
        with Cons left [of a] exportMetric_after [of client sinkB sinkA "deref h a" r] show ?thesis by (simp del: exportMetric.simps)
      qed
    qed simp
    from this [of as] show ?thesis by simp
  qed
  finally show ?thesis by (simp add: Export_def)
qed

section \<open>Samples\<close>

text \<open>Two points of one metric set, which share the tag map at address 7, and two sinks.\<close>

definition shared_store :: tag_store where
  "shared_store = \<lparr> hMetric = (\<lambda>a. MPoint (NewPoint (if a = 0 then ''cpu'' else ''mem'') (Fin 1) 5 ''n1'' [])), hTagMap = (\<lambda>a. 7),
     hMaps = (\<lambda>_. [(''type'', ''node'')]) \<rparr>"

definition staging_sink :: "unit wavefront_sink" where
  "staging_sink = \<lparr> WavefrontClient = (), ClusterName = ''staging'', sinkPrefix = [], globalTags = [], filters = None, forceGC = False, logPercent = Fin 1 \<rparr>"

definition sample_pointers :: "nat option list" where
  "sample_pointers = [Some 0, None, Some 1]"

lemma sample_harmless: "harmless sample_sink shared_store sample_pointers" "harmless staging_sink shared_store sample_pointers"
  "keepsTags sample_sink" "list_all (\<lambda>a. isPoint (hMetric shared_store a)) (pointers sample_pointers)"
  by (simp_all add: harmless_def sample_pointers_def shared_store_def keepsTags_def sample_sink_def staging_sink_def)

definition sample_counters :: sink_counters where
  "sample_counters = \<lparr> sentPoints = 0, errPoints = 0, filteredPoints = 0 \<rparr>"

lemmas shared_sample_simps = Export_def sample_pointers_def shared_store_def deref_def NewPoint_def wf_Filter_def Point_Send_def
  Point_OverrideTag_def Point_AddTags_def Point_AddTag_def Point_Tags_def sinkName_def sanitizedChars_def sample_counters_def
  sinkSender_def

theorem ExportRef_refines_witness:
  "fst (ExportRef (\<lambda>_ _. None) sample_sink sample_pointers sample_counters shared_store) =
     Export (\<lambda>_ _. None) sample_sink \<lparr> Timestamp = 0, Sets = [], Metrics = map (map_option (deref shared_store)) sample_pointers \<rparr> sample_counters \<and>
   length (fst (fst (ExportRef (\<lambda>_ _. None) sample_sink sample_pointers sample_counters shared_store))) = 2"
proof -
  have "length (fst (Export (\<lambda>_ _. None) sample_sink \<lparr> Timestamp = 0, Sets = [], Metrics = map (map_option (deref shared_store)) sample_pointers \<rparr>
      sample_counters)) = 2"
    by (simp add: shared_sample_simps sample_sink_def Let_def)
  with ExportRef_refines [OF sample_harmless(1), of "\<lambda>_ _. None" sample_counters 0 "[]"] show ?thesis by simp
qed

text \<open>The tag \<^verbatim>\<open>env\<close> is configured for the first sink only; the second one sends it.\<close>

theorem second_sink_tags_witness:
  "globalTags staging_sink = [] \<and>
   list_all (\<lambda>call. map_of (call_tags call) ''env'' = Some ''a'' \<and> map_of (call_tags call) ''cluster'' = Some ''staging'')
     (fst (fst (ExportRef (\<lambda>_ _. None) staging_sink sample_pointers sample_counters
        (snd (ExportRef (\<lambda>_ _. None) sample_sink sample_pointers sample_counters shared_store)))))"
  unfolding second_sink_tags [OF sample_harmless, of "\<lambda>_ _. None" sample_counters sample_counters 0 "[]"]
  by (simp add: shared_sample_simps sample_sink_def staging_sink_def Let_def cleanTags_small maxWavefrontTags_def isAnEmptyTag_def excludeTag_def
      excludeTagList_def)

end
