(* ===== verification/Collector.thy ===== *)
theory Collector
  imports Pipeline Shared_Export Sink_Manager
begin

text \<open>
  The way of a point through the whole collector: a source delivers a batch to the source manager, a flush takes the
  pending batches through the processors and hands the result to the sink manager, and the goroutine of each sink
  exports what it accepts. The theory composes the components and shows that for every sink a scraped point is
  pending, waiting, taken by the sink, or in a batch that was given up, in every history.

  A flush is one step: its pushes to the sinks wait and expire as in the sink manager. The export of a batch by one sink
  is one step too. The sinks get the same batch, so that an export changes what the sinks that take it later see.
\<close>

section \<open>The calls of an export\<close>

text \<open>The calls on the client for one metric do not depend on how the client answers.\<close>

definition sentCalls :: "'c wavefront_sink \<Rightarrow> wf_metric option \<Rightarrow> send_call list" where
  "sentCalls sink m = fst (exportMetric (\<lambda>_ _. None) sink m ([], \<lparr> sentPoints = 0, errPoints = 0, filteredPoints = 0 \<rparr>))"

lemma m_Send_answer: "fst (m_Send to m) = fst (m_Send to' m)"
  by (cases m) (simp_all add: Point_Send_def Distribution_Send_def Let_def)

lemma exportMetric_sentCalls: "fst (exportMetric client sink m (calls, cnt)) = calls @ sentCalls sink m"
proof (cases m)
  case (Some x)
  then show ?thesis
    using m_Send_answer [of "sinkSender client sink" _ "sinkSender (\<lambda>_ _. None) sink"]
    by (auto simp: sentCalls_def Let_def case_prod_unfold split: option.split)
qed (simp add: sentCalls_def)

lemma Export_sentCalls: "fst (Export client sink b cnt) = concat (map (sentCalls sink) (Metrics b))"
proof -
  have "fst (fold (exportMetric client sink) ms (calls, cnt)) = calls @ concat (map (sentCalls sink) ms)" for ms calls cnt
  proof (induction ms arbitrary: calls cnt)
    case (Cons m ms)
    obtain calls' cnt' where "exportMetric client sink m (calls, cnt) = (calls', cnt')" by (cases "exportMetric client sink m (calls, cnt)")
    with exportMetric_sentCalls [of client sink m calls cnt] Cons.IH [of calls' cnt'] show ?case by simp
  qed simp
  from this [of "Metrics b" "[]" cnt] show ?thesis by (simp add: Export_def)
qed

section \<open>The composition\<close>

text \<open>
  The sinks are numbered as in the sink manager. \<open>coCalls\<close> are the calls each client has received. Three lists record
  the history: \<open>coTaken\<close> the batches each sink has exported, as it found them, \<open>coReceived\<close> those that came from sources,
  and \<open>coAbandoned\<close> those of flushes that a processor gave up.
\<close>

record ('s, 'h, 'c) collector =
  coSources :: "'s source_manager"
  coProcessors :: "'h processor list \<times> flush_globals"
  coSinks :: sink_manager
  coClients :: "'c wavefront_sink list"
  coCalls :: "send_call list list"
  coCounters :: sink_counters
  coTaken :: "batch list list"
  coReceived :: "batch list"
  coAbandoned :: "batch list"

datatype 'h collector_event = Scraped "batch option" | Flush "'h flush_env" | SinkTurn sink_event

definition flush_step :: "(batch list \<Rightarrow> batch list) \<Rightarrow> time \<Rightarrow> 'h flush_env \<Rightarrow> ('s, 'h, 'c) collector \<Rightarrow> ('s, 'h, 'c) collector option" where
  "flush_step srt zeroTime fe c =
     (let (outcome, ps, sm) = push srt zeroTime fe (coProcessors c) (coSources c);
          c' = c \<lparr> coProcessors := ps, coSources := sm \<rparr>
      in case outcome of
           Exported b \<Rightarrow> Some (c' \<lparr> coSinks := sinks_Export b (coSinks c) \<rparr>)
         | Abandoned e \<Rightarrow> Some (c' \<lparr> coAbandoned := coAbandoned c @ smResponse (coSources c) \<rparr>)
         | Crashed e \<Rightarrow> None)"

text \<open>
  A sink that accepts a batch exports it through its client. The other pushes of the same call to the sink manager hold
  the same batch, with the tags that the export leaves.
\<close>

definition leftBatch :: "'c wavefront_sink \<Rightarrow> batch \<Rightarrow> batch" where
  "leftBatch sink b = b \<lparr> Metrics := map (map_option (leftBehind sink)) (Metrics b) \<rparr>"

fun leftMessage :: "'c wavefront_sink \<Rightarrow> sink_message \<Rightarrow> sink_message" where
  "leftMessage sink (DataMessage b) = DataMessage (leftBatch sink b)"
| "leftMessage sink m = m"

definition sharePush :: "'c wavefront_sink \<Rightarrow> nat \<Rightarrow> sink_push \<Rightarrow> sink_push" where
  "sharePush sink call q = (if puCall q = call then q \<lparr> puMessage := leftMessage sink (puMessage q) \<rparr> else q)"

definition accept_step :: "('c \<Rightarrow> sender) \<Rightarrow> sink_push \<Rightarrow> ('s, 'h, 'c) collector \<Rightarrow> ('s, 'h, 'c) collector option" where
  "accept_step client p c =
     (case acceptPush p (coSinks c) of
        None \<Rightarrow> None
      | Some sk \<Rightarrow>
          (case puMessage p of
             DataMessage b \<Rightarrow>
               (let sink = coClients c ! puSink p;
                    (calls, cnt) = Export client sink b (coCounters c)
                in Some (c \<lparr> coSinks := sk \<lparr> skWaiting := map (sharePush sink (puCall p)) (skWaiting sk) \<rparr>, coCounters := cnt,
                     coCalls := (coCalls c) [puSink p := coCalls c ! puSink p @ calls],
                     coTaken := (coTaken c) [puSink p := coTaken c ! puSink p @ [b]] \<rparr>))
           | _ \<Rightarrow> Some (c \<lparr> coSinks := sk \<rparr>)))"

fun collector_step :: "(batch list \<Rightarrow> batch list) \<Rightarrow> time \<Rightarrow> ('c \<Rightarrow> sender) \<Rightarrow> ('s, 'h, 'c) collector \<Rightarrow> 'h collector_event \<Rightarrow>
    ('s, 'h, 'c) collector option" where
  "collector_step srt zeroTime client c (Scraped b) =
     Some (c \<lparr> coSources := receiveBatch b (coSources c), coReceived := coReceived c @ (case b of None \<Rightarrow> [] | Some x \<Rightarrow> [x]) \<rparr>)"
| "collector_step srt zeroTime client c (Flush fe) = flush_step srt zeroTime fe c"
| "collector_step srt zeroTime client c (SinkTurn (SinkExport b)) = None"
| "collector_step srt zeroTime client c (SinkTurn (SinkAccept p)) = accept_step client p c"
| "collector_step srt zeroTime client c (SinkTurn e) =
     (case sink_step (coSinks c) e of None \<Rightarrow> None | Some sk \<Rightarrow> Some (c \<lparr> coSinks := sk \<rparr>))"

fun collector_run :: "(batch list \<Rightarrow> batch list) \<Rightarrow> time \<Rightarrow> ('c \<Rightarrow> sender) \<Rightarrow> ('s, 'h, 'c) collector \<Rightarrow> 'h collector_event list \<Rightarrow>
    ('s, 'h, 'c) collector option" where
  "collector_run srt zeroTime client c [] = Some c"
| "collector_run srt zeroTime client c (e # es) =
     (case collector_step srt zeroTime client c e of None \<Rightarrow> None | Some c' \<Rightarrow> collector_run srt zeroTime client c' es)"

definition new_collector :: "'s source_manager \<Rightarrow> 'h processor list \<times> flush_globals \<Rightarrow> duration \<Rightarrow> duration \<Rightarrow> time \<Rightarrow> 'c wavefront_sink list \<Rightarrow>
    ('s, 'h, 'c) collector" where
  "new_collector sm ps et st now sinks =
     \<lparr> coSources = sm, coProcessors = ps, coSinks = NewSinkManager (length sinks) et st now, coClients = sinks,
       coCalls = replicate (length sinks) [], coCounters = \<lparr> sentPoints = 0, errPoints = 0, filteredPoints = 0 \<rparr>,
       coTaken = replicate (length sinks) [], coReceived = [], coAbandoned = [] \<rparr>"

section \<open>Where a point is\<close>

text \<open>A point without the tags and labels that a sink may change, and the points of metrics, of batches and of pushes to a sink.\<close>

fun untagged :: "wf_metric \<Rightarrow> wf_metric" where
  "untagged (MPoint p) = MPoint (p \<lparr> ptags := [], labelPairs := [] \<rparr>)"
| "untagged (MDist d) = MDist (d \<lparr> dtags := [] \<rparr>)"

definition points_of :: "wf_metric option list \<Rightarrow> wf_metric option multiset" where
  "points_of ms = image_mset (map_option untagged) (mset (points ms))"

definition batch_points :: "batch list \<Rightarrow> wf_metric option multiset" where
  "batch_points bs = (\<Sum>b\<in>#mset bs. points_of (Metrics b))"

definition push_points :: "nat \<Rightarrow> sink_push \<Rightarrow> wf_metric option multiset" where
  "push_points i p = (if puSink p = i then (case puMessage p of DataMessage b \<Rightarrow> points_of (Metrics b) | _ \<Rightarrow> {#}) else {#})"

definition pushes_points :: "nat \<Rightarrow> sink_push list \<Rightarrow> wf_metric option multiset" where
  "pushes_points i ps = (\<Sum>p\<in>#mset ps. push_points i p)"

lemma points_of_append: "points_of (xs @ ys) = points_of xs + points_of ys"
  by (simp add: points_of_def)

lemma batch_points_simps [simp]:
  "batch_points [] = {#}" "batch_points (bs @ bs') = batch_points bs + batch_points bs'"
  "batch_points [b] = points_of (Metrics b)"
  by (simp_all add: batch_points_def)

lemma pushes_points_simps [simp]:
  "pushes_points i [] = {#}" "pushes_points i (ps @ ps') = pushes_points i ps + pushes_points i ps'"
  "pushes_points i [p] = push_points i p"
  by (simp_all add: pushes_points_def)

lemma pushes_points_remove1: "p \<in> set ps \<Longrightarrow> pushes_points i ps = push_points i p + pushes_points i (remove1 p ps)"
  by (simp add: pushes_points_def flip: sum_mset.insert image_mset_add_mset)

lemma batch_points_concat: "batch_points bs = points_of (concat (map Metrics bs))"
  by (induction bs) (simp_all add: batch_points_def points_of_append, simp add: points_of_def)

text \<open>An export changes tags only.\<close>

lemma leftBehind_untagged: "untagged (leftBehind sink m) = untagged m" "isPoint (leftBehind sink m) = isPoint m"
  by (cases m; auto simp: leftBehind_def wf_Filter_def prepared_own Point_FilterTags_def Distribution_FilterTags_def split: option.split)+

lemma leftBatch_points: "points_of (Metrics (leftBatch sink b)) = points_of (Metrics b)"
proof -
  have point: "plain (Some m) = isPoint m" for m by (cases m) simp_all
  have "plain (map_option (leftBehind sink) m) = plain m" for m
    by (cases m) (simp_all add: point leftBehind_untagged)
  moreover have "map_option untagged (map_option (leftBehind sink) m) = map_option untagged m" for m
    by (simp add: option.map_comp comp_def leftBehind_untagged)
  ultimately show ?thesis by (simp add: leftBatch_def points_of_def filter_map comp_def multiset.map_comp)
qed

lemma pushes_points_share: "pushes_points i (map (sharePush sink call) ps) = pushes_points i ps"
proof -
  have "push_points i (sharePush sink call p) = push_points i p" for p
    by (cases "puMessage p") (simp_all add: sharePush_def push_points_def leftBatch_points)
  then show ?thesis by (induction ps) (simp_all add: pushes_points_def)
qed

text \<open>
  For every sink, the points received are among those of the batches it has exported, of the batches that are pending
  or were abandoned, and of the pushes that wait for the sink or expired before it took them; and what its client was
  given are the calls of the batches it has exported.
\<close>

definition accounted_for :: "nat \<Rightarrow> ('s, 'h, 'c) collector \<Rightarrow> bool" where
  "accounted_for i c \<longleftrightarrow>
     batch_points (coReceived c) \<subseteq># batch_points (coTaken c ! i) + batch_points (smResponse (coSources c)) + batch_points (coAbandoned c) +
       pushes_points i (skWaiting (coSinks c)) + pushes_points i (skExpired (coSinks c)) \<and>
     coCalls c ! i = concat (map (sentCalls (coClients c ! i)) (concat (map Metrics (coTaken c ! i))))"

definition collector_inv :: "('s, 'h, 'c) collector \<Rightarrow> bool" where
  "collector_inv c \<longleftrightarrow> length (coClients c) = length (skHolders (coSinks c)) \<and> length (coCalls c) = length (coClients c) \<and>
     length (coTaken c) = length (coClients c) \<and> (\<forall>i < length (coClients c). accounted_for i c)"

lemma collector_inv_new: "smResponse sm = [] \<Longrightarrow> collector_inv (new_collector sm ps et st now sinks)"
  by (simp add: collector_inv_def new_collector_def accounted_for_def NewSinkManager_def)

lemma pushes_points_others:
  "n \<le> i \<Longrightarrow> pushes_points i (map (\<lambda>j. \<lparr> puSink = j, puCall = k, puMessage = m, puDeadline = d \<rparr>) [0..<n]) = {#}"
  by (induction n) (simp_all add: push_points_def)

lemma pushes_points_map:
  "i < n \<Longrightarrow> pushes_points i (map (\<lambda>j. \<lparr> puSink = j, puCall = k, puMessage = m, puDeadline = d \<rparr>) [0..<n]) =
     (case m of DataMessage b \<Rightarrow> points_of (Metrics b) | _ \<Rightarrow> {#})"
proof (induction n)
  case (Suc n)
  then show ?case by (cases "i = n") (simp_all add: push_points_def pushes_points_others)
qed simp

lemma startPushes_points:
  "i < length (skHolders sk) \<Longrightarrow> pushes_points i (skWaiting (startPushes m t sk)) =
     pushes_points i (skWaiting sk) + (case m of DataMessage b \<Rightarrow> points_of (Metrics b) | _ \<Rightarrow> {#})"
  by (simp add: startPushes_def pushes_points_map)

lemma startPushes_rest: "skExpired (startPushes m t sk) = skExpired sk" "skHolders (startPushes m t sk) = skHolders sk"
  by (simp_all add: startPushes_def)

text \<open>The sinks' own turns move pushes, but lose none.\<close>

lemma quiet_turn:
  assumes "sink_step sk e = Some sk'" "\<And>b. e \<noteq> SinkExport b" "\<And>p. e \<noteq> SinkAccept p" "i < length (skHolders sk)"
  shows "pushes_points i (skWaiting sk') + pushes_points i (skExpired sk') = pushes_points i (skWaiting sk) + pushes_points i (skExpired sk)"
  using assms
  by (cases e) (auto simp: sinks_ExportEvent_def sinks_Stop_def startPushes_points startPushes_rest expirePush_def finishExport_def passTime_def
      pushes_points_remove1 ac_simps split: if_splits)

lemma collector_inv_sinks:
  assumes "collector_inv c" "length (skHolders sk) = length (skHolders (coSinks c))"
    and "\<And>i. i < length (skHolders (coSinks c)) \<Longrightarrow> pushes_points i (skWaiting sk) + pushes_points i (skExpired sk) =
      pushes_points i (skWaiting (coSinks c)) + pushes_points i (skExpired (coSinks c))"
  shows "collector_inv (c \<lparr> coSinks := sk \<rparr>)"
proof -
  have "accounted_for i (c \<lparr> coSinks := sk \<rparr>)" if "i < length (coClients c)" for i
  proof -
    from that assms(1) have "i < length (skHolders (coSinks c))" "accounted_for i c" by (simp_all add: collector_inv_def)
    with assms(3) [of i] show ?thesis by (simp add: accounted_for_def add.assoc)
  qed
  with assms(1,2) show ?thesis by (simp add: collector_inv_def)
qed

lemma Scraped_inv:
  assumes "collector_inv c" "collector_step srt zt client c (Scraped b) = Some c'"
  shows "collector_inv c'"
proof -
  have "A + B \<subseteq># C + (P + B) + L + W + E" if "A \<subseteq># C + P + L + W + E" for A B C P L W E :: "wf_metric option multiset"
    using mset_subset_eq_mono_add [OF that, of B B] by (simp add: ac_simps)
  with assms show ?thesis
    by (cases b) (auto simp: collector_inv_def accounted_for_def receiveBatch_def)
qed

lemma flush_moves:
  assumes "A \<subseteq># C + P + L + W + E" "P \<subseteq># B"
  shows "A \<subseteq># C + {#} + L + (W + B) + (E :: 'm multiset)"
proof -
  have "C + P + L + W + E \<subseteq># C + B + L + W + E" using assms(2) by (intro mset_subset_eq_mono_add) simp_all
  from subset_mset.order_trans [OF assms(1) this] show ?thesis by (simp add: ac_simps)
qed

lemma exported_points:
  assumes "push srt zt fe ps sm = (Exported b, ps', sm')" "\<And>bs. mset (srt bs) = mset bs"
  shows "batch_points (smResponse sm) \<subseteq># points_of (Metrics b)"
proof -
  obtain procs g procs' g' where pg: "ps = (procs, g)" "ps' = (procs', g')" by (cases ps; cases ps') auto
  with push_exported [of srt zt fe procs g sm b procs' g' sm'] assms(1) obtain added where
    pts: "points (Metrics b) = concat (map (\<lambda>x. points (Metrics x)) (srt (smResponse sm))) @ added" by auto
  have "batch_points (smResponse sm) = batch_points (srt (smResponse sm))"
    by (simp add: batch_points_def assms(2))
  also have "\<dots> = image_mset (map_option untagged) (mset (concat (map (\<lambda>x. points (Metrics x)) (srt (smResponse sm)))))"
    by (simp add: batch_points_concat points_of_def filter_concat comp_def)
  also have "\<dots> \<subseteq># points_of (Metrics b)" by (simp add: points_of_def pts)
  finally show ?thesis .
qed

lemma push_empties: "push srt zt fe ps sm = (outcome, ps', sm') \<Longrightarrow> smResponse sm' = []"
  by (cases ps) (auto simp: push_def GetPendingMetrics_def rotateResponse_def Let_def split: prod.splits)

lemma Flush_inv:
  assumes "collector_inv c" "\<And>bs. mset (srt bs) = mset bs" "flush_step srt zt fe c = Some c'"
  shows "collector_inv c'"
proof -
  obtain outcome ps sm where p: "push srt zt fe (coProcessors c) (coSources c) = (outcome, ps, sm)"
    by (cases "push srt zt fe (coProcessors c) (coSources c)") auto
  note empty = push_empties [OF p]
  show ?thesis
  proof (cases outcome)
    case (Exported b)
    with p assms(3) have c': "c' = c \<lparr> coProcessors := ps, coSources := sm, coSinks := sinks_Export b (coSinks c) \<rparr>"
      by (simp add: flush_step_def Let_def)
    note sub = exported_points [OF p [unfolded Exported] assms(2)]
    have "accounted_for i c'" if "i < length (coClients c)" for i
    proof -
      have i: "i < length (skHolders (coSinks c))" "accounted_for i c" using that assms(1) by (simp_all add: collector_inv_def)
      with flush_moves [OF conjunct1 [OF i(2) [unfolded accounted_for_def]] sub] show ?thesis
        by (simp add: accounted_for_def c' empty sinks_Export_def startPushes_points startPushes_rest)
    qed
    with assms(1) show ?thesis by (simp add: collector_inv_def c' sinks_Export_def startPushes_rest)
  next
    case (Abandoned e)
    with p assms(3) have "c' = c \<lparr> coProcessors := ps, coSources := sm, coAbandoned := coAbandoned c @ smResponse (coSources c) \<rparr>"
      by (simp add: flush_step_def Let_def)
    with assms(1) show ?thesis by (simp add: collector_inv_def accounted_for_def empty ac_simps)
  next
    case (Crashed e)
    with p assms(3) show ?thesis by (simp add: flush_step_def Let_def)
  qed
qed

lemma acceptPush_points:
  assumes "acceptPush p sk = Some sk'"
  shows "pushes_points i (skWaiting sk) = push_points i p + pushes_points i (skWaiting sk')" "skExpired sk' = skExpired sk"
    "length (skHolders sk') = length (skHolders sk)" "puSink p < length (skHolders sk)"
  using assms by (auto simp: acceptPush_def pushes_points_remove1 split: if_splits)

lemma accept_inv:
  assumes "collector_inv c" "accept_step client p c = Some c'"
  shows "collector_inv c'"
proof -
  from assms(2) obtain sk where sk: "acceptPush p (coSinks c) = Some sk" by (auto simp: accept_step_def split: option.splits)
  note moved = acceptPush_points [OF sk]
  show ?thesis
  proof (cases "\<exists>b. puMessage p = DataMessage b")
    case False
    then have "c' = c \<lparr> coSinks := sk \<rparr>" using assms(2) sk by (auto simp: accept_step_def split: sink_message.splits)
    moreover have "push_points i p = {#}" for i using False by (auto simp: push_points_def split: sink_message.split)
    then have "collector_inv (c \<lparr> coSinks := sk \<rparr>)"
      by (intro collector_inv_sinks [OF assms(1) moved(3)]) (simp add: moved(1) moved(2))
    ultimately show ?thesis by simp
  next
    case True
    then obtain b where b: "puMessage p = DataMessage b" by blast
    let ?s = "puSink p"
    let ?sk = "sk \<lparr> skWaiting := map (sharePush (coClients c ! ?s) (puCall p)) (skWaiting sk) \<rparr>"
    obtain calls cnt where ex: "Export client (coClients c ! ?s) b (coCounters c) = (calls, cnt)" by fastforce
    then have calls: "calls = concat (map (sentCalls (coClients c ! ?s)) (Metrics b))"
      using Export_sentCalls [of client "coClients c ! ?s" b "coCounters c"] by simp
    have c': "c' = c \<lparr> coSinks := ?sk, coCounters := cnt, coCalls := (coCalls c) [?s := coCalls c ! ?s @ calls],
        coTaken := (coTaken c) [?s := coTaken c ! ?s @ [b]] \<rparr>"
      using assms(2) sk b ex by (simp add: accept_step_def)
    have "accounted_for i c'" if i: "i < length (coClients c)" for i
    proof -
      have inv: "accounted_for i c" "i < length (coTaken c)" "i < length (coCalls c)" using assms(1) i by (simp_all add: collector_inv_def)
      show ?thesis
        using inv b calls moved(1) [of i]
        by (cases "i = ?s") (simp_all add: accounted_for_def c' moved(2) push_points_def pushes_points_share ac_simps)
    qed
    with assms(1) moved(3) show ?thesis by (simp add: collector_inv_def c')
  qed
qed

lemma turn_inv:
  assumes "collector_inv c" "sink_step (coSinks c) e = Some sk" "\<And>b. e \<noteq> SinkExport b" "\<And>p. e \<noteq> SinkAccept p"
  shows "collector_inv (c \<lparr> coSinks := sk \<rparr>)"
proof (rule collector_inv_sinks [OF assms(1)])
  show "length (skHolders sk) = length (skHolders (coSinks c))" using sink_step_constant [OF assms(2)] by blast
qed (rule quiet_turn [OF assms(2-4)])

lemma collector_step_inv:
  assumes "collector_inv c" "\<And>bs. mset (srt bs) = mset bs" "collector_step srt zt client c e = Some c'"
  shows "collector_inv c'"
proof (cases e)
  case (Scraped b)
  then show ?thesis using Scraped_inv assms by blast
next
  case (Flush fe)
  then show ?thesis using Flush_inv assms by fastforce
next
  case (SinkTurn t)
  show ?thesis
  proof (cases "\<exists>b. t = SinkExport b")
    case False
    show ?thesis
    proof (cases "\<exists>p. t = SinkAccept p")
      case True
      with SinkTurn assms(3) accept_inv [OF assms(1)] show ?thesis by auto
    next
      case no: False
      from SinkTurn assms(3) obtain sk where "sink_step (coSinks c) t = Some sk" "c' = c \<lparr> coSinks := sk \<rparr>"
        using False no by (cases t) (auto simp del: sink_step.simps split: option.splits)
      with turn_inv [OF assms(1)] False no show ?thesis by blast
    qed
  qed (use SinkTurn assms(3) in auto)
qed

interpretation coll: machine "\<lambda>c. \<exists>sm ps et st now sinks. smResponse sm = [] \<and> c = new_collector sm ps et st now sinks"
  "\<lambda>c e c'. (\<forall>bs. mset (srt bs) = mset bs) \<and> collector_step srt zt client c e = Some c'" collector_inv
  by unfold_locales (auto intro: collector_inv_new collector_step_inv)

lemma collector_run_run:
  assumes "\<forall>bs. mset (srt bs) = mset bs"
  shows "collector_run srt zt client c es = Some c' \<Longrightarrow> coll.run srt zt client c es c'"
proof (induction es arbitrary: c)
  case Nil
  then show ?case by (auto intro: coll.run_Nil)
next
  case (Cons e es)
  then obtain c1 where c1: "collector_step srt zt client c e = Some c1" "collector_run srt zt client c1 es = Some c'" by (auto split: option.splits)
  show ?case by (rule coll.run_Cons [OF _ Cons.IH [OF c1(2)]]) (use assms c1(1) in blast)
qed

lemma collector_run_clients: "collector_run srt zt client c es = Some c' \<Longrightarrow> coClients c' = coClients c"
proof (induction es arbitrary: c)
  case (Cons e es)
  then obtain c1 where c1: "collector_step srt zt client c e = Some c1" "collector_run srt zt client c1 es = Some c'" by (auto split: option.splits)
  have "coClients c1 = coClients c"
    using c1(1) by (cases "(srt, zt, client, c, e)" rule: collector_step.cases)
      (auto simp: flush_step_def accept_step_def Let_def split: option.splits prod.splits flush_outcome.splits sink_message.splits)
  with Cons.IH [OF c1(2)] show ?case by simp
qed simp

text \<open>
  C23. No scraped point is lost on its way. In every history of scrapes, flushes and turns of the sinks, and for every
  sink: each point that a source has delivered is in a batch that the sink has exported, or is still pending, or waits
  for the sink, or its batch expired before the sink took it, or a processor gave its flush up; nothing else can happen
  to it. What the client of the sink was given are exactly the calls for the batches that the sink has exported.
\<close>

theorem collector_accounts:
  assumes "collector_run srt zeroTime client (new_collector sm ps et st now sinks) es = Some c" "\<forall>bs. mset (srt bs) = mset bs"
    and "smResponse sm = []" "i < length sinks"
  shows "batch_points (coReceived c) \<subseteq># batch_points (coTaken c ! i) + batch_points (smResponse (coSources c)) + batch_points (coAbandoned c) +
      pushes_points i (skWaiting (coSinks c)) + pushes_points i (skExpired (coSinks c)) \<and>
    coCalls c ! i = concat (map (sentCalls (sinks ! i)) (concat (map Metrics (coTaken c ! i))))"
proof -
  have "collector_inv c"
    using coll.run_invar [OF collector_run_run [OF assms(2,1)] collector_inv_new [OF assms(3)]] .
  moreover have "coClients c = sinks" using collector_run_clients [OF assms(1)] by (simp add: new_collector_def)
  ultimately show ?thesis using assms(4) by (simp add: collector_inv_def accounted_for_def)
qed

text \<open>A point from a source to the client of the sink, with the tags of the sink.\<close>

definition sample_scraped :: batch where
  "sample_scraped = \<lparr> Timestamp = 2, Sets = [], Metrics = take 1 sample_points \<rparr>"

definition sample_way :: "string collector_event list" where
  "sample_way = [Scraped (Some sample_scraped), Flush sample_flush,
     SinkTurn (SinkAccept \<lparr> puSink = 0, puCall = 0, puMessage = DataMessage sample_scraped, puDeadline = 20 \<rparr>)]"

lemma sample_way_push: "push (sort_key Timestamp) 0 sample_flush sample_processors (Manager \<lparr> smResponse := [sample_scraped] \<rparr> :: nat source_manager) =
    (Exported sample_scraped, sample_processors, Manager)"
  by (simp add: push_def GetPendingMetrics_def rotateResponse_def combineAll_def combineMetricSets_def sample_processors_def sample_flush_def
      sample_points_def sample_scraped_def DistributionRateCalculator_Process_def NewDistributionRateCalculator_def
      CumulativeDistributionConverter_Process_def NamespaceBasedEnricher_Process_def Manager_def)

lemma sample_way_run:
  "\<exists>c. collector_run (sort_key Timestamp) 0 (\<lambda>_ _. None) (new_collector (Manager :: nat source_manager) sample_processors 20 60 0 [sample_sink]) sample_way = Some c \<and>
     coTaken c = [[sample_scraped]] \<and> skWaiting (coSinks c) = []"
proof -
  have m: "smResponse (Manager :: nat source_manager) = []" by (simp add: Manager_def)
  show ?thesis
    by (simp add: sample_way_def new_collector_def receiveBatch_def m flush_step_def sample_way_push accept_step_def sinks_Export_def startPushes_def
        NewSinkManager_def acceptPush_def case_prod_unfold Let_def)
qed

lemma sample_way_calls: "length (concat (map (sentCalls sample_sink) (Metrics sample_scraped))) = 1"
  by (simp add: sample_scraped_def sample_points_def sentCalls_def sample_sink_def NewPoint_def wf_Filter_def Point_Send_def
      Point_OverrideTag_def Point_AddTags_def Let_def split: option.splits)

theorem collector_accounts_witness:
  "\<exists>c. collector_run (sort_key Timestamp) 0 (\<lambda>_ _. None) (new_collector (Manager :: nat source_manager) sample_processors 20 60 0 [sample_sink]) sample_way = Some c \<and>
     coTaken c = [[sample_scraped]] \<and> length (coCalls c ! 0) = 1"
proof -
  obtain c where c: "collector_run (sort_key Timestamp) 0 (\<lambda>_ _. None) (new_collector (Manager :: nat source_manager) sample_processors 20 60 0 [sample_sink]) sample_way = Some c"
    "coTaken c = [[sample_scraped]]"
    using sample_way_run by blast
  have "\<forall>bs. mset (sort_key Timestamp bs) = mset bs" "smResponse (Manager :: nat source_manager) = []" by (simp_all add: Manager_def)
  from collector_accounts [OF c(1) this, of 0] c sample_way_calls show ?thesis by simp
qed

end
