(* ===== verification/Collector_Process.thy ===== *)
theory Collector_Process
  imports Agent Process_Env
begin

text \<open>
  The process (\<^verbatim>\<open>cmd/wavefront-collector/main.go\<close>): the start from options and a configuration file, and the
  life after it, in which the agent runs and the watcher of the file replaces it when the file changes. The election,
  the source manager and the count of discovery managers live as long as the process; the histories are arbitrary
  sequences of the steps of the agent and of rounds of the watcher.
\<close>

section \<open>The start\<close>

record program_options =
  optVersion :: bool
  optLogLevel :: string
  optForceGC :: bool
  optMaxProcs :: int
  optConfigFile :: string
  optRun :: run_options

datatype log_level = InfoLevel | TraceLevel | DebugLevel | WarnLevel

definition setLogLevel :: "string \<Rightarrow> log_level" where
  "setLogLevel l = (if l = ''trace'' then TraceLevel else if l = ''debug'' then DebugLevel else if l = ''warn'' then WarnLevel else InfoLevel)"

definition enableForcedGC :: "bool \<Rightarrow> env \<Rightarrow> env" where
  "enableForcedGC enable e = (if enable then gput ''FORCE_GC'' ''true'' e else e)"

text \<open>
  The process ends with an error (a panic or \<^verbatim>\<open>log.Fatalf\<close>), or prints its version and exits. A handler that never
  returns would leave it stuck, as every later change of the file waits for the lock of the reloader.
\<close>

datatype 's proc_state = ProcExited | ProcEnded go_error | ProcStuck | ProcRunning "'s agent"

text \<open>
  \<open>prBoot\<close> and \<open>prConfig\<close> are what the present agent was made from, and \<open>prSince\<close> are its steps so far.
\<close>

record ('s, 'k, 'h) process =
  prState :: "'s proc_state"
  prWatcher :: "file_watcher option"
  prLogLevel :: log_level
  prMaxProcs :: int
  prFeatures :: features
  prProcessors :: "'h processor list"
  prBoot :: "('s, 'k) boot"
  prConfig :: config
  prSince :: "agent_event list"

definition registerListeners :: "time \<Rightarrow> string \<Rightarrow> file_watcher option" where
  "registerListeners zeroTime file = (if file \<noteq> [] then Some (NewFileWatcher zeroTime) else None)"

text \<open>What the start finds: the version of the binary, the number of processors, and the files.\<close>

record start_env =
  seParseFloat :: "string \<Rightarrow> f64 option"
  seVersion :: string
  seNumCPU :: int
  seZeroTime :: time
  seFromFile :: "string \<Rightarrow> config go_result"
  seLoadDiscovery :: "string \<Rightarrow> plugin_config list go_result"

definition process_main :: "start_env \<Rightarrow> program_options \<Rightarrow> ('s, 'k) boot \<Rightarrow> ('s, 'k, 'h) process" where
  "process_main se opt b =
     (let ag = AgentType (optRun opt);
          w = (btWorld b) \<lparr> awEnv := enableForcedGC (optForceGC opt) (awEnv (btWorld b)), awAgentType := ag \<rparr>;
          p = \<lparr> prState = ProcExited, prWatcher = None, prLogLevel = setLogLevel (optLogLevel opt),
                prMaxProcs = setMaxProcs (optMaxProcs opt) (seNumCPU se), prFeatures = [], prProcessors = [],
                prBoot = b \<lparr> btWorld := w \<rparr>, prConfig = zeroConfig, prSince = [] \<rparr>
      in if optVersion opt then p
         else case preRegister (seParseFloat se) (seVersion se) (awEnv w) ag of
           Inl e \<Rightarrow> p \<lparr> prState := ProcEnded e \<rparr>
         | Inr version \<Rightarrow>
         (case loadConfigOrDie ag (seFromFile se) (optConfigFile opt) of
           Inl e \<Rightarrow> p \<lparr> prState := ProcEnded e \<rparr>
         | Inr cfg \<Rightarrow>
         (case convertOrDie ag (seLoadDiscovery se) (optRun opt) cfg of
           Inl e \<Rightarrow> p \<lparr> prState := ProcEnded e \<rparr>
         | Inr cfg \<Rightarrow>
         (let b = b \<lparr> btWorld := w, btVersion := version \<rparr> in
          case createAgentOrDie b cfg initialLeadership Manager 0 of
           Inl e \<Rightarrow> p \<lparr> prState := ProcEnded e \<rparr>
         | Inr (features, processors, a) \<Rightarrow>
             p \<lparr> prState := ProcRunning a, prWatcher := registerListeners (seZeroTime se) (optConfigFile opt), prFeatures := features,
                 prProcessors := processors, prBoot := b, prConfig := cfg \<rparr>))))"

section \<open>The life of the process\<close>

text \<open>\<^verbatim>\<open>reloader.Handle\<close>: the world and the version of the process stay, the rest of the surroundings is that of the moment.\<close>

definition reloader_Handle :: "('s, 'k) boot \<Rightarrow> config \<Rightarrow> ('s, 'k, 'h) process \<Rightarrow> ('s, 'k, 'h) process" where
  "reloader_Handle b cfg p =
     (let b = b \<lparr> btWorld := btWorld (prBoot p), btVersion := btVersion (prBoot p) \<rparr> in
      case prState p of
        ProcRunning a \<Rightarrow>
          (case handleCollectorCfg b cfg a of
             None \<Rightarrow> p \<lparr> prState := ProcStuck \<rparr>
           | Some (Inl e) \<Rightarrow> p \<lparr> prState := ProcEnded e \<rparr>
           | Some (Inr (features, processors, a)) \<Rightarrow>
               p \<lparr> prState := ProcRunning a, prFeatures := features, prProcessors := processors, prBoot := b,
                   prConfig := fillDefaults (awAgentType (btWorld b)) cfg, prSince := [] \<rparr>)
      | _ \<Rightarrow> p)"

datatype ('s, 'k) process_event = AgentTurn agent_event | WatchRound "('s, 'k) boot" "time option" "config go_result"

fun process_step :: "('s, 'k, 'h) process \<Rightarrow> ('s, 'k) process_event \<Rightarrow> ('s, 'k, 'h) process" where
  "process_step p (AgentTurn ev) =
     (case prState p of
        ProcRunning a \<Rightarrow>
          (case agent_step (btWorld (prBoot p)) a ev of
             Inl e \<Rightarrow> p \<lparr> prState := ProcEnded e \<rparr>
           | Inr a \<Rightarrow> p \<lparr> prState := ProcRunning a, prSince := prSince p @ [ev] \<rparr>)
      | _ \<Rightarrow> p)"
| "process_step p (WatchRound b stat loaded) =
     (case (prState p, prWatcher p) of
        (ProcRunning a, Some fw) \<Rightarrow>
          (let (changed, fw) = watch_round stat fw;
               p = p \<lparr> prWatcher := Some fw \<rparr>
           in if changed then listener_Changed loaded (reloader_Handle b) p else p)
      | _ \<Rightarrow> p)"

definition process_run :: "start_env \<Rightarrow> program_options \<Rightarrow> ('s, 'k) boot \<Rightarrow> ('s, 'k) process_event list \<Rightarrow> ('s, 'k, 'h) process" where
  "process_run se opt b es = foldl process_step (process_main se opt b) es"

section \<open>Agents that run\<close>

text \<open>The agent of a process was started with what its configuration says, and has run since.\<close>

definition runs_from :: "('s, 'k) boot \<Rightarrow> config \<Rightarrow> agent_event list \<Rightarrow> 's agent \<Rightarrow> bool" where
  "runs_from b cfg evs a \<longleftrightarrow>
     (\<exists>sinks interval dm er l sm a0 src providers.
        agent_Start (btWorld b) (NewAgent (NewFlushManager sinks interval) dm er l sm) = Inr a0 \<and> new_manager dm \<and> new_router er \<and> sm_inv sm \<and>
        agent_run (btWorld b) a0 evs = Inr a \<and> (dm \<noteq> None \<longleftrightarrow> EnableDiscovery cfg) \<and> (er \<noteq> None \<longleftrightarrow> EnableEvents cfg) \<and>
        Sources cfg = Some src \<and> buildProviders (btFactories b) src = Inr providers \<and> registered sm = pvName ` set providers)"

lemma runs_fromE:
  assumes "runs_from b cfg evs a"
  obtains sinks interval dm er l sm a0 src providers where
    "agent_Start (btWorld b) (NewAgent (NewFlushManager sinks interval) dm er l sm) = Inr a0" "new_manager dm" "new_router er" "sm_inv sm"
    "agent_run (btWorld b) a0 evs = Inr a" "dm \<noteq> None \<longleftrightarrow> EnableDiscovery cfg" "er \<noteq> None \<longleftrightarrow> EnableEvents cfg"
    "Sources cfg = Some src" "buildProviders (btFactories b) src = Inr providers" "registered sm = pvName ` set providers"
  using assms unfolding runs_from_def by (elim exE conjE) (rule that; assumption)

lemma setInternalSinkProperties_enables:
  "setInternalSinkProperties v cfg = Inr cfg' \<Longrightarrow> EnableDiscovery cfg' = EnableDiscovery cfg \<and> EnableEvents cfg' = EnableEvents cfg"
  by (auto simp: setInternalSinkProperties_def Let_def split: option.splits)

lemma createAgentOrDie_runs:
  fixes b :: "('s, 'k) boot"
  assumes "createAgentOrDie b cfg l sm n = Inr (fs, ps, a)" "sm_inv sm" "smProviders sm = []"
  shows "runs_from b cfg [] a"
proof -
  from assms(1) obtain src sm1 cfg' sinks er l' where c: "Sources cfg = Some src" "buildSources b cfg src sm = Inr sm1"
    "setInternalSinkProperties (btVersion b) cfg = Inr cfg'" "er = (if EnableEvents cfg' then Some (NewEventRouter (cfgScrapeCluster cfg')) else None)"
    "agent_Start (btWorld b) (NewAgent (NewFlushManager sinks (FlushInterval cfg')) (createDiscoveryManagerOrDie cfg' n) er l' sm1) = Inr a"
    by (auto simp: createAgentOrDie_def Let_def split: option.splits sum.splits)
  from c(2) obtain providers where p: "buildProviders (btFactories b) src = Inr providers"
    "sm1 = fold (AddProvider (awSourcesOf (btWorld b)) (btNow b)) providers (SetDefaultCollectionInterval (DefaultCollectionInterval cfg) sm)"
    by (auto simp: buildSources_def BuildProviders_def Let_def split: sum.splits go_error.splits if_splits)
  have "sm_inv (SetDefaultCollectionInterval (DefaultCollectionInterval cfg) sm)" "registered (SetDefaultCollectionInterval (DefaultCollectionInterval cfg) sm) = {}"
    using assms(2,3) by (simp_all add: SetDefaultCollectionInterval_def sm_inv_def registered_def)
  with fold_Add p(2) have sm1: "sm_inv sm1" "registered sm1 = pvName ` set providers" by (metis sup_bot.left_neutral)+
  have "createDiscoveryManagerOrDie cfg' n \<noteq> (None :: 's discovery_manager option) \<longleftrightarrow> EnableDiscovery cfg" "er \<noteq> None \<longleftrightarrow> EnableEvents cfg" "new_router er"
    using setInternalSinkProperties_enables [OF c(3)] c(4) by (auto simp: createDiscoveryManagerOrDie_def new_router_def)
  then show ?thesis
    unfolding runs_from_def using c(1,5) p(1) sm1 new_manager_create [of cfg' n] by (intro exI conjI; (assumption | simp))
qed

lemma runs_from_sources:
  assumes "runs_from b cfg evs a"
  shows "sm_inv (agent_sources a)" "\<not> EnableDiscovery cfg \<Longrightarrow> \<exists>src providers. Sources cfg = Some src \<and>
    buildProviders (btFactories b) src = Inr providers \<and> registered (agent_sources a) = pvName ` set providers"
proof -
  from assms obtain sinks interval dm er l sm a0 src providers where r:
    "agent_Start (btWorld b) (NewAgent (NewFlushManager sinks interval) dm er l sm) = Inr a0" "new_manager dm" "sm_inv sm"
    "agent_run (btWorld b) a0 evs = Inr a" "dm \<noteq> None \<longleftrightarrow> EnableDiscovery cfg"
    "Sources cfg = Some src" "buildProviders (btFactories b) src = Inr providers" "registered sm = pvName ` set providers"
    by (rule runs_fromE)
  note st = agent_Start_started [OF r(1-3)] and ev = agent_run_evolved [OF r(4)]
  have none: "agent_sources a = sm" if "dm = None"
    using st ev that by (simp add: evolved_def agent_sources_def dm_sources_def)
  show "sm_inv (agent_sources a)"
  proof (cases dm)
    case None
    with none r(3) show ?thesis by simp
  next
    case (Some d)
    with st ev obtain dm1 dm2 where "dm_started dm1" "dm_evolved (discovery_msgs evs) dm1 dm2" "agDiscovery a = Some dm2"
      by (auto simp: evolved_def option_rel_Some1)
    then show ?thesis by (auto simp: dm_started_def dm_evolved_def agent_sources_def dm_sources_def disc_inv_def)
  qed
  show "\<exists>src providers. Sources cfg = Some src \<and> buildProviders (btFactories b) src = Inr providers \<and> registered (agent_sources a) = pvName ` set providers"
    if "\<not> EnableDiscovery cfg"
    using r(5-8) none that by auto
qed

text \<open>When an agent that runs can be stopped.\<close>

definition stop_panics :: "config \<Rightarrow> agent_event list \<Rightarrow> bool" where
  "stop_panics cfg evs \<longleftrightarrow> EnableDiscovery cfg \<and> demoted (discovery_msgs evs) \<or> EnableEvents cfg \<and> demoted (router_msgs evs)"

lemma runs_from_Stop:
  assumes "runs_from b cfg evs a"
  shows "if stop_panics cfg evs then agent_Stop (btWorld b) a = Some (Inl (GoPanic ''close of closed channel''))
    else \<exists>a' sm. agent_Stop (btWorld b) a = Some (Inr (a', sm)) \<and> sm_inv sm \<and> smProviders sm = [] \<and> smScrapers sm = []"
proof -
  from assms obtain sinks interval dm er l sm a0 where r:
    "agent_Start (btWorld b) (NewAgent (NewFlushManager sinks interval) dm er l sm) = Inr a0" "new_manager dm" "new_router er" "sm_inv sm"
    "agent_run (btWorld b) a0 evs = Inr a" "dm \<noteq> None \<longleftrightarrow> EnableDiscovery cfg" "er \<noteq> None \<longleftrightarrow> EnableEvents cfg"
    by (rule runs_fromE)
  have panics: "stop_panics cfg evs \<longleftrightarrow> dm \<noteq> None \<and> demoted (discovery_msgs evs) \<or> er \<noteq> None \<and> demoted (router_msgs evs)"
    unfolding stop_panics_def r(6,7) [symmetric] ..
  note cases = agent_Stop_cases [OF r(1-5), folded panics]
  show ?thesis
  proof (cases "stop_panics cfg evs")
    case False
    with cases obtain a' sm' where "agent_Stop (btWorld b) a = Some (Inr (a', sm'))" "smProviders sm' = []" "smScrapers sm' = []" by auto
    with agent_Stop_inv [of "btWorld b" a a' sm'] runs_from_sources(1) [OF assms] False show ?thesis by simp
  qed (use cases in simp)
qed

lemma runs_from_step:
  assumes "runs_from b cfg evs a" "agent_step (btWorld b) a ev = Inr a'"
  shows "runs_from b cfg (evs @ [ev]) a'"
proof -
  have "agent_run w a0 (evs @ [ev]) = (case agent_run w a0 evs of Inl e \<Rightarrow> Inl e | Inr a \<Rightarrow> agent_step w a ev)" for w and a0 :: "'a agent"
    by (induction evs arbitrary: a0) (auto split: sum.split)
  with assms show ?thesis unfolding runs_from_def by (metis sum.simps(6))
qed

section \<open>The histories of the process\<close>

definition process_inv :: "('s, 'k, 'h) process \<Rightarrow> bool" where
  "process_inv p \<longleftrightarrow> (case prState p of
       ProcRunning a \<Rightarrow> runs_from (prBoot p) (prConfig p) (prSince p) a
     | ProcStuck \<Rightarrow> False
     | _ \<Rightarrow> True)"

text \<open>What a change of the file does to a process whose agent runs: the old agent panics, or a new one is created on a clean source manager.\<close>

definition new_boot :: "('s, 'k) boot \<Rightarrow> ('s, 'k, 'h) process \<Rightarrow> ('s, 'k) boot" where
  "new_boot b p = b \<lparr> btWorld := btWorld (prBoot p), btVersion := btVersion (prBoot p) \<rparr>"

lemma reloader_Handle_panics:
  assumes "prState p = ProcRunning a" "runs_from (prBoot p) (prConfig p) (prSince p) a" "stop_panics (prConfig p) (prSince p)"
  shows "reloader_Handle b cfg p = p \<lparr> prState := ProcEnded (GoPanic ''close of closed channel'') \<rparr>"
  using runs_from_Stop [OF assms(2)] assms(1,3) by (simp add: reloader_Handle_def handleCollectorCfg_def Let_def)

lemma reloader_Handle_creates:
  fixes p :: "('s, 'k, 'h) process"
  assumes "prState p = ProcRunning a" "runs_from (prBoot p) (prConfig p) (prSince p) a" "\<not> stop_panics (prConfig p) (prSince p)"
  shows "\<exists>l sm n. sm_inv sm \<and> smProviders sm = [] \<and> smScrapers sm = [] \<and>
      prState (reloader_Handle b cfg p) =
        (case (createAgentOrDie (new_boot b p) (fillDefaults (awAgentType (btWorld (prBoot p))) cfg) l sm n :: (features \<times> 'h processor list \<times> 's agent) go_result) of
           Inl e \<Rightarrow> ProcEnded e | Inr (fs, ps, a') \<Rightarrow> ProcRunning a')"
proof -
  obtain a' sm where st: "agent_Stop (btWorld (prBoot p)) a = Some (Inr (a', sm))" "sm_inv sm" "smProviders sm = []" "smScrapers sm = []"
    using runs_from_Stop [OF assms(2)] assms(3) by auto
  then have "prState (reloader_Handle b cfg p) =
      (case (createAgentOrDie (new_boot b p) (fillDefaults (awAgentType (btWorld (prBoot p))) cfg) (agLeadership a') sm (enabledCount a')
          :: (features \<times> 'h processor list \<times> 's agent) go_result) of
         Inl e \<Rightarrow> ProcEnded e | Inr (fs, ps, a') \<Rightarrow> ProcRunning a')"
    using assms(1) by (simp add: reloader_Handle_def handleCollectorCfg_def new_boot_def Let_def split: sum.split prod.split)
  with st show ?thesis by blast
qed

lemma reloader_Handle_inv:
  fixes p :: "('s, 'k, 'h) process"
  assumes "process_inv p"
  shows "process_inv (reloader_Handle b cfg p)"
proof (cases "prState p")
  case (ProcRunning a)
  with assms have runs: "runs_from (prBoot p) (prConfig p) (prSince p) a" by (simp add: process_inv_def)
  show ?thesis
  proof (cases "stop_panics (prConfig p) (prSince p)")
    case True
    with reloader_Handle_panics [OF ProcRunning runs True] show ?thesis by (simp add: process_inv_def)
  next
    case False
    then obtain a' sm where st: "agent_Stop (btWorld (prBoot p)) a = Some (Inr (a', sm))" "sm_inv sm" "smProviders sm = []"
      using runs_from_Stop [OF runs] by auto
    let ?b = "b \<lparr> btWorld := btWorld (prBoot p), btVersion := btVersion (prBoot p) \<rparr>"
    let ?cfg = "fillDefaults (awAgentType (btWorld (prBoot p))) cfg"
    define made :: "(features \<times> 'h processor list \<times> 's agent) go_result" where
      "made = createAgentOrDie ?b ?cfg (agLeadership a') sm (enabledCount a')"
    have h: "handleCollectorCfg ?b cfg a = Some made"
      using st(1) by (simp add: handleCollectorCfg_def made_def)
    show ?thesis
    proof (cases made)
      case (Inl e)
      with ProcRunning h show ?thesis by (simp add: reloader_Handle_def process_inv_def)
    next
      case (Inr x)
      obtain fs ps a2 where x: "x = (fs, ps, a2)" by (cases x) auto
      with Inr have "runs_from ?b ?cfg [] a2" using createAgentOrDie_runs [OF _ st(2,3)] unfolding made_def by blast
      with ProcRunning h Inr x show ?thesis by (simp add: reloader_Handle_def process_inv_def)
    qed
  qed
qed (use assms in \<open>simp_all add: reloader_Handle_def process_inv_def\<close>)

lemma process_main_inv: "process_inv (process_main se opt b)"
proof -
  have "smProviders Manager = []" by (simp add: Manager_def)
  then show ?thesis
    using createAgentOrDie_runs [OF _ sm_inv_Manager]
    by (auto simp: process_main_def process_inv_def Let_def split: sum.split)
qed

lemma process_step_inv: "process_inv p \<Longrightarrow> process_inv (process_step p ev)"
proof (cases ev)
  case (AgentTurn x)
  assume "process_inv p"
  with AgentTurn runs_from_step show ?thesis by (auto simp: process_inv_def split: proc_state.splits sum.split)
next
  case (WatchRound b stat loaded)
  assume inv: "process_inv p"
  then have "process_inv (p \<lparr> prWatcher := fw \<rparr>)" for fw by (cases "prState p") (simp_all add: process_inv_def)
  with WatchRound inv reloader_Handle_inv show ?thesis
    by (auto simp: listener_Changed_def Let_def split: proc_state.split option.split prod.split sum.split)
qed

interpretation proc: det_machine "process_main se opt b" process_step process_inv
  by unfold_locales (simp_all add: process_main_inv process_step_inv)

lemma process_run_inv: "process_inv (process_run se opt b es)"
  using proc.foldl_invar [OF process_main_inv] by (simp add: process_run_def)


text \<open>A process that starts from a file: its agent has the one provider that the file configures.\<close>

definition sample_start :: start_env where
  "sample_start = \<lparr> seParseFloat = (\<lambda>_. None), seVersion = ''1.2.3'', seNumCPU = 4, seZeroTime = 0, seFromFile = (\<lambda>_. Inr sample_config),
     seLoadDiscovery = (\<lambda>_. Inr []) \<rparr>"

definition sample_program :: program_options where
  "sample_program = \<lparr> optVersion = False, optLogLevel = ''info'', optForceGC = False, optMaxProcs = 0, optConfigFile = ''config.yaml'',
     optRun = \<lparr> MetricResolution = Minute, roSources = [], roSinks = [], roSinkExportDataTimeout = Second, roEnableDiscovery = False,
       EnableRuntimeConfigs = False, DiscoveryConfigFile = [], roInternalStatsPrefix = [], AgentType = AllAgentType \<rparr> \<rparr>"

lemma sample_process_starts:
  "\<exists>a. prState (process_main sample_start sample_program sample_boot :: ((unit, unit) discovered, unit, unit) process) = ProcRunning a \<and>
     prConfig (process_main sample_start sample_program sample_boot :: ((unit, unit) discovered, unit, unit) process) = fillDefaults AllAgentType sample_config \<and>
     btFactories (prBoot (process_main sample_start sample_program sample_boot :: ((unit, unit) discovered, unit, unit) process)) = sample_factories"
proof -
  have load: "loadConfigOrDie AllAgentType (\<lambda>_. Inr sample_config) ''config.yaml'' = Inr (Some (fillDefaults AllAgentType sample_config))"
    by (simp add: loadConfigOrDie_def sample_config_def zeroConfig_def emptySources_def fillDefaults_def validateCfg_def)
  have world: "sample_world \<lparr> awAgentType := AllAgentType \<rparr> = sample_world" by (simp add: sample_world_def)
  have b: "sample_boot \<lparr> btWorld := sample_world, btVersion := v \<rparr> = sample_boot \<lparr> btVersion := v \<rparr>" for v by (simp add: sample_boot_def)
  have w: "btWorld sample_boot = sample_world" "btFactories sample_boot = sample_factories" by (simp_all add: sample_boot_def)
  have pre: "\<exists>v. preRegister (\<lambda>_. None) ''1.2.3'' (awEnv sample_world) AllAgentType = Inr v"
    by (simp add: preRegister_def getVersion_def sample_world_def GetNodeName_def get_str_def Let_def)
  then obtain v where v: "preRegister (\<lambda>_. None) ''1.2.3'' (awEnv sample_world) AllAgentType = Inr v" by blast
  from sample_create [of v Manager 0] obtain fs and ps :: "unit processor list" and a where
    "createAgentOrDie (sample_boot \<lparr> btVersion := v \<rparr>) (fillDefaults AllAgentType sample_config) initialLeadership Manager 0 = Inr (fs, ps, a)" by blast
  note made = this
  define p0 :: "((unit, unit) discovered, unit, unit) process" where "p0 = \<lparr> prState = ProcExited, prWatcher = None, prLogLevel = setLogLevel ''info'',
                prMaxProcs = setMaxProcs 0 4, prFeatures = [], prProcessors = [],
                prBoot = sample_boot \<lparr> btWorld := sample_world \<rparr>, prConfig = zeroConfig, prSince = [] \<rparr>"
  have "process_main sample_start sample_program sample_boot = p0 \<lparr> prState := ProcRunning a, prWatcher := registerListeners 0 ''config.yaml'', prFeatures := fs,
                 prProcessors := ps, prBoot := sample_boot \<lparr> btVersion := v \<rparr>, prConfig := fillDefaults AllAgentType sample_config \<rparr>"
    by (simp add: process_main_def sample_start_def sample_program_def enableForcedGC_def convertOrDie_def load world b w v made p0_def)
  then show ?thesis by (simp add: w)
qed


end
