(* ===== verification/Caches.thy ===== *)
theory Caches
  imports Agent State_Source
begin

text \<open>
  The caches of Kubernetes objects that the process keeps: the listers of pods, nodes, services and namespaces
  (\<^verbatim>\<open>internal/util/util.go\<close>, \<^verbatim>\<open>plugins/discovery/lister.go\<close>), the lister of the state source
  (\<^verbatim>\<open>plugins/sources/kstate/lister.go\<close>), and the informers of config maps and secrets that feed the runtime
  rules (\<^verbatim>\<open>plugins/discovery/config.go\<close>). The objects in a cache and their matching with labels are those of client-go and parameters;
  which caches there are, what they select and what their events do is the code here.
\<close>

section \<open>The shared listers\<close>

text \<open>What a reflector watches: the client it uses, the resource type, and the objects it selects.\<close>

record 'c reflector =
  rfClient :: 'c
  rfResource :: string
  rfSelector :: field_selector

text \<open>The package variables; \<open>csReflectors\<close> are the reflectors started so far, which run until the process ends.\<close>

record 'c caches =
  csNodes :: "'c reflector option"
  csPods :: "'c reflector option"
  csNamespaces :: "'c reflector option"
  csReflectors :: "'c reflector list"

definition noCaches :: "'c caches" where
  "noCaches = \<lparr> csNodes = None, csPods = None, csNamespaces = None, csReflectors = [] \<rparr>"

definition GetNodeLister :: "agent_type \<Rightarrow> env \<Rightarrow> 'c \<Rightarrow> 'c caches \<Rightarrow> 'c reflector \<times> 'c caches" where
  "GetNodeLister agent e client cs =
     (case csNodes cs of
        Some r \<Rightarrow> (r, cs)
      | None \<Rightarrow>
          (let r = \<lparr> rfClient = client, rfResource = ''nodes'', rfSelector = GetFieldSelector agent e ''nodes'' \<rparr> in
           (r, cs \<lparr> csNodes := Some r, csReflectors := csReflectors cs @ [r] \<rparr>)))"

definition GetPodLister :: "agent_type \<Rightarrow> env \<Rightarrow> 'c \<Rightarrow> 'c caches \<Rightarrow> 'c reflector \<times> 'c caches" where
  "GetPodLister agent e client cs =
     (case csPods cs of
        Some r \<Rightarrow> (r, cs)
      | None \<Rightarrow>
          (let r = \<lparr> rfClient = client, rfResource = ''pods'', rfSelector = GetFieldSelector agent e ''pods'' \<rparr> in
           (r, cs \<lparr> csPods := Some r, csReflectors := csReflectors cs @ [r] \<rparr>)))"

definition GetServiceLister :: "'c \<Rightarrow> 'c caches \<Rightarrow> 'c reflector \<times> 'c caches" where
  "GetServiceLister client cs =
     (let r = \<lparr> rfClient = client, rfResource = ''services'', rfSelector = Everything \<rparr> in (r, cs \<lparr> csReflectors := csReflectors cs @ [r] \<rparr>))"

definition GetNamespaceStore :: "'c \<Rightarrow> 'c caches \<Rightarrow> 'c reflector \<times> 'c caches" where
  "GetNamespaceStore client cs =
     (case csNamespaces cs of
        Some r \<Rightarrow> (r, cs)
      | None \<Rightarrow>
          (let r = \<lparr> rfClient = client, rfResource = ''namespaces'', rfSelector = Everything \<rparr> in
           (r, cs \<lparr> csNamespaces := Some r, csReflectors := csReflectors cs @ [r] \<rparr>)))"

text \<open>The listers that one creation of an agent asks for in \<^verbatim>\<open>main.go\<close>; the summary source asks for nodes as well.\<close>

definition agentListers :: "agent_type \<Rightarrow> env \<Rightarrow> bool \<Rightarrow> 'c \<Rightarrow> 'c caches \<Rightarrow> 'c caches" where
  "agentListers agent e discovery client cs =
     (let cs = snd (GetPodLister agent e client (snd (GetNodeLister agent e client cs))) in
      if discovery then snd (GetNodeLister agent e client (snd (GetServiceLister client cs))) else cs)"

definition watching :: "string \<Rightarrow> 'c caches \<Rightarrow> 'c reflector list" where
  "watching resource cs = filter (\<lambda>r. rfResource r = resource) (csReflectors cs)"

lemma Get_watching:
  "watching r (snd (GetNodeLister agent e client cs)) = watching r cs @ (if csNodes cs = None \<and> r = ''nodes'' then [fst (GetNodeLister agent e client cs)] else [])"
  "watching r (snd (GetPodLister agent e client cs)) = watching r cs @ (if csPods cs = None \<and> r = ''pods'' then [fst (GetPodLister agent e client cs)] else [])"
  "watching r (snd (GetServiceLister client cs)) = watching r cs @ (if r = ''services'' then [fst (GetServiceLister client cs)] else [])"
  by (auto simp: GetNodeLister_def GetPodLister_def GetServiceLister_def watching_def Let_def split: option.split)

lemma Get_caches:
  "csNodes (snd (GetNodeLister agent e client cs)) = Some (fst (GetNodeLister agent e client cs))" "csPods (snd (GetNodeLister agent e client cs)) = csPods cs"
  "csPods (snd (GetPodLister agent e client cs)) = Some (fst (GetPodLister agent e client cs))" "csNodes (snd (GetPodLister agent e client cs)) = csNodes cs"
  "csNodes (snd (GetServiceLister client cs)) = csNodes cs" "csPods (snd (GetServiceLister client cs)) = csPods cs"
  by (simp_all add: GetNodeLister_def GetPodLister_def GetServiceLister_def Let_def split: option.split)

text \<open>A cache of pods or nodes is watched by one reflector, if it exists.\<close>

definition watched_once :: "'c caches \<Rightarrow> bool" where
  "watched_once cs \<longleftrightarrow> length (watching ''nodes'' cs) = (if csNodes cs = None then 0 else 1) \<and> length (watching ''pods'' cs) = (if csPods cs = None then 0 else 1)"

lemma agentListers_watching:
  assumes "watched_once cs"
  shows "watched_once (agentListers agent e discovery client cs)" "csNodes (agentListers agent e discovery client cs) \<noteq> None"
    "csPods (agentListers agent e discovery client cs) \<noteq> None"
    "length (watching ''services'' (agentListers agent e discovery client cs)) = length (watching ''services'' cs) + (if discovery then 1 else 0)"
  using assms by (simp_all add: agentListers_def watched_once_def Get_watching Get_caches Let_def)

text \<open>
  Nodes and pods are watched once for the whole process, however often the agent is replaced, but every agent with
  discovery starts another watch of all services, which is never stopped.
\<close>

lemma service_watches:
  assumes "ds \<noteq> []" "cs = fold (\<lambda>discovery. agentListers agent e discovery client) ds noCaches"
  shows "length (watching ''nodes'' cs) = 1 \<and> length (watching ''pods'' cs) = 1 \<and> length (watching ''services'' cs) = length (filter id ds)"
proof -
  let ?run = "fold (\<lambda>discovery. agentListers agent e discovery client)"
  have run: "watched_once (?run ds cs) \<and> length (watching ''services'' (?run ds cs)) = length (watching ''services'' cs) + length (filter id ds) \<and>
      (ds = [] \<or> csNodes (?run ds cs) \<noteq> None \<and> csPods (?run ds cs) \<noteq> None)"
    if "watched_once cs" for ds cs
    using that by (induction ds rule: rev_induct) (simp_all add: agentListers_watching del: not_None_eq)
  have "watched_once noCaches" by (simp add: watched_once_def noCaches_def watching_def)
  from run [OF this, of ds, folded assms(2)] assms(1) show ?thesis
    by (simp add: watched_once_def noCaches_def watching_def del: not_None_eq)
qed

text \<open>The first caller decides what the cache of pods or nodes selects and which client it uses.\<close>

lemma first_lister_stays:
  "fst (GetPodLister agent' e' client' (snd (GetPodLister agent e client cs))) = fst (GetPodLister agent e client cs)"
  "fst (GetNodeLister agent' e' client' (snd (GetNodeLister agent e client cs))) = fst (GetNodeLister agent e client cs)"
  "fst (GetNamespaceStore client' (snd (GetNamespaceStore client cs))) = fst (GetNamespaceStore client cs)"
  by (simp_all add: GetPodLister_def GetNodeLister_def GetNamespaceStore_def Let_def split: option.split)

section \<open>Listing resources\<close>

text \<open>\<open>matches\<close> is the matching of a label selector made from a map; no namespace means all of them.\<close>

record resource_lister =
  rlPods :: "pod list"
  rlServices :: "service list"
  rlNodes :: "node list"

definition ListPods :: "(strmap \<Rightarrow> strmap \<Rightarrow> bool) \<Rightarrow> string \<Rightarrow> strmap \<Rightarrow> resource_lister \<Rightarrow> pod list" where
  "ListPods matches ns l rl =
     filter (\<lambda>p. (ns = [] \<or> mtNamespace (podMeta p) = ns) \<and> matches l (mtLabels (podMeta p))) (rlPods rl)"

definition ListServices :: "(strmap \<Rightarrow> strmap \<Rightarrow> bool) \<Rightarrow> string \<Rightarrow> strmap \<Rightarrow> resource_lister \<Rightarrow> service list" where
  "ListServices matches ns l rl =
     filter (\<lambda>s. (ns = [] \<or> mtNamespace (svcMeta s) = ns) \<and> matches l (mtLabels (svcMeta s))) (rlServices rl)"

definition ListNodes :: "resource_lister \<Rightarrow> node list" where
  "ListNodes rl = rlNodes rl"

text \<open>The pods of a namespace are the pods of the cluster that are in it.\<close>

lemma ListPods_namespace:
  "ns \<noteq> [] \<Longrightarrow> ListPods matches ns l rl = filter (\<lambda>p. mtNamespace (podMeta p) = ns) (ListPods matches [] l rl)"
  by (simp add: ListPods_def conj_commute)

section \<open>The lister of the state source\<close>

datatype list_selector = SelectAll | FieldNotEqual string string

record 'c kstate_lister =
  klClient :: 'c
  klInformers :: "(string, list_selector) gomap"
  klStopCh :: go_chan

definition buildInformers :: "(string, list_selector) gomap" where
  "buildInformers =
     map (\<lambda>r. (r, SelectAll)) [''daemonsets'', ''deployments'', ''statefulsets'', ''replicasets'', ''jobs'', ''cronjobs'', ''horizontalpodautoscalers'',
       ''nodes'', ''replicationcontrollers''] @ [(''pods'', FieldNotEqual ''status.phase'' ''Running'')]"

text \<open>\<^verbatim>\<open>newLister\<close>: one lister for the process (\<^verbatim>\<open>sync.Once\<close>), whose leadership manager is started with it.\<close>

definition newLister :: "env \<Rightarrow> go_error option \<Rightarrow> 'c \<Rightarrow> 'c kstate_lister option \<times> leadership \<Rightarrow> 'c kstate_lister option \<times> leadership" where
  "newLister e newElector client s =
     (case s of
        (Some kl, l) \<Rightarrow> (Some kl, l)
      | (None, l) \<Rightarrow> (Some \<lparr> klClient = client, klInformers = buildInformers, klStopCh = NilChan \<rparr>, lm_Start e newElector ''kstate'' l))"

definition kl_List :: "(string \<Rightarrow> 'o list) \<Rightarrow> 'c kstate_lister \<Rightarrow> string \<Rightarrow> 'o list go_result" where
  "kl_List store kl resource =
     (if map_of (klInformers kl) resource \<noteq> None then Inr (store resource) else Inl (Errorf ''unsupported resource type''))"

definition kl_Resume :: "'c kstate_lister \<Rightarrow> 'c kstate_lister" where
  "kl_Resume kl = kl \<lparr> klStopCh := OpenChan \<rparr>"

definition kl_Pause :: "'c kstate_lister \<Rightarrow> 'c kstate_lister go_result" where
  "kl_Pause kl = (case closeIfSet (klStopCh kl) of Inl e \<Rightarrow> Inl e | Inr ch \<Rightarrow> Inr (kl \<lparr> klStopCh := ch \<rparr>))"

lemma buildInformers_types: "map fst buildInformers = informerTypes"
  by (simp add: buildInformers_def informerTypes_def)

text \<open>Every resource type that the state source reports on has an informer, so that its lists never fail.\<close>

lemma state_resources_listed:
  assumes "r \<in> set (map fst stateFuncs)" "newLister e ne client (None, l) = (Some kl, l')"
  shows "kl_List store kl r = Inr (store r)"
  using assms by (auto simp: newLister_def kl_List_def buildInformers_def stateFuncs_def)

text \<open>
  The messages of the election reach the lister through its leadership manager. It panics exactly when it is paused
  twice without being resumed in between.
\<close>

fun pausedTwice :: "go_chan \<Rightarrow> bool list \<Rightarrow> bool" where
  "pausedTwice ch [] = False"
| "pausedTwice ch (True # msgs) = pausedTwice OpenChan msgs"
| "pausedTwice ch (False # msgs) = (ch = ClosedChan \<or> pausedTwice (if ch = OpenChan then ClosedChan else ch) msgs)"

lemma drain_Inl: "fold (\<lambda>b acc. case acc of Inl e \<Rightarrow> Inl e | Inr s \<Rightarrow> lm_turn resume pause b s) msgs (Inl e) = Inl e"
  by (induction msgs) simp_all

lemma kl_drain:
  "drain kl_Resume kl_Pause msgs kl = (if pausedTwice (klStopCh kl) msgs then Inl (GoPanic ''close of closed channel'')
     else Inr (kl \<lparr> klStopCh := chan_after msgs (klStopCh kl) \<rparr>))"
proof (induction msgs arbitrary: kl)
  case (Cons b msgs)
  have split: "chan_after (b # msgs) ch = chan_after msgs (chan_after [b] ch)" for ch
    using chan_after_append [of "[b]" msgs] by simp
  show ?case
  proof (cases b)
    case True
    with Cons [of "kl_Resume kl"] split show ?thesis by (simp add: drain_def lm_turn_def kl_Resume_def)
  next
    case False
    show ?thesis
    proof (cases "klStopCh kl")
      case ClosedChan
      with False show ?thesis by (simp add: drain_def lm_turn_def kl_Pause_def closeIfSet_def drain_Inl)
    next
      case OpenChan
      with Cons [of "kl \<lparr> klStopCh := ClosedChan \<rparr>"] False split show ?thesis by (simp add: drain_def lm_turn_def kl_Pause_def closeIfSet_def)
    next
      case NilChan
      with Cons [of kl] False split show ?thesis by (cases kl) (simp add: drain_def lm_turn_def kl_Pause_def closeIfSet_def)
    qed
  qed
qed (simp add: drain_def)

section \<open>The informers of the runtime rules\<close>

record secret =
  scMeta :: object_meta
  scData :: "(string, string) gomap"

definition convertByteArrayData :: "(string, string) gomap \<Rightarrow> strmap" where
  "convertByteArrayData data = fold (\<lambda>(key, v) m. gput key v m) data []"

definition updateSecretIfValid :: "(string \<Rightarrow> plugin_config list go_result) \<Rightarrow> secret option \<Rightarrow> config_handler \<Rightarrow> config_handler" where
  "updateSecretIfValid fromYAML obj h =
     (case obj of None \<Rightarrow> h | Some s \<Rightarrow> ch_updated fromYAML \<lparr> crMeta = scMeta s, crData = convertByteArrayData (scData s) \<rparr> h)"

definition deleteSecretIfValid :: "secret option \<Rightarrow> config_handler \<Rightarrow> config_handler" where
  "deleteSecretIfValid obj h = (case obj of None \<Rightarrow> h | Some s \<Rightarrow> ch_deleted (mtName (scMeta s)) h)"

text \<open>The list function of the secret informer: without access it delivers no secrets, and no error. \<open>items\<close> is the answer of the API.\<close>

definition emptySecretList :: "secret list" where
  "emptySecretList = []"

definition listSecrets :: "time \<Rightarrow> time \<Rightarrow> bool go_result \<Rightarrow> secret list go_result \<Rightarrow> auth_checker \<Rightarrow> secret list go_result \<times> auth_checker" where
  "listSecrets zeroTime now review items c =
     (let (ok, _, c) = CanListSecrets zeroTime now review c in (if ok then items else Inr emptySecretList, c))"

definition newSecretInformer :: "time \<Rightarrow> auth_checker" where
  "newSecretInformer zeroTime = NewAuthChecker zeroTime Minute (12 * 60 * Minute)"

text \<open>A fresh checker asks the API at once; a failing or denying answer hides the secrets for a minute.\<close>

lemma listSecrets_fresh:
  assumes "zeroTime + Minute < now"
  shows "fst (listSecrets zeroTime now review items (newSecretInformer zeroTime)) = (if review = Inr True then items else Inr [])"
proof -
  have "Minute < Time_Sub now zeroTime" using assms by (simp add: Time_Sub_def minDuration_def maxDuration_def)
  then show ?thesis
    by (cases review) (auto simp: listSecrets_def newSecretInformer_def NewAuthChecker_def CanListSecrets_def refreshAccess_def timeToRefresh_def
        reportAccess_def canListSecretsAPI_def emptySecretList_def Let_def)
qed

text \<open>\<^verbatim>\<open>newConfigHandler\<close>: the handler, and the namespace its informers watch, if it has any.\<close>

definition readNamespaceFromFile :: "string go_result \<Rightarrow> string" where
  "readNamespaceFromFile file = (case file of Inl err \<Rightarrow> [] | Inr ns \<Rightarrow> ns)"

definition newConfigHandler :: "env \<Rightarrow> string go_result \<Rightarrow> discovery_config \<Rightarrow> config_handler \<times> string option" where
  "newConfigHandler e file wired =
     (let h = \<lparr> wiredCfg = wired, runtimeCfgs = [] \<rparr>;
          ns = (if GetNamespaceName e = [] then readNamespaceFromFile file else GetNamespaceName e)
      in (h, if ns = [] then None else Some ns))"

text \<open>The handler can be started exactly when it has informers.\<close>

lemma newConfigHandler_start:
  "snd (newConfigHandler e file wired) \<noteq> None \<longleftrightarrow> (\<exists>ch. config_start e (readNamespaceFromFile file) = Inr ch)"
  by (simp add: newConfigHandler_def config_start_def Let_def)

text \<open>
  What the informers deliver. An object is \<^verbatim>\<open>None\<close> when it has another type, as that which client-go hands over for a deletion
  the watch has missed.
\<close>

datatype informer_event = MapSeen "config_resource option" | MapGone "config_resource option" | SecretSeen "secret option" | SecretGone "secret option"

fun informer_step :: "(string \<Rightarrow> plugin_config list go_result) \<Rightarrow> config_handler \<Rightarrow> informer_event \<Rightarrow> config_handler" where
  "informer_step fromYAML h (MapSeen obj) = updateConfigMapIfValid fromYAML obj h"
| "informer_step fromYAML h (MapGone obj) = deleteConfigMapIfValid obj h"
| "informer_step fromYAML h (SecretSeen obj) = updateSecretIfValid fromYAML obj h"
| "informer_step fromYAML h (SecretGone obj) = deleteSecretIfValid obj h"

text \<open>The event of the handler that an event of an informer is, if it is one.\<close>

fun handlerEvent :: "informer_event \<Rightarrow> config_event option" where
  "handlerEvent (MapSeen obj) = map_option ConfigUpdated obj"
| "handlerEvent (MapGone obj) = map_option (\<lambda>r. ConfigDeleted (mtName (crMeta r))) obj"
| "handlerEvent (SecretSeen obj) = map_option (\<lambda>s. ConfigUpdated \<lparr> crMeta = scMeta s, crData = convertByteArrayData (scData s) \<rparr>) obj"
| "handlerEvent (SecretGone obj) = map_option (\<lambda>s. ConfigDeleted (mtName (scMeta s))) obj"

lemma informer_step_event:
  "informer_step fromYAML h ev = (case handlerEvent ev of None \<Rightarrow> h | Some e \<Rightarrow> ch_step fromYAML h e)"
  by (cases ev) (simp_all add: updateConfigMapIfValid_def deleteConfigMapIfValid_def updateSecretIfValid_def deleteSecretIfValid_def split: option.split)

lemma informer_run_events:
  "foldl (informer_step fromYAML) h evs = foldl (ch_step fromYAML) h (List.map_filter handlerEvent evs)"
  by (induction evs arbitrary: h) (simp_all add: informer_step_event List.map_filter_def split: option.split)

text \<open>The bytes of a secret are read as text, key by key.\<close>

lemma convertByteArrayData_same: "wf_map data \<Longrightarrow> map_of (convertByteArrayData data) = map_of data"
  using map_of_put_all [of data "[]"] by (simp add: convertByteArrayData_def put_all_def)

text \<open>
  C34. The runtime rules after any history of config maps and secrets. The rules under a name are those of the last event that
  says something about it, whichever of the two informers it came from: a secret replaces or removes the rules of
  the config map of its name.
\<close>

theorem informer_rules_history:
  "map_of (runtimeCfgs (foldl (informer_step fromYAML) (fst (newConfigHandler e file wired)) evs)) name =
     (case filter (\<lambda>r. r \<noteq> None) (map (ruleEffect fromYAML name) (rev (List.map_filter handlerEvent evs))) of [] \<Rightarrow> None | r # _ \<Rightarrow> the r)"
  by (simp add: informer_run_events ch_history newConfigHandler_def Let_def)

text \<open>A secret without the annotation that has the name of a config map removes the rules of the config map.\<close>

lemma secret_removes_rules:
  assumes "mtName (scMeta s) = mtName (crMeta r)" "\<not> annotated (mtAnnotations (scMeta s))"
  shows "map_of (runtimeCfgs (foldl (informer_step fromYAML) h [MapSeen (Some r), SecretSeen (Some s)])) (mtName (crMeta r)) = None"
  using assms by (simp add: updateSecretIfValid_def ch_updated_def ch_deleted_def)

text \<open>A deletion that the watch has missed changes nothing: the rules of the deleted config map stay in force.\<close>

lemma missed_deletion_keeps_rules: "informer_step fromYAML h (MapGone None) = h" "informer_step fromYAML h (SecretGone None) = h"
  by (simp_all add: deleteConfigMapIfValid_def deleteSecretIfValid_def)

end
