(* ===== verification/Command_Line.thy ===== *)
theory Command_Line
  imports Collector_Process Go_Duration
begin

text \<open>
  The command line (\<^verbatim>\<open>internal/options/options.go\<close>, \<^verbatim>\<open>internal/flags/flags.go\<close>): the flags with their defaults, and the
  values of source and sink flags. The splitting of the arguments into flags is that of pflag: a list of names and
  values is given. The parsing of URLs, of integers and the expansion of environment variables are parameters.
\<close>

section \<open>Source and sink flags\<close>

definition emptyUri :: uri where
  "emptyUri = \<lparr> uKey = [], uScheme = [], uHost = [], uPath = [], uQuery = [] \<rparr>"

definition Uri_String :: "(uri \<Rightarrow> string) \<Rightarrow> uri \<Rightarrow> string" where
  "Uri_String urlString u =
     (let val = urlString u in if val = [] then uKey u else uKey u @ '':'' @ val)"

text \<open>\<^verbatim>\<open>Set\<close> writes the key before it looks at the rest, also when the URL does not parse.\<close>

definition Uri_Set :: "(string \<Rightarrow> string) \<Rightarrow> (string \<Rightarrow> uri go_result) \<Rightarrow> string \<Rightarrow> uri \<Rightarrow> uri \<times> go_error option" where
  "Uri_Set expandEnv parseURL v u =
     (let s = SplitN2 CHR '':'' v in
      if s ! 0 = [] then (u, Some (Errorf ''missing uri key''))
      else
        (let u = u \<lparr> uKey := s ! 0 \<rparr> in
         if length s > 1 \<and> s ! 1 \<noteq> [] then
           (case parseURL (expandEnv (s ! 1)) of
              Inl err \<Rightarrow> (u, Some err)
            | Inr uri \<Rightarrow> (uri \<lparr> uKey := s ! 0 \<rparr>, None))
         else (u, None)))"

definition Uris_String :: "(uri \<Rightarrow> string) \<Rightarrow> uri list \<Rightarrow> string" where
  "Uris_String urlString us = ''['' @ Join (map (Uri_String urlString) us) '' '' @ '']''"

definition Uris_Set :: "(string \<Rightarrow> string) \<Rightarrow> (string \<Rightarrow> uri go_result) \<Rightarrow> string \<Rightarrow> uri list \<Rightarrow> uri list \<times> go_error option" where
  "Uris_Set expandEnv parseURL v us =
     (case Uri_Set expandEnv parseURL v emptyUri of
        (u, Some err) \<Rightarrow> (us, Some err)
      | (u, None) \<Rightarrow> (us @ [u], None))"

text \<open>A flag that is printed is read back, if its key is not empty and has no colon and its URL reads back.\<close>

lemma Uri_roundtrip:
  assumes "uKey u \<noteq> []" "CHR '':'' \<notin> set (uKey u)"
    and "urlString u = [] \<Longrightarrow> u = emptyUri \<lparr> uKey := uKey u \<rparr>"
    and "urlString u \<noteq> [] \<Longrightarrow> \<exists>k. parseURL (expandEnv (urlString u)) = Inr (u \<lparr> uKey := k \<rparr>)"
  shows "Uri_Set expandEnv parseURL (Uri_String urlString u) emptyUri = (u, None)"
proof (cases "urlString u = []")
  case True
  with assms show ?thesis by (simp add: Uri_Set_def Uri_String_def SplitN2_def)
next
  case False
  have "takeWhile (\<lambda>x. x \<noteq> CHR '':'') (uKey u @ CHR '':'' # urlString u) = uKey u" "dropWhile (\<lambda>x. x \<noteq> CHR '':'') (uKey u @ CHR '':'' # urlString u) = CHR '':'' # urlString u"
    using assms(2) by (simp_all add: takeWhile_tail takeWhile_append dropWhile_append3 dropWhile_append)
  with False assms(1,4) show ?thesis by (auto simp: Uri_Set_def Uri_String_def SplitN2_def)
qed

section \<open>The flags\<close>

record flag_parsers =
  fpExpandEnv :: "string \<Rightarrow> string"
  fpURL :: "string \<Rightarrow> uri go_result"
  fpInt :: "string \<Rightarrow> int option"

record flag_state =
  fsOptions :: program_options
  fsProfile :: bool
  fsDaemon :: bool
  fsChanged :: "string list"

text \<open>\<^verbatim>\<open>NewCollectorRunOptions\<close> and the defaults of the flags.\<close>

definition flagDefaults :: flag_state where
  "flagDefaults = \<lparr> fsOptions = \<lparr> optVersion = False, optLogLevel = ''info'', optForceGC = False, optMaxProcs = 0, optConfigFile = [],
       optRun = \<lparr> MetricResolution = 60 * Second, roSources = [], roSinks = [], roSinkExportDataTimeout = 20 * Second, roEnableDiscovery = True,
         EnableRuntimeConfigs = False, DiscoveryConfigFile = [], roInternalStatsPrefix = ''kubernetes.'', AgentType = AllAgentType \<rparr> \<rparr>,
     fsProfile = False, fsDaemon = False, fsChanged = [] \<rparr>"

definition withOptions :: "(program_options \<Rightarrow> program_options) \<Rightarrow> flag_state \<Rightarrow> flag_state" where
  "withOptions f st = st \<lparr> fsOptions := f (fsOptions st) \<rparr>"

definition withRun :: "(run_options \<Rightarrow> run_options) \<Rightarrow> flag_state \<Rightarrow> flag_state" where
  "withRun f = withOptions (\<lambda>opts. opts \<lparr> optRun := f (optRun opts) \<rparr>)"

definition parsedFlag :: "'v option \<Rightarrow> ('v \<Rightarrow> flag_state \<Rightarrow> flag_state) \<Rightarrow> flag_state \<Rightarrow> flag_state go_result" where
  "parsedFlag v f st = (case v of None \<Rightarrow> Inl (Errorf ''invalid argument'') | Some x \<Rightarrow> Inr (f x st))"

definition urisFlag :: "flag_parsers \<Rightarrow> string \<Rightarrow> uri list \<Rightarrow> (uri list \<Rightarrow> flag_state \<Rightarrow> flag_state) \<Rightarrow> flag_state \<Rightarrow> flag_state go_result" where
  "urisFlag fp v us f st = (case Uris_Set (fpExpandEnv fp) (fpURL fp) v us of (_, Some err) \<Rightarrow> Inl err | (us, None) \<Rightarrow> Inr (f us st))"

text \<open>The value of one flag; the flags whose value is unused (the period of the scrapes and the old log level) are only checked.\<close>

definition setFlag :: "flag_parsers \<Rightarrow> string \<times> string \<Rightarrow> flag_state \<Rightarrow> flag_state go_result" where
  "setFlag fp nv st =
     (let (n, v) = nv;
          st = st \<lparr> fsChanged := n # fsChanged st \<rparr>;
          duration = (case ParseDuration v of Inl _ \<Rightarrow> None | Inr d \<Rightarrow> Some d)
      in
      if n = ''version'' then parsedFlag (ParseBool v) (\<lambda>b. withOptions (optVersion_update (\<lambda>_. b))) st
      else if n = ''profile'' then parsedFlag (ParseBool v) (\<lambda>b. fsProfile_update (\<lambda>_. b)) st
      else if n = ''daemon'' then parsedFlag (ParseBool v) (\<lambda>b. fsDaemon_update (\<lambda>_. b)) st
      else if n = ''agent'' then
        (case AgentType_Set v of (_, Some err) \<Rightarrow> Inl err | (a, None) \<Rightarrow> Inr (withRun (AgentType_update (\<lambda>_. a)) st))
      else if n = ''config-file'' then Inr (withOptions (optConfigFile_update (\<lambda>_. v)) st)
      else if n = ''log-level'' then Inr (withOptions (optLogLevel_update (\<lambda>_. v)) st)
      else if n = ''max-procs'' then parsedFlag (fpInt fp v) (\<lambda>i. withOptions (optMaxProcs_update (\<lambda>_. i))) st
      else if n = ''force-gc'' then parsedFlag (ParseBool v) (\<lambda>b. withOptions (optForceGC_update (\<lambda>_. b))) st
      else if n = ''metric-resolution'' then parsedFlag duration (\<lambda>d. withRun (MetricResolution_update (\<lambda>_. d))) st
      else if n = ''source'' then urisFlag fp v (roSources (optRun (fsOptions st))) (\<lambda>us. withRun (roSources_update (\<lambda>_. us))) st
      else if n = ''sink'' then urisFlag fp v (roSinks (optRun (fsOptions st))) (\<lambda>us. withRun (roSinks_update (\<lambda>_. us))) st
      else if n = ''sink-export-data-timeout'' then parsedFlag duration (\<lambda>d. withRun (roSinkExportDataTimeout_update (\<lambda>_. d))) st
      else if n = ''enable-discovery'' then parsedFlag (ParseBool v) (\<lambda>b. withRun (roEnableDiscovery_update (\<lambda>_. b))) st
      else if n = ''enable-runtime-configs'' then parsedFlag (ParseBool v) (\<lambda>b. withRun (EnableRuntimeConfigs_update (\<lambda>_. b))) st
      else if n = ''discovery-config'' then Inr (withRun (DiscoveryConfigFile_update (\<lambda>_. v)) st)
      else if n = ''internal-stats-prefix'' then Inr (withRun (roInternalStatsPrefix_update (\<lambda>_. v)) st)
      else if n = ''scrape-timeout'' then parsedFlag duration (\<lambda>_. id) st
      else if n = ''v'' then parsedFlag (fpInt fp v) (\<lambda>_. id) st
      else Inl (Errorf ''unknown flag''))"

fun setFlags :: "flag_parsers \<Rightarrow> (string \<times> string) list \<Rightarrow> flag_state \<Rightarrow> flag_state go_result" where
  "setFlags fp [] st = Inr st"
| "setFlags fp (nv # args) st = (case setFlag fp nv st of Inl e \<Rightarrow> Inl e | Inr st \<Rightarrow> setFlags fp args st)"

definition options_Parse :: "flag_parsers \<Rightarrow> (string \<times> string) list \<Rightarrow> program_options go_result" where
  "options_Parse fp args =
     (case setFlags fp args flagDefaults of
        Inl e \<Rightarrow> Inl e
      | Inr st \<Rightarrow>
          (case handleDaemonFlag \<lparr> daemonChanged = (''daemon'' \<in> set (fsChanged st)), agentChanged = (''agent'' \<in> set (fsChanged st)),
                   daemonFlag = fsDaemon st, agentFlag = AgentType (optRun (fsOptions st)) \<rparr> of
             Inl e \<Rightarrow> Inl e
           | Inr a \<Rightarrow> Inr (fsOptions (withRun (AgentType_update (\<lambda>_. a)) st))))"

text \<open>The agent type of a command line is that of the two flags that choose it.\<close>

lemma options_Parse_agent:
  assumes "args = (case agent of None \<Rightarrow> [] | Some v \<Rightarrow> [(''agent'', v)]) @ (case daemon of None \<Rightarrow> [] | Some b \<Rightarrow> [(''daemon'', if b then ''true'' else ''false'')])"
  shows "map_sum id (\<lambda>opts. AgentType (optRun opts)) (options_Parse fp args) = parseAgentFlags agent daemon"
  using assms
  by (cases agent; cases daemon)
    (auto simp: options_Parse_def parseAgentFlags_def setFlag_def flagDefaults_def parsedFlag_def ParseBool_def handleDaemonFlag_def withRun_def withOptions_def
      split: option.split prod.split)

text \<open>Without a configuration file and without sources on the command line the program ends.\<close>

lemma defaults_need_file:
  assumes "options_Parse fp [] = Inr opt"
  shows "\<exists>e. prState (process_main se opt b) = ProcEnded e"
proof -
  have "opt = fsOptions flagDefaults" using assms by (auto simp: options_Parse_def handleDaemonFlag_def flagDefaults_def withRun_def withOptions_def)
  then show ?thesis
    by (cases "preRegister (seParseFloat se) (seVersion se) (awEnv (btWorld b)) AllAgentType")
      (simp_all add: process_main_def flagDefaults_def enableForcedGC_def loadConfigOrDie_def convertOrDie_def Convert_def Let_def)
qed

end
