(* ===== verification/Test_Sender.thy ===== *)
theory Test_Sender
  imports Wf_Sink Metrics_Core
begin

text \<open>
  The client of a sink in test mode (\<^verbatim>\<open>plugins/sinks/wavefront/testsender.go\<close>), which records the lines it is sent, and the
  aggregations of \<^verbatim>\<open>internal/metrics/historical_types.go\<close>. The printing of a number with \<^verbatim>\<open>%f\<close> is a parameter.
\<close>

section \<open>The test sender\<close>

definition quotedValue :: "string \<Rightarrow> string" where
  "quotedValue s = [CHR 0x22] @ s @ [CHR 0x22]"

definition orderedTagString :: "strmap \<Rightarrow> string" where
  "orderedTagString tags =
     concat (map (\<lambda>tagName. if tagName \<noteq> ''cluster'' then tagName @ ''='' @ quotedValue (get_str tags tagName) @ '' '' else []) (sortKeys tags))"

text \<open>What the sender has received; a distribution leaves no line.\<close>

fun testLine :: "(f64 \<Rightarrow> string) \<Rightarrow> send_call \<Rightarrow> string" where
  "testLine fmt (SendMetricCall name v ts source tags) =
     ''Metric: '' @ name @ '' '' @ fmt v @ '' source='' @ quotedValue source @ '' '' @ orderedTagString tags @ [CHR 0x0A]"
| "testLine fmt (SendDistributionCall name centroids hgs ts source tags) = []"

definition testEventLine :: "string \<Rightarrow> string \<Rightarrow> strmap \<Rightarrow> string" where
  "testEventLine name source tags = name @ '' event source='' @ quotedValue source @ '' '' @ orderedTagString tags @ [CHR 0x0A]"

definition ts_Send :: "(f64 \<Rightarrow> string) \<Rightarrow> send_call \<Rightarrow> string \<Rightarrow> string \<times> go_error option" where
  "ts_Send fmt call received = (received @ testLine fmt call, None)"

definition ts_SendEvent :: "string \<Rightarrow> string \<Rightarrow> strmap \<Rightarrow> string \<Rightarrow> string \<times> go_error option" where
  "ts_SendEvent name source tags received = (received @ testEventLine name source tags, None)"

definition GetReceivedLines :: "string \<Rightarrow> string" where
  "GetReceivedLines received = received"

definition NewTestSender :: string where
  "NewTestSender = []"

text \<open>The lines do not depend on the order in which a map is iterated.\<close>

lemma orderedTagString_order:
  assumes "wf_map tags" "wf_map tags'" "map_of tags = map_of tags'"
  shows "orderedTagString tags = orderedTagString tags'"
proof -
  have "set (map fst tags) = set (map fst tags')" using assms(3) by (metis dom_map_of_conv_image_fst list.set_map)
  with assms(1,2) have "sortKeys tags = sortKeys tags'" unfolding sortKeys_def by (metis sorted_list_of_set_sort_remdups distinct_remdups_id)
  moreover have "get_str tags = get_str tags'" using assms(3) by (simp add: fun_eq_iff get_str_def)
  ultimately show ?thesis by (simp add: orderedTagString_def cong: if_cong)
qed

text \<open>The cluster tag is left out, so that the lines of an export are the same for every cluster name.\<close>

lemma orderedTagString_cluster:
  assumes "wf_map tags" "map_of tags ''cluster'' \<noteq> None"
  shows "orderedTagString (gput ''cluster'' v tags) = orderedTagString tags"
proof -
  have "map fst (gput ''cluster'' v tags) = map fst tags"
    using assms(2) by (intro gput_mem) (metis dom_map_of_conv_image_fst domIff)
  then show ?thesis by (auto simp: orderedTagString_def sortKeys_def intro!: arg_cong [where f = concat] map_cong)
qed

text \<open>What the sender has received after calls is their lines in order, and it never fails.\<close>

lemma ts_Send_all: "fst (fold (\<lambda>call r. ts_Send fmt call (fst r)) calls (received, None)) = received @ concat (map (testLine fmt) calls)"
proof -
  have "fst (fold (\<lambda>call r. ts_Send fmt call (fst r)) calls r) = fst r @ concat (map (testLine fmt) calls)" for r
    by (induction calls arbitrary: r) (simp_all add: ts_Send_def)
  then show ?thesis by simp
qed

section \<open>Aggregations\<close>

datatype aggregation_type = AggregationTypeAverage | AggregationTypeMaximum | AggregationTypeMinimum | AggregationTypeMedian | AggregationTypeCount
  | AggregationTypePercentile50 | AggregationTypePercentile95 | AggregationTypePercentile99

fun aggregationName :: "aggregation_type \<Rightarrow> string" where
  "aggregationName AggregationTypeAverage = ''average''"
| "aggregationName AggregationTypeMaximum = ''max''"
| "aggregationName AggregationTypeMinimum = ''min''"
| "aggregationName AggregationTypeMedian = ''median''"
| "aggregationName AggregationTypeCount = ''count''"
| "aggregationName AggregationTypePercentile50 = ''50-perc''"
| "aggregationName AggregationTypePercentile95 = ''95-perc''"
| "aggregationName AggregationTypePercentile99 = ''99-perc''"

definition MultiTypedAggregations :: "aggregation_type list" where
  "MultiTypedAggregations = [AggregationTypeAverage, AggregationTypeMaximum, AggregationTypeMinimum, AggregationTypeMedian,
     AggregationTypePercentile50, AggregationTypePercentile95, AggregationTypePercentile99]"

definition AllAggregations :: "(aggregation_type, bool) gomap" where
  "AllAggregations = map (\<lambda>a. (a, True)) [AggregationTypeAverage, AggregationTypeMaximum, AggregationTypeMinimum, AggregationTypeMedian,
     AggregationTypePercentile50, AggregationTypePercentile95, AggregationTypePercentile99, AggregationTypeCount]"

record timestamped_metric_value =
  tmValue :: mvalue
  tmTimestamp :: time

record aggregation_value =
  avCount :: "64 word option"
  Aggregations :: "(aggregation_type, mvalue) gomap"

record timestamped_aggregation_value =
  taTimestamp :: time
  BucketSize :: duration
  taAggregation :: aggregation_value

text \<open>All aggregations have different names, and all but the count have the type of the metric.\<close>

lemma aggregationName_inject: "aggregationName a = aggregationName b \<longleftrightarrow> a = b"
  by (cases a; cases b) simp_all

lemma AllAggregations_types: "set (map fst AllAggregations) = UNIV" "a \<in> set MultiTypedAggregations \<longleftrightarrow> a \<noteq> AggregationTypeCount"
proof -
  have "b \<in> set (map fst AllAggregations)" for b by (cases b) (simp_all add: AllAggregations_def)
  then show "set (map fst AllAggregations) = UNIV" by blast
  show "a \<in> set MultiTypedAggregations \<longleftrightarrow> a \<noteq> AggregationTypeCount" by (cases a) (simp_all add: MultiTypedAggregations_def)
qed

end
