(* ===== verification/Metric_Grammar.thy ===== *)
theory Metric_Grammar
  imports Prelude Go_Strings
begin

text \<open>
  The parser of metric lines of the stand-in proxy (\<^verbatim>\<open>internal/testproxy/metrics/metric_grammar.peg.go\<close>): the
  rules of the grammar with their backtracking, the tokens they leave, and the actions that are run over the
  tokens afterwards. The parser works on runes, so the decoding and encoding of UTF-8 come first. The theorems
  say that every loop of the parser makes progress, and that a printed line is read back.

  The position in the buffer is the rest of the buffer, without the end symbol; the tokens are the ones before
  \<^verbatim>\<open>tokenIndex\<close>, each with the text between its two positions. The farthest token, which only the text of an
  error uses, and the printing of syntax trees are left out.
\<close>

section \<open>Runes\<close>

definition runeError :: nat where
  "runeError = 0xFFFD"

definition isCont :: "nat \<Rightarrow> bool" where
  "isCont b = (0x80 \<le> b \<and> b \<le> 0xBF)"

text \<open>The rune at the start of a list of bytes and its width; a byte that starts no valid encoding is an error of width 1.\<close>

definition decodeRune :: "nat \<Rightarrow> nat list \<Rightarrow> nat \<times> nat" where
  "decodeRune a s =
     (let byteAt = (\<lambda>i. if i < length s then s ! i else 0);
          second = (\<lambda>lo hi. lo \<le> byteAt 0 \<and> byteAt 0 \<le> hi);
          lo3 = (if a = 0xE0 then 0xA0 else 0x80); hi3 = (if a = 0xED then 0x9F else 0xBF);
          lo4 = (if a = 0xF0 then 0x90 else 0x80); hi4 = (if a = 0xF4 then 0x8F else 0xBF) in
      if a < 0x80 then (a, 1)
      else if 0xC2 \<le> a \<and> a \<le> 0xDF \<and> isCont (byteAt 0) then ((a - 0xC0) * 64 + (byteAt 0 - 0x80), 2)
      else if 0xE0 \<le> a \<and> a \<le> 0xEF \<and> second lo3 hi3 \<and> isCont (byteAt 1) then
        ((a - 0xE0) * 4096 + (byteAt 0 - 0x80) * 64 + (byteAt 1 - 0x80), 3)
      else if 0xF0 \<le> a \<and> a \<le> 0xF4 \<and> second lo4 hi4 \<and> isCont (byteAt 1) \<and> isCont (byteAt 2) then
        ((a - 0xF0) * 262144 + (byteAt 0 - 0x80) * 4096 + (byteAt 1 - 0x80) * 64 + (byteAt 2 - 0x80), 4)
      else (runeError, 1))"

fun decodeRunes :: "nat list \<Rightarrow> nat list" where
  "decodeRunes [] = []"
| "decodeRunes (a # s) = (let (r, w) = decodeRune a s in r # decodeRunes (drop (w - 1) s))"

definition encodeRune :: "nat \<Rightarrow> nat list" where
  "encodeRune r =
     (if r < 0x80 then [r]
      else if r < 0x800 then [0xC0 + r div 64, 0x80 + r mod 64]
      else if (0xD800 \<le> r \<and> r \<le> 0xDFFF) \<or> r > 0x10FFFF then [0xEF, 0xBF, 0xBD]
      else if r < 0x10000 then [0xE0 + r div 4096, 0x80 + (r div 64) mod 64, 0x80 + r mod 64]
      else [0xF0 + r div 262144, 0x80 + (r div 4096) mod 64, 0x80 + (r div 64) mod 64, 0x80 + r mod 64])"

text \<open>\<^verbatim>\<open>[]rune(s)\<close> and \<^verbatim>\<open>string(runes)\<close>.\<close>

definition toRunes :: "string \<Rightarrow> nat list" where
  "toRunes s = decodeRunes (map of_char s)"

definition ofRunes :: "nat list \<Rightarrow> string" where
  "ofRunes rs = map char_of (concat (map encodeRune rs))"

abbreviation ru :: "char \<Rightarrow> nat" where
  "ru c \<equiv> of_char c"

section \<open>Tokens and matching\<close>

datatype peg_rule =
    ruleMetricGrammar | ruleaggregationInterval | rulehistogramValues | rulehistogramValue | ruletags | ruletag
  | ruletagName | ruletagValue | ruletimestamp | rulemetricValue | rulemetricName | ruleALNUM | ruleDIGIT
  | ruleAction0 | ruleAction1 | rulePegText | ruleAction2 | ruleAction3 | ruleAction4 | ruleAction5 | ruleAction6

type_synonym peg_token = "peg_rule \<times> nat list"
type_synonym peg_state = "nat list \<times> peg_token list"
type_synonym peg = "peg_state \<Rightarrow> peg_state option"

text \<open>\<^verbatim>\<open>add(rule, begin)\<close>, where \<open>s0\<close> is the state at \<open>begin\<close>.\<close>

definition add_token :: "peg_rule \<Rightarrow> peg_state \<Rightarrow> peg_state \<Rightarrow> peg_state" where
  "add_token rule s0 s = (fst s, snd s @ [(rule, take (length (fst s0) - length (fst s)) (fst s0))])"

definition satisfy :: "(nat \<Rightarrow> bool) \<Rightarrow> peg" where
  "satisfy ok s = (case fst s of [] \<Rightarrow> None | r # rs \<Rightarrow> if ok r then Some (rs, snd s) else None)"

definition matchRune :: "nat \<Rightarrow> peg" where
  "matchRune c = satisfy (\<lambda>r. r = c)"

definition matchDot :: peg where
  "matchDot = satisfy (\<lambda>_. True)"

text \<open>
  The control flow of the rules. A failing rule restores position and tokens, so the state before it goes on.
  \<open>star\<close> is a loop that stops when its body fails; its guard stops a body that consumes nothing, which no body of the
  grammar is (\<open>star_loop\<close> and the lemmas on \<open>consumes\<close> below).
\<close>

fun seqs :: "peg list \<Rightarrow> peg" where
  "seqs [] s = Some s"
| "seqs (p # ps) s = (case p s of None \<Rightarrow> None | Some s' \<Rightarrow> seqs ps s')"

definition orElse :: "peg \<Rightarrow> peg \<Rightarrow> peg" where
  "orElse p q s = (case p s of None \<Rightarrow> q s | Some s' \<Rightarrow> Some s')"

definition optional :: "peg \<Rightarrow> peg" where
  "optional p s = (case p s of None \<Rightarrow> Some s | Some s' \<Rightarrow> Some s')"

definition notAt :: "peg \<Rightarrow> peg" where
  "notAt p s = (case p s of None \<Rightarrow> Some s | Some _ \<Rightarrow> None)"

function star :: "peg \<Rightarrow> peg" where
  "star p s = (case p s of None \<Rightarrow> Some s | Some s' \<Rightarrow> if length (fst s') < length (fst s) then star p s' else Some s')"
  by auto
termination by (relation "measure (\<lambda>(p, s). length (fst s))") auto

declare star.simps [simp del]

definition token :: "peg_rule \<Rightarrow> peg \<Rightarrow> peg" where
  "token rule p s = (case p s of None \<Rightarrow> None | Some s' \<Rightarrow> Some (add_token rule s s'))"

definition action :: "peg_rule \<Rightarrow> peg" where
  "action rule s = Some (add_token rule s s)"

definition plus :: "peg \<Rightarrow> peg" where
  "plus p = seqs [p, star p]"

section \<open>The rules\<close>

definition isDigitRune :: "nat \<Rightarrow> bool" where
  "isDigitRune c = (ru CHR ''0'' \<le> c \<and> c \<le> ru CHR ''9'')"

definition isAlnumRune :: "nat \<Rightarrow> bool" where
  "isAlnumRune c = (isDigitRune c \<or> (ru CHR ''A'' \<le> c \<and> c \<le> ru CHR ''Z'') \<or> (ru CHR ''a'' \<le> c \<and> c \<le> ru CHR ''z''))"

definition pDIGIT :: peg where
  "pDIGIT = token ruleDIGIT (satisfy isDigitRune)"

definition pALNUM :: peg where
  "pALNUM = token ruleALNUM (satisfy isAlnumRune)"

definition pMetricName_char :: peg where
  "pMetricName_char = orElse pALNUM (satisfy (\<lambda>c. c \<in> set (map ru '',/._-~'')))"

text \<open>The increment sign that delta counters start with.\<close>

definition deltaRune :: nat where
  "deltaRune = 0x2206"

definition pMetricName_text :: peg where
  "pMetricName_text = token rulePegText
     (seqs [optional (matchRune deltaRune), optional (matchRune (ru CHR ''~'')), plus pMetricName_char])"

definition pMetricName :: peg where
  "pMetricName = token rulemetricName (seqs
     [orElse (seqs [matchRune (ru CHR 0x22), pMetricName_text, matchRune (ru CHR 0x22)]) pMetricName_text, action ruleAction6])"

definition pMetricValue :: peg where
  "pMetricValue = token rulemetricValue (seqs
     [token rulePegText (seqs [optional (matchRune (ru CHR ''-'')), plus pDIGIT, optional (seqs [matchRune (ru CHR ''.''), plus pDIGIT])]),
      action ruleAction5])"

definition pTimestamp :: peg where
  "pTimestamp = token ruletimestamp (seqs
     [token rulePegText (seqs (replicate 10 pDIGIT @ [optional (seqs [pDIGIT, pDIGIT, pDIGIT]), optional (seqs [pDIGIT, pDIGIT, pDIGIT])])),
      action ruleAction4])"

definition pTagName :: peg where
  "pTagName = token ruletagName (seqs
     [orElse
        (seqs [matchRune (ru CHR 0x22), token rulePegText (plus (orElse pALNUM (satisfy (\<lambda>c. c \<in> set (map ru ''._-/''))))), matchRune (ru CHR 0x22)])
        (token rulePegText (plus (orElse pALNUM (satisfy (\<lambda>c. c \<in> set (map ru ''._-'')))))),
      action ruleAction2])"

definition pTagValue_char :: peg where
  "pTagValue_char = orElse (seqs [matchRune (ru CHR 0x5C), matchRune (ru CHR 0x22)]) (seqs [notAt (matchRune (ru CHR 0x22)), matchDot])"

definition pTagValue :: peg where
  "pTagValue = token ruletagValue (seqs
     [matchRune (ru CHR 0x22), token rulePegText (plus pTagValue_char), matchRune (ru CHR 0x22), action ruleAction3])"

definition pTag :: peg where
  "pTag = token ruletag (seqs [pTagName, matchRune (ru CHR ''=''), pTagValue])"

definition pTags :: peg where
  "pTags = token ruletags (seqs [action ruleAction1, pTag, star (seqs [matchRune (ru CHR '' ''), pTag])])"

definition pHistogramValue :: peg where
  "pHistogramValue = token rulehistogramValue (seqs [matchRune (ru CHR ''#''), plus pDIGIT, matchRune (ru CHR '' ''), pMetricValue])"

definition pHistogramValues :: peg where
  "pHistogramValues = token rulehistogramValues (seqs [pHistogramValue, star (seqs [matchRune (ru CHR '' ''), pHistogramValue])])"

definition pAggregationInterval :: peg where
  "pAggregationInterval = token ruleaggregationInterval (seqs
     [matchRune (ru CHR ''!''), satisfy (\<lambda>c. c \<in> set (map ru ''DHM'')), action ruleAction0])"

definition pHistogramLine :: peg where
  "pHistogramLine = seqs [pAggregationInterval, optional (seqs [matchRune (ru CHR '' ''), pTimestamp]), matchRune (ru CHR '' ''), pHistogramValues,
     matchRune (ru CHR '' ''), pMetricName, matchRune (ru CHR '' ''), pTags, notAt matchDot]"

definition pPointLine :: peg where
  "pPointLine = seqs [pMetricName, matchRune (ru CHR '' ''), pMetricValue, optional (seqs [matchRune (ru CHR '' ''), pTimestamp]),
     matchRune (ru CHR '' ''), pTags, notAt matchDot]"

definition pMetricGrammar :: peg where
  "pMetricGrammar = token ruleMetricGrammar (orElse pHistogramLine pPointLine)"

section \<open>The actions\<close>

record metric_grammar =
  mgHistogram :: bool
  mgName :: string
  mgValue :: string
  mgTimestamp :: string
  mgTags :: strmap
  mgCurrentTag :: string

definition newGrammar :: metric_grammar where
  "newGrammar = \<lparr> mgHistogram = False, mgName = [], mgValue = [], mgTimestamp = [], mgTags = [], mgCurrentTag = [] \<rparr>"

fun executeToken :: "peg_token \<Rightarrow> string \<times> metric_grammar \<Rightarrow> string \<times> metric_grammar" where
  "executeToken (rulePegText, t) (text, g) = (ofRunes t, g)"
| "executeToken (ruleAction0, t) (text, g) = (text, g \<lparr> mgHistogram := True \<rparr>)"
| "executeToken (ruleAction1, t) (text, g) = (text, g \<lparr> mgTags := [] \<rparr>)"
| "executeToken (ruleAction2, t) (text, g) = (text, g \<lparr> mgCurrentTag := text \<rparr>)"
| "executeToken (ruleAction3, t) (text, g) = (text, g \<lparr> mgTags := gput (mgCurrentTag g) text (mgTags g) \<rparr>)"
| "executeToken (ruleAction4, t) (text, g) = (text, g \<lparr> mgTimestamp := text \<rparr>)"
| "executeToken (ruleAction5, t) (text, g) = (text, g \<lparr> mgValue := text \<rparr>)"
| "executeToken (ruleAction6, t) (text, g) = (text, g \<lparr> mgName := text \<rparr>)"
| "executeToken _ s = s"

definition Execute :: "peg_token list \<Rightarrow> metric_grammar \<Rightarrow> metric_grammar" where
  "Execute ts g = snd (fold executeToken ts ([], g))"

text \<open>\<^verbatim>\<open>Init\<close>, \<^verbatim>\<open>Parse\<close> and \<^verbatim>\<open>Execute\<close> for one line, as \<^verbatim>\<open>ParseMetric\<close> calls them. The text of the error is left out.\<close>

definition Parse :: "string \<Rightarrow> peg_token list go_result" where
  "Parse line = (case pMetricGrammar (toRunes line, []) of None \<Rightarrow> Inl (Errorf ''parse error'') | Some s \<Rightarrow> Inr (snd s))"

definition parseLine :: "string \<Rightarrow> metric_grammar go_result" where
  "parseLine line = (case Parse line of Inl e \<Rightarrow> Inl e | Inr ts \<Rightarrow> Inr (Execute ts newGrammar))"

section \<open>The loops make progress\<close>

definition shrinks :: "peg \<Rightarrow> bool" where
  "shrinks p \<longleftrightarrow> (\<forall>s s'. p s = Some s' \<longrightarrow> length (fst s') \<le> length (fst s))"

definition consumes :: "peg \<Rightarrow> bool" where
  "consumes p \<longleftrightarrow> (\<forall>s s'. p s = Some s' \<longrightarrow> length (fst s') < length (fst s))"

lemma shrinksD: "shrinks p \<Longrightarrow> p s = Some s' \<Longrightarrow> length (fst s') \<le> length (fst s)"
  unfolding shrinks_def by blast

lemma consumesD: "consumes p \<Longrightarrow> p s = Some s' \<Longrightarrow> length (fst s') < length (fst s)"
  unfolding consumes_def by blast

named_theorems progress

lemma consumes_shrinks: "consumes p \<Longrightarrow> shrinks p"
  by (meson consumes_def shrinks_def less_imp_le)

lemma satisfy_consumes [progress]: "consumes (satisfy ok)"
  by (auto simp: consumes_def satisfy_def split: list.splits if_splits)

lemma matchRune_consumes [progress]: "consumes (matchRune c)" "consumes matchDot"
  by (simp_all add: matchRune_def matchDot_def satisfy_consumes)

lemma seqs_shrinks [progress]: "list_all shrinks ps \<Longrightarrow> shrinks (seqs ps)"
proof (induction ps)
  case (Cons p ps)
  show ?case unfolding shrinks_def
  proof (intro allI impI)
    fix s s' assume "seqs (p # ps) s = Some s'"
    then obtain t where "p s = Some t" "seqs ps t = Some s'" by (auto split: option.splits)
    moreover have "shrinks p" "shrinks (seqs ps)" using Cons by simp_all
    ultimately show "length (fst s') \<le> length (fst s)" unfolding shrinks_def by (meson order_trans)
  qed
qed (simp add: shrinks_def)

lemma seqs_consumes [progress]: "consumes p \<Longrightarrow> list_all shrinks ps \<Longrightarrow> consumes (seqs (p # ps))"
  unfolding consumes_def
proof (intro allI impI)
  fix s s' assume p: "\<forall>s s'. p s = Some s' \<longrightarrow> length (fst s') < length (fst s)" and "list_all shrinks ps" "seqs (p # ps) s = Some s'"
  then obtain t where "p s = Some t" "seqs ps t = Some s'" by (auto split: option.splits)
  with p seqs_shrinks [OF \<open>list_all shrinks ps\<close>] show "length (fst s') < length (fst s)"
    unfolding shrinks_def by (meson order.strict_trans1)
qed

lemma seqs_skip_consumes: "shrinks p \<Longrightarrow> consumes (seqs ps) \<Longrightarrow> consumes (seqs (p # ps))"
  by (simp add: consumes_def shrinks_def split: option.split) (meson order.strict_trans2)

lemma orElse_consumes [progress]: "consumes p \<Longrightarrow> consumes q \<Longrightarrow> consumes (orElse p q)"
  by (auto simp: consumes_def orElse_def split: option.splits)

lemma optional_shrinks [progress]: "shrinks p \<Longrightarrow> shrinks (optional p)"
  by (auto simp: shrinks_def optional_def split: option.splits)

lemma notAt_shrinks [progress]: "shrinks (notAt p)"
  by (auto simp: shrinks_def notAt_def split: option.splits)

lemma token_progress [progress]: "consumes p \<Longrightarrow> consumes (token rule p)" "shrinks p \<Longrightarrow> shrinks (token rule p)"
  by (auto simp: consumes_def shrinks_def token_def add_token_def split: option.splits)

lemma action_shrinks [progress]: "shrinks (action rule)"
  by (simp add: shrinks_def action_def add_token_def)

lemma star_shrinks [progress]:
  assumes "shrinks p"
  shows "shrinks (star p)"
proof -
  have "star p s = Some s' \<Longrightarrow> length (fst s') \<le> length (fst s)" for s s'
  proof (induction "length (fst s)" arbitrary: s rule: less_induct)
    case less
    show ?case
    proof (cases "p s")
      case None
      with less.prems show ?thesis by (simp add: star.simps [of p s])
    next
      case (Some t)
      with assms have "length (fst t) \<le> length (fst s)" by (rule shrinksD)
      with Some less show ?thesis by (fastforce simp: star.simps [of p s] split: if_splits)
    qed
  qed
  then show ?thesis by (simp add: shrinks_def)
qed

lemma plus_consumes [progress]: "consumes p \<Longrightarrow> consumes (plus p)"
  unfolding plus_def by (intro seqs_consumes) (simp_all add: consumes_shrinks star_shrinks)

text \<open>The loop without its guard.\<close>

lemma star_loop: "consumes p \<Longrightarrow> star p s = (case p s of None \<Rightarrow> Some s | Some s' \<Rightarrow> star p s')"
  by (subst star.simps) (auto dest: consumesD split: option.split)

lemma char_rules_consume [progress]: "consumes pDIGIT" "consumes pALNUM" "consumes pMetricName_char" "consumes pTagValue_char"
  by (simp_all add: pDIGIT_def pALNUM_def pMetricName_char_def pTagValue_char_def progress consumes_shrinks
      seqs_skip_consumes seqs_consumes)

lemma value_rules_consume [progress]: "consumes pMetricName_text" "consumes pMetricName" "consumes pMetricValue" "consumes pTimestamp"
proof -
  show t: "consumes pMetricName_text"
    unfolding pMetricName_text_def
    by (intro token_progress seqs_skip_consumes optional_shrinks consumes_shrinks matchRune_consumes seqs_consumes plus_consumes char_rules_consume) simp
  show "consumes pMetricName"
    unfolding pMetricName_def by (intro token_progress seqs_consumes orElse_consumes t matchRune_consumes) (simp_all add: progress t consumes_shrinks)
  show "consumes pMetricValue"
    unfolding pMetricValue_def
    by (intro token_progress seqs_consumes seqs_skip_consumes plus_consumes char_rules_consume) (simp_all add: progress consumes_shrinks)
  show "consumes pTimestamp"
    unfolding pTimestamp_def numeral_eq_Suc pred_numeral_simps replicate_Suc append_Cons
    by (intro token_progress seqs_consumes char_rules_consume) (simp_all add: progress consumes_shrinks list_all_iff)
qed

lemma tag_rules_consume [progress]: "consumes pTagName" "consumes pTagValue" "consumes pTag"
proof -
  show n: "consumes pTagName"
    unfolding pTagName_def
    by (intro token_progress seqs_consumes orElse_consumes plus_consumes satisfy_consumes char_rules_consume matchRune_consumes)
      (simp_all add: progress consumes_shrinks)
  show v: "consumes pTagValue"
    unfolding pTagValue_def by (intro token_progress seqs_consumes matchRune_consumes) (simp_all add: progress consumes_shrinks)
  show "consumes pTag"
    unfolding pTag_def by (intro token_progress seqs_consumes n) (simp add: v progress consumes_shrinks)
qed

lemma list_rules_consume [progress]:
  "consumes (seqs [matchRune c, pTag])" "consumes pHistogramValue" "consumes (seqs [matchRune c, pHistogramValue])"
proof -
  show "consumes (seqs [matchRune c, pTag])" by (intro seqs_consumes) (simp_all add: progress consumes_shrinks)
  show h: "consumes pHistogramValue"
    unfolding pHistogramValue_def by (intro token_progress seqs_consumes) (simp_all add: progress consumes_shrinks)
  show "consumes (seqs [matchRune c, pHistogramValue])" by (intro seqs_consumes) (simp_all add: h progress consumes_shrinks)
qed

section \<open>UTF-8 round trip\<close>

definition scalar :: "nat \<Rightarrow> bool" where
  "scalar r \<longleftrightarrow> r \<le> 0x10FFFF \<and> \<not> (0xD800 \<le> r \<and> r \<le> 0xDFFF)"

text \<open>A number by its groups of six bits.\<close>

lemma six_bits:
  fixes r :: nat
  obtains w x y z where "r = 262144 * w + 4096 * x + 64 * y + z" "x < 64" "y < 64" "z < 64"
    "r div 262144 = w" "r div 4096 = 64 * w + x" "r div 64 = 4096 * w + 64 * x + y"
    "(r div 4096) mod 64 = x" "(r div 64) mod 64 = y" "r mod 64 = z"
proof -
  define q1 q2 where "q1 = r div 64" and "q2 = q1 div 64"
  have q2: "r div 4096 = q2" and q3: "r div 262144 = q2 div 64"
    by (simp_all add: q1_def q2_def flip: div_mult2_eq)
  have f: "r = 64 * q1 + r mod 64" "q1 = 64 * q2 + q1 mod 64" "q2 = 64 * (q2 div 64) + q2 mod 64"
    by (simp_all add: q1_def q2_def)
  have "q1 = 4096 * (q2 div 64) + 64 * (q2 mod 64) + q1 mod 64" using f(2,3) by linarith
  moreover from this have "r = 262144 * (q2 div 64) + 4096 * (q2 mod 64) + 64 * (q1 mod 64) + r mod 64" using f(1) by linarith
  ultimately show ?thesis
    using f(3) by (intro that [of "q2 div 64" "q2 mod 64" "q1 mod 64" "r mod 64"]) (simp_all only: q2 q3 flip: q1_def, simp_all)
qed

lemma decodeRune_encodeRune:
  assumes "scalar r"
  shows "\<exists>a bs. encodeRune r = a # bs \<and> decodeRune a (bs @ s) = (r, length bs + 1)"
proof -
  obtain w x y z where b: "r = 262144 * w + 4096 * x + 64 * y + z" "x < 64" "y < 64" "z < 64"
    "r div 262144 = w" "r div 4096 = 64 * w + x" "r div 64 = 4096 * w + 64 * x + y"
    "(r div 4096) mod 64 = x" "(r div 64) mod 64 = y" "r mod 64 = z"
    by (rule six_bits)
  consider "r < 0x80" | "0x80 \<le> r" "r < 0x800" | "0x800 \<le> r" "r < 0x10000" | "0x10000 \<le> r" by linarith
  then show ?thesis
  proof cases
    case 1
    then show ?thesis by (simp add: encodeRune_def decodeRune_def)
  next
    case 2
    with b have "w = 0" "x = 0" "y < 32" by linarith+
    with 2 b show ?thesis by (simp add: encodeRune_def decodeRune_def isCont_def Let_def)
  next
    case 3
    with b have "w = 0" by linarith
    with 3 b assms show ?thesis by (auto simp: encodeRune_def decodeRune_def isCont_def Let_def scalar_def)
  next
    case 4
    with b assms show ?thesis by (auto simp: encodeRune_def decodeRune_def isCont_def Let_def scalar_def)
  qed
qed

lemma decodeRunes_encode: "list_all scalar rs \<Longrightarrow> decodeRunes (concat (map encodeRune rs)) = rs"
proof (induction rs)
  case (Cons r rs)
  obtain a bs where "encodeRune r = a # bs" "decodeRune a (bs @ concat (map encodeRune rs)) = (r, length bs + 1)"
    using decodeRune_encodeRune [of r "concat (map encodeRune rs)"] Cons.prems by auto
  with Cons show ?case by simp
qed simp

lemma encodeRune_bytes: "b \<in> set (encodeRune r) \<Longrightarrow> b < 256"
  by (auto simp: encodeRune_def split: if_splits)

theorem toRunes_ofRunes:
  assumes "list_all scalar rs"
  shows "toRunes (ofRunes rs) = rs"
proof -
  have "map (\<lambda>b. of_char (char_of b :: char)) bs = bs" if "\<And>b. b \<in> set bs \<Longrightarrow> b < 256" for bs :: "nat list"
    using that by (induction bs) (simp_all add: of_char_of)
  from this [of "concat (map encodeRune rs)"] have "map of_char (ofRunes rs) = concat (map encodeRune rs)"
    using encodeRune_bytes by (auto simp: ofRunes_def comp_def)
  with decodeRunes_encode [OF assms] show ?thesis by (simp add: toRunes_def)
qed

section \<open>What a rule reads\<close>

text \<open>Rule \<open>p\<close> reads \<open>x\<close> before \<open>rest\<close>, and its tokens have the effect \<open>f\<close> when they are executed; or it fails there.\<close>

definition reads :: "peg \<Rightarrow> nat list \<Rightarrow> nat list \<Rightarrow> (string \<times> metric_grammar \<Rightarrow> string \<times> metric_grammar) \<Rightarrow> bool" where
  "reads p x rest f \<longleftrightarrow> (\<forall>ts. \<exists>new. p (x @ rest, ts) = Some (rest, ts @ new) \<and> fold executeToken new = f)"

definition fails :: "peg \<Rightarrow> nat list \<Rightarrow> bool" where
  "fails p rest \<longleftrightarrow> (\<forall>ts. p (rest, ts) = None)"

lemma quiet_tokens [simp]:
  "executeToken (ruleDIGIT, x) = id" "executeToken (ruleALNUM, x) = id" "executeToken (rulemetricName, x) = id"
  "executeToken (rulemetricValue, x) = id" "executeToken (ruletimestamp, x) = id" "executeToken (ruletagName, x) = id"
  "executeToken (ruletagValue, x) = id" "executeToken (ruletag, x) = id" "executeToken (ruletags, x) = id"
  "executeToken (ruleMetricGrammar, x) = id"
  by (simp_all add: fun_eq_iff)

lemma reads_seqs_Nil: "reads (seqs []) [] rest id"
  by (simp add: reads_def fun_eq_iff)

lemma reads_seqs:
  assumes "reads p x (y @ rest) f" "reads (seqs ps) y rest g"
  shows "reads (seqs (p # ps)) (x @ y) rest (g \<circ> f)"
  unfolding reads_def
proof
  fix ts
  obtain n where n: "p (x @ y @ rest, ts) = Some (y @ rest, ts @ n)" "fold executeToken n = f" using assms(1) unfolding reads_def by blast
  obtain m where "seqs ps (y @ rest, ts @ n) = Some (rest, (ts @ n) @ m)" "fold executeToken m = g" using assms(2) unfolding reads_def by blast
  with n show "\<exists>new. seqs (p # ps) ((x @ y) @ rest, ts) = Some (rest, ts @ new) \<and> fold executeToken new = g \<circ> f"
    by (intro exI [of _ "n @ m"]) simp
qed

lemma reads_token:
  assumes "reads p x rest f"
  shows "reads (token rule p) x rest (executeToken (rule, x) \<circ> f)"
  unfolding reads_def
proof
  fix ts
  obtain n where "p (x @ rest, ts) = Some (rest, ts @ n)" "fold executeToken n = f" using assms unfolding reads_def by blast
  then show "\<exists>new. token rule p (x @ rest, ts) = Some (rest, ts @ new) \<and> fold executeToken new = executeToken (rule, x) \<circ> f"
    by (intro exI [of _ "n @ [(rule, x)]"]) (simp add: token_def add_token_def)
qed

lemma reads_action: "reads (action rule) [] rest (executeToken (rule, []))"
  by (simp add: reads_def action_def add_token_def)

lemma reads_satisfy: "ok c \<Longrightarrow> reads (satisfy ok) [c] rest id"
  by (simp add: reads_def satisfy_def id_def)

lemma reads_matchRune: "reads (matchRune c) [c] rest id" "reads matchDot [c] rest id"
  by (simp_all add: matchRune_def matchDot_def reads_satisfy)

lemma reads_same:
  "reads q x rest f \<Longrightarrow> (\<And>ts s. q (x @ rest, ts) = Some s \<Longrightarrow> p (x @ rest, ts) = Some s) \<Longrightarrow> reads p x rest f"
  unfolding reads_def by meson

lemma reads_orElse: "reads p x rest f \<Longrightarrow> reads (orElse p q) x rest f"
  by (erule reads_same) (simp add: orElse_def)

lemma reads_orElse2: "fails p (x @ rest) \<Longrightarrow> reads q x rest f \<Longrightarrow> reads (orElse p q) x rest f"
  by (erule reads_same) (simp add: orElse_def fails_def)

lemma reads_optional: "reads p x rest f \<Longrightarrow> reads (optional p) x rest f"
  by (erule reads_same) (simp add: optional_def)

lemma reads_skip: "fails p rest \<Longrightarrow> reads (optional p) [] rest id"
  by (simp add: reads_def fails_def optional_def fun_eq_iff)

lemma reads_notAt: "fails p rest \<Longrightarrow> reads (notAt p) [] rest id"
  unfolding reads_def fails_def notAt_def by (auto simp: fun_eq_iff)

lemma reads_star_Nil: "fails p rest \<Longrightarrow> reads (star p) [] rest id"
  unfolding reads_def fails_def by (auto simp: star.simps fun_eq_iff)

lemma reads_star_Cons:
  assumes "consumes p" "reads p x (y @ rest) f" "reads (star p) y rest g"
  shows "reads (star p) (x @ y) rest (g \<circ> f)"
  unfolding reads_def
proof
  fix ts
  obtain n where n: "p (x @ y @ rest, ts) = Some (y @ rest, ts @ n)" "fold executeToken n = f" using assms(2) unfolding reads_def by blast
  obtain m where "star p (y @ rest, ts @ n) = Some (rest, (ts @ n) @ m)" "fold executeToken m = g" using assms(3) unfolding reads_def by blast
  with n show "\<exists>new. star p ((x @ y) @ rest, ts) = Some (rest, ts @ new) \<and> fold executeToken new = g \<circ> f"
    by (intro exI [of _ "n @ m"]) (simp add: star_loop [OF assms(1)])
qed

lemma reads_plus: "reads p x (y @ rest) f \<Longrightarrow> reads (star p) y rest g \<Longrightarrow> reads (plus p) (x @ y) rest (g \<circ> f)"
  unfolding plus_def using reads_seqs [of p x y rest f "[star p]" g] reads_seqs [of "star p" y "[]" rest g "[]" id] reads_seqs_Nil by simp

text \<open>A run of characters that a rule reads one by one.\<close>

lemma reads_chars:
  assumes "consumes p" "fails p rest" "\<And>c rest. c \<in> set cs \<Longrightarrow> reads p [c] rest id"
  shows "reads (star p) cs rest id" "cs \<noteq> [] \<Longrightarrow> reads (plus p) cs rest id"
proof -
  have star: "reads (star p) ds rest id" if "set ds \<subseteq> set cs" for ds
    using that
  proof (induction ds)
    case (Cons d ds)
    from Cons.prems have d: "d \<in> set cs" and ds: "set ds \<subseteq> set cs" by simp_all
    have "reads (star p) ([d] @ ds) rest (id \<circ> id)"
      by (rule reads_star_Cons [OF assms(1) assms(3) [OF d] Cons.IH [OF ds]])
    then show ?case by (simp only: append.simps o_id)
  qed (rule reads_star_Nil [OF assms(2)])
  from star show "reads (star p) cs rest id" by blast
  assume "cs \<noteq> []"
  then obtain c cs' where cs: "cs = [c] @ cs'" by (cases cs) auto
  have "reads (plus p) ([c] @ cs') rest (id \<circ> id)"
    by (rule reads_plus [OF assms(3) star]) (use cs in auto)
  then show "reads (plus p) cs rest id" by (simp only: cs o_id)
qed

lemma reads_cong: "reads p x rest f \<Longrightarrow> x = y \<Longrightarrow> f = g \<Longrightarrow> reads p y rest g"
  by simp

lemma reads_one: "reads p x rest f \<Longrightarrow> reads (seqs [p]) x rest f"
  using reads_seqs [of p x "[]" rest f "[]" id] reads_seqs_Nil by (simp only: append_Nil append_Nil2 id_comp)

lemma reads_append:
  assumes "reads (seqs ps) x (y @ rest) f" "reads (seqs qs) y rest g"
  shows "reads (seqs (ps @ qs)) (x @ y) rest (g \<circ> f)"
proof -
  have "seqs (ps @ qs) s = (case seqs ps s of None \<Rightarrow> None | Some s' \<Rightarrow> seqs qs s')" for s
    by (induction ps arbitrary: s) (simp_all split: option.split)
  then have "seqs (ps @ qs) = seqs [seqs ps, seqs qs]" by (simp add: fun_eq_iff split: option.split)
  with reads_seqs [OF assms(1) reads_one [OF assms(2)]] show ?thesis by (simp only:)
qed

lemma fails_satisfy: "rest = [] \<or> \<not> ok (hd rest) \<Longrightarrow> fails (satisfy ok) rest"
  by (cases rest) (simp_all add: fails_def satisfy_def)

lemma fails_matchRune: "rest = [] \<or> hd rest \<noteq> c \<Longrightarrow> fails (matchRune c) rest" "fails matchDot []"
  by (simp_all add: matchRune_def matchDot_def fails_satisfy)

lemma fails_token: "fails p rest \<Longrightarrow> fails (token rule p) rest"
  by (simp add: fails_def token_def)

lemma fails_seqs: "fails p rest \<Longrightarrow> fails (seqs (p # ps)) rest"
  by (simp add: fails_def)

lemma fails_seqs2: "reads p x rest f \<Longrightarrow> fails (seqs ps) rest \<Longrightarrow> fails (seqs (p # ps)) (x @ rest)"
  unfolding fails_def reads_def seqs.simps by (metis option.simps(5))

lemma fails_orElse: "fails p rest \<Longrightarrow> fails q rest \<Longrightarrow> fails (orElse p q) rest"
  by (simp add: fails_def orElse_def)

section \<open>What the rules read\<close>

definition isNameRune :: "nat \<Rightarrow> bool" where
  "isNameRune c = (isAlnumRune c \<or> c \<in> set (map ru '',/._-~''))"

definition isName :: "nat list \<Rightarrow> bool" where
  "isName n = (let m = (if n \<noteq> [] \<and> hd n = deltaRune then tl n else n);
                   k = (if m \<noteq> [] \<and> hd m = ru CHR ''~'' then tl m else m) in
               k \<noteq> [] \<and> list_all isNameRune k)"

definition isValue :: "nat list \<Rightarrow> bool" where
  "isValue v \<longleftrightarrow> (\<exists>sign ds frac. v = sign @ ds @ frac \<and> (sign = [] \<or> sign = [ru CHR ''-'']) \<and> ds \<noteq> [] \<and> list_all isDigitRune ds \<and>
     (frac = [] \<or> (\<exists>es. frac = ru CHR ''.'' # es \<and> es \<noteq> [] \<and> list_all isDigitRune es)))"

definition isTimestamp :: "nat list \<Rightarrow> bool" where
  "isTimestamp t \<longleftrightarrow> list_all isDigitRune t \<and> (length t = 10 \<or> length t = 13 \<or> length t = 16)"

definition isTagName :: "bool \<Rightarrow> nat list \<Rightarrow> bool" where
  "isTagName q k = (k \<noteq> [] \<and> list_all (\<lambda>c. isAlnumRune c \<or> c \<in> set (map ru (if q then ''._-/'' else ''._-''))) k)"

definition isTagValue :: "nat list \<Rightarrow> bool" where
  "isTagValue v = (v \<noteq> [] \<and> ru CHR 0x22 \<notin> set v \<and> last v \<noteq> ru CHR 0x5C)"

definition quoted :: "bool \<Rightarrow> nat list \<Rightarrow> nat list" where
  "quoted q x = (if q then [ru CHR 0x22] @ x @ [ru CHR 0x22] else x)"

lemma digit_rule:
  "isDigitRune d \<Longrightarrow> reads pDIGIT [d] rest id"
  "rest = [] \<or> \<not> isDigitRune (hd rest) \<Longrightarrow> fails pDIGIT rest"
  using reads_token [OF reads_satisfy [of isDigitRune d rest], of ruleDIGIT]
  by (simp_all only: pDIGIT_def quiet_tokens id_comp fails_token fails_satisfy)

lemma alnum_or:
  assumes "isAlnumRune c \<or> ok c"
  shows "reads (orElse pALNUM (satisfy ok)) [c] rest id"
proof (cases "isAlnumRune c")
  case True
  with reads_token [OF reads_satisfy [of isAlnumRune c rest], of ruleALNUM] show ?thesis
    by (simp only: pALNUM_def quiet_tokens id_comp reads_orElse)
next
  case False
  with assms have "ok c" by simp
  moreover from False have "fails pALNUM ([c] @ rest)" unfolding pALNUM_def by (intro fails_token fails_satisfy) simp
  ultimately show ?thesis by (intro reads_orElse2 reads_satisfy)
qed

lemma alnum_or_fails: "rest = [] \<or> \<not> (isAlnumRune (hd rest) \<or> ok (hd rest)) \<Longrightarrow> fails (orElse pALNUM (satisfy ok)) rest"
  unfolding pALNUM_def by (intro fails_orElse fails_token fails_satisfy) auto

lemma alnum_run:
  assumes "x \<noteq> []" "list_all (\<lambda>c. isAlnumRune c \<or> ok c) x" "rest = [] \<or> \<not> (isAlnumRune (hd rest) \<or> ok (hd rest))"
  shows "reads (plus (orElse pALNUM (satisfy ok))) x rest id"
  using assms by (intro reads_chars alnum_or alnum_or_fails orElse_consumes char_rules_consume satisfy_consumes) (auto simp: list_all_iff)

lemma digit_run:
  "list_all isDigitRune ds \<Longrightarrow> ds \<noteq> [] \<Longrightarrow> rest = [] \<or> \<not> isDigitRune (hd rest) \<Longrightarrow> reads (plus pDIGIT) ds rest id"
  by (intro reads_chars digit_rule char_rules_consume) (auto simp: list_all_iff)

lemma optional_rune:
  "reads (optional (matchRune c)) (if x \<noteq> [] \<and> hd x = c then [c] else []) ((if x \<noteq> [] \<and> hd x = c then tl x else x) @ rest) id"
  if "x \<noteq> [] \<or> rest = [] \<or> hd rest \<noteq> c"
  using that reads_optional [OF reads_matchRune(1)] reads_skip [OF fails_matchRune(1)] by (cases x) auto

lemma name_text:
  assumes "isName n" "rest = [] \<or> \<not> isNameRune (hd rest)"
  shows "reads pMetricName_text n rest (executeToken (rulePegText, n))"
proof -
  define m where "m = (if n \<noteq> [] \<and> hd n = deltaRune then tl n else n)"
  define k where "k = (if m \<noteq> [] \<and> hd m = ru CHR ''~'' then tl m else m)"
  define a where "a = (if n \<noteq> [] \<and> hd n = deltaRune then [deltaRune] else [])"
  define b where "b = (if m \<noteq> [] \<and> hd m = ru CHR ''~'' then [ru CHR ''~''] else [])"
  from assms(1) have k: "k \<noteq> []" "list_all isNameRune k" by (simp_all only: isName_def Let_def k_def m_def not_False_eq_True)
  have "n = a @ m" by (cases n) (simp_all add: a_def m_def)
  moreover have "m = b @ k" by (cases m) (simp_all add: b_def k_def)
  ultimately have n: "n = a @ m" "m = b @ k" .
  have "m \<noteq> []" "n \<noteq> []" using k(1) n by auto
  have a: "reads (optional (matchRune deltaRune)) a (m @ rest) id"
    unfolding a_def m_def by (rule optional_rune) (simp add: \<open>n \<noteq> []\<close>)
  have b: "reads (optional (matchRune (ru CHR ''~''))) b (k @ rest) id"
    unfolding b_def k_def by (rule optional_rune) (simp add: \<open>m \<noteq> []\<close>)
  have c: "reads (plus pMetricName_char) k rest id"
    unfolding pMetricName_char_def by (rule alnum_run) (use k assms(2) in \<open>auto simp: isNameRune_def list_all_iff\<close>)
  have bk: "b @ k = m" "a @ m = n" using n by simp_all
  from reads_seqs [OF b reads_one [OF c]] have "reads (seqs [optional (matchRune (ru CHR ''~'')), plus pMetricName_char]) m rest (id \<circ> id)"
    by (simp only: bk)
  from reads_token [OF reads_seqs [OF a this], of rulePegText] show ?thesis
    unfolding pMetricName_text_def by (simp only: bk o_id comp_id)
qed

definition nameEffect :: "nat list \<Rightarrow> string \<times> metric_grammar \<Rightarrow> string \<times> metric_grammar" where
  "nameEffect n = (\<lambda>(text, g). (ofRunes n, g \<lparr> mgName := ofRunes n \<rparr>))"

text \<open>A text rule in quotes or bare, as the names of metrics and tags are; a bare text does not start with a quote.\<close>

lemma reads_quoted:
  assumes "q \<Longrightarrow> reads p x ([ru CHR 0x22] @ rest) f" "\<not> q \<Longrightarrow> reads p' x rest f" "x \<noteq> []" "hd x \<noteq> ru CHR 0x22"
  shows "reads (orElse (seqs [matchRune (ru CHR 0x22), p, matchRune (ru CHR 0x22)]) p') (quoted q x) rest f"
proof (cases q)
  case True
  have "reads (seqs [matchRune (ru CHR 0x22), p, matchRune (ru CHR 0x22)]) ([ru CHR 0x22] @ x @ [ru CHR 0x22]) rest (id \<circ> f \<circ> id)"
    by (intro reads_seqs reads_one reads_matchRune) (use assms(1) True in simp)
  then show ?thesis using True by (intro reads_orElse) (simp add: quoted_def)
next
  case False
  then have "fails (seqs [matchRune (ru CHR 0x22), p, matchRune (ru CHR 0x22)]) (x @ rest)"
    using assms(3,4) by (intro fails_seqs fails_matchRune) simp
  with assms(2) [OF False] False show ?thesis by (simp add: quoted_def reads_orElse2)
qed

lemma isName_hd: "isName n \<Longrightarrow> n \<noteq> [] \<and> hd n \<noteq> ru CHR 0x22 \<and> hd n \<noteq> ru CHR ''!''"
  by (cases n) (auto simp: isName_def isNameRune_def isAlnumRune_def isDigitRune_def deltaRune_def split: if_splits)

lemma name_rule:
  assumes "isName n" "rest \<noteq> []" "hd rest = ru CHR '' ''"
  shows "reads pMetricName (quoted q n) rest (nameEffect n)"
proof -
  have "reads (orElse (seqs [matchRune (ru CHR 0x22), pMetricName_text, matchRune (ru CHR 0x22)]) pMetricName_text) (quoted q n) rest (executeToken (rulePegText, n))"
    using isName_hd [OF assms(1)]
    by (intro reads_quoted name_text assms(1)) (use assms in \<open>auto simp: isNameRune_def isAlnumRune_def isDigitRune_def\<close>)
  moreover have "reads (seqs [action ruleAction6]) [] rest (executeToken (ruleAction6, []))" by (intro reads_one reads_action)
  ultimately have "reads (token rulemetricName (seqs [orElse (seqs [matchRune (ru CHR 0x22), pMetricName_text, matchRune (ru CHR 0x22)]) pMetricName_text, action ruleAction6]))
      (quoted q n @ []) rest (executeToken (rulemetricName, quoted q n @ []) \<circ> (executeToken (ruleAction6, []) \<circ> executeToken (rulePegText, n)))"
    by (intro reads_token reads_seqs) simp_all
  then show ?thesis unfolding pMetricName_def by (rule reads_cong) (auto simp: nameEffect_def fun_eq_iff)
qed

text \<open>A rule that takes its text and then runs one action.\<close>

lemma reads_text_action:
  assumes "reads p x rest id"
  shows "reads (seqs [token rulePegText p, action rule]) x rest (executeToken (rule, []) \<circ> executeToken (rulePegText, x))"
proof -
  have "reads (seqs [token rulePegText p, action rule]) (x @ []) rest (executeToken (rule, []) \<circ> (executeToken (rulePegText, x) \<circ> id))"
    by (intro reads_seqs reads_one reads_action reads_token) (use assms in \<open>simp only: append_Nil\<close>)
  then show ?thesis by (simp only: append_Nil2 comp_id)
qed

definition valueEffect :: "nat list \<Rightarrow> string \<times> metric_grammar \<Rightarrow> string \<times> metric_grammar" where
  "valueEffect v = (\<lambda>(text, g). (ofRunes v, g \<lparr> mgValue := ofRunes v \<rparr>))"

lemma value_text:
  assumes "isValue v" "rest \<noteq> []" "hd rest = ru CHR '' ''"
  shows "reads (seqs [optional (matchRune (ru CHR ''-'')), plus pDIGIT, optional (seqs [matchRune (ru CHR ''.''), plus pDIGIT])]) v rest id"
proof -
  from assms(1) obtain sign ds frac where v: "v = sign @ ds @ frac" "sign = [] \<or> sign = [ru CHR ''-'']" "ds \<noteq> []" "list_all isDigitRune ds"
    "frac = [] \<or> (\<exists>es. frac = ru CHR ''.'' # es \<and> es \<noteq> [] \<and> list_all isDigitRune es)"
    unfolding isValue_def by blast
  have space: "\<not> isDigitRune (hd rest)" using assms(3) by (simp add: isDigitRune_def)
  have "isDigitRune (hd ds)" using v(3,4) by (cases ds) simp_all
  then have "hd (ds @ frac @ rest) \<noteq> ru CHR ''-''" using v(3) by (cases ds) (auto simp: isDigitRune_def)
  then have s: "reads (optional (matchRune (ru CHR ''-''))) sign ((ds @ frac) @ rest) id"
    using v(2) reads_optional [OF reads_matchRune(1)] reads_skip [OF fails_matchRune(1)] by auto
  have "\<not> isDigitRune (hd (frac @ rest)) \<and> frac @ rest \<noteq> []" using v(5) space assms(2) by (auto simp: isDigitRune_def)
  then have d: "reads (plus pDIGIT) ds (frac @ rest) id" using v(3,4) by (intro digit_run) simp_all
  have f: "reads (optional (seqs [matchRune (ru CHR ''.''), plus pDIGIT])) frac rest id"
  proof (cases "frac = []")
    case True
    have "fails (seqs [matchRune (ru CHR ''.''), plus pDIGIT]) rest" by (intro fails_seqs fails_matchRune) (simp add: assms(3))
    then show ?thesis unfolding True by (rule reads_skip)
  next
    case False
    with v(5) obtain es where es: "frac = [ru CHR ''.''] @ es" "es \<noteq> []" "list_all isDigitRune es" by auto
    have "reads (seqs [matchRune (ru CHR ''.''), plus pDIGIT]) ([ru CHR ''.''] @ es) rest (id \<circ> id)"
      by (intro reads_seqs reads_one reads_matchRune digit_run es) (simp add: space)
    then show ?thesis unfolding es(1) by (intro reads_optional) (simp only: o_id)
  qed
  have "reads (seqs [optional (matchRune (ru CHR ''-'')), plus pDIGIT, optional (seqs [matchRune (ru CHR ''.''), plus pDIGIT])]) (sign @ ds @ frac) rest (id \<circ> id \<circ> id)"
    by (intro reads_seqs reads_one s d f)
  then show ?thesis by (simp only: v(1) o_id)
qed

lemma value_rule:
  assumes "isValue v" "rest \<noteq> []" "hd rest = ru CHR '' ''"
  shows "reads pMetricValue v rest (valueEffect v)"
  using reads_token [OF reads_text_action [OF value_text [OF assms], of ruleAction5], of rulemetricValue]
  unfolding pMetricValue_def by (rule reads_cong) (auto simp: valueEffect_def fun_eq_iff)

definition timestampEffect :: "nat list \<Rightarrow> string \<times> metric_grammar \<Rightarrow> string \<times> metric_grammar" where
  "timestampEffect t = (\<lambda>(text, g). (ofRunes t, g \<lparr> mgTimestamp := ofRunes t \<rparr>))"

lemma digits_fixed: "list_all isDigitRune ds \<Longrightarrow> reads (seqs (replicate (length ds) pDIGIT)) ds rest id"
proof (induction ds)
  case (Cons d ds)
  then have d: "isDigitRune d" and ds: "list_all isDigitRune ds" by simp_all
  have "reads (seqs (pDIGIT # replicate (length ds) pDIGIT)) ([d] @ ds) rest (id \<circ> id)"
    by (rule reads_seqs [OF digit_rule(1) [OF d] Cons.IH [OF ds]])
  then show ?case by (simp only: append.simps o_id list.size replicate_Suc add_Suc_right add_0_right)
qed (simp only: list.size replicate_0 reads_seqs_Nil)

lemma digits_optional:
  assumes "list_all isDigitRune ds" "ds = [] \<or> length ds = 3" "ds = [] \<Longrightarrow> rest = [] \<or> \<not> isDigitRune (hd rest)"
  shows "reads (optional (seqs [pDIGIT, pDIGIT, pDIGIT])) ds rest id"
proof (cases "ds = []")
  case True
  with assms(3) show ?thesis by (simp only: reads_skip fails_seqs digit_rule)
next
  case False
  with assms digits_fixed [of ds rest] show ?thesis by (intro reads_optional) (simp add: numeral_eq_Suc del: seqs.simps)
qed

lemma timestamp_rule:
  assumes "isTimestamp t" "rest \<noteq> []" "hd rest = ru CHR '' ''"
  shows "reads pTimestamp t rest (timestampEffect t)"
proof -
  define a b c where "a = take 10 t" and "b = take 3 (drop 10 t)" and "c = drop 13 t"
  have "take 3 (drop 10 t) @ drop 13 t = drop 10 t" using append_take_drop_id [of 3 "drop 10 t"] by simp
  then have t: "t = a @ b @ c" by (simp add: a_def b_def c_def)
  from assms(1) have ds: "list_all isDigitRune a" "list_all isDigitRune b" "list_all isDigitRune c"
    by (auto simp: t isTimestamp_def)
  have len: "length a = 10" "b = [] \<or> length b = 3" "c = [] \<or> length c = 3" "b = [] \<Longrightarrow> c = []"
    using assms(1) by (auto simp: a_def b_def c_def isTimestamp_def)
  have space: "\<not> isDigitRune (hd rest)" using assms(3) by (simp add: isDigitRune_def)
  have 2: "reads (optional (seqs [pDIGIT, pDIGIT, pDIGIT])) b (c @ rest) id"
    by (rule digits_optional) (use ds len space in auto)
  have 3: "reads (optional (seqs [pDIGIT, pDIGIT, pDIGIT])) c rest id"
    by (rule digits_optional) (use ds len space in auto)
  from digits_fixed [OF ds(1), of "(b @ c) @ rest"] have 1: "reads (seqs (replicate 10 pDIGIT)) a ((b @ c) @ rest) id"
    by (simp only: len)
  have "reads (seqs (replicate 10 pDIGIT @ [optional (seqs [pDIGIT, pDIGIT, pDIGIT]), optional (seqs [pDIGIT, pDIGIT, pDIGIT])]))
      (a @ b @ c) rest (id \<circ> id \<circ> id)"
    by (rule reads_append [OF 1 reads_seqs [OF 2 reads_one [OF 3]]])
  then have "reads (seqs (replicate 10 pDIGIT @ [optional (seqs [pDIGIT, pDIGIT, pDIGIT]), optional (seqs [pDIGIT, pDIGIT, pDIGIT])])) t rest id"
    by (simp only: o_id flip: t)
  from reads_token [OF reads_text_action [OF this, of ruleAction4], of ruletimestamp] show ?thesis
    unfolding pTimestamp_def by (rule reads_cong) (auto simp: timestampEffect_def fun_eq_iff)
qed

lemma timestamp_fails: "\<not> isDigitRune (hd rest) \<Longrightarrow> fails pTimestamp rest"
  unfolding pTimestamp_def numeral_eq_Suc pred_numeral_simps replicate_Suc append_Cons by (intro fails_token fails_seqs digit_rule) simp

lemma tag_value_char:
  assumes "c \<noteq> ru CHR 0x22" "c \<noteq> ru CHR 0x5C \<or> rest = [] \<or> hd rest \<noteq> ru CHR 0x22"
  shows "reads pTagValue_char [c] rest id"
proof -
  have "fails (seqs [matchRune (ru CHR 0x5C), matchRune (ru CHR 0x22)]) ([c] @ rest)"
  proof (cases "c = ru CHR 0x5C")
    case True
    have "fails (seqs [matchRune (ru CHR 0x22)]) rest" by (intro fails_seqs fails_matchRune) (use True assms(2) in simp)
    then show ?thesis unfolding True by (rule fails_seqs2 [OF reads_matchRune(1)])
  next
    case False
    then show ?thesis by (intro fails_seqs fails_matchRune) simp
  qed
  moreover have "reads (seqs [notAt (matchRune (ru CHR 0x22)), matchDot]) ([] @ [c]) rest (id \<circ> id)"
    by (intro reads_seqs reads_notAt reads_one reads_matchRune fails_matchRune) (use assms(1) in simp)
  ultimately show ?thesis unfolding pTagValue_char_def by (intro reads_orElse2) (simp_all only: append.simps o_id)
qed

lemma tag_value_stop: "fails pTagValue_char (ru CHR 0x22 # rest)"
proof -
  have "fails (seqs [matchRune (ru CHR 0x5C), matchRune (ru CHR 0x22)]) (ru CHR 0x22 # rest)"
    by (intro fails_seqs fails_matchRune) simp
  moreover have "fails (seqs [notAt (matchRune (ru CHR 0x22)), matchDot]) (ru CHR 0x22 # rest)"
    by (intro fails_seqs) (simp add: fails_def notAt_def matchRune_def satisfy_def)
  ultimately show ?thesis unfolding pTagValue_char_def by (rule fails_orElse)
qed

lemma tag_value_run: "isTagValue v \<Longrightarrow> reads (star pTagValue_char) v (ru CHR 0x22 # rest) id \<and> reads (plus pTagValue_char) v (ru CHR 0x22 # rest) id"
proof (induction v)
  case (Cons c v)
  have first: "reads pTagValue_char [c] (v @ ru CHR 0x22 # rest) id"
    by (rule tag_value_char) (use Cons.prems in \<open>cases v; auto simp: isTagValue_def\<close>)+
  have star: "reads (star pTagValue_char) v (ru CHR 0x22 # rest) id"
  proof (cases "v = []")
    case True
    then show ?thesis by (simp only: reads_star_Nil tag_value_stop)
  next
    case False
    with Cons.prems have "isTagValue v" by (simp add: isTagValue_def)
    from Cons.IH [OF this] show ?thesis by blast
  qed
  from reads_star_Cons [OF char_rules_consume(4) first star] reads_plus [OF first star] show ?case
    by (simp only: append.simps o_id)
qed (simp add: isTagValue_def)

definition tagEffect :: "nat list \<Rightarrow> nat list \<Rightarrow> string \<times> metric_grammar \<Rightarrow> string \<times> metric_grammar" where
  "tagEffect k v = (\<lambda>(text, g). (ofRunes v, g \<lparr> mgCurrentTag := ofRunes k, mgTags := gput (ofRunes k) (ofRunes v) (mgTags g) \<rparr>))"

definition printTag :: "bool \<times> nat list \<times> nat list \<Rightarrow> nat list" where
  "printTag = (\<lambda>(q, k, v). quoted q k @ [ru CHR ''=''] @ quoted True v)"

definition isTag :: "bool \<times> nat list \<times> nat list \<Rightarrow> bool" where
  "isTag = (\<lambda>(q, k, v). isTagName q k \<and> isTagValue v)"

lemma tag_name_rule:
  assumes "isTagName q k" "rest \<noteq> []" "hd rest = ru CHR ''=''"
  shows "reads pTagName (quoted q k) rest (executeToken (ruleAction2, []) \<circ> executeToken (rulePegText, k))"
proof -
  have hd: "k \<noteq> []" "hd k \<noteq> ru CHR 0x22"
    using assms(1) by (cases k; auto simp: isTagName_def isAlnumRune_def isDigitRune_def split: if_splits)+
  have run: "reads (token rulePegText (plus (orElse pALNUM (satisfy (\<lambda>c. c \<in> set (map ru cs)))))) k r (executeToken (rulePegText, k))"
    if "isTagName q k" "cs = (if q then ''._-/'' else ''._-'')" "r \<noteq> []" "hd r = ru CHR ''='' \<or> hd r = ru CHR 0x22" for cs r
    using reads_token [OF alnum_run [of k "\<lambda>c. c \<in> set (map ru cs)" r], of rulePegText] that hd(1)
    by (auto simp: isTagName_def isAlnumRune_def isDigitRune_def simp del: list.map)
  have "reads (orElse
        (seqs [matchRune (ru CHR 0x22), token rulePegText (plus (orElse pALNUM (satisfy (\<lambda>c. c \<in> set (map ru ''._-/''))))), matchRune (ru CHR 0x22)])
        (token rulePegText (plus (orElse pALNUM (satisfy (\<lambda>c. c \<in> set (map ru ''._-''))))))) (quoted q k) rest (executeToken (rulePegText, k))"
    by (rule reads_quoted [OF run run hd]) (use assms in simp_all)
  from reads_token [OF reads_seqs [where y = "[]" and rest = rest, OF _ reads_one [OF reads_action]], of _ "quoted q k" _ ruletagName ruleAction2]
    this show ?thesis
    unfolding pTagName_def by (simp only: append_Nil append_Nil2 quiet_tokens id_comp)
qed

lemma tag_value_rule:
  assumes "isTagValue v"
  shows "reads pTagValue (quoted True v) rest (executeToken (ruleAction3, []) \<circ> executeToken (rulePegText, v))"
proof -
  have t: "reads (token rulePegText (plus pTagValue_char)) v ([ru CHR 0x22] @ rest) (executeToken (rulePegText, v) \<circ> id)"
    by (rule reads_token) (use tag_value_run [OF assms, of rest] in \<open>simp only: append.simps\<close>)
  have "reads (seqs [matchRune (ru CHR 0x22), token rulePegText (plus pTagValue_char), matchRune (ru CHR 0x22), action ruleAction3])
      ([ru CHR 0x22] @ v @ [ru CHR 0x22] @ []) rest (executeToken (ruleAction3, []) \<circ> id \<circ> (executeToken (rulePegText, v) \<circ> id) \<circ> id)"
    by (intro reads_seqs reads_matchRune reads_one reads_action) (use t in \<open>simp only: append.simps append_assoc\<close>)
  from reads_token [OF this, of ruletagValue] show ?thesis
    unfolding pTagValue_def by (rule reads_cong) (simp_all add: quoted_def)
qed

lemma tag_rule:
  assumes "isTag t"
  shows "reads pTag (printTag t) rest (tagEffect (fst (snd t)) (snd (snd t)))"
proof -
  obtain q k v where t: "t = (q, k, v)" by (cases t)
  have n: "reads pTagName (quoted q k) (([ru CHR ''=''] @ quoted True v) @ rest) (executeToken (ruleAction2, []) \<circ> executeToken (rulePegText, k))"
    by (rule tag_name_rule) (use assms t in \<open>simp_all add: isTag_def\<close>)
  have v: "reads pTagValue (quoted True v) rest (executeToken (ruleAction3, []) \<circ> executeToken (rulePegText, v))"
    by (rule tag_value_rule) (use assms t in \<open>simp add: isTag_def\<close>)
  from reads_token [OF reads_seqs [OF n reads_seqs [OF reads_matchRune(1) reads_one [OF v]]], of ruletag] show ?thesis
    unfolding pTag_def by (rule reads_cong) (auto simp: printTag_def t tagEffect_def fun_eq_iff)
qed

section \<open>Printed lines are read back\<close>

fun printTags :: "(bool \<times> nat list \<times> nat list) list \<Rightarrow> nat list" where
  "printTags [] = []"
| "printTags [t] = printTag t"
| "printTags (t # u # ts) = printTag t @ [ru CHR '' ''] @ printTags (u # ts)"

text \<open>
  A line: the name in quotes or bare, the value, a timestamp or none, and the tags, whose names are in quotes or bare.
\<close>

definition printLine :: "bool \<Rightarrow> nat list \<Rightarrow> nat list \<Rightarrow> nat list option \<Rightarrow> (bool \<times> nat list \<times> nat list) list \<Rightarrow> nat list" where
  "printLine q n v ts tags = quoted q n @ [ru CHR '' ''] @ v @ (case ts of None \<Rightarrow> [] | Some t \<Rightarrow> [ru CHR '' ''] @ t) @ [ru CHR '' ''] @ printTags tags"

definition tagsEffect :: "(bool \<times> nat list \<times> nat list) list \<Rightarrow> string \<times> metric_grammar \<Rightarrow> string \<times> metric_grammar" where
  "tagsEffect tags s = fold (\<lambda>t. tagEffect (fst (snd t)) (snd (snd t))) tags s"

lemma more_tags:
  assumes "list_all isTag ts"
  shows "reads (star (seqs [matchRune (ru CHR '' ''), pTag])) (concat (map (\<lambda>t. [ru CHR '' ''] @ printTag t) ts)) [] (tagsEffect ts)"
  using assms
proof (induction ts)
  case Nil
  have "fails (seqs [matchRune (ru CHR '' ''), pTag]) []" by (intro fails_seqs fails_matchRune) simp
  from reads_star_Nil [OF this] show ?case by (rule reads_cong) (simp_all add: tagsEffect_def fun_eq_iff)
next
  case (Cons t ts)
  then have t: "isTag t" and ts: "list_all isTag ts" by simp_all
  from reads_star_Cons [OF list_rules_consume(1) reads_seqs [OF reads_matchRune(1) reads_one [OF tag_rule [OF t]]] Cons.IH [OF ts]] show ?case
    by (rule reads_cong) (simp_all add: tagsEffect_def fun_eq_iff)
qed

lemma printTags_Cons: "printTags (t # ts) = printTag t @ concat (map (\<lambda>t. [ru CHR '' ''] @ printTag t) ts)"
  by (induction ts arbitrary: t) simp_all

lemma tags_rule:
  assumes "tags \<noteq> []" "list_all isTag tags"
  shows "reads pTags (printTags tags) [] (tagsEffect tags \<circ> executeToken (ruleAction1, []))"
proof -
  from assms obtain t ts where tags: "tags = t # ts" "isTag t" "list_all isTag ts" by (cases tags) auto
  have "reads (seqs [action ruleAction1, pTag, star (seqs [matchRune (ru CHR '' ''), pTag])])
      ([] @ printTag t @ concat (map (\<lambda>t. [ru CHR '' ''] @ printTag t) ts)) []
      (tagsEffect ts \<circ> tagEffect (fst (snd t)) (snd (snd t)) \<circ> executeToken (ruleAction1, []))"
    by (intro reads_seqs reads_one reads_action tag_rule more_tags tags)
  from reads_token [OF this, of ruletags] show ?thesis
    unfolding pTags_def by (rule reads_cong) (simp_all add: printTags_Cons tags(1) tagsEffect_def fun_eq_iff)
qed

definition timesEffect :: "nat list option \<Rightarrow> string \<times> metric_grammar \<Rightarrow> string \<times> metric_grammar" where
  "timesEffect ts = (case ts of None \<Rightarrow> id | Some t \<Rightarrow> timestampEffect t)"

text \<open>Without a timestamp the first tag may not start with a digit, for the parser would take ten digits for a timestamp.\<close>

definition isLine :: "nat list \<Rightarrow> nat list \<Rightarrow> nat list option \<Rightarrow> (bool \<times> nat list \<times> nat list) list \<Rightarrow> bool" where
  "isLine n v ts tags \<longleftrightarrow> isName n \<and> isValue v \<and> tags \<noteq> [] \<and> list_all isTag tags \<and>
     (case ts of Some t \<Rightarrow> isTimestamp t | None \<Rightarrow> \<not> isDigitRune (hd (printTags tags)))"

lemma times_rule:
  assumes "isLine n v ts tags"
  shows "reads (optional (seqs [matchRune (ru CHR '' ''), pTimestamp])) (case ts of None \<Rightarrow> [] | Some t \<Rightarrow> [ru CHR '' ''] @ t)
    ([ru CHR '' ''] @ printTags tags) (timesEffect ts)"
proof (cases ts)
  case None
  with assms have "\<not> isDigitRune (hd (printTags tags))" by (simp add: isLine_def)
  then have "fails (seqs [pTimestamp]) (printTags tags)" by (intro fails_seqs timestamp_fails)
  then have "fails (seqs [matchRune (ru CHR '' ''), pTimestamp]) ([ru CHR '' ''] @ printTags tags)"
    by (rule fails_seqs2 [OF reads_matchRune(1)])
  from reads_skip [OF this] None show ?thesis by (simp only: option.case timesEffect_def)
next
  case (Some t)
  with assms have "isTimestamp t" by (simp add: isLine_def)
  then have "reads pTimestamp t ([ru CHR '' ''] @ printTags tags) (timestampEffect t)" by (rule timestamp_rule) simp_all
  from reads_optional [OF reads_seqs [OF reads_matchRune(1) reads_one [OF this]]] Some show ?thesis
    by (simp only: option.case timesEffect_def comp_id)
qed

lemma line_rule:
  assumes "isLine n v ts tags"
  shows "reads pMetricGrammar (printLine q n v ts tags) [] (tagsEffect tags \<circ> executeToken (ruleAction1, []) \<circ> timesEffect ts \<circ> valueEffect v \<circ> nameEffect n)"
proof -
  let ?tags = "[ru CHR '' ''] @ printTags tags @ []" and ?times = "case ts of None \<Rightarrow> [] | Some t \<Rightarrow> [ru CHR '' ''] @ t"
  from assms have l: "isName n" "isValue v" "tags \<noteq> []" "list_all isTag tags" by (simp_all add: isLine_def)
  have n: "reads pMetricName (quoted q n) (([ru CHR '' ''] @ v @ ?times @ ?tags) @ []) (nameEffect n)"
    by (rule name_rule [OF l(1)]) simp_all
  have v: "reads pMetricValue v ((?times @ ?tags) @ []) (valueEffect v)"
    by (rule value_rule [OF l(2)]) (simp_all split: option.split)
  have t: "reads (optional (seqs [matchRune (ru CHR '' ''), pTimestamp])) ?times (?tags @ []) (timesEffect ts)"
    using times_rule [OF assms] by (simp only: append_Nil2)
  have g: "reads pTags (printTags tags) ([] @ []) (tagsEffect tags \<circ> executeToken (ruleAction1, []))"
    using tags_rule [OF l(3,4)] by (simp only: append_Nil2)
  have e: "reads (notAt matchDot) [] [] id" by (intro reads_notAt fails_matchRune)
  have "reads pPointLine (quoted q n @ [ru CHR '' ''] @ v @ ?times @ ?tags) []
      (id \<circ> (tagsEffect tags \<circ> executeToken (ruleAction1, [])) \<circ> id \<circ> timesEffect ts \<circ> valueEffect v \<circ> id \<circ> nameEffect n)"
    unfolding pPointLine_def by (rule reads_seqs [OF n reads_seqs [OF reads_matchRune(1) reads_seqs [OF v reads_seqs [OF t
      reads_seqs [OF reads_matchRune(1) reads_seqs [OF g reads_one [OF e]]]]]]])
  moreover have "hd (quoted q n @ r) \<noteq> ru CHR ''!''" "quoted q n @ r \<noteq> []" for r
    using isName_hd [OF l(1)] by (auto simp: quoted_def)
  then have "fails pHistogramLine ((quoted q n @ [ru CHR '' ''] @ v @ ?times @ ?tags) @ [])"
    unfolding pHistogramLine_def pAggregationInterval_def by (intro fails_seqs fails_token fails_matchRune) simp
  ultimately have "reads (orElse pHistogramLine pPointLine) (quoted q n @ [ru CHR '' ''] @ v @ ?times @ ?tags) []
      (id \<circ> (tagsEffect tags \<circ> executeToken (ruleAction1, [])) \<circ> id \<circ> timesEffect ts \<circ> valueEffect v \<circ> id \<circ> nameEffect n)"
    by (intro reads_orElse2)
  from reads_token [OF this, of ruleMetricGrammar] show ?thesis
    unfolding pMetricGrammar_def by (rule reads_cong) (simp_all add: printLine_def fun_eq_iff)
qed

lemma tagsEffect_fields:
  "mgHistogram (snd (tagsEffect tags (x, g))) = mgHistogram g \<and> mgName (snd (tagsEffect tags (x, g))) = mgName g \<and>
   mgValue (snd (tagsEffect tags (x, g))) = mgValue g \<and> mgTimestamp (snd (tagsEffect tags (x, g))) = mgTimestamp g \<and>
   mgTags (snd (tagsEffect tags (x, g))) = fold (\<lambda>t. gput (ofRunes (fst (snd t))) (ofRunes (snd (snd t)))) tags (mgTags g)"
proof (induction tags arbitrary: x g)
  case (Cons t tags)
  show ?case
    using Cons.IH [of "fst (tagEffect (fst (snd t)) (snd (snd t)) (x, g))" "snd (tagEffect (fst (snd t)) (snd (snd t)) (x, g))"]
    by (simp add: tagsEffect_def tagEffect_def)
qed (simp add: tagsEffect_def)

lemma parse_runes:
  assumes "isLine n v ts tags" "toRunes line = printLine q n v ts tags"
  shows "parseLine line = Inr (snd ((tagsEffect tags \<circ> executeToken (ruleAction1, []) \<circ> timesEffect ts \<circ> valueEffect v \<circ> nameEffect n) ([], newGrammar)))"
proof -
  from line_rule [OF assms(1), of q] obtain new where "pMetricGrammar (printLine q n v ts tags @ [], []) = Some ([], [] @ new)"
    "fold executeToken new = tagsEffect tags \<circ> executeToken (ruleAction1, []) \<circ> timesEffect ts \<circ> valueEffect v \<circ> nameEffect n"
    unfolding reads_def by blast
  then show ?thesis by (simp add: parseLine_def Parse_def Execute_def assms(2))
qed


lemma ofRunes_ascii: "list_all (\<lambda>c. ru c < 0x80) s \<Longrightarrow> ofRunes (map ru s) = s"
  by (induction s) (simp_all add: ofRunes_def encodeRune_def)

definition sampleLine :: "nat list \<times> nat list \<times> nat list option \<times> (bool \<times> nat list \<times> nat list) list" where
  "sampleLine = ([deltaRune] @ map ru ''~a.b'', map ru ''-12.5'', Some (map ru ''1600000000''),
     [(False, map ru ''source'', map ru ''node 1''), (True, map ru ''k/x'', [0xE9, 0x4E2D])])"


text \<open>A tag value that ends with a backslash is not read: the backslash hides the closing quote.\<close>

lemma trailing_backslash: "isl (parseLine (map char_of ([109, 32, 49, 32, 107, 61, 34, 92, 34] :: nat list)))"
  by code_simp

end
