(* ===== verification/Syntax_Tree.thy ===== *)
theory Syntax_Tree
  imports Metric_Grammar
begin

text \<open>
  What the parser of the test proxy makes of its tokens beside the metric (\<^verbatim>\<open>internal/testproxy/metrics/metric_grammar.peg.go\<close>): the
  syntax tree with its printing, and the text of a parse error with lines and columns. Tokens have their positions
  in the buffer here. Printing a number and quoting a text (\<^verbatim>\<open>strconv\<close>) are parameters.
\<close>

section \<open>Tokens and trees\<close>

record token32 =
  pegRule :: peg_rule
  tkBegin :: nat
  tkEnd :: nat

text \<open>The names of the rules; the rule of the token of a failure before any rule has succeeded, \<^verbatim>\<open>Unknown\<close>, is left out.\<close>

fun rul3s :: "peg_rule \<Rightarrow> string" where
  "rul3s ruleMetricGrammar = ''MetricGrammar''"
| "rul3s ruleaggregationInterval = ''aggregationInterval''"
| "rul3s rulehistogramValues = ''histogramValues''"
| "rul3s rulehistogramValue = ''histogramValue''"
| "rul3s ruletags = ''tags''"
| "rul3s ruletag = ''tag''"
| "rul3s ruletagName = ''tagName''"
| "rul3s ruletagValue = ''tagValue''"
| "rul3s ruletimestamp = ''timestamp''"
| "rul3s rulemetricValue = ''metricValue''"
| "rul3s rulemetricName = ''metricName''"
| "rul3s ruleALNUM = ''ALNUM''"
| "rul3s ruleDIGIT = ''DIGIT''"
| "rul3s ruleAction0 = ''Action0''"
| "rul3s ruleAction1 = ''Action1''"
| "rul3s rulePegText = ''PegText''"
| "rul3s ruleAction2 = ''Action2''"
| "rul3s ruleAction3 = ''Action3''"
| "rul3s ruleAction4 = ''Action4''"
| "rul3s ruleAction5 = ''Action5''"
| "rul3s ruleAction6 = ''Action6''"

text \<open>A node with the list of its children, which the code links from the first by \<^verbatim>\<open>next\<close>.\<close>

datatype node32 = Node32 token32 "node32 list"

fun nodeToken :: "node32 \<Rightarrow> token32" where
  "nodeToken (Node32 t up) = t"

definition tokensTrim :: "nat \<Rightarrow> token32 list \<Rightarrow> token32 list" where
  "tokensTrim n tree = take n tree"

text \<open>The inner loop: nodes on the stack within the span of the token become its first children, in their order.\<close>

fun adopt :: "token32 \<Rightarrow> node32 list \<Rightarrow> node32 list \<Rightarrow> node32 list \<times> node32 list" where
  "adopt tk up [] = (up, [])"
| "adopt tk up (n # stack) =
     (if tkBegin (nodeToken n) \<ge> tkBegin tk \<and> tkEnd (nodeToken n) \<le> tkEnd tk then adopt tk (n # up) stack else (up, n # stack))"

definition treeStep :: "token32 \<Rightarrow> node32 list \<Rightarrow> node32 list" where
  "treeStep tk stack =
     (if tkBegin tk = tkEnd tk then stack
      else (let (up, rest) = adopt tk [] stack in Node32 tk up # rest))"

definition tokensAST :: "token32 list \<Rightarrow> node32 option" where
  "tokensAST tokens = (case fold treeStep tokens [] of [] \<Rightarrow> None | n # _ \<Rightarrow> Some n)"

text \<open>The tokens of a tree, children first.\<close>

fun postorder :: "node32 \<Rightarrow> token32 list" where
  "postorder (Node32 tk up) = concat (map postorder up) @ [tk]"

text \<open>Every child lies within its parent.\<close>

fun nested :: "node32 \<Rightarrow> bool" where
  "nested (Node32 tk up) = list_all (\<lambda>n. tkBegin tk \<le> tkBegin (nodeToken n) \<and> tkEnd (nodeToken n) \<le> tkEnd tk \<and> nested n) up"

lemma adopt_parts:
  "adopt tk up stack = (up', rest) \<Longrightarrow>
     rev rest @ up' = rev stack @ up \<and>
     (list_all (\<lambda>n. tkBegin tk \<le> tkBegin (nodeToken n) \<and> tkEnd (nodeToken n) \<le> tkEnd tk) up \<longrightarrow>
        list_all (\<lambda>n. tkBegin tk \<le> tkBegin (nodeToken n) \<and> tkEnd (nodeToken n) \<le> tkEnd tk) up') \<and>
     (rest = [] \<or> \<not> (tkBegin (nodeToken (hd rest)) \<ge> tkBegin tk \<and> tkEnd (nodeToken (hd rest)) \<le> tkEnd tk))"
  by (induction tk up stack rule: adopt.induct) (auto split: if_splits)

lemma treeStep_postorder:
  "concat (map postorder (rev (treeStep tk stack))) = concat (map postorder (rev stack)) @ (if tkBegin tk = tkEnd tk then [] else [tk])"
proof (cases "tkBegin tk = tkEnd tk")
  case False
  obtain up rest where a: "adopt tk [] stack = (up, rest)" by fastforce
  then have "concat (map postorder (rev rest @ up)) = concat (map postorder (rev stack))" using adopt_parts [OF a] by simp
  with a False show ?thesis by (simp add: treeStep_def)
qed (simp add: treeStep_def)

lemma treeStep_nested:
  assumes "list_all nested stack"
  shows "list_all nested (treeStep tk stack)"
proof (cases "tkBegin tk = tkEnd tk")
  case False
  obtain up rest where a: "adopt tk [] stack = (up, rest)" by fastforce
  note parts = adopt_parts [OF a]
  have "set (rev rest @ up) = set stack" using parts by simp
  then have "set rest \<subseteq> set stack" "set up \<subseteq> set stack" by auto
  with assms a False parts show ?thesis by (auto simp: treeStep_def list_all_iff)
qed (simp add: treeStep_def assms)

lemma fold_treeStep:
  "list_all nested stack \<Longrightarrow> list_all nested (fold treeStep tks stack) \<and>
     concat (map postorder (rev (fold treeStep tks stack))) = concat (map postorder (rev stack)) @ filter (\<lambda>tk. tkBegin tk \<noteq> tkEnd tk) tks"
  by (induction tks arbitrary: stack) (simp_all add: treeStep_nested treeStep_postorder)

text \<open>
  A token that covers all tokens before it takes all of them: the tree of a successful parse, whose last token is that of the whole
  grammar, holds every token that consumes input, in the order of the parse, and each within its parent.
\<close>

lemma nodeToken_stack: "n \<in> set (fold treeStep tks []) \<Longrightarrow> nodeToken n \<in> set tks"
proof -
  have "nodeToken n \<in> set (concat (map postorder (rev stack)))" if "n \<in> set stack" for stack
  proof -
    have "nodeToken n \<in> set (postorder n)" by (cases n) simp
    with that show ?thesis by auto
  qed
  moreover have "concat (map postorder (rev (fold treeStep tks []))) = filter (\<lambda>tk. tkBegin tk \<noteq> tkEnd tk) tks"
    using fold_treeStep [of "[]" tks] by simp
  ultimately show "n \<in> set (fold treeStep tks []) \<Longrightarrow> nodeToken n \<in> set tks" by (metis filter_is_subset subsetD)
qed

lemma tokensAST_complete:
  assumes "tkBegin whole < tkEnd whole" "\<forall>tk \<in> set tks. tkBegin whole \<le> tkBegin tk \<and> tkEnd tk \<le> tkEnd whole"
  shows "\<exists>n. tokensAST (tks @ [whole]) = Some n \<and> postorder n = filter (\<lambda>tk. tkBegin tk \<noteq> tkEnd tk) (tks @ [whole]) \<and> nested n"
proof -
  let ?stack = "fold treeStep tks []"
  obtain up rest where a: "adopt whole [] ?stack = (up, rest)" by fastforce
  note parts = adopt_parts [OF a]
  have "rest = []"
  proof (rule ccontr)
    assume ne: "rest \<noteq> []"
    have "set rest \<subseteq> set ?stack" using parts by (metis set_append set_rev sup_ge1 append_Nil2)
    with ne have "nodeToken (hd rest) \<in> set tks" using nodeToken_stack by (metis hd_in_set subsetD)
    with assms(2) parts ne show False by auto
  qed
  then have "fold treeStep (tks @ [whole]) [] = [Node32 whole up]" using a assms(1) by (simp add: treeStep_def)
  then show ?thesis using fold_treeStep [of "[]" "tks @ [whole]"] by (simp add: tokensAST_def)
qed

section \<open>Printing\<close>

definition runeText :: "nat list \<Rightarrow> nat \<Rightarrow> nat \<Rightarrow> string" where
  "runeText buffer begin e = ofRunes (take (e - begin) (drop begin buffer))"

text \<open>The lines of a tree: each node is indented by its depth, before its children and its siblings.\<close>

fun printNode :: "(string \<Rightarrow> string) \<Rightarrow> nat list \<Rightarrow> nat \<Rightarrow> node32 \<Rightarrow> string list" where
  "printNode quote buffer depth (Node32 tk up) =
     (replicate depth CHR '' '' @ rul3s (pegRule tk) @ '' '' @ quote (runeText buffer (tkBegin tk) (tkEnd tk)) @ [CHR 0x0A]) #
     concat (map (printNode quote buffer (depth + 1)) up)"

lemma printNode_lines: "length (printNode quote buffer depth n) = length (postorder n)"
  by (induction n arbitrary: depth rule: postorder.induct) (simp add: length_concat comp_def cong: map_cong)

section \<open>Positions in the text\<close>

text \<open>\<^verbatim>\<open>translatePositions\<close> after sorting: the line and the symbol on it, for the positions that are in the buffer.\<close>

fun translateFrom :: "nat \<Rightarrow> nat \<Rightarrow> nat \<Rightarrow> nat list \<Rightarrow> nat list \<Rightarrow> (nat, nat \<times> nat) gomap" where
  "translateFrom i line symb [] ps = []"
| "translateFrom i line symb (c # buffer) ps =
     (let (line, symb) = (if c = 10 then (line + 1, 0) else (line, symb + 1)) in
      case ps of
        [] \<Rightarrow> []
      | p # _ \<Rightarrow>
          if i = p then (p, (line, symb)) # (case dropWhile (\<lambda>q. q = i) ps of [] \<Rightarrow> [] | qs \<Rightarrow> translateFrom (i + 1) line symb buffer qs)
          else translateFrom (i + 1) line symb buffer ps)"

definition translatePositions :: "nat list \<Rightarrow> nat list \<Rightarrow> (nat, nat \<times> nat) gomap" where
  "translatePositions buffer positions = translateFrom 0 1 0 buffer (sort positions)"

text \<open>The line is one more than the line ends up to and including the position; the symbol counts the runes after the last of them.\<close>

definition lineAt :: "nat list \<Rightarrow> nat \<Rightarrow> nat" where
  "lineAt buffer p = 1 + length (filter (\<lambda>c. c = 10) (take (p + 1) buffer))"

definition symbolAt :: "nat list \<Rightarrow> nat \<Rightarrow> nat" where
  "symbolAt buffer p = length (takeWhile (\<lambda>c. c \<noteq> 10) (rev (take (p + 1) buffer)))"

lemma positionAt_Suc:
  assumes "p < length buffer"
  shows "lineAt buffer p = (if p = 0 then 1 else lineAt buffer (p - 1)) + (if buffer ! p = 10 then 1 else 0)"
    "symbolAt buffer p = (if buffer ! p = 10 then 0 else (if p = 0 then 0 else symbolAt buffer (p - 1)) + 1)"
  using assms by (cases p; simp add: lineAt_def symbolAt_def take_Suc_conv_app_nth)+

lemma translateFrom_positions:
  assumes "i \<le> length buffer" "line = (if i = 0 then 1 else lineAt buffer (i - 1))" "symb = (if i = 0 then 0 else symbolAt buffer (i - 1))"
    and "sorted ps" "\<forall>p \<in> set ps. i \<le> p"
  shows "map_of (translateFrom i line symb (drop i buffer) ps) p =
    (if p \<in> set ps \<and> p < length buffer then Some (lineAt buffer p, symbolAt buffer p) else None)"
  using assms
proof (induction "length buffer - i" arbitrary: i line symb ps)
  case 0
  then show ?case by force
next
  case (Suc n)
  then have i: "i < length buffer" by simp
  define l' where "l' = lineAt buffer i"
  define s' where "s' = symbolAt buffer i"
  have step: "(if buffer ! i = 10 then (line + 1, 0) else (line, symb + 1)) = (l', s')"
    using positionAt_Suc [OF i] Suc.prems(2,3) by (simp add: l'_def s'_def)
  have next_i: "n = length buffer - (i + 1)" "i + 1 \<le> length buffer" using Suc.hyps(2) i by simp_all
  have IH: "map_of (translateFrom (i + 1) l' s' (drop (i + 1) buffer) qs) p =
      (if p \<in> set qs \<and> p < length buffer then Some (lineAt buffer p, symbolAt buffer p) else None)"
    if "sorted qs" "\<forall>q \<in> set qs. i + 1 \<le> q" for qs
    using Suc.hyps(1) [OF next_i, of l' s' qs] that by (simp add: l'_def s'_def)
  show ?case
  proof (cases ps)
    case Nil
    with i show ?thesis by (simp add: Cons_nth_drop_Suc [symmetric])
  next
    case (Cons q qs)
    show ?thesis
    proof (cases "i = q")
      case False
      then have "\<forall>r \<in> set ps. i + 1 \<le> r" using Suc.prems(4,5) Cons by force
      with IH [OF Suc.prems(4)] False Cons i show ?thesis by (simp add: Cons_nth_drop_Suc [symmetric] step)
    next
      case True
      let ?rest = "dropWhile (\<lambda>r. r = i) ps"
      have sorted: "sorted ?rest" using Suc.prems(4) by (rule sorted_dropWhile)
      have rest: "p \<in> set ?rest \<longleftrightarrow> p \<in> set ps \<and> p \<noteq> i" for p
      proof -
        have "set ps = set (takeWhile (\<lambda>r. r = i) ps) \<union> set ?rest" by (simp flip: set_append)
        then have "p \<in> set ps \<longleftrightarrow> p \<in> set (takeWhile (\<lambda>r. r = i) ps) \<or> p \<in> set ?rest" by simp
        moreover have "i \<notin> set ?rest"
        proof
          assume "i \<in> set ?rest"
          then obtain r rs where r: "?rest = r # rs" by (cases ?rest) auto
          have "r \<noteq> i" using hd_dropWhile [of "\<lambda>r. r = i" ps] r by simp
          moreover have "i \<le> r" using Suc.prems(5) set_dropWhileD [of r "\<lambda>r. r = i" ps] r by simp
          ultimately show False using sorted r \<open>i \<in> set ?rest\<close> by auto
        qed
        moreover have "q = i" if "q \<in> set (takeWhile (\<lambda>r. r = i) ps)" for q using set_takeWhileD [OF that] by simp
        ultimately show ?thesis by blast
      qed
      have later: "\<forall>r \<in> set ?rest. i + 1 \<le> r" using Suc.prems(5) by (simp add: rest Suc_le_eq order.strict_iff_order)
      define left where "left = ?rest"
      from IH [OF sorted later, folded left_def] have after: "map_of (translateFrom (i + 1) l' s' (drop (i + 1) buffer) left) p =
          (if p \<in> set left \<and> p < length buffer then Some (lineAt buffer p, symbolAt buffer p) else None)" .
      define more where "more = (case left of [] \<Rightarrow> [] | qs \<Rightarrow> translateFrom (i + 1) l' s' (drop (Suc i) buffer) qs)"
      have "map_of more p = (if p \<in> set ?rest \<and> p < length buffer then Some (lineAt buffer p, symbolAt buffer p) else None)"
        unfolding left_def [symmetric] using after by (cases left) (simp_all add: more_def)
      moreover have "translateFrom i line symb (drop i buffer) ps = (i, (l', s')) # more"
        unfolding more_def left_def Cons_nth_drop_Suc [OF i, symmetric] translateFrom.simps step using Cons True by simp
      ultimately show ?thesis using rest [of p] i Cons True by (cases "p = i") (simp_all add: l'_def s'_def)
    qed
  qed
qed

lemma translatePositions_correct:
  "map_of (translatePositions buffer positions) p =
     (if p \<in> set positions \<and> p < length buffer then Some (lineAt buffer p, symbolAt buffer p) else None)"
  using translateFrom_positions [of 0 buffer 1 0 "sort positions" p] by (simp add: translatePositions_def)

text \<open>\<^verbatim>\<open>parseError.Error\<close>: the furthest token, with positions; one that is outside the buffer is at line and symbol zero.\<close>

definition parseError_Error :: "(nat \<Rightarrow> string) \<Rightarrow> (string \<Rightarrow> string) \<Rightarrow> nat list \<Rightarrow> token32 \<Rightarrow> string" where
  "parseError_Error showNat quote buffer tk =
     (let translations = translatePositions buffer [tkBegin tk, tkEnd tk];
          pos = (\<lambda>p. case map_of translations p of None \<Rightarrow> (0, 0) | Some q \<Rightarrow> q)
      in [CHR 0x0A] @ ''parse error near '' @ rul3s (pegRule tk) @ '' (line '' @ showNat (fst (pos (tkBegin tk))) @ '' symbol '' @ showNat (snd (pos (tkBegin tk))) @
         '' - line '' @ showNat (fst (pos (tkEnd tk))) @ '' symbol '' @ showNat (snd (pos (tkEnd tk))) @ ''):'' @ [CHR 0x0A] @
         quote (runeText buffer (tkBegin tk) (tkEnd tk)) @ [CHR 0x0A])"

end
