(* ===== verification/Test_Proxy.thy ===== *)
theory Test_Proxy
  imports Metric_Grammar "HOL-Library.Char_ord" "HOL-Library.List_Lexorder" "HOL-Library.Multiset"
begin

text \<open>
  The stand-in for the Wavefront proxy (\<^verbatim>\<open>internal/testproxy\<close>), which the integration tests of the collector
  ask what it has received: the store of metrics, the comparison with expected metrics, and the
  handlers. The parser of metric lines is the theory \<open>Metric_Grammar\<close>; JSON, globs and the quoting of
  \<^verbatim>\<open>%#v\<close> are parameters.
\<close>

section \<open>Metrics\<close>

record test_metric =
  tmName :: string
  tmValue :: string
  tmTimestamp :: string
  tmTags :: strmap

record metric_store =
  msMetrics :: "test_metric list"
  msBadMetrics :: "string list"

definition NewMetricStore :: metric_store where
  "NewMetricStore = \<lparr> msMetrics = [], msBadMetrics = [] \<rparr>"

definition LogMetric :: "test_metric \<Rightarrow> metric_store \<Rightarrow> metric_store" where
  "LogMetric m s = s \<lparr> msMetrics := msMetrics s @ [m] \<rparr>"

definition LogBadMetric :: "string \<Rightarrow> metric_store \<Rightarrow> metric_store" where
  "LogBadMetric m s = s \<lparr> msBadMetrics := msBadMetrics s @ [m] \<rparr>"

section \<open>Keys\<close>

type_synonym keyer = "test_metric \<Rightarrow> bool \<times> string"

text \<open>The glob compiler, and how \<^verbatim>\<open>%#v\<close> prints a string.\<close>

record diff_env =
  deGlob :: "string \<Rightarrow> (string \<Rightarrow> bool) option"
  deQuote :: "string \<Rightarrow> string"

definition compositeKey :: "keyer list \<Rightarrow> keyer" where
  "compositeKey keyers m = (if list_all (\<lambda>k. fst (k m)) keyers then (True, Join (map (\<lambda>k. snd (k m)) keyers) '' '') else (False, []))"

definition nameKey :: "string \<Rightarrow> keyer" where
  "nameKey expected m = (tmName m = expected, tmName m)"

definition valueKey :: "string \<Rightarrow> keyer" where
  "valueKey expected m = (tmValue m = expected, tmValue m)"

definition timestampKey :: "string \<Rightarrow> keyer" where
  "timestampKey expected m = (tmTimestamp m = expected, tmTimestamp m)"

definition TrimPrefix :: "string \<Rightarrow> string \<Rightarrow> string" where
  "TrimPrefix s prefix = (if HasPrefix s prefix then drop (length prefix) s else s)"

definition tagNameKey :: "string \<Rightarrow> keyer" where
  "tagNameKey name m =
     (let key = TrimPrefix name ''!''; exists = (map_of (tmTags m) key \<noteq> None) in
      if HasPrefix name ''!'' then (\<not> exists, key @ ''!=*'') else (exists, key @ ''=*''))"

text \<open>\<^verbatim>\<open>strings.Replace(s, c, "", 1)\<close>.\<close>

definition removeFirst :: "char \<Rightarrow> string \<Rightarrow> string" where
  "removeFirst c s = remove1 c s"

text \<open>The sign for a match by pattern is not ASCII; it is its three bytes.\<close>

abbreviation approxSign :: string where
  "approxSign \<equiv> [CHR 0xE2, CHR 0x89, CHR 0x85]"

definition fullTagKey :: "diff_env \<Rightarrow> string \<Rightarrow> string \<Rightarrow> keyer go_result" where
  "fullTagKey de name v =
     (let key = TrimPrefix name ''!'' in
      if HasPrefix name ''!'' then
        Inr (\<lambda>m. let adjusted = (if length (get_str (tmTags m) key) > 0 then key else removeFirst CHR ''!'' key) in
                 (get_str (tmTags m) adjusted \<noteq> v, key @ ''!='' @ deQuote de (get_str (tmTags m) key)))
      else if HasPrefix name ''~'' then
        (case deGlob de v of
           None \<Rightarrow> Inl (GoPanic ''glob.MustCompile'')
         | Some g \<Rightarrow> Inr (\<lambda>m. let adjusted = (if length (get_str (tmTags m) key) > 0 then key else removeFirst CHR ''~'' key) in
                              (g (get_str (tmTags m) adjusted), key @ approxSign @ deQuote de v)))
      else Inr (\<lambda>m. (get_str (tmTags m) key = v, key @ ''='' @ deQuote de (get_str (tmTags m) key))))"

fun tagKeyers :: "diff_env \<Rightarrow> strmap \<Rightarrow> string list \<Rightarrow> keyer list go_result" where
  "tagKeyers de tags [] = Inr []"
| "tagKeyers de tags (name # names) =
     (case (if get_str tags name = [] then Inr (tagNameKey name) else fullTagKey de name (get_str tags name)) of
        Inl e \<Rightarrow> Inl e
      | Inr k \<Rightarrow> (case tagKeyers de tags names of Inl e \<Rightarrow> Inl e | Inr ks \<Rightarrow> Inr (k # ks)))"

definition tagsKey :: "diff_env \<Rightarrow> strmap \<Rightarrow> keyer go_result" where
  "tagsKey de tags = (case tagKeyers de tags (sort (map fst tags)) of Inl e \<Rightarrow> Inl e | Inr ks \<Rightarrow> Inr (compositeKey ks))"

definition metricKeyer :: "diff_env \<Rightarrow> test_metric \<Rightarrow> keyer go_result" where
  "metricKeyer de m =
     (case tagsKey de (tmTags m) of
        Inl e \<Rightarrow> Inl e
      | Inr tk \<Rightarrow> Inr (compositeKey ([nameKey (tmName m)] @ (if tmValue m \<noteq> [] then [valueKey (tmValue m)] else []) @
                         (if tmTimestamp m \<noteq> [] then [timestampKey (tmTimestamp m)] else []) @ [tk])))"

section \<open>The comparison\<close>

definition keyersOf :: "(string, keyer list) gomap \<Rightarrow> string \<Rightarrow> keyer list" where
  "keyersOf keyers name = (case map_of keyers name of None \<Rightarrow> [] | Some ks \<Rightarrow> ks)"

fun metricKeyersFrom :: "diff_env \<Rightarrow> test_metric list \<Rightarrow> (string, keyer list) gomap \<Rightarrow> (string, keyer list) gomap go_result" where
  "metricKeyersFrom de [] keyers = Inr keyers"
| "metricKeyersFrom de (m # ms) keyers =
     (case metricKeyer de m of
        Inl e \<Rightarrow> Inl e
      | Inr k \<Rightarrow> metricKeyersFrom de ms (gput (tmName m) (keyersOf keyers (tmName m) @ [k]) keyers))"

definition metricKeyers :: "diff_env \<Rightarrow> test_metric list \<Rightarrow> (string, keyer list) gomap go_result" where
  "metricKeyers de expected = metricKeyersFrom de expected []"

fun firstKey :: "keyer list \<Rightarrow> test_metric \<Rightarrow> string option" where
  "firstKey [] m = None"
| "firstKey (k # ks) m = (if fst (k m) then Some (snd (k m)) else firstKey ks m)"

definition metricKey :: "diff_env \<Rightarrow> (string, keyer list) gomap \<Rightarrow> test_metric \<Rightarrow> string go_result" where
  "metricKey de keyers m =
     (case firstKey (keyersOf keyers (tmName m)) m of
        Some key \<Rightarrow> Inr key
      | None \<Rightarrow> (case metricKeyer de m of Inl e \<Rightarrow> Inl e | Inr k \<Rightarrow> Inr (snd (k m))))"

fun metricKeyMapFrom :: "diff_env \<Rightarrow> (string, keyer list) gomap \<Rightarrow> test_metric list \<Rightarrow> (string, test_metric) gomap \<Rightarrow> (string, test_metric) gomap go_result" where
  "metricKeyMapFrom de keyers [] km = Inr km"
| "metricKeyMapFrom de keyers (m # ms) km =
     (case metricKey de keyers m of Inl e \<Rightarrow> Inl e | Inr key \<Rightarrow> metricKeyMapFrom de keyers ms (gput key m km))"

definition metricKeyMap :: "diff_env \<Rightarrow> test_metric list \<Rightarrow> (string, keyer list) gomap \<Rightarrow> (string, test_metric) gomap go_result" where
  "metricKeyMap de ms keyers = metricKeyMapFrom de keyers ms []"

definition disjunct :: "(string, test_metric) gomap \<Rightarrow> (string, test_metric) gomap \<Rightarrow> test_metric list \<times> test_metric list" where
  "disjunct a b = (map snd (filter (\<lambda>(x, _). map_of b x = None) a), map snd (filter (\<lambda>(y, _). map_of a y = None) b))"

definition intersect :: "(string, test_metric) gomap \<Rightarrow> (string, test_metric) gomap \<Rightarrow> test_metric list" where
  "intersect a b = List.map_filter (\<lambda>(x, _). map_of b x) a"

record metrics_diff =
  Missing :: "test_metric list"
  Extra :: "test_metric list"
  Unwanted :: "test_metric list"

definition DiffMetrics :: "diff_env \<Rightarrow> test_metric list \<Rightarrow> test_metric list \<Rightarrow> test_metric list \<Rightarrow> metrics_diff go_result" where
  "DiffMetrics de expected excluded actual =
     (case metricKeyers de expected of Inl e \<Rightarrow> Inl e | Inr expectedKeyers \<Rightarrow>
     (case metricKeyMap de expected expectedKeyers of Inl e \<Rightarrow> Inl e | Inr expectedMap \<Rightarrow>
     (case metricKeyMap de actual expectedKeyers of Inl e \<Rightarrow> Inl e | Inr actualMap \<Rightarrow>
     (let (missing, extra) = disjunct expectedMap actualMap in
      case metricKeyers de excluded of Inl e \<Rightarrow> Inl e | Inr excludedKeyers \<Rightarrow>
     (case metricKeyMap de excluded excludedKeyers of Inl e \<Rightarrow> Inl e | Inr excludedMap \<Rightarrow>
     (case metricKeyMap de actual excludedKeyers of Inl e \<Rightarrow> Inl e | Inr actualExcluded \<Rightarrow>
      Inr \<lparr> Missing = missing, Extra = extra, Unwanted = intersect excludedMap actualExcluded \<rparr>))))))"

section \<open>What the comparison finds\<close>

text \<open>A metric as expected: the fields that are given agree, and the tags are there, with the value if one is given.\<close>

definition test_matches :: "test_metric \<Rightarrow> test_metric \<Rightarrow> bool" where
  "test_matches e a \<longleftrightarrow> tmName a = tmName e \<and> (tmValue e \<noteq> [] \<longrightarrow> tmValue a = tmValue e) \<and>
     (tmTimestamp e \<noteq> [] \<longrightarrow> tmTimestamp a = tmTimestamp e) \<and>
     list_all (\<lambda>(n, v). if v = [] then map_of (tmTags a) n \<noteq> None else get_str (tmTags a) n = v) (tmTags e)"

text \<open>Expectations without negated tags and patterns.\<close>

definition plain :: "test_metric \<Rightarrow> bool" where
  "plain e \<longleftrightarrow> wf_map (tmTags e) \<and> list_all (\<lambda>(n, _). \<not> HasPrefix n ''!'' \<and> \<not> HasPrefix n ''~'') (tmTags e)"

lemma plain_matches_self: "plain e \<Longrightarrow> test_matches e e"
  by (auto simp: plain_def test_matches_def list_all_iff get_str_def split: option.split)

lemma plain_tag:
  assumes "plain e" "n \<in> fst ` set (tmTags e)" "test_matches e a"
  shows "\<not> HasPrefix n ''!''" "\<not> HasPrefix n ''~''"
    "if get_str (tmTags e) n = [] then map_of (tmTags a) n \<noteq> None else get_str (tmTags a) n = get_str (tmTags e) n"
proof -
  from assms(2) obtain v where v: "(n, v) \<in> set (tmTags e)" by auto
  with assms(1) have "get_str (tmTags e) n = v" by (simp add: plain_def get_str_def)
  with v assms show "\<not> HasPrefix n ''!''" "\<not> HasPrefix n ''~''"
    "if get_str (tmTags e) n = [] then map_of (tmTags a) n \<noteq> None else get_str (tmTags a) n = get_str (tmTags e) n"
    by (auto simp: plain_def test_matches_def list_all_iff)
qed

lemma tagKeyers_match:
  assumes "plain e" "test_matches e a" "tagKeyers de (tmTags e) names = Inr ks" "set names \<subseteq> fst ` set (tmTags e)"
  shows "list_all (\<lambda>k. fst (k a) \<and> snd (k a) = snd (k e)) ks"
  using assms(3,4)
proof (induction names arbitrary: ks)
  case (Cons n names)
  then have n: "n \<in> fst ` set (tmTags e)" by simp
  note a = plain_tag [OF assms(1) n assms(2)] and e = plain_tag [OF assms(1) n plain_matches_self [OF assms(1)]]
  from Cons.prems(1) obtain k ks' where k: "ks = k # ks'" "tagKeyers de (tmTags e) names = Inr ks'"
    "(if get_str (tmTags e) n = [] then Inr (tagNameKey n) else fullTagKey de n (get_str (tmTags e) n)) = Inr k"
    by (auto split: sum.splits if_splits)
  from k(3) a e have "fst (k a) \<and> snd (k a) = snd (k e)"
    by (auto simp: tagNameKey_def fullTagKey_def TrimPrefix_def Let_def split: if_splits)
  with Cons.IH [OF k(2)] Cons.prems(2) k(1) show ?case by simp
qed simp

lemma compositeKey_match:
  "list_all (\<lambda>k. fst (k a) \<and> snd (k a) = snd (k e)) ks \<Longrightarrow> list_all (\<lambda>k. fst (k e)) ks \<Longrightarrow>
   fst (compositeKey ks a) \<and> snd (compositeKey ks a) = snd (compositeKey ks e)"
  by (auto simp: compositeKey_def list_all_iff intro!: arg_cong [where f = "\<lambda>xs. Join xs _"] map_cong)

lemma metricKeyer_match:
  assumes "plain e" "test_matches e a" "metricKeyer de e = Inr k"
  shows "fst (k a) \<and> snd (k a) = snd (k e)"
proof -
  from assms(3) obtain ks where ks: "tagKeyers de (tmTags e) (sort (map fst (tmTags e))) = Inr ks"
    "k = compositeKey ([nameKey (tmName e)] @ (if tmValue e \<noteq> [] then [valueKey (tmValue e)] else []) @
       (if tmTimestamp e \<noteq> [] then [timestampKey (tmTimestamp e)] else []) @ [compositeKey ks])"
    by (auto simp: metricKeyer_def tagsKey_def split: sum.splits)
  note self = plain_matches_self [OF assms(1)]
  have "list_all (\<lambda>k. fst (k e)) ks" using tagKeyers_match [OF assms(1) self ks(1)] by (simp add: list_all_iff)
  with tagKeyers_match [OF assms(1,2) ks(1)] have t: "fst (compositeKey ks a) \<and> snd (compositeKey ks a) = snd (compositeKey ks e)"
    by (intro compositeKey_match) simp_all
  have "fst (compositeKey ks e)" using \<open>list_all (\<lambda>k. fst (k e)) ks\<close> by (simp add: compositeKey_def)
  with t assms(2) show ?thesis
    unfolding ks(2) by (intro compositeKey_match) (auto simp: test_matches_def nameKey_def valueKey_def timestampKey_def)
qed

lemma keyersOf_gput [simp]: "keyersOf (gput n ks keyers) m = (if m = n then ks else keyersOf keyers m)"
  by (simp add: keyersOf_def)

lemma metricKeyersFrom_keyers:
  assumes "metricKeyersFrom de ms keyers = Inr keyers'" "distinct (map tmName ms)" "\<And>m. m \<in> set ms \<Longrightarrow> keyersOf keyers (tmName m) = []"
  shows "(\<forall>m \<in> set ms. \<exists>k. metricKeyer de m = Inr k \<and> keyersOf keyers' (tmName m) = [k]) \<and>
    (\<forall>n. n \<notin> tmName ` set ms \<longrightarrow> keyersOf keyers' n = keyersOf keyers n)"
  using assms
proof (induction ms arbitrary: keyers)
  case (Cons m ms)
  from Cons.prems(1) obtain k where k: "metricKeyer de m = Inr k"
    "metricKeyersFrom de ms (gput (tmName m) [k] keyers) = Inr keyers'"
    using Cons.prems(3) by (auto split: sum.splits)
  have "m' \<in> set ms \<Longrightarrow> keyersOf (gput (tmName m) [k] keyers) (tmName m') = []" for m'
    using Cons.prems(2,3) by (auto simp: image_iff)
  from Cons.IH [OF k(2) _ this] Cons.prems(2) k(1) show ?case by auto
qed simp

lemma metricKeyMapFrom_keys:
  "metricKeyMapFrom de keyers ms km = Inr km' \<Longrightarrow>
   (\<forall>x v. map_of km' x = Some v \<longrightarrow> map_of km x = Some v \<or> v \<in> set ms \<and> metricKey de keyers v = Inr x) \<and>
   (\<forall>x. map_of km x \<noteq> None \<longrightarrow> map_of km' x \<noteq> None) \<and>
   (\<forall>m \<in> set ms. \<exists>x. metricKey de keyers m = Inr x \<and> map_of km' x \<noteq> None) \<and> (wf_map km \<longrightarrow> wf_map km')"
proof (induction ms arbitrary: km)
  case (Cons m ms)
  then obtain key where key: "metricKey de keyers m = Inr key" "metricKeyMapFrom de keyers ms (gput key m km) = Inr km'"
    by (auto split: sum.splits)
  note ih = Cons.IH [OF key(2)]
  have ih1: "map_of (gput key m km) x = Some v \<or> v \<in> set ms \<and> metricKey de keyers v = Inr x" if "map_of km' x = Some v" for x v
    using that ih by blast
  have ih2: "map_of km' x \<noteq> None" if "map_of (gput key m km) x \<noteq> None" for x using that ih by blast
  have ih3: "\<exists>x. metricKey de keyers m' = Inr x \<and> map_of km' x \<noteq> None" if "m' \<in> set ms" for m' using that ih by blast
  have "map_of km x = Some v \<or> v \<in> set (m # ms) \<and> metricKey de keyers v = Inr x" if "map_of km' x = Some v" for x v
    using ih1 [OF that] key(1) by (auto split: if_splits)
  moreover have "map_of km' x \<noteq> None" if "map_of km x \<noteq> None" for x by (rule ih2) (use that in simp)
  moreover have "map_of km' key \<noteq> None" by (rule ih2) simp
  then have "\<exists>x. metricKey de keyers m' = Inr x \<and> map_of km' x \<noteq> None" if "m' \<in> set (m # ms)" for m'
    using that ih3 key(1) by (cases "m' = m") simp_all
  moreover have "wf_map km \<longrightarrow> wf_map km'" using ih by simp
  ultimately show ?case by blast
qed simp

lemmas metricKeyMap_keys = metricKeyMapFrom_keys [where km = "[]", folded metricKeyMap_def, simplified]

lemma firstKey_single: "keyersOf keyers (tmName m) = [k] \<Longrightarrow> fst (k m) \<Longrightarrow> metricKey de keyers m = Inr (snd (k m))"
  by (simp add: metricKey_def)

lemma DiffMetrics_parts:
  assumes "DiffMetrics de expected excluded actual = Inr d"
  obtains ks em am where "metricKeyers de expected = Inr ks" "metricKeyMap de expected ks = Inr em" "metricKeyMap de actual ks = Inr am"
    "Missing d = fst (disjunct em am)" "Extra d = snd (disjunct em am)"
  using assms by (auto simp: DiffMetrics_def split: sum.splits prod.splits)

lemma disjunct_keys:
  "v \<in> set (fst (disjunct a b)) \<Longrightarrow> wf_map a \<Longrightarrow> \<exists>x. map_of a x = Some v \<and> map_of b x = None"
  "v \<in> set (snd (disjunct a b)) \<Longrightarrow> wf_map b \<Longrightarrow> \<exists>x. map_of b x = Some v \<and> map_of a x = None"
  by (auto simp: disjunct_def)

lemma DiffMetrics_matched:
  assumes "distinct (map tmName expected)" "e \<in> set expected" "plain e" "a \<in> set actual" "test_matches e a"
    and "DiffMetrics de expected excluded actual = Inr d"
  shows "e \<notin> set (Missing d) \<and> a \<notin> set (Extra d)"
proof -
  from assms(6) obtain ks em am where p: "metricKeyers de expected = Inr ks" "metricKeyMap de expected ks = Inr em" "metricKeyMap de actual ks = Inr am"
    "Missing d = fst (disjunct em am)" "Extra d = snd (disjunct em am)" by (rule DiffMetrics_parts)
  have "\<exists>k. metricKeyer de e = Inr k \<and> keyersOf ks (tmName e) = [k]"
    using metricKeyersFrom_keyers [OF p(1) [unfolded metricKeyers_def] assms(1)] assms(2) by (simp add: keyersOf_def)
  then obtain k where k: "metricKeyer de e = Inr k" "keyersOf ks (tmName e) = [k]" by blast
  have same: "tmName a = tmName e" using assms(5) by (simp add: test_matches_def)
  note ma = metricKeyer_match [OF assms(3,5) k(1)] and me = metricKeyer_match [OF assms(3) plain_matches_self [OF assms(3)] k(1)]
  have ke: "metricKey de ks e = Inr (snd (k e))" and ka: "metricKey de ks a = Inr (snd (k e))"
    using firstKey_single [of ks e k de] firstKey_single [of ks a k de] k(2) ma me same by auto
  note em = metricKeyMap_keys [OF p(2)] and am = metricKeyMap_keys [OF p(3)]
  have there: "map_of em (snd (k e)) \<noteq> None" "map_of am (snd (k e)) \<noteq> None"
    using em am assms(2,4) ke ka by fastforce+
  have "e \<notin> set (Missing d)"
  proof
    assume "e \<in> set (Missing d)"
    then obtain x where "map_of em x = Some e" "map_of am x = None" using disjunct_keys(1) [of e em am] em p(4) by auto
    with em ke there show False by auto
  qed
  moreover have "a \<notin> set (Extra d)"
  proof
    assume "a \<in> set (Extra d)"
    then obtain x where "map_of am x = Some a" "map_of em x = None" using disjunct_keys(2) [of a em am] am p(5) by auto
    with am ka there show False by auto
  qed
  ultimately show ?thesis ..
qed

text \<open>
  The comparison is complete for expectations without patterns whose names differ: when every expected
  metric was received nothing is missing, and when only expected metrics were received nothing is extra.
\<close>

theorem DiffMetrics_complete:
  assumes "distinct (map tmName expected)" "list_all plain expected" "DiffMetrics de expected excluded actual = Inr d"
  shows "((\<forall>e \<in> set expected. \<exists>a \<in> set actual. test_matches e a) \<longrightarrow> Missing d = []) \<and>
    ((\<forall>a \<in> set actual. \<exists>e \<in> set expected. test_matches e a) \<longrightarrow> Extra d = [])"
proof -
  from assms(3) obtain ks em am where p: "metricKeyMap de expected ks = Inr em" "metricKeyMap de actual ks = Inr am"
    "Missing d = fst (disjunct em am)" "Extra d = snd (disjunct em am)" by (rule DiffMetrics_parts)
  have sub: "set (Missing d) \<subseteq> set expected" "set (Extra d) \<subseteq> set actual"
    using metricKeyMap_keys [OF p(1)] metricKeyMap_keys [OF p(2)] disjunct_keys [of _ em am] p(3,4) by fastforce+
  have "e \<notin> set (Missing d) \<and> a \<notin> set (Extra d)" if "e \<in> set expected" "a \<in> set actual" "test_matches e a" for e a
    using DiffMetrics_matched [OF assms(1) that(1) _ that(2,3) assms(3)] assms(2) that(1) by (simp add: list_all_iff)
  with sub show ?thesis by (metis list.set_intros(1) neq_Nil_conv subset_iff)
qed

text \<open>
  A negated tag with a value is only met by a metric without the tag: the key of the expectation prints its own
  (empty) value, the key of a metric with another value prints that one.
\<close>

definition negated_expected :: test_metric where
  "negated_expected = \<lparr> tmName = ''m'', tmValue = [], tmTimestamp = [], tmTags = [(''!foo'', ''bar'')] \<rparr>"

definition other_received :: test_metric where
  "other_received = \<lparr> tmName = ''m'', tmValue = ''1'', tmTimestamp = [], tmTags = [(''foo'', ''other'')] \<rparr>"

lemma fullTagKey_negated:
  "fullTagKey de ''!foo'' ''bar'' = Inr (\<lambda>m. (get_str (tmTags m) ''foo'' \<noteq> ''bar'', ''foo!='' @ deQuote de (get_str (tmTags m) ''foo'')))"
  by (simp add: fullTagKey_def TrimPrefix_def HasPrefix_def removeFirst_def Let_def cong: if_cong)

lemma negated_keyer:
  "metricKeyer de negated_expected = Inr (compositeKey [nameKey ''m'', compositeKey
     [\<lambda>m. (get_str (tmTags m) ''foo'' \<noteq> ''bar'', ''foo!='' @ deQuote de (get_str (tmTags m) ''foo''))]])"
  by (simp add: metricKeyer_def negated_expected_def tagsKey_def fullTagKey_negated get_str_def)

lemma negated_value_missing:
  assumes "deQuote de [] \<noteq> deQuote de ''other''"
  shows "\<exists>d. DiffMetrics de [negated_expected] [] [other_received] = Inr d \<and> Missing d = [negated_expected] \<and> Extra d = [other_received]"
proof -
  define k where "k = compositeKey [nameKey ''m'', compositeKey
     [\<lambda>m. (get_str (tmTags m) ''foo'' \<noteq> ''bar'', ''foo!='' @ deQuote de (get_str (tmTags m) ''foo''))]]"
  have n: "tmName negated_expected = ''m''" "tmName other_received = ''m''"
    by (simp_all add: negated_expected_def other_received_def)
  have k: "metricKeyer de negated_expected = Inr k" by (simp add: negated_keyer k_def)
  have ke: "k negated_expected = (True, ''m foo!='' @ deQuote de [])"
    and ka: "k other_received = (True, ''m foo!='' @ deQuote de ''other'')"
    by (simp_all add: k_def compositeKey_def nameKey_def negated_expected_def other_received_def get_str_def)
  have "fullTagKey de ''foo'' ''other'' = Inr (\<lambda>m. (get_str (tmTags m) ''foo'' = ''other'', ''foo='' @ deQuote de (get_str (tmTags m) ''foo'')))"
    by (simp add: fullTagKey_def TrimPrefix_def HasPrefix_def Let_def)
  then have "\<exists>tk. tagsKey de (tmTags other_received) = Inr tk" by (simp add: other_received_def tagsKey_def get_str_def)
  then obtain k' where k': "metricKeyer de other_received = Inr k'" by (auto simp: metricKeyer_def)
  have d: "disjunct [(x, negated_expected)] [(y, other_received)] = ([negated_expected], [other_received])" if "x \<noteq> y" for x y
    using that by (auto simp: disjunct_def)
  show ?thesis
    using k k' ke ka n d assms
    by (simp add: DiffMetrics_def metricKeyers_def metricKeyMap_def metricKey_def keyersOf_def)
qed

section \<open>Handlers\<close>

definition ParseMetric :: "string \<Rightarrow> test_metric option go_result" where
  "ParseMetric line =
     (case parseLine line of
        Inl e \<Rightarrow> Inl e
      | Inr g \<Rightarrow> if mgHistogram g then Inr None
                 else Inr (Some \<lparr> tmName = mgName g, tmValue = mgValue g, tmTimestamp = mgTimestamp g, tmTags = mgTags g \<rparr>))"

definition incomingLine :: "string \<Rightarrow> metric_store \<Rightarrow> metric_store" where
  "incomingLine line store =
     (if length line = 0 then store
      else case ParseMetric line of
             Inl err \<Rightarrow> LogBadMetric line store
           | Inr None \<Rightarrow> store
           | Inr (Some m) \<Rightarrow> if length (tmTags m) > 20 then store else LogMetric m store)"

text \<open>The lines are what the scanner of the connection yields. An error of the scanner is only logged.\<close>

definition HandleIncomingMetrics :: "string list \<Rightarrow> metric_store \<Rightarrow> metric_store" where
  "HandleIncomingMetrics lines store = fold incomingLine lines store"

datatype reply_body = NoBody | BadMetricsBody "string list" | MetricsBody "test_metric list" | ErrorBody string | DiffBody metrics_diff

record reply =
  rpStatus :: nat
  rpBody :: reply_body

definition BadMetrics :: "metric_store \<Rightarrow> string list" where
  "BadMetrics s = msBadMetrics s"

definition DumpMetricsHandler :: "metric_store \<Rightarrow> string \<Rightarrow> reply" where
  "DumpMetricsHandler store reqMethod =
     (if reqMethod \<noteq> ''GET'' then \<lparr> rpStatus = 405, rpBody = NoBody \<rparr>
      else let badMetrics = BadMetrics store in
           if length badMetrics > 0 then \<lparr> rpStatus = 422, rpBody = BadMetricsBody badMetrics \<rparr>
           else \<lparr> rpStatus = 200, rpBody = MetricsBody (msMetrics store) \<rparr>)"

text \<open>
  \<open>decode\<close> is \<^verbatim>\<open>decodeMetric\<close>, JSON decoding into a pointer: an error, or a metric that is nil for the input \<open>null\<close>.
\<close>

fun diffLines :: "(string \<Rightarrow> string + test_metric option) \<Rightarrow> string list \<Rightarrow> test_metric option list \<Rightarrow> test_metric option list \<Rightarrow>
    string + test_metric option list \<times> test_metric option list" where
  "diffLines decode [] expected excluded = Inr (expected, excluded)"
| "diffLines decode ([] # lines) expected excluded = diffLines decode lines expected excluded"
| "diffLines decode ((c # cs) # lines) expected excluded =
     (if c = CHR ''~'' then
        (case decode cs of Inl e \<Rightarrow> Inl e | Inr m \<Rightarrow> diffLines decode lines expected (excluded @ [m]))
      else
        (case decode (c # cs) of Inl e \<Rightarrow> Inl e | Inr m \<Rightarrow> diffLines decode lines (expected @ [m]) excluded))"

text \<open>The comparison reads a field of every pointer of the two lists.\<close>

fun derefAll :: "'a option list \<Rightarrow> 'a list go_result" where
  "derefAll [] = Inr []"
| "derefAll (None # ps) = Inl (GoPanic ''nil pointer dereference'')"
| "derefAll (Some x # ps) = (case derefAll ps of Inl e \<Rightarrow> Inl e | Inr xs \<Rightarrow> Inr (x # xs))"

text \<open>
  A request is its method, the lines that the scanner yields, and the error of the scanner. A panic ends the request;
  the server recovers from it, and the status has been written before.
\<close>

definition DiffMetricsHandler :: "diff_env \<Rightarrow> (string \<Rightarrow> string + test_metric option) \<Rightarrow> metric_store \<Rightarrow> string \<Rightarrow> string list \<Rightarrow> string option \<Rightarrow> reply go_result" where
  "DiffMetricsHandler de decode store reqMethod lines scanErr =
     (if reqMethod \<noteq> ''POST'' then Inr \<lparr> rpStatus = 405, rpBody = NoBody \<rparr>
      else let badMetrics = BadMetrics store in
      if length badMetrics > 0 then Inr \<lparr> rpStatus = 422, rpBody = BadMetricsBody badMetrics \<rparr>
      else case diffLines decode lines [] [] of
        Inl err \<Rightarrow> Inr \<lparr> rpStatus = 400, rpBody = ErrorBody err \<rparr>
      | Inr (expected, excluded) \<Rightarrow>
          (case scanErr of
             Some err \<Rightarrow> Inr \<lparr> rpStatus = 400, rpBody = ErrorBody err \<rparr>
           | None \<Rightarrow>
               (case derefAll expected of Inl e \<Rightarrow> Inl e | Inr es \<Rightarrow>
               (case derefAll excluded of Inl e \<Rightarrow> Inl e | Inr xs \<Rightarrow>
               (case DiffMetrics de es xs (msMetrics store) of
                  Inl e \<Rightarrow> Inl e
                | Inr d \<Rightarrow> Inr \<lparr> rpStatus = 200, rpBody = DiffBody d \<rparr>)))))"

text \<open>What becomes of a line.\<close>

definition acceptedLine :: "string \<Rightarrow> test_metric option" where
  "acceptedLine line =
     (case parseLine line of
        Inr g \<Rightarrow> if line \<noteq> [] \<and> \<not> mgHistogram g \<and> length (mgTags g) \<le> 20
                 then Some \<lparr> tmName = mgName g, tmValue = mgValue g, tmTimestamp = mgTimestamp g, tmTags = mgTags g \<rparr> else None
      | Inl _ \<Rightarrow> None)"

definition badLine :: "string \<Rightarrow> bool" where
  "badLine line \<longleftrightarrow> line \<noteq> [] \<and> isl (parseLine line)"

lemma incomingLine_effect:
  "msMetrics (incomingLine line s) = msMetrics s @ List.map_filter acceptedLine [line]"
  "msBadMetrics (incomingLine line s) = msBadMetrics s @ filter badLine [line]"
  by (auto simp: incomingLine_def ParseMetric_def acceptedLine_def badLine_def LogMetric_def LogBadMetric_def List.map_filter_def
      split: sum.split)

lemma HandleIncomingMetrics_effect:
  "msMetrics (HandleIncomingMetrics lines s) = msMetrics s @ List.map_filter acceptedLine lines \<and>
   msBadMetrics (HandleIncomingMetrics lines s) = msBadMetrics s @ filter badLine lines"
proof (induction lines arbitrary: s)
  case (Cons line lines)
  have "HandleIncomingMetrics (line # lines) s = HandleIncomingMetrics lines (incomingLine line s)"
    by (simp add: HandleIncomingMetrics_def)
  with Cons.IH [of "incomingLine line s"] show ?case
    by (auto simp: incomingLine_effect List.map_filter_def split: option.splits)
qed (simp add: HandleIncomingMetrics_def List.map_filter_def)

lemma mset_map_filter: "mset xs = mset ys \<Longrightarrow> mset (List.map_filter f xs) = mset (List.map_filter f ys)"
  by (simp add: List.map_filter_def)

text \<open>
  The lines of two connections arrive in any interleaving. What is stored of them, and which lines are bad, does not
  depend on it, up to the order.
\<close>

theorem HandleIncomingMetrics_interleaving:
  assumes "lines \<in> shuffles xs ys"
  shows "mset (msMetrics (HandleIncomingMetrics lines s)) = mset (msMetrics (HandleIncomingMetrics ys (HandleIncomingMetrics xs s))) \<and>
    mset (msBadMetrics (HandleIncomingMetrics lines s)) = mset (msBadMetrics (HandleIncomingMetrics ys (HandleIncomingMetrics xs s)))"
proof -
  have "mset lines = mset (xs @ ys)" using mset_shuffles [OF assms] by simp
  from mset_map_filter [OF this, of acceptedLine] this show ?thesis
    by (simp add: HandleIncomingMetrics_effect List.map_filter_def)
qed

text \<open>One line that cannot be parsed makes every later comparison fail: the answer is 422 until the proxy is restarted.\<close>

lemma badLine_sticky:
  assumes "line \<in> set lines" "badLine line"
  shows "\<exists>bad. DiffMetricsHandler de decode (HandleIncomingMetrics later (HandleIncomingMetrics lines s)) ''POST'' req scanErr =
    Inr \<lparr> rpStatus = 422, rpBody = BadMetricsBody bad \<rparr> \<and> line \<in> set bad"
proof -
  define bad where "bad = msBadMetrics (HandleIncomingMetrics later (HandleIncomingMetrics lines s))"
  from assms have l: "line \<in> set bad" by (simp add: bad_def HandleIncomingMetrics_effect)
  then have "length bad > 0" by (cases bad) simp_all
  with l show ?thesis by (simp add: DiffMetricsHandler_def BadMetrics_def Let_def flip: bad_def)
qed

text \<open>A metric with more than twenty tags leaves no trace: it is neither stored nor bad.\<close>

lemma too_many_tags_lost:
  "parseLine line = Inr g \<Longrightarrow> \<not> mgHistogram g \<Longrightarrow> length (mgTags g) > 20 \<Longrightarrow> HandleIncomingMetrics [line] s = s"
  by (simp add: HandleIncomingMetrics_def incomingLine_def ParseMetric_def)

text \<open>A printed line is stored as the metric it prints.\<close>

lemma printed_line_stored:
  assumes "parseLine line = Inr g" "\<not> mgHistogram g" "line \<noteq> []" "length (mgTags g) \<le> 20"
  shows "msMetrics (HandleIncomingMetrics (lines @ [line]) s) =
    msMetrics (HandleIncomingMetrics lines s) @ [\<lparr> tmName = mgName g, tmValue = mgValue g, tmTimestamp = mgTimestamp g, tmTags = mgTags g \<rparr>]"
  using assms by (simp add: HandleIncomingMetrics_effect List.map_filter_def acceptedLine_def)

end
