(* ===== verification/Test_Logs.thy ===== *)
theory Test_Logs
  imports Test_Proxy
begin

text \<open>
  The log part of the stand-in proxy (\<^verbatim>\<open>internal/testproxy/logs\<close> and the log handlers): the results that
  the requests accumulate, the verification of the format and of the tags of log lines, and what a
  history of requests leaves in the results. JSON decoding is a parameter. The sets of tags are maps
  with nil values in the code.
\<close>

section \<open>Results\<close>

datatype json = JNull | JString string | JObject "(string, json) gomap" | JOther nat

record log_results =
  lrHasValidFormat :: int
  lrHasValidTags :: int
  lrMissingExpectedTags :: "string set"
  lrMissingExpectedTagsCount :: nat
  lrEmptyExpectedTags :: "string set"
  lrEmptyExpectedTagsCount :: nat
  lrUnexpectedAllowedLogs :: "json list"
  lrUnexpectedAllowedLogsCount :: nat
  lrUnexpectedDeniedTags :: "string set"
  lrUnexpectedDeniedTagsCount :: nat
  lrReceivedLogCount :: nat

definition NewLogResults :: log_results where
  "NewLogResults = \<lparr> lrHasValidFormat = - 1, lrHasValidTags = - 1, lrMissingExpectedTags = {}, lrMissingExpectedTagsCount = 0,
     lrEmptyExpectedTags = {}, lrEmptyExpectedTagsCount = 0, lrUnexpectedAllowedLogs = [], lrUnexpectedAllowedLogsCount = 0,
     lrUnexpectedDeniedTags = {}, lrUnexpectedDeniedTagsCount = 0, lrReceivedLogCount = 0 \<rparr>"

definition SetHasValidFormat :: "bool \<Rightarrow> log_results \<Rightarrow> log_results" where
  "SetHasValidFormat v r = (if lrHasValidFormat r = 0 then r else r \<lparr> lrHasValidFormat := (if v then 1 else 0) \<rparr>)"

definition SetHasValidTags :: "bool \<Rightarrow> log_results \<Rightarrow> log_results" where
  "SetHasValidTags v r = (if lrHasValidTags r = 0 then r else r \<lparr> lrHasValidTags := (if v then 1 else 0) \<rparr>)"

definition AddMissingExpectedTag :: "string \<Rightarrow> log_results \<Rightarrow> log_results" where
  "AddMissingExpectedTag t r = r \<lparr> lrMissingExpectedTags := insert t (lrMissingExpectedTags r) \<rparr>"

definition AddEmptyExpectedTag :: "string \<Rightarrow> log_results \<Rightarrow> log_results" where
  "AddEmptyExpectedTag t r = r \<lparr> lrEmptyExpectedTags := insert t (lrEmptyExpectedTags r) \<rparr>"

definition AddUnexpectedAllowedLog :: "json \<Rightarrow> log_results \<Rightarrow> log_results" where
  "AddUnexpectedAllowedLog l r = r \<lparr> lrUnexpectedAllowedLogs := lrUnexpectedAllowedLogs r @ [l] \<rparr>"

definition AddUnexpectedDeniedTag :: "string \<Rightarrow> log_results \<Rightarrow> log_results" where
  "AddUnexpectedDeniedTag t r = r \<lparr> lrUnexpectedDeniedTags := insert t (lrUnexpectedDeniedTags r) \<rparr>"

definition IncrementMissingExpectedTagsCount :: "log_results \<Rightarrow> log_results" where
  "IncrementMissingExpectedTagsCount r = r \<lparr> lrMissingExpectedTagsCount := lrMissingExpectedTagsCount r + 1 \<rparr>"

definition IncrementEmptyExpectedTagsCount :: "log_results \<Rightarrow> log_results" where
  "IncrementEmptyExpectedTagsCount r = r \<lparr> lrEmptyExpectedTagsCount := lrEmptyExpectedTagsCount r + 1 \<rparr>"

definition IncrementUnexpectedAllowedLogsCount :: "log_results \<Rightarrow> log_results" where
  "IncrementUnexpectedAllowedLogsCount r = r \<lparr> lrUnexpectedAllowedLogsCount := lrUnexpectedAllowedLogsCount r + 1 \<rparr>"

definition IncrementUnexpectedDeniedTagsCount :: "log_results \<Rightarrow> log_results" where
  "IncrementUnexpectedDeniedTagsCount r = r \<lparr> lrUnexpectedDeniedTagsCount := lrUnexpectedDeniedTagsCount r + 1 \<rparr>"

definition AddReceivedCount :: "nat \<Rightarrow> log_results \<Rightarrow> log_results" where
  "AddReceivedCount n r = r \<lparr> lrReceivedLogCount := lrReceivedLogCount r + n \<rparr>"

section \<open>The verifier\<close>

record log_verifier =
  lvExpectedTags :: "string list"
  lvAllowList :: "(string, string list) gomap"
  lvDenyList :: "(string, string list) gomap"

definition NewLogVerifier :: "string list \<Rightarrow> (string, string list) gomap \<Rightarrow> (string, string list) gomap \<Rightarrow> log_verifier" where
  "NewLogVerifier expectedTags allowList denyList =
     \<lparr> lvExpectedTags = expectedTags, lvAllowList = allowList, lvDenyList = denyList \<rparr>"

text \<open>\<open>unmarshal\<close> decodes a JSON array. A nil result is the empty list.\<close>

definition VerifyJsonArrayFormat :: "(string \<Rightarrow> json list option) \<Rightarrow> string \<Rightarrow> log_results \<Rightarrow> json list \<times> log_results" where
  "VerifyJsonArrayFormat unmarshal data r =
     (if length data = 0 then ([], SetHasValidFormat False r)
      else if hd data \<noteq> CHR ''['' then ([], SetHasValidFormat False r)
      else (case unmarshal data of
              None \<Rightarrow> ([], SetHasValidFormat False r)
            | Some logLines \<Rightarrow>
                if length logLines = 0 then ([], SetHasValidFormat False r)
                else (logLines, SetHasValidFormat True (AddReceivedCount (length logLines) r))))"

text \<open>
  \<open>decodeLines\<close> gives the values that the decoder yields, each an error (\<open>None\<close>) or a value. A value that
  is not an object panics, which the HTTP server recovers from: the request ends without a result.
\<close>

fun decodeLoop :: "json option list \<Rightarrow> json list \<Rightarrow> log_results \<Rightarrow> json list go_result \<times> log_results" where
  "decodeLoop [] logLines r = (Inr logLines, AddReceivedCount (length logLines) (SetHasValidFormat True r))"
| "decodeLoop (None # rest) logLines r = (Inr [], SetHasValidFormat False r)"
| "decodeLoop (Some (JObject m) # rest) logLines r =
     (if length m = 0 then (Inr [], SetHasValidFormat False r) else decodeLoop rest (logLines @ [JObject m]) r)"
| "decodeLoop (Some _ # rest) logLines r = (Inl (GoPanic ''interface conversion''), r)"

definition VerifyJsonLinesFormat :: "(string \<Rightarrow> json option list) \<Rightarrow> string \<Rightarrow> log_results \<Rightarrow> json list go_result \<times> log_results" where
  "VerifyJsonLinesFormat decodeLines line r =
     (if length line = 0 then (Inr [], SetHasValidFormat False r)
      else if hd line \<noteq> CHR ''{'' then (Inr [], SetHasValidFormat False r)
      else decodeLoop (decodeLines line) [] r)"

text \<open>Every log line has to be an object; the type assertion panics otherwise.\<close>

fun eachLine :: "((string, json) gomap \<Rightarrow> json \<Rightarrow> bool \<times> log_results \<Rightarrow> bool \<times> log_results) \<Rightarrow> json list \<Rightarrow> bool \<Rightarrow> log_results \<Rightarrow> unit go_result \<times> log_results" where
  "eachLine f [] valid r = (Inr (), SetHasValidTags valid r)"
| "eachLine f (JObject tags # rest) valid r = (let (valid', r') = f tags (JObject tags) (valid, r) in eachLine f rest valid' r')"
| "eachLine f (_ # rest) valid r = (Inl (GoPanic ''interface conversion''), r)"

definition expectedTag :: "(string, json) gomap \<Rightarrow> string \<Rightarrow> bool \<times> log_results \<Rightarrow> bool \<times> log_results" where
  "expectedTag logTags tag = (\<lambda>(valid, r).
     (case map_of logTags tag of
        Some tagVal \<Rightarrow>
          if tagVal = JNull \<or> tagVal = JString [] then (False, IncrementEmptyExpectedTagsCount (AddEmptyExpectedTag tag r)) else (valid, r)
      | None \<Rightarrow> (False, IncrementMissingExpectedTagsCount (AddMissingExpectedTag tag r))))"

definition ValidateExpectedTags :: "log_verifier \<Rightarrow> json list \<Rightarrow> log_results \<Rightarrow> unit go_result \<times> log_results" where
  "ValidateExpectedTags l logLines r =
     eachLine (\<lambda>logTags _. fold (expectedTag logTags) (lvExpectedTags l)) logLines True r"

definition foundAllowedTag :: "log_verifier \<Rightarrow> (string, json) gomap \<Rightarrow> bool" where
  "foundAllowedTag l logTags =
     list_ex (\<lambda>(tagKey, tagVal).
       case map_of (lvAllowList l) tagKey of
         Some allowedVals \<Rightarrow> list_ex (\<lambda>allowedVal. tagVal = JString allowedVal) allowedVals
       | None \<Rightarrow> False) logTags"

definition ValidateAllowedTags :: "log_verifier \<Rightarrow> json list \<Rightarrow> log_results \<Rightarrow> unit go_result \<times> log_results" where
  "ValidateAllowedTags l logLines r =
     eachLine (\<lambda>logTags logLine (valid, r).
       (valid \<and> foundAllowedTag l logTags,
        if foundAllowedTag l logTags then r else IncrementUnexpectedAllowedLogsCount (AddUnexpectedAllowedLog logLine r))) logLines True r"

definition deniedVal :: "string \<Rightarrow> json \<Rightarrow> string \<Rightarrow> bool \<times> log_results \<Rightarrow> bool \<times> log_results" where
  "deniedVal key tagVal denyVal = (\<lambda>(valid, r).
     if tagVal = JString denyVal then (False, IncrementUnexpectedDeniedTagsCount (AddUnexpectedDeniedTag (key @ '':'' @ denyVal) r))
     else (valid, r))"

definition deniedKey :: "(string, json) gomap \<Rightarrow> string \<times> string list \<Rightarrow> bool \<times> log_results \<Rightarrow> bool \<times> log_results" where
  "deniedKey logTags = (\<lambda>(key, vals) vr.
     (case map_of logTags key of Some tagVal \<Rightarrow> fold (deniedVal key tagVal) vals vr | None \<Rightarrow> vr))"

definition ValidateDeniedTags :: "log_verifier \<Rightarrow> json list \<Rightarrow> log_results \<Rightarrow> unit go_result \<times> log_results" where
  "ValidateDeniedTags l logLines r =
     eachLine (\<lambda>logTags _. fold (deniedKey logTags) (lvDenyList l)) logLines True r"

section \<open>Handlers\<close>

text \<open>The three checks of the tags, up to a panic.\<close>

definition validateTags :: "log_verifier \<Rightarrow> json list \<Rightarrow> log_results \<Rightarrow> nat go_result \<times> log_results" where
  "validateTags l logLines r =
     (case ValidateExpectedTags l logLines r of
        (Inl e, r1) \<Rightarrow> (Inl e, r1)
      | (Inr _, r1) \<Rightarrow>
          (case ValidateAllowedTags l logLines r1 of
             (Inl e, r2) \<Rightarrow> (Inl e, r2)
           | (Inr _, r2) \<Rightarrow>
               (case ValidateDeniedTags l logLines r2 of
                  (Inl e, r3) \<Rightarrow> (Inl e, r3)
                | (Inr _, r3) \<Rightarrow> (Inr 200, r3))))"

text \<open>
  The status of the answer. The body is \<open>None\<close> when reading it fails, which ends the process.
\<close>

definition LogJsonArrayHandler :: "(string \<Rightarrow> json list option) \<Rightarrow> log_verifier \<Rightarrow> string option \<Rightarrow> log_results \<Rightarrow> nat go_result \<times> log_results" where
  "LogJsonArrayHandler unmarshal l body r =
     (case body of
        None \<Rightarrow> (Inl (Errorf ''Fatal''), r)
      | Some b \<Rightarrow>
          (let (logLines, r1) = VerifyJsonArrayFormat unmarshal b r in
           if length logLines = 0 then (Inr 200, r1) else validateTags l logLines r1))"

definition LogJsonLinesHandler :: "(string \<Rightarrow> json option list) \<Rightarrow> log_verifier \<Rightarrow> string option \<Rightarrow> log_results \<Rightarrow> nat go_result \<times> log_results" where
  "LogJsonLinesHandler decodeLines l body r =
     (case body of
        None \<Rightarrow> (Inl (Errorf ''Fatal''), r)
      | Some b \<Rightarrow>
          (case VerifyJsonLinesFormat decodeLines b r of
             (Inl e, r1) \<Rightarrow> (Inl e, r1)
           | (Inr logLines, r1) \<Rightarrow> if length logLines = 0 then (Inr 200, r1) else validateTags l logLines r1))"

text \<open>The answer: its status, and the results if they were marshalled. \<open>marshalOk\<close> says whether marshalling succeeds.\<close>

definition LogAssertionHandler :: "bool \<Rightarrow> log_results \<Rightarrow> string \<Rightarrow> nat \<times> log_results option" where
  "LogAssertionHandler marshalOk store reqMethod =
     (if reqMethod \<noteq> ''GET'' then (405, None)
      else if lrReceivedLogCount store = 0 then (204, None)
      else if \<not> marshalOk then (500, None)
      else (200, Some store))"

text \<open>The lists that the proxy is started with, and the server that its mode starts beside the control server.\<close>

definition expectedTags :: "string list" where
  "expectedTags = [''user_defined_tag'', ''service'', ''application'', ''source'', ''cluster'', ''timestamp'', ''pod_name'',
     ''container_name'', ''namespace_name'', ''pod_id'', ''container_id'', ''integration'']"

definition allowListFilteredTags :: "(string, string list) gomap" where
  "allowListFilteredTags = [(''namespace_name'', [''kube-system'', ''observability-system''])]"

definition denyListFilteredTags :: "(string, string list) gomap" where
  "denyListFilteredTags = [(''container_name'', [''kube-apiserver''])]"

definition serveLogs :: "log_verifier" where
  "serveLogs = NewLogVerifier expectedTags allowListFilteredTags denyListFilteredTags"

datatype proxy_server = MetricsServer | LogsServer log_verifier

definition proxyServer :: "string \<Rightarrow> proxy_server go_result" where
  "proxyServer runMode =
     (if runMode = ''metrics'' then Inr MetricsServer
      else if runMode = ''logs'' then Inr (LogsServer serveLogs)
      else Inl (Errorf ''mode flag must be set to: metrics or logs''))"

section \<open>What the checks of the tags keep\<close>

text \<open>
  The results change through few operations only. A relation between results before and after that these operations
  respect holds of all checks, whether they finish or panic.
\<close>

locale results_relation =
  fixes R :: "log_results \<Rightarrow> log_results \<Rightarrow> bool"
  assumes R_refl: "R r r"
    and R_trans: "R r r' \<Longrightarrow> R r' r'' \<Longrightarrow> R r r''"
    and R_tags: "R r (SetHasValidTags v r)"
    and R_empty: "R r (IncrementEmptyExpectedTagsCount (AddEmptyExpectedTag t r))"
    and R_missing: "R r (IncrementMissingExpectedTagsCount (AddMissingExpectedTag t r))"
    and R_allowed: "R r (IncrementUnexpectedAllowedLogsCount (AddUnexpectedAllowedLog j r))"
    and R_denied: "R r (IncrementUnexpectedDeniedTagsCount (AddUnexpectedDeniedTag t r))"
begin

lemma fold_rel: "(\<And>x v r. R r (snd (g x (v, r)))) \<Longrightarrow> R r (snd (fold g xs (v, r)))"
proof (induction xs arbitrary: v r)
  case (Cons x xs)
  obtain v' r' where g: "g x (v, r) = (v', r')" by (cases "g x (v, r)")
  with Cons.prems [of r x v] have "R r r'" by simp
  with Cons.IH [OF Cons.prems, of r' v'] g show ?case by (auto intro: R_trans)
qed (simp add: R_refl)

lemma eachLine_rel: "(\<And>tags j v r. R r (snd (f tags j (v, r)))) \<Longrightarrow> R r (snd (eachLine f ls v r))"
proof (induction f ls v r rule: eachLine.induct)
  case (2 f tags rest v r)
  obtain v' r' where f: "f tags (JObject tags) (v, r) = (v', r')" by (cases "f tags (JObject tags) (v, r)")
  with "2.prems" [of r tags "JObject tags" v] have "R r r'" by simp
  with "2.IH" [OF f [symmetric] refl "2.prems"] f show ?case by (auto intro: R_trans)
qed (simp_all add: R_refl R_tags)

lemma ValidateExpectedTags_rel: "R r (snd (ValidateExpectedTags l ls r))"
  unfolding ValidateExpectedTags_def
  by (intro eachLine_rel fold_rel) (auto simp: expectedTag_def R_refl R_empty R_missing split: option.split)

lemma ValidateAllowedTags_rel: "R r (snd (ValidateAllowedTags l ls r))"
  unfolding ValidateAllowedTags_def by (intro eachLine_rel) (simp add: R_refl R_allowed)

lemma deniedKey_rel: "R r (snd (deniedKey tags k (v, r)))"
proof (cases k)
  case (Pair key vals)
  have "R r (snd (fold (deniedVal key j) vals (v, r)))" for j
    by (intro fold_rel) (simp add: deniedVal_def R_refl R_denied)
  then show ?thesis using Pair by (simp add: deniedKey_def R_refl split: option.split)
qed

lemma ValidateDeniedTags_rel: "R r (snd (ValidateDeniedTags l ls r))"
  unfolding ValidateDeniedTags_def by (intro eachLine_rel fold_rel deniedKey_rel)

lemma validateTags_rel: "R r (snd (validateTags l ls r))"
proof -
  obtain e1 r1 where 1: "ValidateExpectedTags l ls r = (e1, r1)" by (cases "ValidateExpectedTags l ls r")
  obtain e2 r2 where 2: "ValidateAllowedTags l ls r1 = (e2, r2)" by (cases "ValidateAllowedTags l ls r1")
  obtain e3 r3 where 3: "ValidateDeniedTags l ls r2 = (e3, r3)" by (cases "ValidateDeniedTags l ls r2")
  have "R r r1" "R r1 r2" "R r2 r3"
    using ValidateExpectedTags_rel [of r l ls] ValidateAllowedTags_rel [of r1 l ls] ValidateDeniedTags_rel [of r2 l ls] 1 2 3 by simp_all
  with 1 2 3 show ?thesis by (auto simp: validateTags_def split: sum.split intro: R_trans)
qed

end

lemmas results_defs = SetHasValidTags_def AddMissingExpectedTag_def AddEmptyExpectedTag_def AddUnexpectedAllowedLog_def
  AddUnexpectedDeniedTag_def IncrementMissingExpectedTagsCount_def IncrementEmptyExpectedTagsCount_def
  IncrementUnexpectedAllowedLogsCount_def IncrementUnexpectedDeniedTagsCount_def

text \<open>The checks of the tags leave the format and the number of received lines alone.\<close>

definition same_format :: "log_results \<Rightarrow> log_results \<Rightarrow> bool" where
  "same_format r r' \<longleftrightarrow> lrHasValidFormat r' = lrHasValidFormat r \<and> lrReceivedLogCount r' = lrReceivedLogCount r"

interpretation fmt: results_relation same_format
  by unfold_locales (simp_all add: same_format_def results_defs)

text \<open>The counts count at least what is listed, and the tags that were found invalid once stay invalid.\<close>

definition counted :: "log_results \<Rightarrow> bool" where
  "counted r \<longleftrightarrow> finite (lrMissingExpectedTags r) \<and> card (lrMissingExpectedTags r) \<le> lrMissingExpectedTagsCount r \<and>
     finite (lrEmptyExpectedTags r) \<and> card (lrEmptyExpectedTags r) \<le> lrEmptyExpectedTagsCount r \<and>
     finite (lrUnexpectedDeniedTags r) \<and> card (lrUnexpectedDeniedTags r) \<le> lrUnexpectedDeniedTagsCount r \<and>
     length (lrUnexpectedAllowedLogs r) = lrUnexpectedAllowedLogsCount r"

definition keeps_counted :: "log_results \<Rightarrow> log_results \<Rightarrow> bool" where
  "keeps_counted r r' \<longleftrightarrow> (counted r \<longrightarrow> counted r') \<and> (lrHasValidTags r = 0 \<longrightarrow> lrHasValidTags r' = 0)"

interpretation cnt: results_relation keeps_counted
  by unfold_locales (auto simp: keeps_counted_def counted_def results_defs card_insert_if)

section \<open>A history of requests\<close>

datatype log_request = ArrayRequest string | LinesRequest string

record log_env =
  leUnmarshal :: "string \<Rightarrow> json list option"
  leDecodeLines :: "string \<Rightarrow> json option list"

fun logRequest :: "log_env \<Rightarrow> log_verifier \<Rightarrow> log_request \<Rightarrow> log_results \<Rightarrow> log_results" where
  "logRequest le l (ArrayRequest b) r = snd (LogJsonArrayHandler (leUnmarshal le) l (Some b) r)"
| "logRequest le l (LinesRequest b) r = snd (LogJsonLinesHandler (leDecodeLines le) l (Some b) r)"

text \<open>
  What a request says about the format: \<open>Some n\<close> for \<open>n\<close> valid lines, \<open>Some 0\<close> for an invalid body, and \<open>None\<close>
  where a line is not an object, so that the handler panics before it has a verdict.
\<close>

fun linesVerdict :: "json option list \<Rightarrow> nat \<Rightarrow> nat option" where
  "linesVerdict [] n = Some n"
| "linesVerdict (Some (JObject m) # rest) n = (if m = [] then Some 0 else linesVerdict rest (n + 1))"
| "linesVerdict (None # rest) n = Some 0"
| "linesVerdict (Some _ # rest) n = None"

fun verdict :: "log_env \<Rightarrow> log_request \<Rightarrow> nat option" where
  "verdict le (ArrayRequest b) =
     Some (if b = [] \<or> hd b \<noteq> CHR ''['' then 0 else case leUnmarshal le b of None \<Rightarrow> 0 | Some ls \<Rightarrow> length ls)"
| "verdict le (LinesRequest b) =
     (if b = [] \<or> hd b \<noteq> CHR ''{'' then Some 0 else linesVerdict (leDecodeLines le b) 0)"

definition verdicts :: "log_env \<Rightarrow> log_request list \<Rightarrow> nat list" where
  "verdicts le reqs = List.map_filter (verdict le) reqs"

definition note_verdict :: "nat option \<Rightarrow> log_results \<Rightarrow> log_results \<Rightarrow> bool" where
  "note_verdict v r r' \<longleftrightarrow>
     lrHasValidFormat r' = (if v = None \<or> lrHasValidFormat r = 0 then lrHasValidFormat r else if v = Some 0 then 0 else 1) \<and>
     lrReceivedLogCount r' = lrReceivedLogCount r + (case v of Some n \<Rightarrow> n | None \<Rightarrow> 0)"

lemma note_verdict_tags: "note_verdict v r r' \<Longrightarrow> note_verdict v r (snd (validateTags l ls r'))"
  using fmt.validateTags_rel [of r' l ls] by (simp add: note_verdict_def same_format_def)

lemma VerifyJsonArrayFormat_verdict:
  "note_verdict (verdict le (ArrayRequest b)) r (snd (VerifyJsonArrayFormat (leUnmarshal le) b r))"
  by (auto simp: VerifyJsonArrayFormat_def note_verdict_def SetHasValidFormat_def AddReceivedCount_def split: option.split)

lemma decodeLoop_verdict:
  "length acc + length vs > 0 \<Longrightarrow> note_verdict (linesVerdict vs (length acc)) r (snd (decodeLoop vs acc r))"
proof (induction vs acc r rule: decodeLoop.induct)
  case (3 m rest acc r)
  then show ?case by (simp add: note_verdict_def SetHasValidFormat_def)
qed (auto simp: note_verdict_def SetHasValidFormat_def AddReceivedCount_def)

text \<open>The decoder yields at least one value, or an error, for a body that starts with a brace.\<close>

definition yields :: "log_env \<Rightarrow> bool" where
  "yields le \<longleftrightarrow> (\<forall>b. b \<noteq> [] \<and> hd b = CHR ''{'' \<longrightarrow> leDecodeLines le b \<noteq> [])"

lemma VerifyJsonLinesFormat_verdict:
  assumes "yields le"
  shows "note_verdict (verdict le (LinesRequest b)) r (snd (VerifyJsonLinesFormat (leDecodeLines le) b r))"
proof (cases "b = [] \<or> hd b \<noteq> CHR ''{''")
  case False
  with assms have "leDecodeLines le b \<noteq> []" by (simp add: yields_def)
  then have "note_verdict (linesVerdict (leDecodeLines le b) 0) r (snd (decodeLoop (leDecodeLines le b) [] r))"
    using decodeLoop_verdict [of "[]" "leDecodeLines le b" r] by simp
  with False show ?thesis by (simp add: VerifyJsonLinesFormat_def)
qed (auto simp: VerifyJsonLinesFormat_def note_verdict_def SetHasValidFormat_def)

lemma logRequest_verdict:
  assumes "yields le"
  shows "note_verdict (verdict le req) r (logRequest le l req r)"
proof (cases req)
  case (ArrayRequest b)
  with VerifyJsonArrayFormat_verdict [of le b r] show ?thesis
    by (auto simp: LogJsonArrayHandler_def note_verdict_tags split: prod.split simp del: verdict.simps)
next
  case (LinesRequest b)
  with VerifyJsonLinesFormat_verdict [OF assms, of b r] show ?thesis
    by (auto simp: LogJsonLinesHandler_def note_verdict_tags split: prod.split sum.split simp del: verdict.simps)
qed

text \<open>
  After any history of requests, some of which may have panicked, the format is unknown if there was no verdict, invalid
  if some body was invalid, and valid otherwise; and the number of received lines is the sum over the valid bodies.
\<close>

theorem log_history_format:
  assumes "yields le"
  shows "lrHasValidFormat (fold (logRequest le l) reqs NewLogResults) =
      (if verdicts le reqs = [] then - 1 else if 0 \<in> set (verdicts le reqs) then 0 else 1) \<and>
    lrReceivedLogCount (fold (logRequest le l) reqs NewLogResults) = sum_list (verdicts le reqs)"
proof (induction reqs rule: rev_induct)
  case Nil
  then show ?case by (simp add: NewLogResults_def verdicts_def List.map_filter_def)
next
  case (snoc req reqs)
  let ?r = "fold (logRequest le l) reqs NewLogResults"
  have m: "verdicts le (reqs @ [req]) = verdicts le reqs @ (case verdict le req of None \<Rightarrow> [] | Some n \<Rightarrow> [n])"
    by (simp add: verdicts_def List.map_filter_def split: option.split)
  from logRequest_verdict [OF assms(1), of req ?r l] snoc.IH show ?case
    by (cases "verdict le req") (auto simp: m note_verdict_def split: if_splits)
qed

lemma keeps_counted_format:
  "keeps_counted r (SetHasValidFormat v r)" "keeps_counted r (AddReceivedCount n r)"
  by (simp_all add: keeps_counted_def counted_def SetHasValidFormat_def AddReceivedCount_def)

lemma VerifyJsonArrayFormat_counted: "keeps_counted r (snd (VerifyJsonArrayFormat u b r))"
  by (auto simp: VerifyJsonArrayFormat_def keeps_counted_format split: option.split intro: cnt.R_trans keeps_counted_format)

lemma VerifyJsonLinesFormat_counted: "keeps_counted r (snd (VerifyJsonLinesFormat d b r))"
proof -
  have "keeps_counted r (snd (decodeLoop vs acc r))" for vs acc
    by (induction vs acc r rule: decodeLoop.induct) (auto simp: keeps_counted_format cnt.R_refl intro: cnt.R_trans keeps_counted_format)
  then show ?thesis by (simp add: VerifyJsonLinesFormat_def keeps_counted_format)
qed

lemma logRequest_counted: "keeps_counted r (logRequest le l req r)"
proof (cases req)
  case (ArrayRequest b)
  with VerifyJsonArrayFormat_counted [of r "leUnmarshal le" b] show ?thesis
    by (auto simp: LogJsonArrayHandler_def split: prod.split intro: cnt.R_trans cnt.validateTags_rel)
next
  case (LinesRequest b)
  with VerifyJsonLinesFormat_counted [of r "leDecodeLines le" b] show ?thesis
    by (auto simp: LogJsonLinesHandler_def split: prod.split sum.split intro: cnt.R_trans cnt.validateTags_rel)
qed

lemma log_history_counted: "counted (fold (logRequest le l) reqs NewLogResults)"
proof (induction reqs rule: rev_induct)
  case Nil
  show ?case by (simp add: counted_def NewLogResults_def)
next
  case (snoc req reqs)
  with logRequest_counted [of "fold (logRequest le l) reqs NewLogResults" le l req] show ?case by (simp add: keeps_counted_def)
qed

text \<open>
  The verdict on the tags can be lost: where a line lacks an expected tag and a later line of the same body is not an
  object, the missing tag is counted but the tags still pass for unknown.
\<close>

lemma missing_tag_without_verdict:
  assumes "leUnmarshal le ''[{},1]'' = Some [JObject [], JOther 1]"
  shows "let r = logRequest le (NewLogVerifier [''service''] [] []) (ArrayRequest ''[{},1]'') NewLogResults in
    lrMissingExpectedTagsCount r = 1 \<and> lrHasValidTags r = - 1 \<and> lrHasValidFormat r = 1"
  using assms
  by (simp add: LogJsonArrayHandler_def VerifyJsonArrayFormat_def validateTags_def ValidateExpectedTags_def NewLogVerifier_def
      expectedTag_def results_defs NewLogResults_def SetHasValidFormat_def AddReceivedCount_def)

end
