(* ===== verification/Spec2Isabelle.thy ===== *)
theory Spec2Isabelle
  imports
    Metric_Defs Glob_Filter Wf_Histogram Aggregators Rate_Calculators Tag_Cleaning Wf_Sink Kube_Util Enrichers
    Point_Converter Source_Manager Pipeline Sink_Manager Endpoint_Encoding Prometheus_Source Telegraf_Source Discovery
    Runtime_Config Events Leadership Kube_Config Summary_Source State_Source Systemd_Source
    Cluster_Sources Stats_Source Agent Process_Env Collector Collector_Process
    Caches Command_Line Test_Sender Metric_Grammar Syntax_Tree Test_Proxy Test_Logs
begin

text \<open>
  \<^bold>\<open>The Wavefront collector for Kubernetes.\<close>

  The collector runs on every node of a cluster. Source providers (\<^verbatim>\<open>plugins/sources\<close>) are scraped
  periodically by the source manager; their batches of metric sets and points are combined at every
  flush, go through a chain of processors (\<^verbatim>\<open>plugins/processors\<close>) and are exported to the sinks
  (\<^verbatim>\<open>plugins/sinks\<close>). Discovery (\<^verbatim>\<open>plugins/discovery\<close>) watches pods, services and runtime rules and adds and
  removes providers; the event router (\<^verbatim>\<open>plugins/events\<close>) forwards cluster events; leader election
  (\<^verbatim>\<open>internal/leadership\<close>) decides which agent scrapes what exists once per cluster.

  \<^bold>\<open>Conventions.\<close> Go structs are records, tagged values are datatypes, maps are association lists with
  distinct keys (\<open>gomap\<close>, \<open>wf_map\<close>) whose order is the iteration order, \<^verbatim>\<open>int64\<close> is a 64-bit word,
  \<^verbatim>\<open>float64\<close> is modelled with rounding to the format, infinities and not-a-number. Times and durations
  are integers (nanoseconds). An operation that can return an error or panic has a sum type; the
  constructor \<open>GoPanic\<close> marks what ends the program. State is passed explicitly: package variables
  such as counters are arguments and results. What is not code of the repository is a parameter: the
  glob compiler, YAML and TOML parsers, the HTTP client and the Prometheus text parser, hash
  functions, sorting by an unstable order, the Kubernetes API and the Telegraf plugins.

  \<^bold>\<open>Theories.\<close>
  \<^item> \<open>Prelude\<close>, \<open>Float64\<close>, \<open>Go_Strings\<close>, \<open>Go_Time\<close>, \<open>Go_Duration\<close>, \<open>Machine\<close>: maps, errors, floating point,
    strings, times, printing and parsing of durations with their round trip, and the interface of
    components with state (\<open>machine\<close>, \<open>det_machine\<close>), from which invariants of all histories follow.
  \<^item> \<open>Metrics_Core\<close>, \<open>Metric_Defs\<close>, \<open>Batch\<close>: \<^verbatim>\<open>internal/metrics\<close> (labels, metric sets, resource keys, the
    catalogue of metrics, batches). Resource keys identify resources.
  \<^item> \<open>Glob_Filter\<close>: \<^verbatim>\<open>internal/filter\<close>. A configured filter decides as its allow and deny lists say;
    tag filters of the command line are parsed as printed.
  \<^item> \<open>Wf_Metric\<close>, \<open>Wf_Histogram\<close>: \<^verbatim>\<open>internal/wf\<close> (points, distributions, their rates and their conversion
    from cumulative to frequency form, filtering).
  \<^item> \<open>Rate_Calculators\<close>, \<open>Aggregators\<close>, \<open>Enrichers\<close>, \<open>Point_Converter\<close>: the processors. Rates, cache
    invariants, totals per namespace, node and cluster, the sets the enrichers keep and create,
    bounds of utilisation, and the accounting of converted points.
  \<^item> \<open>Pipeline\<close>: \<^verbatim>\<open>plugins/manager\<close> and the processor chain of \<^verbatim>\<open>main.go\<close>. The locale \<open>batch_processor\<close> is the
    contract of a processor (it extends a batch); all processors of the program interpret it, and a
    whole flush keeps every pending point in order.
  \<^item> \<open>Source_Manager\<close>: \<^verbatim>\<open>plugins/sources/manager.go\<close> and the interval timer. One scraper per provider in
    every history, no batch lost, bounds of the timer.
  \<^item> \<open>Tag_Cleaning\<close>, \<open>Wf_Sink\<close>, \<open>Sink_Manager\<close>: \<^verbatim>\<open>plugins/sinks\<close>. Which tags survive, the counters of an
    export, the cluster tag, and the pushes of the sink manager as steps over a clock: an export
    returns when its timeout has passed.
  \<^item> \<open>Shared_Export\<close>: the export on shared memory. The sinks get the same points and change their tags in place; when
    this agrees with the export of values, and what a second sink sends.
  \<^item> \<open>Collector\<close>: sources, flushes, the sink manager and the sinks composed. In every history each scraped
    point has been exported by a sink, is pending, waits for it, or was given up in one of two ways.
  \<^item> \<open>Configuration\<close>: \<^verbatim>\<open>internal/configuration\<close>, \<^verbatim>\<open>internal/options\<close> and the loading in \<^verbatim>\<open>main.go\<close>.
  \<^item> \<open>Kube_Util\<close>: \<^verbatim>\<open>internal/util\<close> (node addresses and roles, container states, label copier).
  \<^item> \<open>Endpoint_Encoding\<close>, \<open>Discovery\<close>, \<open>Runtime_Config\<close>: \<^verbatim>\<open>internal/discovery\<close> and \<^verbatim>\<open>plugins/discovery\<close>. Endpoints
    from rules and annotations, their registration with the source manager (the locale
    \<open>endpoint_iface\<close>), rules read at run time, with slices over a store of arrays.
  \<^item> \<open>Prometheus_Source\<close>, \<open>Telegraf_Source\<close>: the sources of those names. Every line of a response is read
    once, and the points are those of a reference definition.
  \<^item> \<open>Kube_Config\<close>, \<open>Summary_Source\<close>: \<^verbatim>\<open>internal/kubernetes\<close> and \<^verbatim>\<open>plugins/sources/summary\<close>. The configuration of
    the clients, the decoding of the kubelet statistics and the metric sets it gives.
  \<^item> \<open>State_Source\<close>: \<^verbatim>\<open>plugins/sources/kstate\<close>. The points of every resource type and their accounting.
  \<^item> \<open>Systemd_Source\<close>: \<^verbatim>\<open>plugins/sources/systemd\<close>. Collectors that run in parallel and share tag maps; the
    result does not depend on the schedule.
  \<^item> \<open>Cluster_Sources\<close>, \<open>Stats_Source\<close>: \<^verbatim>\<open>plugins/sources/cadvisor\<close>, \<^verbatim>\<open>controlplane\<close> and \<^verbatim>\<open>stats\<close>. Which nodes are
    scraped and how, and the accounting of the collector's own metrics.
  \<^item> \<open>Agent\<close>: \<^verbatim>\<open>internal/agent\<close>, the life of the discovery and flush managers, and the creation and reload of
    an agent in \<^verbatim>\<open>main.go\<close>. When a stop returns and what it leaves, and the providers after a reload.
  \<^item> \<open>Process_Env\<close>: the agent type on the command line, the watcher of the configuration file
    (\<^verbatim>\<open>internal/util/watcher.go\<close>), the HTTP client (\<^verbatim>\<open>internal/httputil\<close>) and the heartbeat of the sink. Which
    changes of the file are handled, when a request carries which token, and the tags of a heartbeat.
  \<^item> \<open>Collector_Process\<close>: the start of the process in \<^verbatim>\<open>main.go\<close> and its life, in which changes of the file replace the agent. In
    every history a reload returns or panics, and when it does which.
  \<^item> \<open>Command_Line\<close>: the flags (\<^verbatim>\<open>internal/options\<close>, \<^verbatim>\<open>internal/flags\<close>). Source and sink flags read back what they
    print; without a file and sources the program ends.
  \<^item> \<open>Caches\<close>: the listers of pods, nodes, services and namespaces, the lister of the state source, and the informers of
    config maps and secrets. How many watches a process has, when the lister panics, and the runtime rules after
    any history of both kinds of objects.
  \<^item> \<open>Test_Sender\<close>: the client of a sink in test mode, and the names of aggregations.
  \<^item> \<open>Events\<close>, \<open>Leadership\<close>: event routing and leader election.
  \<^item> \<open>Metric_Grammar\<close>, \<open>Syntax_Tree\<close>, \<open>Test_Proxy\<close>, \<open>Test_Logs\<close>: \<^verbatim>\<open>internal/testproxy\<close> and \<^verbatim>\<open>cmd/test-proxy\<close>, the stand-in for the
    proxy that the integration tests use. The parser of metric lines rule by rule, with UTF-8: every
    loop makes progress and printed lines are read back; the syntax tree holds every token in its place, and positions are
    translated to lines and columns; the comparison of received with expected
    metrics is complete for expectations without patterns; what a history of log requests reports
    (the locale \<open>results_relation\<close> gives what the checks of the tags keep).

  \<^bold>\<open>Fuel and bounds.\<close> No definition uses fuel: recursion is structural or has a measure (the readers of
  the Prometheus text by the lines left, the loops of the line parser by the runes left). The glob compiler, parsers and hash functions are arbitrary
  functions. The limit of 64 KiB of the line scanner is modelled.

  \<^bold>\<open>Limits of the model.\<close> Goroutines are modelled by the order in which their effects happen: the pushes
  of the sink manager and the histories of the source manager, the discoverer and the election are
  arbitrary sequences of steps; data races on shared maps are not modelled. Metrics are values, except in
  \<open>Shared_Export\<close>, \<open>Collector\<close> and the annotations of events, where one sink sees what another one has changed; two
  sinks that export at the same time do so one after the other. Log output is not modelled.

  \<^bold>\<open>Not modelled.\<close> The informers, reflectors and clients of client-go, the transport of HTTP clients and
  the splitting of the command line, which are parameters; files, timers, logging and profiling, which only start or
  time what is modelled; the servers of the test proxy and the test
  doubles, which are not part of the collector.
\<close>

end
